(* ===== verification/Prelude.thy ===== *)
theory Prelude
  imports
    Complex_Main
    "HOL-Library.AList"
    "HOL-Library.Code_Target_Nat"
    "HOL-Library.Char_ord"
    "HOL-Library.List_Lexorder"
    "HOL-Library.Multiset"
    "HOL-Library.Product_Lexorder"
begin

text \<open>
  What the components of the platform share: the Python values they compute with and the
  generic lemmas about them.

  \<^item> Instants are microseconds since the epoch (\<open>datetime\<close>), so that subtracting two aware
    datetimes is integer subtraction and \<open>total_seconds\<close> is an exact rational.
  \<^item> Floats are exact rationals (\<open>pyfloat\<close>). IEEE rounding of single operations is not
    modelled; the explicit \<open>round(x, n)\<close> calls of the code are (\<open>py_round\<close>, half to even).
  \<^item> Text is a \<open>string\<close> over ASCII. \<open>strip\<close>, \<open>lower\<close> and \<open>isdigit\<close> follow Python there.
  \<^item> A dict is an association list in insertion order (\<open>AList.update\<close> keeps the position of
    an existing key and appends a new one, as Python does).
  \<^item> A loop over a sequence that updates local variables is \<open>foldl\<close>; the locale
    \<open>history_fold\<close> is the induction rule all those loops share.
\<close>

named_theorems dict_simps "lookups and keys of insertion-ordered dicts"
named_theorems round_intros "bounds on rounded values"

type_synonym datetime = int
type_synonym pyfloat = rat
type_synonym ('k, 'v) pydict = "('k \<times> 'v) list"

section \<open>Loops with a history invariant\<close>

text \<open>
  Every reconstruction loop of the platform walks a sequence once and carries state. Its
  correctness is a relation between the elements consumed so far and the state.
\<close>

locale history_fold =
  fixes step :: "'s \<Rightarrow> 'e \<Rightarrow> 's"
    and start :: 's
    and adm :: "'e list \<Rightarrow> bool"
    and inv :: "'e list \<Rightarrow> 's \<Rightarrow> bool"
  assumes adm_prefix: "adm (es @ [e]) \<Longrightarrow> adm es"
    and inv_start: "adm [] \<Longrightarrow> inv [] start"
    and inv_step: "adm (es @ [e]) \<Longrightarrow> inv es s \<Longrightarrow> inv (es @ [e]) (step s e)"
begin

lemma fold_inv: "adm es \<Longrightarrow> inv es (foldl step start es)"
proof (induction es rule: rev_induct)
  case Nil
  then show ?case by (simp add: inv_start)
next
  case (snoc e es)
  then show ?case by (simp add: adm_prefix inv_step)
qed

lemma adm_take: "adm es \<Longrightarrow> adm (take n es)"
proof (induction es rule: rev_induct)
  case Nil
  then show ?case by simp
next
  case (snoc e es)
  show ?case
  proof (cases "n \<le> length es")
    case True
    then show ?thesis using snoc by (simp add: adm_prefix)
  next
    case False
    then show ?thesis using snoc.prems by simp
  qed
qed

lemma fold_inv_take: "adm es \<Longrightarrow> inv (take n es) (foldl step start (take n es))"
  by (simp add: adm_take fold_inv)

end

section \<open>Dicts in insertion order\<close>

definition dict_get :: "('k, 'v) pydict \<Rightarrow> 'k \<Rightarrow> 'v \<Rightarrow> 'v" where
  "dict_get d k v = (case map_of d k of None \<Rightarrow> v | Some x \<Rightarrow> x)"

abbreviation dict_keys :: "('k, 'v) pydict \<Rightarrow> 'k list" where
  "dict_keys d \<equiv> map fst d"

abbreviation dict_values :: "('k, 'v) pydict \<Rightarrow> 'v list" where
  "dict_values d \<equiv> map snd d"

text \<open>\<open>d[k] = d.get(k, 0) + 1\<close>, and a dict of such counters over a sequence.\<close>

definition bump :: "('k, nat) pydict \<Rightarrow> 'k \<Rightarrow> ('k, nat) pydict" where
  "bump d k = AList.update k (dict_get d k 0 + 1) d"

definition tally :: "'k list \<Rightarrow> ('k, nat) pydict" where
  "tally xs = foldl bump [] xs"

text \<open>\<open>d.setdefault(k, []).append(x)\<close>, and the grouping loop built on it.\<close>

definition append_at :: "('k, 'v list) pydict \<Rightarrow> 'k \<Rightarrow> 'v \<Rightarrow> ('k, 'v list) pydict" where
  "append_at d k x = AList.update k (dict_get d k [] @ [x]) d"

definition group_on :: "('a \<Rightarrow> 'k) \<Rightarrow> 'a list \<Rightarrow> ('k, 'a list) pydict" where
  "group_on key xs = foldl (\<lambda>d x. append_at d (key x) x) [] xs"

lemma dict_get_update [dict_simps]:
  "dict_get (AList.update k v d) j w = (if j = k then v else dict_get d j w)"
  by (simp add: dict_get_def update_conv')

lemma dict_get_Nil [dict_simps]: "dict_get [] k v = v"
  by (simp add: dict_get_def)

lemma distinct_keys_update [dict_simps]:
  "distinct (map fst d) \<Longrightarrow> distinct (map fst (AList.update k v d))"
  by (rule distinct_update)

lemma dict_keys_update [dict_simps]:
  "set (map fst (AList.update k v d)) = insert k (set (map fst d))"
  by (simp add: update_keys insert_absorb)

lemma dict_get_mem:
  assumes "distinct (map fst d)" and "(k, v) \<in> set d"
  shows "dict_get d k w = v"
  using assms by (simp add: dict_get_def)

lemma mem_dict_get:
  assumes "k \<in> set (map fst d)"
  shows "(k, dict_get d k w) \<in> set d"
proof -
  from assms obtain v where "map_of d k = Some v"
    by (metis domIff not_None_eq dom_map_of_conv_image_fst list.set_map)
  then show ?thesis by (auto simp: dict_get_def dest: map_of_SomeD)
qed

lemma dict_as_map: "distinct (dict_keys d) \<Longrightarrow> map (\<lambda>k. (k, dict_get d k v)) (dict_keys d) = d"
  by (auto simp: comp_def intro!: map_idI dest: dict_get_mem)

lemma count_list_concat: "count_list (concat xss) x = sum_list (map (\<lambda>xs. count_list xs x) xss)"
  by (induction xss) auto

lemma count_list_distinct: "distinct xs \<Longrightarrow> count_list xs x = (if x \<in> set xs then 1 else 0)"
  by (induction xs) auto

lemma sum_if_length: "(\<Sum>x\<leftarrow>xs. if P x then 1 else 0) = length (filter P xs)"
  by (induction xs) auto

interpretation tally_fold: history_fold bump "[]" "\<lambda>_. True"
  "\<lambda>es d. distinct (map fst d) \<and> set (map fst d) = set es \<and>
          (\<forall>k. dict_get d k 0 = count_list es k)"
  by unfold_locales (auto simp: bump_def dict_simps simp del: set_map)

lemma tally_distinct [dict_simps]: "distinct (map fst (tally xs))"
  using tally_fold.fold_inv [of xs] by (simp add: tally_def)

lemma tally_keys [dict_simps]: "set (map fst (tally xs)) = set xs"
  using tally_fold.fold_inv [of xs] by (simp only: tally_def)

lemma tally_get [dict_simps]: "dict_get (tally xs) k 0 = count_list xs k"
  using tally_fold.fold_inv [of xs] by (simp add: tally_def)

text \<open>Appending adds exactly one element to the values, and keeps every other list.\<close>

lemma append_at_values:
  "mset (concat (dict_values (append_at d k x))) = add_mset x (mset (concat (dict_values d)))"
proof -
  have "mset (concat (dict_values (AList.update k (dict_get d k [] @ [x]) d))) =
        add_mset x (mset (concat (dict_values d)))"
    by (induction d) (auto simp: dict_get_def)
  then show ?thesis by (simp add: append_at_def)
qed

lemma append_at_get:
  "dict_get (append_at d k x) j [] = (if j = k then dict_get d k [] @ [x] else dict_get d j [])"
  by (simp add: append_at_def dict_simps)

lemma append_at_keys: "set (dict_keys (append_at d k x)) = insert k (set (dict_keys d))"
  by (simp only: append_at_def dict_simps)

lemma append_at_distinct: "distinct (dict_keys d) \<Longrightarrow> distinct (dict_keys (append_at d k x))"
  by (simp only: append_at_def dict_simps)

interpretation group_fold: history_fold "\<lambda>d x. append_at d (key x) x" "[]" "\<lambda>_. True"
  "\<lambda>es d. distinct (map fst d) \<and> set (map fst d) = key ` set es \<and>
          (\<forall>k. dict_get d k [] = filter (\<lambda>x. key x = k) es)" for key
  by unfold_locales (auto simp: append_at_def dict_simps simp del: set_map)

lemma group_on_distinct [dict_simps]: "distinct (map fst (group_on key xs))"
  using group_fold.fold_inv [where es = xs and key = key] by (simp add: group_on_def)

lemma group_on_keys [dict_simps]: "set (map fst (group_on key xs)) = key ` set xs"
  using group_fold.fold_inv [where es = xs and key = key] by (simp only: group_on_def)

lemma group_on_get [dict_simps]: "dict_get (group_on key xs) k [] = filter (\<lambda>x. key x = k) xs"
  using group_fold.fold_inv [where es = xs and key = key] by (simp add: group_on_def)

lemma group_on_values: "mset (concat (dict_values (group_on key xs))) = mset xs"
proof (induction xs rule: rev_induct)
  case (snoc x xs)
  then show ?case by (simp add: group_on_def append_at_values)
qed (simp add: group_on_def)

lemma mset_columns:
  assumes "\<forall>xs\<in>set xss. length xs \<le> n"
  shows "mset (concat (map (\<lambda>k. map (\<lambda>xs. xs ! k) (filter (\<lambda>xs. k < length xs) xss)) [0..<n]))
    = mset (concat xss)"
  using assms
proof (induction xss)
  case Nil
  show ?case by (induction n) auto
next
  case (Cons xs xss)
  have split: "mset (concat (map (\<lambda>k. (if k < length xs then [xs ! k] else []) @ f k) ks)) =
      mset (concat (map (\<lambda>k. if k < length xs then [xs ! k] else []) ks)) + mset (concat (map f ks))"
    for f and ks :: "nat list"
    by (induction ks) auto
  have "concat (map (\<lambda>k. if k < length xs then [xs ! k] else []) [0..<m]) = take m xs" for m
    by (induction m) (auto simp: take_Suc_conv_app_nth)
  then have col: "concat (map (\<lambda>k. if k < length xs then [xs ! k] else []) [0..<n]) = xs"
    using Cons.prems by simp
  have "map (\<lambda>ys. ys ! k) (filter (\<lambda>ys. k < length ys) (xs # xss)) =
      (if k < length xs then [xs ! k] else []) @ map (\<lambda>ys. ys ! k) (filter (\<lambda>ys. k < length ys) xss)" for k
    by simp
  then show ?case using Cons split col by simp
qed

lemma tally_values: "v \<in> set (dict_values (tally xs)) \<longleftrightarrow> (\<exists>x\<in>set xs. v = count_list xs x)"
proof
  assume "v \<in> set (dict_values (tally xs))"
  then obtain x where m: "(x, v) \<in> set (tally xs)" by auto
  then have "x \<in> set xs" using tally_keys [of xs] by force
  moreover have "v = count_list xs x" using dict_get_mem [OF tally_distinct m, of 0] by (simp add: tally_get)
  ultimately show "\<exists>x\<in>set xs. v = count_list xs x" by blast
next
  assume "\<exists>x\<in>set xs. v = count_list xs x"
  then obtain x where "x \<in> set xs" "v = count_list xs x" by blast
  then show "v \<in> set (dict_values (tally xs))"
    using mem_dict_get [of x "tally xs" 0] tally_keys [of xs] by (force simp: tally_get)
qed

lemma mset_concat_sum: "distinct ks \<Longrightarrow> mset (concat (map f ks)) = (\<Sum>k\<in>set ks. mset (f k))"
  by (induction ks) auto

lemma keyed_values:
  assumes "distinct (dict_keys d)" and "set (dict_keys d) \<subseteq> set ks" and "distinct ks"
  shows "mset (concat (map (\<lambda>k. dict_get d k []) ks)) = mset (concat (dict_values d))"
proof -
  have "mset (concat (map (\<lambda>k. dict_get d k []) ks)) = (\<Sum>k\<in>set ks. mset (dict_get d k []))"
    using assms(3) by (rule mset_concat_sum)
  also have "\<dots> = (\<Sum>k\<in>set (dict_keys d). mset (dict_get d k []))"
  proof (rule sum.mono_neutral_right)
    show "\<forall>k\<in>set ks - set (dict_keys d). mset (dict_get d k []) = {#}"
      by (auto simp: dict_get_def dest: map_of_SomeD split: option.splits) (force dest: map_of_SomeD)
  qed (use assms(2) in auto)
  also have "\<dots> = mset (concat (map (\<lambda>k. dict_get d k []) (dict_keys d)))"
    using mset_concat_sum [OF assms(1), symmetric] .
  also have "map (\<lambda>k. dict_get d k []) (dict_keys d) = dict_values d"
    using dict_as_map [OF assms(1), of "[]"] by (metis (no_types, lifting) list.map_comp map_eq_conv o_apply snd_conv)
  finally show ?thesis .
qed

section \<open>Consecutive pairs\<close>

text \<open>\<open>zip(xs, xs[1:])\<close>, the walk over neighbours every interval computation makes.\<close>

definition pairs :: "'a list \<Rightarrow> ('a \<times> 'a) list" where
  "pairs xs = zip xs (tl xs)"

lemma pairs_simps [simp]:
  "pairs [] = []"
  "pairs [x] = []"
  "pairs (x # y # zs) = (x, y) # pairs (y # zs)"
  by (simp_all add: pairs_def)

lemma length_pairs: "length (pairs xs) = length xs - 1"
  by (simp add: pairs_def)

lemma pairs_telescope:
  fixes f :: "'a \<Rightarrow> 'b::ab_group_add"
  shows "xs \<noteq> [] \<Longrightarrow> (\<Sum>(a, b)\<leftarrow>pairs xs. f b - f a) = f (last xs) - f (hd xs)"
  by (induction xs rule: induct_list012) simp_all

lemma pairs_mem: "(a, b) \<in> set (pairs xs) \<Longrightarrow> a \<in> set xs \<and> b \<in> set xs"
  by (induction xs rule: induct_list012) auto

lemma pairs_sorted: "sorted xs \<Longrightarrow> (a, b) \<in> set (pairs xs) \<Longrightarrow> a \<le> b"
  by (induction xs rule: induct_list012) auto

lemma pairs_strict: "sorted xs \<Longrightarrow> distinct xs \<Longrightarrow> (a, b) \<in> set (pairs xs) \<Longrightarrow> a < b"
  by (induction xs rule: induct_list012) (auto simp: order_less_le)

text \<open>Neighbours of a strictly sorted list have no element between them.\<close>

lemma pairs_adjacent:
  assumes "sorted xs" and "distinct xs" and "(a, b) \<in> set (pairs xs)" and "x \<in> set xs"
  shows "x \<le> a \<or> b \<le> x"
  using assms
proof (induction xs rule: induct_list012)
  case (3 u v zs)
  show ?case
  proof (cases "(a, b) = (u, v)")
    case True
    then show ?thesis using 3 by auto
  next
    case False
    then have ab: "(a, b) \<in> set (pairs (v # zs))" using 3 by auto
    then have "v \<le> a" using pairs_mem [OF ab] 3 by auto
    then show ?thesis using 3 ab by fastforce
  qed
qed simp_all

lemma pairs_take: "set (pairs (take n xs)) \<subseteq> set (pairs xs)"
proof (induction xs arbitrary: n rule: induct_list012)
  case (3 x y zs)
  show ?case
  proof (cases n)
    case 0
    then show ?thesis by simp
  next
    case (Suc m)
    then show ?thesis using "3.IH"(2) [of m] by (cases m) auto
  qed
qed (auto simp: take_Cons' pairs_def)

lemma pairs_nth: "Suc i < length xs \<Longrightarrow> (xs ! i, xs ! Suc i) \<in> set (pairs xs)"
  by (auto simp: pairs_def in_set_conv_nth nth_tl intro!: exI [of _ i])

section \<open>Rounding\<close>

definition round_half_even :: "rat \<Rightarrow> int" where
  "round_half_even x =
     (let f = \<lfloor>x\<rfloor>; d = x - of_int f
      in if d < 1 / 2 then f else if d > 1 / 2 then f + 1 else if even f then f else f + 1)"

definition py_round :: "nat \<Rightarrow> pyfloat \<Rightarrow> pyfloat" where
  "py_round n x = of_int (round_half_even (x * 10 ^ n)) / 10 ^ n"

text \<open>\<open>int(x)\<close> on a float truncates towards zero.\<close>

definition py_int :: "pyfloat \<Rightarrow> int" where
  "py_int x = (if 0 \<le> x then \<lfloor>x\<rfloor> else \<lceil>x\<rceil>)"

definition total_seconds :: "int \<Rightarrow> pyfloat" where
  "total_seconds us = of_int us / 1000000"

lemma round_half_even_bounds: "\<lfloor>x\<rfloor> \<le> round_half_even x \<and> round_half_even x \<le> \<lfloor>x\<rfloor> + 1"
  by (simp add: round_half_even_def Let_def)

lemma round_half_even_of_int [simp]: "round_half_even (of_int k) = k"
  by (simp add: round_half_even_def)

lemma round_half_even_near: "\<bar>of_int (round_half_even x) - x\<bar> \<le> 1 / 2"
proof -
  have "of_int \<lfloor>x\<rfloor> \<le> x" and "x < of_int \<lfloor>x\<rfloor> + 1" using floor_correct [of x] by simp_all
  then show ?thesis by (auto simp: round_half_even_def Let_def abs_if) linarith
qed

lemma round_half_even_mono:
  assumes "x \<le> y"
  shows "round_half_even x \<le> round_half_even y"
proof (cases "\<lfloor>x\<rfloor> = \<lfloor>y\<rfloor>")
  case True
  then show ?thesis using assms by (auto simp: round_half_even_def Let_def)
next
  case False
  then have "\<lfloor>x\<rfloor> + 1 \<le> \<lfloor>y\<rfloor>" using floor_mono [OF assms] by linarith
  then show ?thesis
    using round_half_even_bounds [of x] round_half_even_bounds [of y] by linarith
qed

lemma py_round_mono [round_intros]: "x \<le> y \<Longrightarrow> py_round n x \<le> py_round n y"
  by (simp add: py_round_def divide_right_mono round_half_even_mono)

lemma py_round_of_int [simp]: "py_round n (of_int k) = of_int k"
proof -
  have "(of_int k :: rat) * 10 ^ n = of_int (k * 10 ^ n)" by simp
  then have "round_half_even (of_int k * 10 ^ n) = k * 10 ^ n"
    by (metis round_half_even_of_int)
  then show ?thesis by (simp add: py_round_def)
qed

lemma py_round_numeral [simp]:
  "py_round n 0 = 0" "py_round n 1 = 1" "py_round n (numeral w) = numeral w"
  using py_round_of_int [of n 0] py_round_of_int [of n 1] py_round_of_int [of n "numeral w"]
  by simp_all

lemma py_round_ge_0 [round_intros]: "0 \<le> x \<Longrightarrow> 0 \<le> py_round n x"
  using py_round_mono [of 0 x n] by simp

lemma py_round_le_100 [round_intros]: "x \<le> 100 \<Longrightarrow> py_round n x \<le> 100"
  using py_round_mono [of x 100 n] by simp

lemma py_int_floor: "0 \<le> x \<Longrightarrow> py_int x = \<lfloor>x\<rfloor>"
  by (simp add: py_int_def)

lemma py_int_nonneg: "0 \<le> x \<Longrightarrow> 0 \<le> py_int x"
  by (simp add: py_int_def)

lemma py_int_le: "0 \<le> x \<Longrightarrow> of_int (py_int x) \<le> x"
  by (simp add: py_int_def)

lemma py_int_mono: "x \<le> y \<Longrightarrow> py_int x \<le> py_int y"
proof (cases "0 \<le> x \<or> y < 0")
  case True
  then show "py_int x \<le> py_int y" if "x \<le> y"
    using that by (auto simp: py_int_def floor_mono ceiling_mono)
next
  case False
  then have "\<lceil>x\<rceil> \<le> 0" and "0 \<le> \<lfloor>y\<rfloor>" by (simp_all add: ceiling_le_iff)
  then have "\<lceil>x\<rceil> \<le> \<lfloor>y\<rfloor>" by linarith
  with False show "py_int x \<le> py_int y" if "x \<le> y"
    by (simp add: py_int_def)
qed

lemma total_seconds_mono: "a \<le> b \<Longrightarrow> total_seconds a \<le> total_seconds b"
  by (simp add: total_seconds_def)

lemma total_seconds_diff: "total_seconds (b - a) = total_seconds b - total_seconds a"
  by (simp add: total_seconds_def diff_divide_distrib)

lemma total_seconds_nonneg [simp]: "0 \<le> total_seconds a \<longleftrightarrow> 0 \<le> a"
  by (simp add: total_seconds_def)

section \<open>Text\<close>

definition is_space :: "char \<Rightarrow> bool" where
  "is_space c = (let n = (of_char c :: nat) in (9 \<le> n \<and> n \<le> 13) \<or> (28 \<le> n \<and> n \<le> 32))"

definition py_lstrip :: "(char \<Rightarrow> bool) \<Rightarrow> string \<Rightarrow> string" where
  "py_lstrip p s = dropWhile p s"

definition py_rstrip :: "(char \<Rightarrow> bool) \<Rightarrow> string \<Rightarrow> string" where
  "py_rstrip p s = rev (dropWhile p (rev s))"

definition py_strip :: "string \<Rightarrow> string" where
  "py_strip s = py_rstrip is_space (py_lstrip is_space s)"

definition lower_char :: "char \<Rightarrow> char" where
  "lower_char c = (let n = (of_char c :: nat) in if 65 \<le> n \<and> n \<le> 90 then char_of (n + 32) else c)"

definition py_lower :: "string \<Rightarrow> string" where
  "py_lower s = map lower_char s"

definition is_digit :: "char \<Rightarrow> bool" where
  "is_digit c = (let n = (of_char c :: nat) in 48 \<le> n \<and> n \<le> 57)"

definition digit_value :: "char \<Rightarrow> nat" where
  "digit_value c = of_char c - 48"

definition py_isdigit :: "string \<Rightarrow> bool" where
  "py_isdigit s = (s \<noteq> [] \<and> list_all is_digit s)"

definition digits_value :: "string \<Rightarrow> nat" where
  "digits_value s = foldl (\<lambda>v c. 10 * v + digit_value c) 0 s"

definition contains :: "string \<Rightarrow> string \<Rightarrow> bool" where
  "contains w s = (\<exists>i\<in>set [0..<Suc (length s - length w)]. take (length w) (drop i s) = w)"

lemma contains_iff: "contains w s \<longleftrightarrow> (\<exists>a b. s = a @ w @ b)"
proof
  assume "contains w s"
  then obtain i where i: "take (length w) (drop i s) = w" unfolding contains_def by blast
  then have "drop i s = w @ drop (length w) (drop i s)" by (metis append_take_drop_id)
  then show "\<exists>a b. s = a @ w @ b" by (metis append_take_drop_id)
next
  assume "\<exists>a b. s = a @ w @ b"
  then obtain a b where "s = a @ w @ b" by blast
  then have "take (length w) (drop (length a) s) = w" "length a < Suc (length s - length w)" by simp_all
  then show "contains w s" unfolding contains_def by (metis atLeastLessThan_iff le0 set_upt)
qed

lemma contains_trans: "contains u w \<Longrightarrow> contains w s \<Longrightarrow> contains u s"
  unfolding contains_iff by (metis append.assoc)

text \<open>Evaluation compares at each start once.\<close>

fun starts_with :: "string \<Rightarrow> string \<Rightarrow> bool" where
  "starts_with [] s = True"
| "starts_with (c # w) [] = False"
| "starts_with (c # w) (d # s) = (c = d \<and> starts_with w s)"

lemma starts_with_iff: "starts_with w s \<longleftrightarrow> (\<exists>b. s = w @ b)"
  by (induction w s rule: starts_with.induct) auto

lemma contains_code [code]:
  "contains w [] = (w = [])"
  "contains w (c # s) = (starts_with w (c # s) \<or> contains w s)"
proof -
  show "contains w [] = (w = [])" by (simp add: contains_iff)
  have "(\<exists>a b. c # s = a @ w @ b) \<longleftrightarrow> (\<exists>b. c # s = w @ b) \<or> (\<exists>a b. s = a @ w @ b)"
    by (metis append_Cons append_Nil list.exhaust list.sel(3))
  then show "contains w (c # s) = (starts_with w (c # s) \<or> contains w s)"
    by (simp add: contains_iff starts_with_iff)
qed

text \<open>\<open>str(n)\<close> for a natural number.\<close>

fun nat_str :: "nat \<Rightarrow> string" where
  "nat_str n = (if n < 10 then [char_of (48 + n)] else nat_str (n div 10) @ [char_of (48 + n mod 10)])"

declare nat_str.simps [simp del]

lemma digit_value_char [simp]: "k < 10 \<Longrightarrow> digit_value (char_of (48 + k)) = k"
  by (simp add: digit_value_def of_char_of)

text \<open>Printing a number and reading its digits back is the identity, so printing is injective.\<close>

lemma digits_value_nat_str: "digits_value (nat_str n) = n"
proof (induction n rule: nat_str.induct)
  case (1 n)
  show ?case
  proof (cases "n < 10")
    case True
    then show ?thesis by (subst nat_str.simps) (simp add: digits_value_def)
  next
    case False
    then have "digits_value (nat_str (n div 10)) = n div 10" using 1 by simp
    then show ?thesis using False by (subst nat_str.simps) (simp add: digits_value_def)
  qed
qed

lemma nat_str_inj: "nat_str m = nat_str n \<longleftrightarrow> m = n"
  by (metis digits_value_nat_str)

lemma nat_str_ne [simp]: "nat_str n \<noteq> []"
  by (subst nat_str.simps) simp

lemma nat_str_digits: "\<forall>c\<in>set (nat_str n). is_digit c"
proof (induction n rule: nat_str.induct)
  case (1 n)
  have d: "is_digit (char_of (48 + k))" if "k < 10" for k :: nat
    using that by (simp add: is_digit_def of_char_of)
  show ?case
  proof (cases "n < 10")
    case True
    then show ?thesis using d by (subst nat_str.simps) simp
  next
    case False
    then show ?thesis using 1 d [of "n mod 10"] by (subst nat_str.simps) auto
  qed
qed

lemma dropWhile_stable: "dropWhile p (dropWhile p xs) = dropWhile p xs"
  by (induction xs) auto

lemma py_strip_Nil [simp]: "py_strip [] = []"
  by (simp add: py_strip_def py_rstrip_def py_lstrip_def)

text \<open>Stripping is idempotent and a stripped text neither starts nor ends with a blank.\<close>

lemma py_rstrip_hd:
  assumes "s \<noteq> []" and "\<not> p (hd s)"
  shows "py_rstrip p s \<noteq> [] \<and> hd (py_rstrip p s) = hd s"
proof -
  obtain c t where s: "s = c # t" using assms(1) by (cases s) auto
  have "dropWhile p (rev t @ [c]) = dropWhile p (rev t) @ [c] \<or> dropWhile p (rev t @ [c]) = [c]"
    using assms(2) s by (induction "rev t" arbitrary: t) (auto simp: dropWhile_append)
  then show ?thesis using s assms(2) by (auto simp: py_rstrip_def)
qed

lemma py_lstrip_hd: "py_lstrip p s \<noteq> [] \<Longrightarrow> \<not> p (hd (py_lstrip p s))"
  by (simp add: py_lstrip_def hd_dropWhile)

lemma py_strip_idem: "py_strip (py_strip s) = py_strip s"
proof (cases "py_lstrip is_space s = []")
  case True
  then show ?thesis by (simp add: py_strip_def py_rstrip_def) (simp add: py_lstrip_def)
next
  case False
  let ?t = "py_strip s"
  have "?t \<noteq> [] \<and> \<not> is_space (hd ?t)"
    using py_rstrip_hd [of "py_lstrip is_space s" is_space] py_lstrip_hd [of is_space s] False
    by (simp add: py_strip_def)
  then have l: "py_lstrip is_space ?t = ?t"
    by (cases ?t) (simp_all add: py_lstrip_def)
  have "py_strip ?t = py_rstrip is_space ?t" using l by (simp only: py_strip_def)
  also have "\<dots> = ?t" by (simp add: py_strip_def py_rstrip_def dropWhile_stable)
  finally show ?thesis .
qed

section \<open>Defaults, order-preserving deduplication, slices\<close>

text \<open>\<open>max(xs, default=d)\<close> and \<open>min(xs, default=d)\<close>.\<close>

fun max_default :: "'a::linorder \<Rightarrow> 'a list \<Rightarrow> 'a" where
  "max_default d [] = d"
| "max_default d (x # xs) = fold max xs x"

fun min_default :: "'a::linorder \<Rightarrow> 'a list \<Rightarrow> 'a" where
  "min_default d [] = d"
| "min_default d (x # xs) = fold min xs x"

lemma max_default_Max: "xs \<noteq> [] \<Longrightarrow> max_default d xs = Max (set xs)"
  by (cases xs) (simp_all only: max_default.simps Max.set_eq_fold)

lemma min_default_Min: "xs \<noteq> [] \<Longrightarrow> min_default d xs = Min (set xs)"
  by (cases xs) (simp_all only: min_default.simps Min.set_eq_fold)

lemma max_default_ge: "x \<in> set xs \<Longrightarrow> x \<le> max_default d xs"
  by (metis List.finite_set Max_ge empty_iff empty_set max_default_Max)

lemma max_default_in: "xs \<noteq> [] \<Longrightarrow> max_default d xs \<in> set xs"
  by (simp add: max_default_Max)

lemma min_default_le: "x \<in> set xs \<Longrightarrow> min_default d xs \<le> x"
  by (metis List.finite_set Min_le empty_iff empty_set min_default_Min)

lemma min_default_in: "xs \<noteq> [] \<Longrightarrow> min_default d xs \<in> set xs"
  by (simp add: min_default_Min)

text \<open>Deduplication that keeps the first occurrence, \<open>dict.fromkeys(xs)\<close>.\<close>

definition py_unique :: "'a list \<Rightarrow> 'a list" where
  "py_unique xs = foldl (\<lambda>seen x. if x \<in> set seen then seen else seen @ [x]) [] xs"

interpretation unique_fold: history_fold
  "\<lambda>seen x. if x \<in> set seen then seen else seen @ [x]" "[]" "\<lambda>_. True"
  "\<lambda>es seen. distinct seen \<and> set seen = set es"
  by unfold_locales auto

lemma py_unique_set [simp]: "set (py_unique xs) = set xs"
  using unique_fold.fold_inv [of xs] by (simp add: py_unique_def)

lemma py_unique_distinct [simp]: "distinct (py_unique xs)"
  using unique_fold.fold_inv [of xs] by (simp add: py_unique_def)

text \<open>The slice \<open>xs[:n]\<close>, with Python's reading of a negative bound.\<close>

definition slice_to :: "'a list \<Rightarrow> int \<Rightarrow> 'a list" where
  "slice_to xs n = (if 0 \<le> n then take (nat n) xs else take (length xs - nat (- n)) xs)"

definition slice_from :: "'a list \<Rightarrow> int \<Rightarrow> 'a list" where
  "slice_from xs n = (if 0 \<le> n then drop (nat n) xs else drop (length xs - nat (- n)) xs)"

lemma slice_append: "slice_to xs n @ slice_from xs n = xs"
  by (simp add: slice_to_def slice_from_def)

text \<open>\<open>"sep".join(parts)\<close>\<close>

fun py_join :: "string \<Rightarrow> string list \<Rightarrow> string" where
  "py_join sep [] = []"
| "py_join sep [x] = x"
| "py_join sep (x # y # zs) = x @ sep @ py_join sep (y # zs)"

lemma py_join_Cons: "xs \<noteq> [] \<Longrightarrow> py_join sep (x # xs) = x @ sep @ py_join sep xs"
  by (cases xs) simp_all

lemma append_sep_cancel:
  assumes "c \<notin> set a" and "c \<notin> set b" and "a @ c # u = b @ c # v"
  shows "a = b \<and> u = v"
proof -
  have "takeWhile (\<lambda>d. d \<noteq> c) (a @ c # u) = a" "takeWhile (\<lambda>d. d \<noteq> c) (b @ c # v) = b"
    using assms(1,2) by (subst takeWhile_append2; auto)+
  then show ?thesis using assms(3) by (metis append_same_eq list.inject same_append_eq)
qed

text \<open>Joining with a separator that occurs in no part is injective on non-empty lists.\<close>

lemma py_join_inj_ne:
  "xs \<noteq> [] \<Longrightarrow> ys \<noteq> [] \<Longrightarrow> \<forall>x\<in>set xs \<union> set ys. c \<notin> set x \<Longrightarrow> py_join [c] xs = py_join [c] ys \<Longrightarrow> xs = ys"
proof (induction xs arbitrary: ys)
  case (Cons x xs)
  obtain u us where ys: "ys = u # us" using Cons.prems(2) by (meson list.exhaust)
  have c: "c \<notin> set x" "c \<notin> set u" using Cons.prems(3) ys by auto
  consider "xs = []" "us = []" | "xs = []" "us \<noteq> []" | "xs \<noteq> []" "us = []"
    | "xs \<noteq> []" "us \<noteq> []" by blast
  then show ?case
  proof cases
    case 1
    then show ?thesis using Cons.prems(4) ys by simp
  next
    case 2
    then have "x = u @ c # py_join [c] us" using Cons.prems(4) ys by (simp add: py_join_Cons)
    then show ?thesis using c by simp
  next
    case 3
    then have "u = x @ c # py_join [c] xs" using Cons.prems(4) ys by (simp add: py_join_Cons)
    then show ?thesis using c by simp
  next
    case 4
    then have "x @ c # py_join [c] xs = u @ c # py_join [c] us"
      using Cons.prems(4) ys by (simp add: py_join_Cons)
    then have "x = u \<and> py_join [c] xs = py_join [c] us" using append_sep_cancel [OF c] by simp
    moreover have "\<forall>x\<in>set xs \<union> set us. c \<notin> set x" using Cons.prems(3) ys by simp
    ultimately show ?thesis using Cons.IH [of us] 4 ys by blast
  qed
qed simp

section \<open>Exceptions as values\<close>

text \<open>A call that may raise returns \<open>Inl\<close> of the exception; the rest of the body is bound to it.\<close>

fun bind_err :: "'e + 'a \<Rightarrow> ('a \<Rightarrow> 'e + 'b) \<Rightarrow> 'e + 'b" where
  "bind_err (Inl e) f = Inl e"
| "bind_err (Inr x) f = f x"

fun traverse :: "('a \<Rightarrow> 'e + 'b) \<Rightarrow> 'a list \<Rightarrow> 'e + 'b list" where
  "traverse f [] = Inr []"
| "traverse f (x # xs) =
     bind_err (f x) (\<lambda>y. bind_err (traverse f xs) (\<lambda>ys. Inr (y # ys)))"

lemma bind_err_Inr: "bind_err m f = Inr y \<longleftrightarrow> (\<exists>x. m = Inr x \<and> f x = Inr y)"
  by (cases m) auto

lemma traverse_length: "traverse f xs = Inr ys \<Longrightarrow> length ys = length xs"
  by (induction xs arbitrary: ys) (auto simp: bind_err_Inr)

lemma traverse_nth: "traverse f xs = Inr ys \<Longrightarrow> i < length xs \<Longrightarrow> f (xs ! i) = Inr (ys ! i)"
proof (induction xs arbitrary: ys i)
  case (Cons x xs)
  then show ?case by (cases i) (auto simp: bind_err_Inr)
qed simp

lemma traverse_append:
  "traverse f (xs @ ys) =
     bind_err (traverse f xs) (\<lambda>us. bind_err (traverse f ys) (\<lambda>vs. Inr (us @ vs)))"
proof (induction xs)
  case Nil
  show ?case by (cases "traverse f ys") simp_all
next
  case (Cons x xs)
  then show ?case
    by (cases "f x"; cases "traverse f xs"; cases "traverse f ys") simp_all
qed

lemma traverse_Inl: "x \<in> set xs \<Longrightarrow> f x = Inl e \<Longrightarrow> \<exists>e'. traverse f xs = Inl e'"
proof (induction xs)
  case (Cons y ys)
  then show ?case by (cases "f y"; cases "traverse f ys") auto
qed simp

end
