(* ===== verification/Enums.thy ===== *)
theory Enums
  imports Prelude
begin

text \<open>
  The persisted enumerations of \<open>backend/app/models/enums.py\<close> that the modelled components
  compute with, constructor for constructor, and the predicates defined on them there.
  Several enumerations share member names; the constructors are then qualified by their type,
  e.g. \<open>file_status.PARTIAL\<close> and \<open>frame_status.PARTIAL\<close>.
\<close>

datatype file_status =
    DISCOVERED | REGISTERED | LANDING | PROFILING | SCHEMA_VALIDATION | QUALITY_VALIDATION
  | READY_FOR_NORMALIZATION | FRAME_RECONSTRUCTION | FRAMES_RECONSTRUCTED | NORMALIZING
  | NORMALIZED | NORMALIZED_WITH_WARNINGS | COMPLETED | PARTIAL | DUPLICATE | QUARANTINED
  | FAILED

datatype ingestion_run_status =
    STARTED | DISCOVERING | PROCESSING | RECONCILING | COMPLETED | COMPLETED_WITH_WARNINGS
  | FAILED

datatype schema_compatibility =
    EXACT_MATCH | COMPATIBLE_ADDITION | COMPATIBLE_MISSING_OPTIONAL
  | INCOMPATIBLE_MISSING_REQUIRED | INCOMPATIBLE_TYPE_CHANGE | UNKNOWN_SCHEMA

datatype quality_severity =
    INFO | WARNING | ERROR | CRITICAL

datatype quality_issue_type =
    MISSING_REQUIRED_FIELD | DUPLICATE_HEADER | INVALID_TIMESTAMP | EXACT_DUPLICATE
  | LOGICAL_KEY_COLLISION | UNKNOWN_FIELD | MISSING_FIELD | ALL_NULL_FIELD | SENTINEL_VALUE
  | OUT_OF_RANGE | UNEXPECTED_CONNECTOR_CARDINALITY | UNEXPECTED_SMR_CARDINALITY | TELEMETRY_GAP
  | SCHEMA_MISMATCH | INVALID_TYPE | UNKNOWN_ENUM_VALUE | MISSING_CHARGER_DATA | LATE_FILE
  | PARTIAL_DAY | SEVERELY_INCOMPLETE_DAY | ABNORMAL_SAMPLING_INTERVAL
  | MISSING_EXPECTED_CONNECTOR | MISSING_EXPECTED_SMR | MULTIPLE_FILES_SAME_CHARGER_DAY
  | OVERLAPPING_FILE_COVERAGE | EVENT_DATE_FILENAME_MISMATCH | FRAME_INCOMPLETE
  | FRAME_OVERCOMPLETE | FRAME_MISSING_POSITION | FRAME_UNEXPECTED_POSITION
  | AMBIGUOUS_FRAME_BOUNDARY | FULL_FRAME_REPLAY | PARTIAL_FRAME_REPLAY
  | SAME_TIMESTAMP_DISTINCT_FRAME | INCONSISTENT_TOPOLOGY | ENTITY_ID_MISSING
  | UNASSIGNED_RAW_ROW | TYPE_CONVERSION_FAILED | SENTINEL_MASKED | REPEATED_FIELD_CONFLICT
  | CONNECTOR_FIELD_CONFLICT | MISSING_COMPONENT_ID | UNROUTABLE_FIELD | NORMALIZATION_FAILED

datatype quality_rule_scope =
    FILE | FIELD | ROW | CHARGER_DAY | TIMESTAMP | FRAME | ENTITY

datatype canonical_data_type =
    STRING | INTEGER | FLOAT | BOOLEAN | ENUM | DATETIME | DURATION | IDENTIFIER | UNKNOWN

datatype variability_class =
    ALL_NULL_IN_SAMPLE | CONSTANT_IN_SAMPLE | VARIABLE_IN_SAMPLE

datatype arrival_status =
    EXPECTED | RECEIVED | LATE | MISSING | UNEXPECTED

datatype completeness_status =
    COMPLETE | PARTIAL | SEVERELY_INCOMPLETE | NO_DATA | UNKNOWN

datatype gap_severity =
    MINOR | MODERATE | MAJOR | CRITICAL

datatype file_date_span =
    SINGLE_DAY | CROSS_MIDNIGHT | MULTI_DAY | UNKNOWN

datatype upload_batch_status =
    CREATED | UPLOADING | REGISTERED | PROCESSING | COMPLETED | COMPLETED_WITH_WARNINGS | FAILED

datatype upload_file_status =
    PENDING | REGISTERED | DUPLICATE | REJECTED | FAILED

datatype frame_status =
    COMPLETE | PARTIAL | SEVERELY_INCOMPLETE | MALFORMED | AMBIGUOUS

datatype duplicate_classification =
    UNIQUE | EXACT_ROW_DUPLICATE | FULL_FRAME_REPLAY | PARTIAL_FRAME_REPLAY
  | SAME_TIMESTAMP_DISTINCT_FRAME | AMBIGUOUS

datatype session_state =
    IDLE | PLUGGED | PREPARING | AUTHORIZED | CHARGING | SUSPENDED | FINISHING | COMPLETED
  | FAULTED | UNKNOWN

datatype event_confidence =
    HIGH | MEDIUM | LOW

datatype event_quality_flag =
    EVENT_HAS_GAP | SESSION_ID_MISSING | SESSION_BOUNDARY_INFERRED | SESSION_ENERGY_MISMATCH
  | SESSION_DURATION_MISMATCH | ALARM_OPEN_ENDED | UNKNOWN_EVENT_STATE
  | OUT_OF_ORDER_DATA_CORRECTED | CONFIG_CHANGE_WITHOUT_PREVIOUS_SNAPSHOT

datatype alarm_severity =
    CRITICAL | MAJOR | MINOR | WARNING | INFO

datatype termination_class =
    NORMAL | USER_STOPPED | REMOTE_STOPPED | FAULT_STOPPED | EMERGENCY_STOPPED
  | COMMUNICATION_LOST | INCOMPLETE | UNKNOWN

text \<open>\<open>IngestionRunStatus.is_terminal\<close>\<close>

definition run_is_terminal :: "ingestion_run_status \<Rightarrow> bool" where
  "run_is_terminal s =
     (s \<in> {ingestion_run_status.COMPLETED, ingestion_run_status.COMPLETED_WITH_WARNINGS,
            ingestion_run_status.FAILED})"

text \<open>\<open>SchemaCompatibility.is_compatible\<close>\<close>

definition is_compatible :: "schema_compatibility \<Rightarrow> bool" where
  "is_compatible s =
     (s \<in> {EXACT_MATCH, COMPATIBLE_ADDITION, COMPATIBLE_MISSING_OPTIONAL})"

text \<open>\<open>CanonicalDataType.is_numeric\<close>\<close>

definition type_is_numeric :: "canonical_data_type \<Rightarrow> bool" where
  "type_is_numeric t = (t \<in> {INTEGER, FLOAT})"

text \<open>\<open>UploadBatchStatus.is_terminal\<close>\<close>

definition batch_is_terminal :: "upload_batch_status \<Rightarrow> bool" where
  "batch_is_terminal s =
     (s \<in> {upload_batch_status.COMPLETED, upload_batch_status.COMPLETED_WITH_WARNINGS,
            upload_batch_status.FAILED})"

end
