(* ===== verification/Headers.thy ===== *)
theory Headers
  imports Enums
begin

text \<open>
  Raw CSV headers, \<open>pipelines/profiling/header_parser.py\<close>: the mechanical canonical name of a
  column, and the identity of every source position of a header row.

  Names are ASCII, so stripping a byte-order mark does nothing. The wording of a review reason
  is left out, its two kinds and their values are kept. \<open>digest\<close> is \<open>hashlib.sha256\<close>. Reading
  the header line from a file is not modelled.
\<close>

section \<open>Canonical names\<close>

definition is_upper :: "char \<Rightarrow> bool" where
  "is_upper c = (let n = (of_char c :: nat) in 65 \<le> n \<and> n \<le> 90)"

definition is_lower :: "char \<Rightarrow> bool" where
  "is_lower c = (let n = (of_char c :: nat) in 97 \<le> n \<and> n \<le> 122)"

definition is_alnum :: "char \<Rightarrow> bool" where
  "is_alnum c = (is_digit c \<or> is_upper c \<or> is_lower c)"

text \<open>\<open>_CAMEL_BOUNDARY\<close>, \<open>_ACRONYM_BOUNDARY\<close>: an underscore between the two characters.\<close>

fun split_camel :: "string \<Rightarrow> string" where
  "split_camel [] = []"
| "split_camel [c] = [c]"
| "split_camel (c # d # s) =
     (if (is_lower c \<or> is_digit c) \<and> is_upper d then c # CHR ''_'' # split_camel (d # s)
      else c # split_camel (d # s))"

fun split_acronym :: "string \<Rightarrow> string" where
  "split_acronym [] = []"
| "split_acronym [c] = [c]"
| "split_acronym [c, d] = [c, d]"
| "split_acronym (c # d # e # s) =
     (if is_upper c \<and> is_upper d \<and> is_lower e then c # CHR ''_'' # split_acronym (d # e # s)
      else c # split_acronym (d # e # s))"

text \<open>\<open>_NON_ALNUM\<close> and \<open>_MULTI_UNDERSCORE\<close>: one underscore for every maximal run.\<close>

fun squash :: "(char \<Rightarrow> bool) \<Rightarrow> bool \<Rightarrow> string \<Rightarrow> string" where
  "squash p in_run [] = []"
| "squash p in_run (c # s) =
     (if p c then (if in_run then squash p True s else CHR ''_'' # squash p True s)
      else c # squash p False s)"

definition py_strip_chars :: "(char \<Rightarrow> bool) \<Rightarrow> string \<Rightarrow> string" where
  "py_strip_chars p s = py_rstrip p (py_lstrip p s)"

definition unnamed :: "nat \<Rightarrow> string" where
  "unnamed position = ''unnamed_field_'' @ nat_str position"

definition canonicalise :: "string \<Rightarrow> nat \<Rightarrow> string" where
  "canonicalise source_name position =
     (let stripped = py_strip source_name
      in if stripped = [] then unnamed position
         else let spread = squash (\<lambda>c. \<not> is_alnum c) False (split_acronym (split_camel stripped));
                  flat = py_lower (py_strip_chars (\<lambda>c. c = CHR ''_'') (squash (\<lambda>c. c = CHR ''_'') False spread))
              in if flat = [] then unnamed position
                 else if is_digit (hd flat) then ''f_'' @ flat
                 else flat)"

section \<open>The header row\<close>

datatype review_reason =
    RepeatedName string nat
  | CanonicalCollision string

record raw_header_field =
  hf_position :: nat
  hf_source_name :: string
  hf_source_occurrence :: nat
  hf_canonical_name :: string
  is_duplicate_name :: bool
  requires_review :: bool
  review_reason_of :: "review_reason option"

definition identity :: "raw_header_field \<Rightarrow> string \<times> nat" where
  "identity f = (hf_source_name f, hf_source_occurrence f)"

record header_result =
  field_count :: nat
  fields_of :: "raw_header_field list"
  header_fingerprint :: string
  duplicate_names :: "(string, nat) pydict"
  empty_name_count :: nat
  has_bom :: bool
  header_encoding :: string

definition duplicate_header_count :: "header_result \<Rightarrow> nat" where
  "duplicate_header_count h = length (duplicate_names h)"

definition duplicated_position_count :: "header_result \<Rightarrow> nat" where
  "duplicated_position_count h = sum_list (dict_values (duplicate_names h))"

definition source_names :: "header_result \<Rightarrow> string list" where
  "source_names h = map hf_source_name (fields_of h)"

definition canonical_names :: "header_result \<Rightarrow> string list" where
  "canonical_names h = map hf_canonical_name (fields_of h)"

definition by_identity :: "header_result \<Rightarrow> string \<Rightarrow> nat \<Rightarrow> raw_header_field option" where
  "by_identity h name occurrence =
     find (\<lambda>f. hf_source_name f = name \<and> hf_source_occurrence f = occurrence) (fields_of h)"

definition review_required_fields :: "header_result \<Rightarrow> raw_header_field list" where
  "review_required_fields h = filter requires_review (fields_of h)"

definition FINGERPRINT_SEPARATOR :: string where
  "FINGERPRINT_SEPARATOR = [CHR 0x1F]"

definition compute_fingerprint :: "(string \<Rightarrow> string) \<Rightarrow> string list \<Rightarrow> string" where
  "compute_fingerprint digest names = digest (py_join FINGERPRINT_SEPARATOR names)"

text \<open>
  The search for a free suffix, \<open>while f"{canonical}_{suffix}" in used_canonical\<close>. Only finitely
  many names are used and different suffixes give different names, so it ends.
\<close>

definition suffixed :: "string \<Rightarrow> nat \<Rightarrow> string" where
  "suffixed name k = name @ ''_'' @ nat_str k"

lemma suffixed_inj: "suffixed name j = suffixed name k \<longleftrightarrow> j = k"
  by (simp add: suffixed_def nat_str_inj)

lemma finite_suffixes: "finite {k. suffixed name k \<in> set used}"
  by (rule finite_imageD [of "suffixed name"], rule finite_subset [of _ "set used"])
    (auto intro: inj_onI simp: suffixed_inj)

function free_suffix :: "string list \<Rightarrow> string \<Rightarrow> nat \<Rightarrow> nat" where
  "free_suffix used name suffix =
     (if suffixed name suffix \<in> set used then free_suffix used name (suffix + 1) else suffix)"
  by pat_completeness auto
termination
proof (relation "measure (\<lambda>(used, name, k). card {j. k \<le> j \<and> suffixed name j \<in> set used})")
  fix used name and k :: nat
  let ?later = "{j. k + 1 \<le> j \<and> suffixed name j \<in> set used}"
  let ?now = "{j. k \<le> j \<and> suffixed name j \<in> set used}"
  assume "suffixed name k \<in> set used"
  then have "k \<in> ?now" and "k \<notin> ?later" and "?later \<subseteq> ?now" by auto
  then have "?later \<subset> ?now" by blast
  moreover have "finite ?now"
    using finite_suffixes by (rule rev_finite_subset) auto
  ultimately show "((used, name, k + 1), used, name, k) \<in> measure (\<lambda>(used, name, k). card {j. k \<le> j \<and> suffixed name j \<in> set used})"
    by (simp add: psubset_card_mono)
qed simp

declare free_suffix.simps [simp del]

record header_state =
  seen :: "(string, nat) pydict"
  used_canonical :: "string list"
  built :: "raw_header_field list"

text \<open>One iteration of the loop over the cleaned names.\<close>

definition header_step :: "(string, nat) pydict \<Rightarrow> header_state \<Rightarrow> nat \<times> string \<Rightarrow> header_state" where
  "header_step name_totals s = (\<lambda>(position, source_name).
     (let seen' = bump (seen s) source_name;
          occurrence = dict_get seen' source_name 0;
          is_duplicate = (dict_get name_totals source_name 0 > 1);
          base = canonicalise source_name position;
          repeated = (is_duplicate \<and> occurrence > 1);
          canonical = (if repeated then base @ ''_occurrence_'' @ nat_str occurrence else base);
          collides = (canonical \<in> set (used_canonical s));
          name = (if collides then suffixed canonical (free_suffix (used_canonical s) canonical 2) else canonical);
          reason = (if collides then Some (CanonicalCollision canonical)
                    else if repeated then Some (RepeatedName source_name (dict_get name_totals source_name 0))
                    else None)
      in \<lparr>seen = seen', used_canonical = name # used_canonical s,
          built = built s @ [\<lparr>hf_position = position, hf_source_name = source_name,
            hf_source_occurrence = occurrence, hf_canonical_name = name,
            is_duplicate_name = is_duplicate, requires_review = (repeated \<or> collides),
            review_reason_of = reason\<rparr>]\<rparr>))"

definition header_start :: header_state where
  "header_start = \<lparr>seen = [], used_canonical = [], built = []\<rparr>"

datatype header_error = EmptyHeader

definition clean_names :: "string list \<Rightarrow> string list" where
  "clean_names header_row = map py_strip header_row"

definition parse_header_text ::
    "(string \<Rightarrow> string) \<Rightarrow> string list \<Rightarrow> string \<Rightarrow> bool \<Rightarrow> header_error + header_result" where
  "parse_header_text digest header_row encoding bom =
     (if header_row = [] then Inl EmptyHeader
      else let cleaned = clean_names header_row;
               totals = tally cleaned;
               final = foldl (header_step totals) header_start (enumerate 0 cleaned)
           in Inr \<lparr>field_count = length (built final), fields_of = built final,
                header_fingerprint = compute_fingerprint digest cleaned,
                duplicate_names = filter (\<lambda>(name, n). n > 1) totals,
                empty_name_count = length (filter (\<lambda>name. name = []) cleaned),
                has_bom = bom, header_encoding = encoding\<rparr>)"

section \<open>The free suffix\<close>

lemma free_suffix_free:
  "k \<le> free_suffix used name k \<and> suffixed name (free_suffix used name k) \<notin> set used \<and>
   (\<forall>j. k \<le> j \<and> j < free_suffix used name k \<longrightarrow> suffixed name j \<in> set used)"
proof (induction used name k rule: free_suffix.induct)
  case (1 used name k)
  show ?case
  proof (cases "suffixed name k \<in> set used")
    case True
    then show ?thesis
      using 1 free_suffix.simps [of used name k] by (auto simp: Suc_le_eq) (metis not_less_eq order.order_iff_strict)
  next
    case False
    then have "free_suffix used name k = k" by (simp add: free_suffix.simps)
    then show ?thesis using False by auto
  qed
qed

text \<open>
  The search for a free suffix ends after at most as many rounds as there are names in use,
  and returns the smallest suffix from its start on that is free.
\<close>

theorem free_suffix_ends:
  "free_suffix used name k \<le> k + card (set used) \<and> k \<le> free_suffix used name k \<and>
   suffixed name (free_suffix used name k) \<notin> set used \<and>
   (\<forall>j\<in>{k..<free_suffix used name k}. suffixed name j \<in> set used)"
proof -
  let ?r = "free_suffix used name k"
  have "suffixed name ` {k..<?r} \<subseteq> set used" using free_suffix_free [of k used name] by auto
  then have "card (suffixed name ` {k..<?r}) \<le> card (set used)" by (intro card_mono) simp_all
  moreover have "card (suffixed name ` {k..<?r}) = ?r - k"
    by (subst card_image) (auto intro: inj_onI simp: suffixed_inj)
  ultimately show ?thesis using free_suffix_free [of k used name] by auto
qed

section \<open>Identifiers\<close>

definition identifier_char :: "char \<Rightarrow> bool" where
  "identifier_char c = (is_lower c \<or> is_digit c \<or> c = CHR ''_'')"

definition is_identifier :: "string \<Rightarrow> bool" where
  "is_identifier s = (s \<noteq> [] \<and> list_all identifier_char s \<and> \<not> is_digit (hd s))"

lemma identifier_append: "is_identifier s \<Longrightarrow> list_all identifier_char t \<Longrightarrow> is_identifier (s @ t)"
  by (simp add: is_identifier_def)

lemma identifier_nat_str: "list_all identifier_char (nat_str n)"
  using nat_str_digits [of n] by (simp add: list_all_iff identifier_char_def)

lemma identifier_texts:
  "list_all identifier_char ''_''" "list_all identifier_char ''_occurrence_''" "is_identifier ''unnamed_field_''"
  "list_all identifier_char ''f_''" "\<not> is_digit (CHR ''f'')"
  by code_simp+

lemma squash_chars: "c \<in> set (squash p b s) \<Longrightarrow> c = CHR ''_'' \<or> (\<not> p c \<and> c \<in> set s)"
  by (induction s arbitrary: b) (auto split: if_splits)

lemma lower_identifier: "is_alnum c \<or> c = CHR ''_'' \<Longrightarrow> identifier_char (lower_char c)"
  by (auto simp: is_alnum_def identifier_char_def lower_char_def is_lower_def is_upper_def is_digit_def
      Let_def of_char_of)

lemma strip_chars_subset: "set (py_strip_chars p s) \<subseteq> set s"
  using set_dropWhileD [of _ p "rev (dropWhile p s)"] set_dropWhileD [of _ p s]
  by (fastforce simp: py_strip_chars_def py_rstrip_def py_lstrip_def)

lemma flat_chars:
  "list_all identifier_char (py_lower (py_strip_chars q (squash r b (squash (\<lambda>c. \<not> is_alnum c) b' s))))"
proof -
  have "is_alnum c \<or> c = CHR ''_''"
    if "c \<in> set (py_strip_chars q (squash r b (squash (\<lambda>c. \<not> is_alnum c) b' s)))" for c
    using that strip_chars_subset squash_chars [of c r b] squash_chars [of c "\<lambda>c. \<not> is_alnum c" b' s] by blast
  then show ?thesis by (auto simp: list_all_iff py_lower_def intro: lower_identifier)
qed

lemma canonicalise_identifier: "is_identifier (canonicalise name position)"
proof -
  have u: "is_identifier (unnamed position)"
    by (simp only: unnamed_def identifier_append identifier_texts identifier_nat_str)
  then show ?thesis
    unfolding canonicalise_def Let_def using identifier_texts(4,5) flat_chars by (simp add: is_identifier_def)
qed

section \<open>The header loop\<close>

lemma header_name:
  assumes "header_step totals s (position, source) = s'" and "set (used_canonical s) = set (map hf_canonical_name (built s))"
  shows "\<exists>f. built s' = built s @ [f] \<and> used_canonical s' = hf_canonical_name f # used_canonical s \<and>
    hf_canonical_name f \<notin> set (used_canonical s) \<and> is_identifier (hf_canonical_name f) \<and>
    hf_position f = position \<and> hf_source_name f = source \<and>
    hf_source_occurrence f = dict_get (seen s) source 0 + 1 \<and> seen s' = bump (seen s) source \<and>
    is_duplicate_name f = (1 < dict_get totals source 0)"
proof -
  have occ: "dict_get (bump (seen s) source) source 0 = dict_get (seen s) source 0 + 1"
    by (simp add: bump_def dict_simps)
  have free: "suffixed n (free_suffix u n 2) \<notin> set u" for n u using free_suffix_free by blast
  have b: "is_identifier (canonicalise source position)" by (rule canonicalise_identifier)
  have o: "is_identifier (canonicalise source position @ ''_occurrence_'' @ nat_str k)" for k
    using b identifier_texts(2) identifier_nat_str [of k] by (intro identifier_append) (simp_all only: list_all_append)
  have x: "is_identifier (suffixed n k)" if "is_identifier n" for n k
    unfolding suffixed_def using that identifier_texts(1) identifier_nat_str [of k]
    by (intro identifier_append) (simp_all only: list_all_append)
  show ?thesis
    using assms(1) [symmetric] free b o x
    by (simp add: header_step_def Let_def occ del: append_assoc)
qed

interpretation header_loop: history_fold "header_step totals" header_start "\<lambda>_. True"
  "\<lambda>es s. set (used_canonical s) = set (map hf_canonical_name (built s)) \<and>
     distinct (map hf_canonical_name (built s)) \<and> list_all is_identifier (map hf_canonical_name (built s)) \<and>
     map (\<lambda>f. (hf_position f, hf_source_name f)) (built s) = es \<and>
     (\<forall>k. dict_get (seen s) k 0 = count_list (map snd es) k) \<and>
     (\<forall>i<length es. hf_source_occurrence (built s ! i) = count_list (map snd (take (Suc i) es)) (snd (es ! i)))"
  for totals
proof (unfold_locales, goal_cases)
  case (3 es e s)
  obtain position source where e: "e = (position, source)" by (cases e)
  obtain f where f: "built (header_step totals s e) = built s @ [f]"
    "used_canonical (header_step totals s e) = hf_canonical_name f # used_canonical s"
    "hf_canonical_name f \<notin> set (used_canonical s)" "is_identifier (hf_canonical_name f)"
    "hf_position f = position" "hf_source_name f = source"
    "hf_source_occurrence f = dict_get (seen s) source 0 + 1" "seen (header_step totals s e) = bump (seen s) source"
    using header_name [OF refl, of s totals position source] 3 e by auto
  have len: "length (built s) = length es" using 3(2) by (metis length_map)
  show ?case
    using 3 f e len by (auto simp: nth_append bump_def dict_simps less_Suc_eq)
qed (simp_all add: header_start_def dict_simps)


section \<open>The parse result\<close>

lemma parse_header_fields:
  assumes "parse_header_text digest row encoding bom = Inr h"
  shows "row \<noteq> []" and "header_fingerprint h = compute_fingerprint digest (clean_names row)"
    and "fields_of h = built (foldl (header_step (tally (clean_names row))) header_start (enumerate 0 (clean_names row)))"
    and "field_count h = length (fields_of h)"
    and "duplicate_names h = filter (\<lambda>(name, n). n > 1) (tally (clean_names row))"
  using assms by (auto simp: parse_header_text_def Let_def split: if_splits)

lemma map_snd_enumerate [simp]: "map snd (enumerate n xs) = xs"
  by (induction xs arbitrary: n) simp_all

text \<open>
  C20: Every source position of a header gets a canonical name of its own, and each of these names
  is a lower-case identifier that does not start with a digit, whatever the raw header holds:
  blanks, repeated names, names that only differ in punctuation.
\<close>

theorem canonical_names_unique:
  assumes "parse_header_text digest row encoding bom = Inr h"
  shows "length (canonical_names h) = length row \<and> distinct (canonical_names h) \<and>
    (\<forall>name\<in>set (canonical_names h). is_identifier name)"
proof -
  let ?s = "foldl (header_step (tally (clean_names row))) header_start (enumerate 0 (clean_names row))"
  have "distinct (map hf_canonical_name (built ?s)) \<and> list_all is_identifier (map hf_canonical_name (built ?s)) \<and>
      map (\<lambda>f. (hf_position f, hf_source_name f)) (built ?s) = enumerate 0 (clean_names row)"
    using header_loop.fold_inv [where es = "enumerate 0 (clean_names row)"] by blast
  moreover from this have "length (built ?s) = length row"
    by (metis clean_names_def length_enumerate length_map)
  ultimately show ?thesis
    by (simp add: canonical_names_def parse_header_fields(3) [OF assms] list_all_iff)
qed

text \<open>
  The raw identity of a column is its stripped name and how many columns up to it carry that
  name, so identities never repeat and looking a column up by its identity finds it.
\<close>

theorem header_identities:
  assumes "parse_header_text digest row encoding bom = Inr h" and "i < length row"
  shows "hf_source_name (fields_of h ! i) = py_strip (row ! i) \<and> hf_position (fields_of h ! i) = i \<and>
    hf_source_occurrence (fields_of h ! i) = count_list (map py_strip (take (Suc i) row)) (py_strip (row ! i)) \<and>
    by_identity h (hf_source_name (fields_of h ! i)) (hf_source_occurrence (fields_of h ! i)) = Some (fields_of h ! i)"
proof -
  let ?es = "enumerate 0 (clean_names row)"
  have inv: "map (\<lambda>f. (hf_position f, hf_source_name f)) (fields_of h) = ?es"
      "\<forall>i<length ?es. hf_source_occurrence (fields_of h ! i) = count_list (map snd (take (Suc i) ?es)) (snd (?es ! i))"
    using header_loop.fold_inv [OF TrueI, where es = ?es and totals = "tally (clean_names row)"]
    unfolding parse_header_fields(3) [OF assms(1)] by blast+
  have len: "length (fields_of h) = length row"
    using arg_cong [OF inv(1), of length] by (simp add: clean_names_def)
  have at: "hf_source_name (fields_of h ! j) = py_strip (row ! j) \<and> hf_position (fields_of h ! j) = j \<and>
      hf_source_occurrence (fields_of h ! j) = count_list (map py_strip (take (Suc j) row)) (py_strip (row ! j))"
    if "j < length row" for j
  proof -
    have "(hf_position (fields_of h ! j), hf_source_name (fields_of h ! j)) = ?es ! j"
      using arg_cong [OF inv(1), of "\<lambda>xs. xs ! j"] that len by simp
    then show ?thesis
      using inv(2) that by (simp add: nth_enumerate_eq clean_names_def take_map flip: take_map [of _ snd])
  qed
  have less: "count_list (map py_strip (take (Suc j) row)) x < count_list (map py_strip (take (Suc k) row)) x"
    if "j < k" and "k < length row" and "x = py_strip (row ! k)" for j k x
  proof -
    have "take k row = take (Suc j) row @ take (k - Suc j) (drop (Suc j) row)"
      using that by (metis Suc_leI le_add_diff_inverse take_add)
    then show ?thesis using that by (simp add: take_Suc_conv_app_nth)
  qed
  have "find (\<lambda>f. hf_source_name f = hf_source_name (fields_of h ! i) \<and>
      hf_source_occurrence f = hf_source_occurrence (fields_of h ! i)) (fields_of h) = Some (fields_of h ! i)"
    unfolding find_Some_iff
  proof (intro exI [of _ i] conjI refl allI impI)
    fix j assume "j < i"
    then show "\<not> (hf_source_name (fields_of h ! j) = hf_source_name (fields_of h ! i) \<and>
        hf_source_occurrence (fields_of h ! j) = hf_source_occurrence (fields_of h ! i))"
      using at [of j] at [OF assms(2)] less [of j i "py_strip (row ! i)"] assms(2) by auto
  qed (use assms(2) len in simp)
  then show ?thesis using at [OF assms(2)] by (simp add: by_identity_def)
qed

text \<open>
  Two headers have the same fingerprint exactly when their stripped names agree in order and
  multiplicity, provided the digest has no collisions and no name contains the separator.
\<close>

theorem fingerprint_iff:
  assumes "parse_header_text digest row encoding bom = Inr h"
    and "parse_header_text digest row' encoding' bom' = Inr h'"
    and "inj digest" and "\<forall>name\<in>set (clean_names row) \<union> set (clean_names row'). CHR 0x1F \<notin> set name"
  shows "header_fingerprint h = header_fingerprint h' \<longleftrightarrow> clean_names row = clean_names row'"
proof -
  have "clean_names row \<noteq> []" and "clean_names row' \<noteq> []"
    using parse_header_fields(1) [OF assms(1)] parse_header_fields(1) [OF assms(2)]
    by (simp_all add: clean_names_def)
  then have "clean_names row = clean_names row'"
    if "py_join [CHR 0x1F] (clean_names row) = py_join [CHR 0x1F] (clean_names row')"
    using that by (intro py_join_inj_ne [OF _ _ assms(4)])
  then have "py_join [CHR 0x1F] (clean_names row) = py_join [CHR 0x1F] (clean_names row') \<longleftrightarrow> clean_names row = clean_names row'"
    by metis
  then show ?thesis
    by (simp only: parse_header_fields(2) [OF assms(1)] parse_header_fields(2) [OF assms(2)]
        compute_fingerprint_def FINGERPRINT_SEPARATOR_def inj_eq [OF assms(3)])
qed

text \<open>Without the proviso it fails: the separator is not excluded from names.\<close>

lemma fingerprint_collision:
  "clean_names [''a'' @ [CHR 0x1F] @ ''b''] \<noteq> clean_names [''a'', ''b''] \<and>
   compute_fingerprint digest (clean_names [''a'' @ [CHR 0x1F] @ ''b'']) =
     compute_fingerprint digest (clean_names [''a'', ''b''])"
proof -
  have "clean_names [''a'' @ [CHR 0x1F] @ ''b''] = [''a'' @ [CHR 0x1F] @ ''b'']" "clean_names [''a'', ''b''] = [''a'', ''b'']"
    by code_simp+
  then show ?thesis by (simp add: compute_fingerprint_def FINGERPRINT_SEPARATOR_def)
qed

section \<open>Witnesses\<close>

definition demo_row :: "string list" where
  "demo_row = ['' Temp (C)'', ''Temp C'', ''SMR RectifierinternalTemp'', ''Stop Reason'', [], ''Stop Reason'', ''2nd Phase'']"

lemma demo_header:
  "case parse_header_text id demo_row ''utf-8'' False of
     Inl _ \<Rightarrow> False
   | Inr h \<Rightarrow> canonical_names h = [''temp_c'', ''temp_c_2'', ''smr_rectifierinternal_temp'', ''stop_reason'',
       ''unnamed_field_4'', ''stop_reason_occurrence_2'', ''f_2nd_phase''] \<and>
       duplicate_names h = [(''Stop Reason'', 2)]"
  by code_simp

theorem canonical_names_unique_witness:
  "\<exists>h. parse_header_text id demo_row ''utf-8'' False = Inr h \<and> distinct (canonical_names h) \<and>
     ''temp_c_2'' \<in> set (canonical_names h) \<and> length (canonical_names h) = length demo_row"
  using demo_header by (auto split: sum.splits dest: canonical_names_unique)

theorem free_suffix_ends_witness:
  "free_suffix [''temp_c'', ''temp_c_2''] ''temp_c'' 2 = 3 \<and>
   suffixed ''temp_c'' (free_suffix [''temp_c'', ''temp_c_2''] ''temp_c'' 2) \<notin> {''temp_c'', ''temp_c_2''} \<and>
   suffixed ''temp_c'' 2 \<in> {''temp_c'', ''temp_c_2''}"
proof -
  have "free_suffix [''temp_c'', ''temp_c_2''] ''temp_c'' 2 = 3" by code_simp
  then show ?thesis using free_suffix_ends [of "[''temp_c'', ''temp_c_2'']" "''temp_c''" 2] by simp
qed

theorem header_identities_witness:
  "\<exists>h. parse_header_text id demo_row ''utf-8'' False = Inr h \<and> hf_position (fields_of h ! 5) = 5 \<and>
     by_identity h (hf_source_name (fields_of h ! 5)) (hf_source_occurrence (fields_of h ! 5)) = Some (fields_of h ! 5)"
proof -
  obtain h where "parse_header_text id demo_row ''utf-8'' False = Inr h"
    using demo_header by (auto split: sum.splits)
  moreover have "5 < length demo_row" by (simp add: demo_row_def)
  ultimately show ?thesis using header_identities by blast
qed

theorem fingerprint_iff_witness:
  "\<exists>h h'. parse_header_text id demo_row ''utf-8'' False = Inr h \<and>
     parse_header_text id [''Temp C''] ''utf-8'' False = Inr h' \<and> header_fingerprint h \<noteq> header_fingerprint h'"
proof -
  obtain h where h: "parse_header_text id demo_row ''utf-8'' False = Inr h"
    using demo_header by (auto split: sum.splits)
  obtain h' where h': "parse_header_text id [''Temp C''] ''utf-8'' False = Inr h'"
    by (auto simp: parse_header_text_def Let_def)
  have "\<forall>name\<in>set (clean_names demo_row) \<union> set (clean_names [''Temp C'']). CHR 0x1F \<notin> set name"
    by code_simp
  moreover have "clean_names demo_row \<noteq> clean_names [''Temp C'']" by (simp add: clean_names_def demo_row_def)
  ultimately show ?thesis using fingerprint_iff [OF h h' inj_on_id] h h' by blast
qed

end
