(* ===== verification/EventTime.thy ===== *)
theory EventTime
  imports Enums
begin

text \<open>
  Event times, \<open>pipelines/profiling/event_time.py\<close>: choosing the timestamp format that parses the
  column, business dates in local time, and the date in a file name.

  An instant is a number of microseconds. A timezone is what the code uses of \<open>ZoneInfo\<close>: the
  offset in force at an instant, and the instant of a wall-clock reading with \<open>fold = 0\<close> (for a
  reading that occurs twice, the first; for one that is skipped, the one the offset before the
  transition gives). \<open>transition_zone\<close> is a \<open>ZoneInfo\<close> given by its table of transitions, the rule
  after the last entry being unrolled into the table; \<open>fixed_zone\<close> has none, as UTC, or as Asia/Kolkata
  for every instant since its last transition in 1945. Dates are day numbers of the wall clock. The
  Polars operations on a column are parameters (\<open>series_ops\<close>).
\<close>

section \<open>Wall clocks\<close>

definition day_us :: int where
  "day_us = 86400000000"

record timezone =
  utc_offset :: "datetime \<Rightarrow> int"
  wall_to_utc :: "int \<Rightarrow> datetime"

definition fixed_zone :: "int \<Rightarrow> timezone" where
  "fixed_zone off = \<lparr>utc_offset = (\<lambda>_. off), wall_to_utc = (\<lambda>w. w - off)\<rparr>"

text \<open>
  A zone by its table: an offset before the first transition, then instants with the offset in force from
  there on. A wall-clock reading is looked up among the transitions shifted by the larger of the two
  offsets around each, which is the lookup of \<open>zoneinfo\<close> for \<open>fold = 0\<close>.
\<close>

fun offset_at :: "int \<Rightarrow> (datetime \<times> int) list \<Rightarrow> datetime \<Rightarrow> int" where
  "offset_at off [] t = off"
| "offset_at off ((switch, off') # trs) t = (if t < switch then off else offset_at off' trs t)"

fun wall_offset :: "int \<Rightarrow> (datetime \<times> int) list \<Rightarrow> int \<Rightarrow> int" where
  "wall_offset off [] w = off"
| "wall_offset off ((switch, off') # trs) w = (if w < switch + max off off' then off else wall_offset off' trs w)"

definition transition_zone :: "int \<Rightarrow> (datetime \<times> int) list \<Rightarrow> timezone" where
  "transition_zone off trs =
     (let table = sort_key fst trs
      in \<lparr>utc_offset = offset_at off table, wall_to_utc = (\<lambda>w. w - wall_offset off table w)\<rparr>)"

definition resolve_timezone :: "(string \<Rightarrow> timezone option) \<Rightarrow> string \<Rightarrow> timezone" where
  "resolve_timezone zone_info name = (case zone_info name of None \<Rightarrow> fixed_zone 0 | Some z \<Rightarrow> z)"

definition wall :: "timezone \<Rightarrow> datetime \<Rightarrow> int" where
  "wall z t = t + utc_offset z t"

definition local_date :: "timezone \<Rightarrow> datetime \<Rightarrow> int" where
  "local_date z t = wall z t div day_us"

lemma div_day_iff: "d * day_us \<le> w \<and> w < (d + 1) * day_us \<longleftrightarrow> w div day_us = d"
proof
  assume "d * day_us \<le> w \<and> w < (d + 1) * day_us"
  then show "w div day_us = d"
    by (intro int_div_pos_eq [where r = "w - d * day_us"]) (auto simp: algebra_simps)
next
  assume "w div day_us = d"
  then have "w = d * day_us + w mod day_us" using div_mult_mod_eq [of w day_us] by simp
  moreover have "0 \<le> w mod day_us" and "w mod day_us < day_us" by (simp_all add: day_us_def)
  moreover have "(d + 1) * day_us = d * day_us + day_us" by (simp add: algebra_simps)
  ultimately show "d * day_us \<le> w \<and> w < (d + 1) * day_us" by linarith
qed

text \<open>
  What the platform relies on, for the instants \<open>A\<close> and the wall-clock readings \<open>M\<close> for which a zone provides
  it: the wall reading of an instant of \<open>A\<close> is read back as that instant, and a reading of \<open>M\<close> divides the
  instants of \<open>A\<close> as it divides their wall readings. No zone with a repeated hour provides it for all instants.
\<close>

locale wall_clock =
  fixes z :: timezone and A :: "datetime set" and M :: "int set"
  assumes wall_back: "t \<in> A \<Longrightarrow> wall_to_utc z (wall z t) = t"
    and divides: "t \<in> A \<Longrightarrow> w \<in> M \<Longrightarrow> wall_to_utc z w \<le> t \<longleftrightarrow> w \<le> wall z t"
begin

lemma wall_inj: "inj_on (wall z) A"
  using wall_back by (rule inj_on_inverseI)

lemma in_day_iff:
  assumes "t \<in> A" and "d * day_us \<in> M" and "(d + 1) * day_us \<in> M"
  shows "wall_to_utc z (d * day_us) \<le> t \<and> t < wall_to_utc z ((d + 1) * day_us) \<longleftrightarrow> local_date z t = d"
  using divides [OF assms(1,2)] divides [OF assms(1,3)]
  by (simp add: local_date_def div_day_iff [symmetric] not_le [symmetric])

end

interpretation fixed_clock: wall_clock "fixed_zone off" UNIV UNIV for off
  by unfold_locales (auto simp: wall_def fixed_zone_def)

lemma fixed_zone_table: "fixed_zone off = transition_zone off []"
  by (simp add: fixed_zone_def transition_zone_def fun_eq_iff)

text \<open>
  The instants whose wall reading is not that of an earlier instant (all but the second pass of a repeated
  hour), and the readings that no transition skips.
\<close>

fun unrepeated :: "int \<Rightarrow> (datetime \<times> int) list \<Rightarrow> datetime \<Rightarrow> bool" where
  "unrepeated off [] t = True"
| "unrepeated off ((switch, off') # trs) t =
     (t < switch \<or> switch + max off off' \<le> t + offset_at off' trs t \<and> unrepeated off' trs t)"

fun unskipped :: "int \<Rightarrow> (datetime \<times> int) list \<Rightarrow> int \<Rightarrow> bool" where
  "unskipped off [] w = True"
| "unskipped off ((switch, off') # trs) w = (\<not> (switch + off < w \<and> w < switch + off') \<and> unskipped off' trs w)"

lemma offset_read_back: "unrepeated off trs t \<Longrightarrow> wall_offset off trs (t + offset_at off trs t) = offset_at off trs t"
  by (induction off trs t rule: unrepeated.induct) auto

lemma wall_offset_after:
  assumes "sorted (switch # map fst trs)" and "switch + off \<le> w"
  shows "switch \<le> w - wall_offset off trs w"
  using assms
proof (induction trs arbitrary: switch off)
  case (Cons tr trs)
  obtain again off' where tr: "tr = (again, off')" by (cases tr)
  show ?case
  proof (cases "w < again + max off off'")
    case False
    then have "again \<le> w - wall_offset off' trs w" using Cons.prems(1) by (intro Cons.IH) (auto simp: tr)
    then show ?thesis using False Cons.prems(1) by (auto simp: tr)
  qed (use Cons.prems(2) in \<open>simp add: tr\<close>)
qed simp

lemma offset_divides:
  assumes "sorted (map fst trs)" and "unrepeated off trs t" and "unskipped off trs w"
  shows "w - wall_offset off trs w \<le> t \<longleftrightarrow> w \<le> t + offset_at off trs t"
  using assms
proof (induction trs arbitrary: off)
  case (Cons tr trs)
  obtain switch off' where tr: "tr = (switch, off')" by (cases tr)
  consider "w < switch + max off off'" "t < switch" | "w < switch + max off off'" "switch \<le> t"
    | "switch + max off off' \<le> w" "t < switch" | "switch + max off off' \<le> w" "switch \<le> t" by linarith
  then show ?case
  proof cases
    case 1
    then show ?thesis by (auto simp: tr)
  next
    case 2
    then show ?thesis using Cons.prems(2,3) by (auto simp: tr max_def split: if_splits)
  next
    case 3
    have "switch \<le> w - wall_offset off' trs w" using 3 Cons.prems(1) by (intro wall_offset_after) (auto simp: tr)
    then show ?thesis using 3 by (auto simp: tr)
  next
    case 4
    then show ?thesis using Cons by (simp add: tr)
  qed
qed auto

interpretation table_clock: wall_clock "transition_zone off trs"
    "{t. unrepeated off (sort_key fst trs) t}" "{w. unskipped off (sort_key fst trs) w}" for off trs
  by unfold_locales (auto simp: wall_def transition_zone_def Let_def offset_read_back offset_divides)

section \<open>The event-time column\<close>

record timestamp_analysis =
  ta_column :: string
  chosen_format :: "string option"
  total_values :: nat
  null_count :: nat
  parsed_count :: nat
  failed_count :: nat
  unique_count :: nat
  event_time_min :: "datetime option"
  event_time_max :: "datetime option"
  median_interval_seconds :: "pyfloat option"
  p95_interval_seconds :: "pyfloat option"
  min_interval_seconds :: "pyfloat option"
  max_interval_seconds :: "pyfloat option"
  business_dates :: "(int, nat) pydict"
  dominant_business_date :: "int option"
  ta_date_span :: file_date_span
  unique_timestamps :: "datetime list"
  row_event_times :: "datetime option list"
  ta_source_timezone :: string

definition failure_ratio :: "timestamp_analysis \<Rightarrow> pyfloat" where
  "failure_ratio a =
     (let considered = int (total_values a) - int (null_count a)
      in if considered \<le> 0 then 0 else of_nat (failed_count a) / of_int considered)"

definition parsed_any :: "timestamp_analysis \<Rightarrow> bool" where
  "parsed_any a = (parsed_count a > 0)"

definition is_within_tolerance :: "timestamp_analysis \<Rightarrow> pyfloat \<Rightarrow> bool" where
  "is_within_tolerance a tolerance = (parsed_any a \<and> failure_ratio a \<le> tolerance)"

definition classify_span :: "int list \<Rightarrow> file_date_span" where
  "classify_span dates =
     (if dates = [] then file_date_span.UNKNOWN
      else if length dates = 1 then SINGLE_DAY
      else let ordered = sort dates
           in if length ordered = 2 \<and> ordered ! 1 - ordered ! 0 = 1 then CROSS_MIDNIGHT
              else MULTI_DAY)"

definition seconds_between :: "datetime list \<Rightarrow> pyfloat list" where
  "seconds_between ts = map (\<lambda>(a, b). total_seconds (b - a)) (pairs ts)"

text \<open>
  The Polars operations on a column. \<open>replace_time_zone\<close> raises (\<open>None\<close>) for a zone it does not
  know and for a wall-clock reading that is ambiguous or does not exist in the zone.
\<close>

record series_ops =
  strip_chars :: "string \<Rightarrow> string"
  strptime :: "string \<Rightarrow> string \<Rightarrow> int option"
  replace_time_zone :: "string \<Rightarrow> int \<Rightarrow> datetime option"
  series_median :: "pyfloat list \<Rightarrow> pyfloat"
  series_p95 :: "pyfloat list \<Rightarrow> pyfloat"

datatype event_time_error = ZoneError

definition series_interval_stats ::
    "series_ops \<Rightarrow> datetime list
     \<Rightarrow> pyfloat option \<times> pyfloat option \<times> pyfloat option \<times> pyfloat option" where
  "series_interval_stats ops ts =
     (if length ts < 2 then (None, None, None, None)
      else let positive = filter (\<lambda>d. d > 0) (seconds_between (sort ts))
           in if positive = [] then (None, None, None, None)
              else (Some (series_median ops positive), Some (series_p95 ops positive),
                    Some (min_default 0 positive), Some (max_default 0 positive)))"

definition clean_column :: "series_ops \<Rightarrow> string option list \<Rightarrow> string option list" where
  "clean_column ops vals =
     map (\<lambda>v. case v of None \<Rightarrow> None
               | Some s \<Rightarrow> if strip_chars ops s = [] then None else Some (strip_chars ops s)) vals"

definition some_values :: "'a option list \<Rightarrow> 'a list" where
  "some_values xs = map the (filter (\<lambda>x. x \<noteq> None) xs)"

abbreviation some_count :: "'a option list \<Rightarrow> nat" where
  "some_count xs \<equiv> length (some_values xs)"

definition parse_column :: "series_ops \<Rightarrow> string \<Rightarrow> string option list \<Rightarrow> int option list" where
  "parse_column ops fmt col = map (\<lambda>v. Option.bind v (\<lambda>s. strptime ops s fmt)) col"

text \<open>The loop over the candidate formats; a format that parses everything ends it.\<close>

definition better_format ::
    "series_ops \<Rightarrow> string option list \<Rightarrow> int \<times> (string \<times> int option list) option \<Rightarrow> string
     \<Rightarrow> int \<times> (string \<times> int option list) option" where
  "better_format ops col best fmt =
     (let parsed = parse_column ops fmt col; success = some_count parsed
      in if int success > fst best then (int success, Some (fmt, parsed)) else best)"

fun select_format ::
    "series_ops \<Rightarrow> string option list \<Rightarrow> int \<times> (string \<times> int option list) option \<Rightarrow> string list
     \<Rightarrow> int \<times> (string \<times> int option list) option" where
  "select_format ops col best [] = best"
| "select_format ops col best (fmt # fmts) =
     (if some_count col \<noteq> 0 \<and> some_count (parse_column ops fmt col) = some_count col
      then better_format ops col best fmt
      else select_format ops col (better_format ops col best fmt) fmts)"

definition dominant_date :: "(int, nat) pydict \<Rightarrow> int option" where
  "dominant_date counts =
     foldl (\<lambda>best (d, n). case best of
              None \<Rightarrow> Some d
            | Some b \<Rightarrow> if (dict_get counts b 0, - b) < (n, - d) then Some d else Some b)
       None counts"

definition localise :: "series_ops \<Rightarrow> string \<Rightarrow> int option \<Rightarrow> event_time_error + datetime option" where
  "localise ops zone v =
     (case v of None \<Rightarrow> Inr None
      | Some w \<Rightarrow> (case replace_time_zone ops zone w of None \<Rightarrow> Inl ZoneError | Some t \<Rightarrow> Inr (Some t)))"

definition unparsed_analysis :: "string \<Rightarrow> nat \<Rightarrow> nat \<Rightarrow> string \<Rightarrow> timestamp_analysis" where
  "unparsed_analysis column total_n nulls zone =
     \<lparr>ta_column = column, chosen_format = None, total_values = total_n, null_count = nulls,
      parsed_count = 0, failed_count = total_n - nulls, unique_count = 0,
      event_time_min = None, event_time_max = None, median_interval_seconds = None,
      p95_interval_seconds = None, min_interval_seconds = None, max_interval_seconds = None,
      business_dates = [], dominant_business_date = None,
      ta_date_span = file_date_span.UNKNOWN, unique_timestamps = [], row_event_times = [],
      ta_source_timezone = zone\<rparr>"

definition parsed_analysis ::
    "series_ops \<Rightarrow> string \<Rightarrow> nat \<Rightarrow> nat \<Rightarrow> string \<Rightarrow> string \<Rightarrow> int option list \<Rightarrow> datetime option list
     \<Rightarrow> timestamp_analysis" where
  "parsed_analysis ops column total_n nulls zone fmt parsed rows =
     (let valid = some_values parsed;
          dates = sort_key fst (tally (map (\<lambda>w. w div day_us) (remdups valid)));
          stamps = sort (remdups (some_values rows));
          (med, p95, mn, mx) = series_interval_stats ops stamps
      in \<lparr>ta_column = column, chosen_format = Some fmt, total_values = total_n,
          null_count = nulls, parsed_count = length valid,
          failed_count = total_n - nulls - length valid, unique_count = length stamps,
          event_time_min = (if stamps = [] then None else Some (hd stamps)),
          event_time_max = (if stamps = [] then None else Some (last stamps)),
          median_interval_seconds = med, p95_interval_seconds = p95,
          min_interval_seconds = mn, max_interval_seconds = mx,
          business_dates = dates, dominant_business_date = dominant_date dates,
          ta_date_span = classify_span (dict_keys dates), unique_timestamps = stamps,
          row_event_times = rows, ta_source_timezone = zone\<rparr>)"

definition analyse_event_time ::
    "series_ops \<Rightarrow> (string \<Rightarrow> timezone option) \<Rightarrow> string option list \<Rightarrow> string \<Rightarrow> string list \<Rightarrow> string
     \<Rightarrow> event_time_error + timestamp_analysis" where
  "analyse_event_time ops zone_info vals column formats zone =
     (let text = clean_column ops vals;
          total_n = length vals;
          nulls = total_n - some_count text;
          (success, best) = select_format ops text (- 1, None) formats;
          resolved = (case zone_info zone of None \<Rightarrow> ''UTC'' | Some _ \<Rightarrow> zone)
      in case (if success \<le> 0 then None else best) of
           None \<Rightarrow> Inr (unparsed_analysis column total_n nulls zone)
         | Some (fmt, parsed) \<Rightarrow>
             bind_err (traverse (localise ops zone) parsed) (\<lambda>rows.
               Inr (parsed_analysis ops column total_n nulls resolved fmt parsed rows)))"

section \<open>Dates in file names\<close>

fun take_digits :: "nat \<Rightarrow> string \<Rightarrow> (string \<times> string) option" where
  "take_digits 0 s = Some ([], s)"
| "take_digits (Suc n) [] = None"
| "take_digits (Suc n) (c # s) =
     (if is_digit c then map_option (\<lambda>(ds, r). (c # ds, r)) (take_digits n s) else None)"

text \<open>Groups of digits of the given widths, separated by one of the two separators or by nothing.\<close>

fun match_groups :: "bool \<Rightarrow> nat list \<Rightarrow> string \<Rightarrow> nat list option" where
  "match_groups sep [] s = (case s of [] \<Rightarrow> Some [] | c # _ \<Rightarrow> if is_digit c then None else Some [])"
| "match_groups sep (w # ws) s =
     (case take_digits w s of
        None \<Rightarrow> None
      | Some (ds, r) \<Rightarrow>
          (let r' = (if ws = [] \<or> \<not> sep then Some r
                     else case r of c # r' \<Rightarrow> if c = CHR ''-'' \<or> c = CHR ''_'' then Some r' else None
                          | [] \<Rightarrow> None)
           in case r' of None \<Rightarrow> None | Some r'' \<Rightarrow>
                map_option (\<lambda>gs. digits_value ds # gs) (match_groups sep ws r'')))"

fun search_groups :: "bool \<Rightarrow> nat list \<Rightarrow> bool \<Rightarrow> string \<Rightarrow> nat list option" where
  "search_groups sep ws after_digit s =
     (case (if after_digit then None else match_groups sep ws s) of
        Some gs \<Rightarrow> Some gs
      | None \<Rightarrow> (case s of [] \<Rightarrow> None | c # r \<Rightarrow> search_groups sep ws (is_digit c) r))"

definition leap_year :: "nat \<Rightarrow> bool" where
  "leap_year y = (y mod 4 = 0 \<and> (y mod 100 \<noteq> 0 \<or> y mod 400 = 0))"

definition days_in_month :: "nat \<Rightarrow> nat \<Rightarrow> nat" where
  "days_in_month y m =
     (if m = 2 then (if leap_year y then 29 else 28)
      else if m \<in> {4, 6, 9, 11} then 30 else 31)"

definition valid_date :: "nat \<Rightarrow> nat \<Rightarrow> nat \<Rightarrow> bool" where
  "valid_date y m d =
     (1 \<le> y \<and> y \<le> 9999 \<and> 1 \<le> m \<and> m \<le> 12 \<and> 1 \<le> d \<and> d \<le> days_in_month y m)"

definition filename_patterns :: "(bool \<times> nat list \<times> bool) list" where
  "filename_patterns = [(True, [4, 2, 2], True), (True, [2, 2, 4], False), (False, [4, 2, 2], True)]"

fun first_date :: "(bool \<times> nat list \<times> bool) list \<Rightarrow> string \<Rightarrow> (nat \<times> nat \<times> nat) option" where
  "first_date [] s = None"
| "first_date ((sep, ws, ymd) # ps) s =
     (case search_groups sep ws False s of
        Some [a, b, c] \<Rightarrow>
          (let (y, m, d) = (if ymd then (a, b, c) else (c, b, a))
           in if valid_date y m d then Some (y, m, d) else first_date ps s)
      | _ \<Rightarrow> first_date ps s)"

definition extract_filename_date :: "string \<Rightarrow> (nat \<times> nat \<times> nat) option" where
  "extract_filename_date filename = first_date filename_patterns filename"

section \<open>What the analysis reports\<close>

abbreviation parses :: "series_ops \<Rightarrow> string option list \<Rightarrow> string \<Rightarrow> nat" where
  "parses ops col fmt \<equiv> some_count (parse_column ops fmt col)"

lemma some_values_simps [simp]:
  "some_values [] = []"
  "some_values (None # xs) = some_values xs"
  "some_values (Some x # xs) = x # some_values xs"
  by (simp_all add: some_values_def)

lemma some_values_set: "x \<in> set (some_values xs) \<longleftrightarrow> Some x \<in> set xs"
  by (induction xs rule: list.induct) (auto simp: some_values_def)

lemma some_count_le: "some_count xs \<le> length xs"
  by (simp add: some_values_def)

lemma parses_le: "parses ops col fmt \<le> some_count col"
proof (induction col)
  case (Cons v col)
  then show ?case
    by (cases v; cases "Option.bind v (\<lambda>s. strptime ops s fmt)") (simp_all add: parse_column_def)
qed (simp add: parse_column_def)

text \<open>
  The loop keeps the count at least as large as every format's, and what it keeps besides its
  start is the parse of one of the formats. Breaking off at a perfect format loses nothing.
\<close>

lemma better_format_ge:
  "fst best \<le> fst (better_format ops col best fmt)"
  "int (parses ops col fmt) \<le> fst (better_format ops col best fmt)"
  by (simp_all add: better_format_def Let_def)

lemma better_format_cases:
  "better_format ops col best fmt = best \<or>
   better_format ops col best fmt = (int (parses ops col fmt), Some (fmt, parse_column ops fmt col))"
  by (simp add: better_format_def Let_def)

lemma select_format_ge: "fst best \<le> fst (select_format ops col best fmts)"
proof (induction fmts arbitrary: best)
  case (Cons f fmts)
  show ?case
    using order_trans [OF better_format_ge(1) Cons.IH [of "better_format ops col best f"]]
    by (auto simp: better_format_ge(1))
qed simp

lemma select_format_max:
  "fmt \<in> set fmts \<Longrightarrow> int (parses ops col fmt) \<le> fst (select_format ops col best fmts)"
proof (induction fmts arbitrary: best)
  case (Cons f fmts)
  let ?best = "better_format ops col best f"
  show ?case
  proof (cases "some_count col \<noteq> 0 \<and> parses ops col f = some_count col")
    case True
    then have "int (parses ops col fmt) \<le> int (parses ops col f)"
      using parses_le [where ops = ops and fmt = fmt and col = col] by simp
    then show ?thesis
      using True better_format_ge(2) [where ops = ops and col = col and fmt = f and best = best] by simp
  next
    case False
    then have step: "select_format ops col best (f # fmts) = select_format ops col ?best fmts"
      by (simp only: select_format.simps if_not_P [OF False] if_False)
    have "int (parses ops col f) \<le> fst (select_format ops col ?best fmts)"
      using better_format_ge(2) select_format_ge by (rule order_trans)
    then show ?thesis using Cons step by (cases "fmt = f") simp_all
  qed
qed simp

lemma select_format_origin:
  "select_format ops col best fmts = best \<or>
   (\<exists>fmt\<in>set fmts. select_format ops col best fmts =
      (int (parses ops col fmt), Some (fmt, parse_column ops fmt col)))"
proof (induction fmts arbitrary: best)
  case (Cons f fmts)
  show ?case
    using Cons.IH [of "better_format ops col best f"] better_format_cases [of ops col best f]
    by auto
qed simp

text \<open>A report names a format or is the empty one.\<close>

lemma analyse_eq:
  "analyse_event_time ops zi vals column formats zone =
     (let col = clean_column ops vals; r = select_format ops col (- 1, None) formats
      in case (if fst r \<le> 0 then None else snd r) of
        None \<Rightarrow> Inr (unparsed_analysis column (length vals) (length vals - some_count col) zone)
      | Some (fmt, parsed) \<Rightarrow>
          bind_err (traverse (localise ops zone) parsed) (\<lambda>rows.
            Inr (parsed_analysis ops column (length vals) (length vals - some_count col)
                   (case zi zone of None \<Rightarrow> ''UTC'' | Some _ \<Rightarrow> zone) fmt parsed rows)))"
  by (simp add: analyse_event_time_def Let_def case_prod_beta)

lemma unparsed_no_format: "chosen_format (unparsed_analysis c n k z) = None"
  by (simp add: unparsed_analysis_def)

lemma parsed_analysis_counts:
  "chosen_format (parsed_analysis ops c n k z f p r) = Some f"
  "total_values (parsed_analysis ops c n k z f p r) = n"
  "null_count (parsed_analysis ops c n k z f p r) = k"
  "parsed_count (parsed_analysis ops c n k z f p r) = some_count p"
  "failed_count (parsed_analysis ops c n k z f p r) = n - k - some_count p"
  "row_event_times (parsed_analysis ops c n k z f p r) = r"
  "unique_timestamps (parsed_analysis ops c n k z f p r) = sort (remdups (some_values r))"
  by (simp_all add: parsed_analysis_def Let_def split: prod.split)

lemma analyse_parsed:
  assumes "analyse_event_time ops zi vals column formats zone = Inr a" and "chosen_format a = Some fmt"
  shows "\<exists>rows. traverse (localise ops zone) (parse_column ops fmt (clean_column ops vals)) = Inr rows \<and>
    a = parsed_analysis ops column (length vals) (length vals - some_count (clean_column ops vals))
          (case zi zone of None \<Rightarrow> ''UTC'' | Some _ \<Rightarrow> zone) fmt (parse_column ops fmt (clean_column ops vals)) rows \<and>
    fmt \<in> set formats \<and> 0 < parses ops (clean_column ops vals) fmt \<and>
    (\<forall>g\<in>set formats. parses ops (clean_column ops vals) g \<le> parses ops (clean_column ops vals) fmt)"
proof -
  let ?col = "clean_column ops vals"
  let ?r = "select_format ops ?col (- 1, None) formats"
  have pos: "0 < fst ?r"
    using assms unparsed_no_format by (fastforce simp: analyse_eq Let_def split: if_splits)
  then obtain g where g: "g \<in> set formats" "?r = (int (parses ops ?col g), Some (g, parse_column ops g ?col))"
    using select_format_origin [of ops ?col "(- 1, None)" formats] by fastforce
  have "bind_err (traverse (localise ops zone) (parse_column ops g ?col)) (\<lambda>rows. Inr (parsed_analysis ops column (length vals)
          (length vals - some_count ?col) (case zi zone of None \<Rightarrow> ''UTC'' | Some _ \<Rightarrow> zone) g (parse_column ops g ?col) rows)) = Inr a"
    using assms(1) pos g(2) by (simp add: analyse_eq Let_def)
  then obtain rows where rows: "traverse (localise ops zone) (parse_column ops g ?col) = Inr rows"
    "a = parsed_analysis ops column (length vals) (length vals - some_count ?col)
          (case zi zone of None \<Rightarrow> ''UTC'' | Some _ \<Rightarrow> zone) g (parse_column ops g ?col) rows"
    by (auto simp: bind_err_Inr)
  have "g = fmt" using assms(2) rows(2) by (simp add: parsed_analysis_counts)
  moreover have "\<forall>h\<in>set formats. parses ops ?col h \<le> parses ops ?col g"
  proof
    fix h
    assume "h \<in> set formats"
    then have "int (parses ops ?col h) \<le> fst ?r" by (rule select_format_max)
    then show "parses ops ?col h \<le> parses ops ?col g" using g(2) by simp
  qed
  moreover have "0 < parses ops ?col g" using pos g(2) by simp
  ultimately show ?thesis using rows g(1) by blast
qed

text \<open>
  The analysis picks a format that parses at least as many cells as every other candidate,
  even though it stops trying at a perfect one, and every cell of the column is counted exactly
  once: as null, parsed or failed.
\<close>

theorem format_choice:
  assumes "analyse_event_time ops zi vals column formats zone = Inr a"
    and "chosen_format a = Some fmt"
  shows "fmt \<in> set formats \<and>
    (\<forall>g\<in>set formats. some_count (parse_column ops g (clean_column ops vals)) \<le> parsed_count a) \<and>
    0 < parsed_count a \<and>
    null_count a + parsed_count a + failed_count a = total_values a \<and>
    total_values a = length vals"
proof -
  have "some_count (clean_column ops vals) \<le> length vals"
    using some_count_le [of "clean_column ops vals"] by (simp add: clean_column_def)
  then show ?thesis
    using analyse_parsed [OF assms] parses_le [where ops = ops and fmt = fmt and col = "clean_column ops vals"]
    by (auto simp: parsed_analysis_counts)
qed

text \<open>
  The per-row event times stay aligned with the rows of the file, a row having one exactly
  when its cell was parsed, and the unique timestamps are the times of the rows in strictly
  ascending order.
\<close>

theorem event_times_aligned:
  assumes "analyse_event_time ops zi vals column formats zone = Inr a"
    and "chosen_format a = Some fmt"
  shows "length (row_event_times a) = length vals \<and>
    (\<forall>i<length vals. row_event_times a ! i =
       Option.bind (parse_column ops fmt (clean_column ops vals) ! i) (replace_time_zone ops zone)) \<and>
    set (unique_timestamps a) = {t. Some t \<in> set (row_event_times a)} \<and>
    sorted (unique_timestamps a) \<and> distinct (unique_timestamps a)"
proof -
  let ?p = "parse_column ops fmt (clean_column ops vals)"
  obtain rows where rows: "traverse (localise ops zone) ?p = Inr rows"
    "row_event_times a = rows" "unique_timestamps a = sort (remdups (some_values rows))"
    using analyse_parsed [OF assms] by (auto simp: parsed_analysis_counts)
  have len: "length ?p = length vals"
    by (simp add: parse_column_def clean_column_def)
  have "rows ! i = Option.bind (?p ! i) (replace_time_zone ops zone)" if "i < length vals" for i
    using traverse_nth [OF rows(1), of i] that len
    by (cases "?p ! i") (auto simp: localise_def split: option.splits)
  then show ?thesis
    using rows traverse_length [OF rows(1)] len by (auto simp: some_values_set)
qed

section \<open>File name dates\<close>

text \<open>A date written in each of the three ways, with a hyphen or an underscore between its numbers.\<close>

definition digit_char :: "nat \<Rightarrow> char" where
  "digit_char k = char_of (48 + k mod 10)"

definition two_digits :: "nat \<Rightarrow> string" where
  "two_digits n = [digit_char (n div 10), digit_char n]"

definition four_digits :: "nat \<Rightarrow> string" where
  "four_digits n = two_digits (n div 100) @ two_digits (n mod 100)"

definition date_separator :: "char \<Rightarrow> bool" where
  "date_separator c = (c = CHR ''-'' \<or> c = CHR ''_'')"

definition iso_date :: "char \<Rightarrow> char \<Rightarrow> nat \<times> nat \<times> nat \<Rightarrow> string" where
  "iso_date a b = (\<lambda>(y, m, d). four_digits y @ a # two_digits m @ b # two_digits d)"

definition day_first_date :: "char \<Rightarrow> char \<Rightarrow> nat \<times> nat \<times> nat \<Rightarrow> string" where
  "day_first_date a b = (\<lambda>(y, m, d). two_digits d @ a # two_digits m @ b # four_digits y)"

definition compact_date :: "nat \<times> nat \<times> nat \<Rightarrow> string" where
  "compact_date = (\<lambda>(y, m, d). four_digits y @ two_digits m @ two_digits d)"

lemma digit_char [simp]: "is_digit (digit_char k)" "digit_value (digit_char k) = k mod 10"
  by (simp_all add: digit_char_def is_digit_def digit_value_def Let_def of_char_of)

lemma digits_value_append: "digits_value (xs @ ys) = digits_value xs * 10 ^ length ys + digits_value ys"
proof (induction ys rule: rev_induct)
  case (snoc y ys)
  then show ?case by (simp add: digits_value_def algebra_simps)
qed (simp add: digits_value_def)

lemma two_digits_value: "n < 100 \<Longrightarrow> digits_value (two_digits n) = n"
proof -
  assume "n < 100"
  then have "n div 10 mod 10 = n div 10" by (intro mod_less) linarith
  then show ?thesis by (simp add: two_digits_def digits_value_def)
qed

lemma four_digits_value: "n < 10000 \<Longrightarrow> digits_value (four_digits n) = n"
proof -
  assume "n < 10000"
  then have "digits_value (two_digits (n div 100)) = n div 100" by (intro two_digits_value) linarith
  moreover have "digits_value (two_digits (n mod 100)) = n mod 100" by (intro two_digits_value) simp
  moreover have "length (two_digits (n mod 100)) = 2" by (simp add: two_digits_def)
  ultimately show ?thesis
    by (simp only: four_digits_def digits_value_append) simp
qed

lemma take_digits_append: "list_all is_digit ds \<Longrightarrow> take_digits (length ds) (ds @ r) = Some (ds, r)"
  by (induction ds) simp_all

lemma digits_length: "length (two_digits n) = 2" "length (four_digits n) = 4"
  by (simp_all add: four_digits_def two_digits_def)

lemma digits_digit: "list_all is_digit (two_digits n)" "list_all is_digit (four_digits n)"
  by (simp_all add: four_digits_def two_digits_def)

lemma take_four: "take_digits 4 (four_digits n @ r) = Some (four_digits n, r)"
  using take_digits_append [OF digits_digit(2) [of n], of r] by (simp only: digits_length)

lemma take_two: "take_digits 2 (two_digits n @ r) = Some (two_digits n, r)"
  using take_digits_append [OF digits_digit(1) [of n], of r] by (simp only: digits_length)

lemma take_four_end: "take_digits 4 (four_digits n) = Some (four_digits n, [])"
  using take_four [of n "[]"] by simp

lemma take_two_end: "take_digits 2 (two_digits n) = Some (two_digits n, [])"
  using take_two [of n "[]"] by simp

lemmas take_written = take_four take_two take_two_end take_four_end four_digits_value two_digits_value

lemma match_iso:
  assumes "y < 10000" and "m < 100" and "d < 100" and "post = [] \<or> \<not> is_digit (hd post)"
    and "date_separator a" "date_separator b"
  shows "match_groups True [4, 2, 2] (iso_date a b (y, m, d) @ post) = Some [y, m, d]"
  using assms
  by (cases post) (auto simp: iso_date_def date_separator_def take_written simp del: take_digits.simps)

lemma match_day_first:
  assumes "y < 10000" and "m < 100" and "d < 100" and "post = [] \<or> \<not> is_digit (hd post)"
    and "date_separator a" "date_separator b"
  shows "match_groups True [2, 2, 4] (day_first_date a b (y, m, d) @ post) = Some [d, m, y]"
  using assms
  by (cases post) (auto simp: day_first_date_def date_separator_def take_written simp del: take_digits.simps)

lemma match_compact:
  assumes "y < 10000" and "m < 100" and "d < 100" and "post = [] \<or> \<not> is_digit (hd post)"
  shows "match_groups False [4, 2, 2] (compact_date (y, m, d) @ post) = Some [y, m, d]"
  using assms
  by (cases post) (auto simp: compact_date_def take_written simp del: take_digits.simps)

lemma match_groups_digit:
  "match_groups sep (w # ws) s = Some gs \<Longrightarrow> 0 < w \<Longrightarrow> s \<noteq> [] \<and> is_digit (hd s)"
proof (cases w)
  case (Suc n)
  assume "match_groups sep (w # ws) s = Some gs"
  then have "take_digits w s \<noteq> None" by (auto split: option.splits)
  with Suc show ?thesis by (cases s) (auto split: if_splits)
qed simp

lemma search_skip:
  assumes "list_all (\<lambda>c. \<not> is_digit c) pre" and "match_groups sep (w # ws) s = Some gs" and "0 < w"
  shows "search_groups sep (w # ws) False (pre @ s) = Some gs"
  using assms
proof (induction pre)
  case (Cons c pre)
  have "match_groups sep (w # ws) (c # pre @ s) = None"
    using match_groups_digit [of sep w ws "c # pre @ s"] Cons.prems by (cases "match_groups sep (w # ws) (c # pre @ s)") auto
  then show ?case using Cons by (simp del: match_groups.simps)
qed (cases s; simp del: match_groups.simps)

lemma search_move:
  "after \<or> match_groups sep ws (c # s) = None \<Longrightarrow> search_groups sep ws after (c # s) = search_groups sep ws (is_digit c) s"
  by (auto simp: search_groups.simps [of sep ws after "c # s"] simp del: search_groups.simps match_groups.simps)

lemma search_other:
  assumes "\<not> is_digit c" and "0 < w"
  shows "search_groups sep (w # ws) after (c # s) = search_groups sep (w # ws) False s"
proof -
  have "match_groups sep (w # ws) (c # s) = None"
    using match_groups_digit [of sep w ws "c # s"] assms by (cases "match_groups sep (w # ws) (c # s)") auto
  then show ?thesis using search_move [of after sep "w # ws" c s] assms(1) by simp
qed

lemma search_prefix:
  assumes "list_all (\<lambda>c. \<not> is_digit c) pre" and "0 < w"
  shows "search_groups sep (w # ws) False (pre @ s) = search_groups sep (w # ws) False s"
  using assms by (induction pre) (simp_all add: search_other del: search_groups.simps)

lemma search_digit_free:
  assumes "list_all (\<lambda>c. \<not> is_digit c) s" and "0 < w"
  shows "search_groups sep (w # ws) after s = None"
  using assms
proof (induction s arbitrary: after)
  case (Cons c s)
  then show ?case by (simp add: search_other del: search_groups.simps)
qed (cases w; simp)

lemma search_run:
  assumes "list_all is_digit ds"
  shows "search_groups sep ws True (ds @ s) = search_groups sep ws True s"
  using assms by (induction ds) (simp_all add: search_move del: search_groups.simps)

text \<open>A run of digits where nothing matches is passed as a whole.\<close>

lemma search_digits:
  assumes "list_all is_digit ds" and "ds \<noteq> []" and "match_groups sep ws (ds @ s) = None"
  shows "search_groups sep ws False (ds @ s) = search_groups sep ws True s"
proof -
  obtain c cs where ds: "ds = c # cs" using assms(2) by (cases ds) simp_all
  then show ?thesis
    using search_move [of False sep ws c "cs @ s"] search_run [of cs sep ws s] assms(1,3) by simp
qed

lemma take_digits_short:
  assumes "list_all is_digit ds" and "length ds < n" and "s = [] \<or> \<not> is_digit (hd s)"
  shows "take_digits n (ds @ s) = None"
  using assms
proof (induction ds arbitrary: n)
  case Nil
  then show ?case by (cases n; cases s) simp_all
next
  case (Cons c ds)
  then show ?case by (cases n) simp_all
qed

lemma match_short:
  assumes "list_all is_digit ds" and "length ds < w" and "s = [] \<or> \<not> is_digit (hd s)"
  shows "match_groups sep (w # ws) (ds @ s) = None"
  using take_digits_short [OF assms] by simp

lemma match_unseparated:
  assumes "list_all is_digit ds" and "length ds = w" and "0 < w'"
    and "s = [] \<or> \<not> date_separator (hd s) \<or> list_all (\<lambda>c. \<not> is_digit c) (tl s)"
  shows "match_groups True (w # w' # ws) (ds @ s) = None"
proof -
  have free: "match_groups True (w' # ws) (tl s) = None" if "list_all (\<lambda>c. \<not> is_digit c) (tl s)"
    using match_groups_digit [of True w' ws "tl s"] assms(3) that
    by (cases "match_groups True (w' # ws) (tl s)"; cases "tl s") auto
  have "take_digits w (ds @ s) = Some (ds, s)" using take_digits_append [OF assms(1), of s] assms(2) by simp
  then show ?thesis
    using assms(4) free
    by (cases s) (auto simp: match_groups.simps(2) [of True w "w' # ws"] date_separator_def simp del: match_groups.simps)
qed

text \<open>A date written in one way is not taken for one of the ways tried before it.\<close>

lemma separators_no_digits: "date_separator c \<Longrightarrow> \<not> is_digit c"
  by (auto simp: date_separator_def is_digit_def)

lemma free_tail: "list_all P s \<Longrightarrow> s = [] \<or> Q \<or> list_all P (tl s)"
  by (cases s) simp_all

lemma day_first_not_iso:
  assumes free: "list_all (\<lambda>c. \<not> is_digit c) post" and sep: "date_separator a" "date_separator b"
  shows "search_groups True [4, 2, 2] False (day_first_date a b (y, m, d) @ post) = None"
proof -
  let ?search = "search_groups True [4, 2, 2]"
  have two: "?search False (two_digits n @ c # s) = ?search False s" if "date_separator c" for n c s
    using search_digits [of "two_digits n" True "[4, 2, 2]" "c # s"] match_short [of "two_digits n" 4 "c # s" True "[2, 2]"]
      separators_no_digits [OF that]
    by (simp add: digits_digit digits_length search_other length_greater_0_conv [symmetric]
        del: search_groups.simps match_groups.simps length_greater_0_conv)
  have four: "?search False (four_digits y @ post) = ?search True post"
    using search_digits [of "four_digits y" True "[4, 2, 2]" post]
      match_unseparated [of "four_digits y" 4 2 post "[2]", OF _ _ _ free_tail [OF free]]
    by (simp add: digits_digit digits_length length_greater_0_conv [symmetric]
        del: search_groups.simps match_groups.simps length_greater_0_conv)
  show ?thesis
    by (simp only: day_first_date_def prod.case append_assoc append_Cons two [OF sep(1)] two [OF sep(2)] four
        search_digit_free [OF free, of 4] zero_less_numeral)
qed

lemma compact_not_separated:
  assumes free: "list_all (\<lambda>c. \<not> is_digit c) post" and ws: "ws = [2, 2] \<and> w = 4 \<or> ws = [2, 4] \<and> w = 2"
  shows "search_groups True (w # ws) False (compact_date (y, m, d) @ post) = None"
proof -
  let ?ds = "compact_date (y, m, d)"
  have digits: "list_all is_digit ?ds" "?ds \<noteq> []"
    by (simp_all add: compact_date_def digits_digit) (simp add: four_digits_def two_digits_def)
  have hd: "\<not> date_separator (hd (two_digits n @ r))" for n r
    using separators_no_digits [of "digit_char (n div 10)"] by (auto simp: two_digits_def)
  have "match_groups True (4 # 2 # [2]) (four_digits y @ (two_digits m @ two_digits d @ post)) = None"
    using hd by (intro match_unseparated) (simp_all add: digits_digit digits_length)
  moreover have "match_groups True (2 # 2 # [4])
      (two_digits (y div 100) @ (two_digits (y mod 100) @ two_digits m @ two_digits d @ post)) = None"
    using hd by (intro match_unseparated) (simp_all add: digits_digit digits_length)
  ultimately have "match_groups True (w # ws) (?ds @ post) = None"
    using ws by (auto simp: compact_date_def four_digits_def simp del: match_groups.simps)
  then have "search_groups True (w # ws) False (?ds @ post) = search_groups True (w # ws) True post"
    by (rule search_digits [OF digits])
  also have "\<dots> = None" using ws by (intro search_digit_free [OF free]) auto
  finally show ?thesis .
qed

declare search_groups.simps [simp del] match_groups.simps [simp del]

text \<open>
  C39: A valid date written into a file name is read back in each of the three ways the code looks for, when
  no digit comes before it. A date with the year first may be followed by any text that does not continue
  its last number; one with the day first, and one without separators, by text without digits. Any of the
  two separators may stand at either place.
\<close>

theorem filename_date_roundtrip:
  assumes "valid_date y m d" and "list_all (\<lambda>c. \<not> is_digit c) pre" and "date_separator a" and "date_separator b"
  shows "(post = [] \<or> \<not> is_digit (hd post) \<longrightarrow>
      extract_filename_date (pre @ iso_date a b (y, m, d) @ post) = Some (y, m, d))
    \<and> (list_all (\<lambda>c. \<not> is_digit c) post \<longrightarrow>
      extract_filename_date (pre @ day_first_date a b (y, m, d) @ post) = Some (y, m, d)
      \<and> extract_filename_date (pre @ compact_date (y, m, d) @ post) = Some (y, m, d))"
proof -
  have lt: "y < 10000" "m < 100" "d < 100"
    using assms(1) by (auto simp: valid_date_def days_in_month_def split: if_splits)
  have iso: "search_groups True [4, 2, 2] False (pre @ iso_date a b (y, m, d) @ post) = Some [y, m, d]"
    if "post = [] \<or> \<not> is_digit (hd post)"
    by (rule search_skip [OF assms(2) match_iso [OF lt that assms(3,4)]]) simp
  have free: "post = [] \<or> \<not> is_digit (hd post)" if "list_all (\<lambda>c. \<not> is_digit c) post"
    using that by (cases post) simp_all
  have day_first: "search_groups True [2, 2, 4] False (pre @ day_first_date a b (y, m, d) @ post) = Some [d, m, y]"
    if "list_all (\<lambda>c. \<not> is_digit c) post"
    by (rule search_skip [OF assms(2) match_day_first [OF lt free [OF that] assms(3,4)]]) simp
  have compact: "search_groups False [4, 2, 2] False (pre @ compact_date (y, m, d) @ post) = Some [y, m, d]"
    if "list_all (\<lambda>c. \<not> is_digit c) post"
    by (rule search_skip [OF assms(2) match_compact [OF lt free [OF that]]]) simp
  show ?thesis
    using assms(1) iso day_first compact
    by (simp add: extract_filename_date_def filename_patterns_def search_prefix [OF assms(2)]
        day_first_not_iso assms(3,4) compact_not_separated)
qed

text \<open>The date reported for any file name is one of the calendar.\<close>

lemma first_date_valid: "first_date ps s = Some (y, m, d) \<Longrightarrow> valid_date y m d"
proof (induction ps s rule: first_date.induct)
  case (2 sep ws ymd ps s)
  then show ?case by (auto simp: Let_def split: option.splits list.splits if_splits prod.splits)
qed simp


section \<open>Witnesses\<close>

definition demo_series :: series_ops where
  "demo_series = \<lparr>strip_chars = py_strip,
     strptime = (\<lambda>s fmt. if fmt = ''n'' \<and> py_isdigit s then Some (int (digits_value s) * 1000000) else None),
     replace_time_zone = (\<lambda>zone w. if zone = ''UTC'' then Some w else None),
     series_median = hd, series_p95 = last\<rparr>"

definition demo_cells :: "string option list" where
  "demo_cells = [Some '' 70 '', None, Some ''later'', Some ''10'', Some '' '', Some ''10'']"

lemma demo_analysis:
  "case analyse_event_time demo_series (\<lambda>_. Some (fixed_zone 0)) demo_cells ''at'' [''q'', ''n''] ''UTC'' of
     Inl _ \<Rightarrow> False
   | Inr a \<Rightarrow> chosen_format a = Some ''n'' \<and> parsed_count a = 3 \<and> null_count a = 2 \<and>
       row_event_times a = [Some 70000000, None, None, Some 10000000, None, Some 10000000] \<and>
       unique_timestamps a = [10000000, 70000000]"
  by code_simp

theorem format_choice_witness:
  "\<exists>a. analyse_event_time demo_series (\<lambda>_. Some (fixed_zone 0)) demo_cells ''at'' [''q'', ''n''] ''UTC'' = Inr a \<and>
       parsed_count a = 3 \<and> null_count a = 2 \<and> null_count a + parsed_count a + failed_count a = total_values a"
  using demo_analysis
  by (auto split: sum.splits dest: format_choice)

theorem event_times_aligned_witness:
  "\<exists>a. analyse_event_time demo_series (\<lambda>_. Some (fixed_zone 0)) demo_cells ''at'' [''q'', ''n''] ''UTC'' = Inr a \<and>
       unique_timestamps a = [10000000, 70000000] \<and> length (row_event_times a) = length demo_cells \<and>
       set (unique_timestamps a) = {t. Some t \<in> set (row_event_times a)}"
  using demo_analysis
  by (auto split: sum.splits dest: event_times_aligned)

lemma demo_date:
  "valid_date 2024 2 29" "list_all (\<lambda>c. \<not> is_digit c) ''charger_''"
  "date_separator (CHR ''-'')" "date_separator (CHR ''_'')" "list_all (\<lambda>c. \<not> is_digit c) ''.csv''"
  by code_simp+

theorem filename_date_roundtrip_witness:
  "extract_filename_date (''charger_'' @ iso_date CHR ''-'' CHR ''_'' (2024, 2, 29) @ ''_v2.csv'') = Some (2024, 2, 29)
   \<and> extract_filename_date (''charger_'' @ day_first_date CHR ''-'' CHR ''_'' (2024, 2, 29) @ ''.csv'') = Some (2024, 2, 29)
   \<and> extract_filename_date (''charger_'' @ compact_date (2024, 2, 29) @ ''.csv'') = Some (2024, 2, 29)"
  using filename_date_roundtrip [OF demo_date(1-4), of "''_v2.csv''"]
    filename_date_roundtrip [OF demo_date(1-4), of "''.csv''"] demo_date(5)
  by (simp add: is_digit_def)

end
