(* ===== verification/ColumnRoles.thy ===== *)
theory ColumnRoles
  imports Enums
begin

text \<open>
  Which column carries which structural role, \<open>pipelines/profiling/column_roles.py\<close>: the roles
  with their exact names and anchored patterns, the resolution over a header and its lookups.
\<close>

datatype column_role =
    EVENT_TIME | CHARGER_ID | OCPP_ID | CONNECTOR | SMR | RECTIFIER | SESSION_ID

record resolved_column =
  rc_role :: column_role
  rc_canonical_name :: string
  rc_source_name :: string
  rc_position :: nat
  matched_by :: string

record role_resolution =
  resolved :: "(column_role, resolved_column) pydict"
  missing_required :: "column_role list"

definition role_get :: "role_resolution \<Rightarrow> column_role \<Rightarrow> resolved_column option" where
  "role_get r role = map_of (resolved r) role"

definition role_canonical :: "role_resolution \<Rightarrow> column_role \<Rightarrow> string option" where
  "role_canonical r role = map_option rc_canonical_name (map_of (resolved r) role)"

definition is_profilable :: "role_resolution \<Rightarrow> bool" where
  "is_profilable r = (missing_required r = [])"

section \<open>Resolving the roles of a header\<close>

text \<open>
  The patterns are anchored; each is given with its text and, as what it matches, a list of
  alternatives: a concatenation of choices, matched exactly or (for a trailing \<open>.*\<close>) as a prefix.
  Canonical names contain no newline.
\<close>

type_synonym role_pattern = "string \<times> (string list list \<times> bool) list"

fun choices :: "string list list \<Rightarrow> string list" where
  "choices [] = [[]]"
| "choices (ws # rest) = concat (map (\<lambda>w. map ((@) w) (choices rest)) ws)"

definition pattern_words :: "role_pattern \<Rightarrow> (string \<times> bool) list" where
  "pattern_words p = concat (map (\<lambda>(parts, is_open). map (\<lambda>w. (w, is_open)) (choices parts)) (snd p))"

definition pattern_matches :: "role_pattern \<Rightarrow> string \<Rightarrow> bool" where
  "pattern_matches p name =
     list_ex (\<lambda>(w, is_open). if is_open then starts_with w name else name = w) (pattern_words p)"

record role_spec =
  rs_exact :: "string list"
  rs_patterns :: "role_pattern list"
  rs_required :: bool

definition number_suffix :: "string list" where
  "number_suffix = [] # choices [[[], ''_''], [''no'', ''num'', ''number'', ''id'', ''index'']]"

definition ROLE_SPECS :: "(column_role \<times> role_spec) list" where
  "ROLE_SPECS =
     [(EVENT_TIME,
       \<lparr>rs_exact = [''event_time'', ''event_timestamp'', ''event_date_time'', ''log_time'', ''log_timestamp'',
                    ''logged_at_time'', ''logged_time'', ''timestamp'', ''date_time''],
        rs_patterns =
          [(''^event_?time.*$'', [([[''event''], [[], ''_''], [''time'']], True)]),
           (''^log_?time.*$'', [([[''log''], [[], ''_''], [''time'']], True)]),
           (''^log(ged)?_?(at_)?time.*$'', [([[''log''], [[], ''ged''], [[], ''_''], [[], ''at_''], [''time'']], True)]),
           (''^date_?time$'', [([[''date''], [[], ''_''], [''time'']], False)]),
           (''^time_?stamp$'', [([[''time''], [[], ''_''], [''stamp'']], False)])],
        rs_required = True\<rparr>),
      (CHARGER_ID,
       \<lparr>rs_exact = [''charger_id'', ''charger_serial_number'', ''charge_point_id'', ''chargepoint_id'', ''cp_id'',
                    ''charger_serial''],
        rs_patterns =
          [(''^charger_?(id|serial.*)$'',
            [([[''charger''], [[], ''_''], [''id'']], False), ([[''charger''], [[], ''_''], [''serial'']], True)]),
           (''^charge_?point_?id$'', [([[''charge''], [[], ''_''], [''point''], [[], ''_''], [''id'']], False)])],
        rs_required = True\<rparr>),
      (OCPP_ID,
       \<lparr>rs_exact = [''ocpp_id'', ''ocpp_identity'', ''charge_box_id'', ''charge_box_identity''],
        rs_patterns =
          [(''^ocpp_?(id|identity)$'', [([[''ocpp''], [[], ''_''], [''id'', ''identity'']], False)]),
           (''^charge_?box_?id.*$'', [([[''charge''], [[], ''_''], [''box''], [[], ''_''], [''id'']], True)])],
        rs_required = False\<rparr>),
      (CONNECTOR,
       \<lparr>rs_exact = [''connector_no'', ''connector_number'', ''connector_id'', ''connector'', ''connector_index''],
        rs_patterns = [(''^connector(_?(no|num|number|id|index))?$'', [([[''connector''], number_suffix], False)])],
        rs_required = True\<rparr>),
      (SMR,
       \<lparr>rs_exact = [''smr_no'', ''smr_number'', ''smr_id'', ''smr'', ''smr_index'', ''module_no''],
        rs_patterns = [(''^smr(_?(no|num|number|id|index))?$'', [([[''smr''], number_suffix], False)])],
        rs_required = True\<rparr>),
      (RECTIFIER,
       \<lparr>rs_exact = [''rectifier_number'', ''rectifier_no'', ''rectifier_id'', ''rectifier''],
        rs_patterns = [(''^rectifier(_?(no|num|number|id|index))?$'', [([[''rectifier''], number_suffix], False)])],
        rs_required = False\<rparr>),
      (SESSION_ID,
       \<lparr>rs_exact = [''session_id'', ''transaction_id'', ''charging_session_id'', ''txn_id''],
        rs_patterns =
          [(''^(charging_)?session_?id$'', [([[[], ''charging_''], [''session''], [[], ''_''], [''id'']], False)]),
           (''^transaction_?id$'', [([[''transaction''], [[], ''_''], [''id'']], False)])],
        rs_required = False\<rparr>)]"

text \<open>\<open>lookup.setdefault(name, position)\<close> over the names: the first position of a name.\<close>

fun first_position :: "string list \<Rightarrow> string \<Rightarrow> nat option" where
  "first_position [] name = None"
| "first_position (n # ns) name = (if n = name then Some 0 else map_option Suc (first_position ns name))"

definition column_at :: "string list \<Rightarrow> column_role \<Rightarrow> string \<Rightarrow> nat \<Rightarrow> string \<Rightarrow> resolved_column" where
  "column_at sources role name pos by_what =
     \<lparr>rc_role = role, rc_canonical_name = name, rc_source_name = sources ! pos, rc_position = pos, matched_by = by_what\<rparr>"

fun exact_match :: "string list \<Rightarrow> string list \<Rightarrow> (string \<times> nat) option" where
  "exact_match names [] = None"
| "exact_match names (candidate # cs) =
     (case first_position names candidate of Some pos \<Rightarrow> Some (candidate, pos) | None \<Rightarrow> exact_match names cs)"

text \<open>\<open>min(hits)\<close>: the hit of the smallest position.\<close>

fun pattern_hit :: "role_pattern \<Rightarrow> nat \<Rightarrow> string list \<Rightarrow> (nat \<times> string) option" where
  "pattern_hit p pos [] = None"
| "pattern_hit p pos (n # ns) = (if pattern_matches p n then Some (pos, n) else pattern_hit p (Suc pos) ns)"

fun pattern_match :: "string list \<Rightarrow> role_pattern list \<Rightarrow> (string \<times> nat \<times> string) option" where
  "pattern_match names [] = None"
| "pattern_match names (p # ps) =
     (case pattern_hit p 0 names of Some (pos, n) \<Rightarrow> Some (n, pos, fst p) | None \<Rightarrow> pattern_match names ps)"

definition role_match :: "string list \<Rightarrow> string list \<Rightarrow> column_role \<Rightarrow> role_spec \<Rightarrow> resolved_column option" where
  "role_match names sources role spec =
     (case exact_match names (rs_exact spec) of
        Some (name, pos) \<Rightarrow> Some (column_at sources role name pos ''exact'')
      | None \<Rightarrow>
     (case pattern_match names (rs_patterns spec) of
        Some (name, pos, text) \<Rightarrow> Some (column_at sources role name pos (''pattern:'' @ text))
      | None \<Rightarrow> None))"

definition role_step ::
    "string list \<Rightarrow> string list \<Rightarrow> role_resolution \<Rightarrow> column_role \<times> role_spec \<Rightarrow> role_resolution" where
  "role_step names sources r = (\<lambda>(role, spec).
     (case role_match names sources role spec of
        Some c \<Rightarrow> r\<lparr>resolved := resolved r @ [(role, c)]\<rparr>
      | None \<Rightarrow> if rs_required spec then r\<lparr>missing_required := missing_required r @ [role]\<rparr> else r))"

definition resolve_roles :: "string list \<Rightarrow> string list option \<Rightarrow> role_resolution" where
  "resolve_roles names source_names =
     (let sources = (case source_names of None \<Rightarrow> names | Some ss \<Rightarrow> ss)
      in foldl (role_step names sources) \<lparr>resolved = [], missing_required = []\<rparr> ROLE_SPECS)"

section \<open>What a resolution says\<close>

text \<open>The names a role accepts, and the words it recognises them by.\<close>

definition role_accepts :: "role_spec \<Rightarrow> string \<Rightarrow> bool" where
  "role_accepts spec name = (name \<in> set (rs_exact spec) \<or> list_ex (\<lambda>p. pattern_matches p name) (rs_patterns spec))"

definition role_words :: "role_spec \<Rightarrow> string list" where
  "role_words spec = rs_exact spec @ concat (map (map fst \<circ> pattern_words) (rs_patterns spec))"

fun clash_free :: "string list list \<Rightarrow> bool" where
  "clash_free [] = True"
| "clash_free (ws # rest) =
     (list_all (\<lambda>vs. list_all (\<lambda>w. list_all (\<lambda>v. \<not> starts_with w v \<and> \<not> starts_with v w) vs) ws) rest \<and> clash_free rest)"

lemma roles_clash_free: "clash_free (map (role_words \<circ> snd) ROLE_SPECS)"
  by code_simp

lemma role_accepts_word:
  assumes "role_accepts spec name"
  shows "\<exists>w\<in>set (role_words spec). starts_with w name"
proof -
  have self: "starts_with name name" by (simp add: starts_with_iff)
  from assms consider "name \<in> set (rs_exact spec)"
    | p w b where "p \<in> set (rs_patterns spec)" "(w, b) \<in> set (pattern_words p)" "if b then starts_with w name else name = w"
    by (force simp: role_accepts_def pattern_matches_def list_ex_iff)
  then show ?thesis
  proof cases
    case 1
    then show ?thesis using self by (auto simp: role_words_def)
  next
    case 2
    then have "w \<in> set (role_words spec)" by (force simp: role_words_def)
    then show ?thesis using 2(3) self by (cases b) auto
  qed
qed

lemma starts_with_comparable:
  "starts_with w name \<Longrightarrow> starts_with v name \<Longrightarrow> starts_with w v \<or> starts_with v w"
  unfolding starts_with_iff by (metis append_eq_append_conv2)

lemma clash_freeD:
  assumes "clash_free (map f xs)" and "i < j" and "j < length xs" and "w \<in> set (f (xs ! i))" and "v \<in> set (f (xs ! j))"
  shows "\<not> starts_with w v \<and> \<not> starts_with v w"
  using assms
proof (induction xs arbitrary: i j)
  case (Cons x xs)
  then obtain j' where j: "j = Suc j'" by (cases j) auto
  show ?case
  proof (cases i)
    case 0
    have "f (xs ! j') \<in> set (map f xs)" using Cons.prems(3) j by simp
    then show ?thesis using Cons.prems(1,4,5) 0 j by (auto simp: list_all_iff)
  next
    case (Suc i')
    then show ?thesis using Cons.IH [of i' j'] Cons.prems j by simp
  qed
qed simp

lemma first_position_Some:
  "first_position ns n = Some p \<Longrightarrow> p < length ns \<and> ns ! p = n \<and> n \<notin> set (take p ns)"
  by (induction ns arbitrary: p) (auto split: if_splits)

lemma first_position_None: "first_position ns n = None \<longleftrightarrow> n \<notin> set ns"
  by (induction ns) auto

lemma pattern_hit_Some:
  "pattern_hit p k ns = Some (q, n) \<Longrightarrow>
     k \<le> q \<and> q - k < length ns \<and> ns ! (q - k) = n \<and> pattern_matches p n \<and> n \<notin> set (take (q - k) ns)"
proof (induction ns arbitrary: k)
  case (Cons m ns)
  show ?case
  proof (cases "pattern_matches p m")
    case False
    then have "pattern_hit p (Suc k) ns = Some (q, n)" using Cons.prems by simp
    note IH = Cons.IH [OF this]
    then have q: "q - k = Suc (q - Suc k)" by linarith
    show ?thesis using False IH unfolding q by auto
  qed (use Cons.prems in auto)
qed simp

lemma pattern_hit_None: "pattern_hit p k ns = None \<longleftrightarrow> (\<forall>n\<in>set ns. \<not> pattern_matches p n)"
  by (induction ns arbitrary: k) auto

lemma exact_match_Some:
  "exact_match ns cs = Some (n, p) \<Longrightarrow> n \<in> set cs \<and> p < length ns \<and> ns ! p = n \<and> n \<notin> set (take p ns)"
  by (induction cs) (auto split: option.splits dest: first_position_Some)

lemma exact_match_None: "exact_match ns cs = None \<longleftrightarrow> set ns \<inter> set cs = {}"
  by (induction cs) (auto simp: first_position_None split: option.splits dest: first_position_Some)

lemma pattern_match_Some:
  assumes "pattern_match ns ps = Some (n, q, pat)"
  shows "q < length ns \<and> ns ! q = n \<and> n \<notin> set (take q ns) \<and> list_ex (\<lambda>p. pattern_matches p n) ps"
  using assms
proof (induction ps)
  case (Cons p ps)
  show ?case
  proof (cases "pattern_hit p 0 ns")
    case None
    then show ?thesis using Cons by simp
  next
    case (Some h)
    then have "pattern_hit p 0 ns = Some (q, n)" using Cons.prems by (auto split: prod.splits)
    from pattern_hit_Some [OF this] show ?thesis by simp
  qed
qed simp

lemma pattern_match_None:
  "pattern_match ns ps = None \<longleftrightarrow> (\<forall>n\<in>set ns. \<not> list_ex (\<lambda>p. pattern_matches p n) ps)"
proof (induction ps)
  case (Cons p ps)
  then show ?case using pattern_hit_None [of p 0 ns] by (cases "pattern_hit p 0 ns") auto
qed simp

lemma role_match_Some:
  assumes "role_match ns ss role spec = Some c"
  shows "rc_role c = role \<and> rc_position c < length ns \<and> ns ! rc_position c = rc_canonical_name c
    \<and> rc_canonical_name c \<notin> set (take (rc_position c) ns) \<and> role_accepts spec (rc_canonical_name c)
    \<and> rc_source_name c = ss ! rc_position c"
proof (cases "exact_match ns (rs_exact spec)")
  case None
  then obtain n q pat where "pattern_match ns (rs_patterns spec) = Some (n, q, pat)"
      "c = column_at ss role n q (''pattern:'' @ pat)"
    using assms by (auto simp: role_match_def split: option.splits prod.splits)
  then show ?thesis using pattern_match_Some by (fastforce simp: column_at_def role_accepts_def)
next
  case (Some e)
  then show ?thesis using assms exact_match_Some
    by (fastforce simp: role_match_def column_at_def role_accepts_def split: prod.splits)
qed

lemma role_match_None:
  "role_match ns ss role spec = None \<longleftrightarrow> (\<forall>n\<in>set ns. \<not> role_accepts spec n)"
proof -
  have "role_match ns ss role spec = None \<longleftrightarrow>
      exact_match ns (rs_exact spec) = None \<and> pattern_match ns (rs_patterns spec) = None"
    by (auto simp: role_match_def split: option.splits)
  then show ?thesis unfolding exact_match_None pattern_match_None role_accepts_def by blast
qed

lemma role_fold:
  "resolved (foldl (role_step ns ss) r specs) = resolved r @
     concat (map (\<lambda>(role, spec). case role_match ns ss role spec of Some c \<Rightarrow> [(role, c)] | None \<Rightarrow> []) specs) \<and>
   missing_required (foldl (role_step ns ss) r specs) = missing_required r @
     concat (map (\<lambda>(role, spec). if role_match ns ss role spec = None \<and> rs_required spec then [role] else []) specs)"
  by (induction specs arbitrary: r) (auto simp: role_step_def split: option.splits prod.splits)

lemmas role_folds = role_fold [THEN conjunct1] role_fold [THEN conjunct2]

lemma resolve_roles_mem:
  "(role, c) \<in> set (resolved (resolve_roles ns ss)) \<longleftrightarrow>
     (\<exists>spec. (role, spec) \<in> set ROLE_SPECS \<and> role_match ns (case ss of None \<Rightarrow> ns | Some s \<Rightarrow> s) role spec = Some c)"
  unfolding resolve_roles_def Let_def role_folds by (force split: option.splits)

lemma resolve_roles_missing:
  "role \<in> set (missing_required (resolve_roles ns ss)) \<longleftrightarrow>
     (\<exists>spec. (role, spec) \<in> set ROLE_SPECS \<and> rs_required spec \<and> (\<forall>n\<in>set ns. \<not> role_accepts spec n))"
  unfolding resolve_roles_def Let_def role_folds role_match_None by (auto split: if_splits)

text \<open>
  Structural columns are located unambiguously. Every resolved role names a column of the header, the
  first one of that name, which the role accepts; no column carries two roles; and a required role
  is reported missing exactly when the header has no column it accepts.
\<close>

theorem roles_unambiguous:
  "(\<forall>role c. (role, c) \<in> set (resolved (resolve_roles ns ss)) \<longrightarrow>
      rc_position c < length ns \<and> ns ! rc_position c = rc_canonical_name c
      \<and> rc_canonical_name c \<notin> set (take (rc_position c) ns)
      \<and> (\<exists>spec. (role, spec) \<in> set ROLE_SPECS \<and> role_accepts spec (rc_canonical_name c))) \<and>
   (\<forall>role c role' c'. (role, c) \<in> set (resolved (resolve_roles ns ss)) \<longrightarrow>
      (role', c') \<in> set (resolved (resolve_roles ns ss)) \<longrightarrow> rc_position c = rc_position c' \<longrightarrow> role = role') \<and>
   (\<forall>role spec. (role, spec) \<in> set ROLE_SPECS \<longrightarrow>
      (role \<in> set (missing_required (resolve_roles ns ss)) \<longleftrightarrow>
        rs_required spec \<and> (\<forall>n\<in>set ns. \<not> role_accepts spec n)))"
proof (intro conjI allI impI)
  let ?r = "resolve_roles ns ss"
  fix role c assume c: "(role, c) \<in> set (resolved ?r)"
  then obtain spec where e: "(role, spec) \<in> set ROLE_SPECS"
      and m: "role_match ns (case ss of None \<Rightarrow> ns | Some s \<Rightarrow> s) role spec = Some c"
    by (auto simp: resolve_roles_mem)
  note f = role_match_Some [OF m]
  show "rc_position c < length ns" "ns ! rc_position c = rc_canonical_name c"
    "rc_canonical_name c \<notin> set (take (rc_position c) ns)" using f by blast+
  show "\<exists>spec. (role, spec) \<in> set ROLE_SPECS \<and> role_accepts spec (rc_canonical_name c)" using e f by blast
  show "role = role'" if c': "(role', c') \<in> set (resolved ?r)" and pos: "rc_position c = rc_position c'" for role' c'
  proof -
    obtain spec' where spec': "(role', spec') \<in> set ROLE_SPECS"
      and m': "role_match ns (case ss of None \<Rightarrow> ns | Some s \<Rightarrow> s) role' spec' = Some c'"
      using c' by (auto simp: resolve_roles_mem)
    have name: "rc_canonical_name c' = rc_canonical_name c" using role_match_Some [OF m] role_match_Some [OF m'] pos by metis
    obtain w w' where w: "w \<in> set (role_words spec)" "starts_with w (rc_canonical_name c)"
        "w' \<in> set (role_words spec')" "starts_with w' (rc_canonical_name c)"
      using role_match_Some [OF m] role_match_Some [OF m'] role_accepts_word name by metis
    obtain i j where ij: "i < length ROLE_SPECS" "ROLE_SPECS ! i = (role, spec)" "j < length ROLE_SPECS" "ROLE_SPECS ! j = (role', spec')"
      using e spec' by (metis in_set_conv_nth)
    have "i = j"
    proof (rule ccontr)
      assume "i \<noteq> j"
      then have "\<not> starts_with w w' \<and> \<not> starts_with w' w"
        using clash_freeD [OF roles_clash_free, of i j w w'] clash_freeD [OF roles_clash_free, of j i w' w] ij w
        by (cases i j rule: linorder_cases) simp_all
      then show False using starts_with_comparable [OF w(2,4)] by blast
    qed
    then show ?thesis using ij by simp
  qed
next
  fix role spec assume s: "(role, spec) \<in> set ROLE_SPECS"
  have "distinct (map fst ROLE_SPECS)" by (simp add: ROLE_SPECS_def)
  then have "spec' = spec" if "(role, spec') \<in> set ROLE_SPECS" for spec' using that s by (metis eq_key_imp_eq_value)
  then show "role \<in> set (missing_required (resolve_roles ns ss)) \<longleftrightarrow>
        rs_required spec \<and> (\<forall>n\<in>set ns. \<not> role_accepts spec n)"
    unfolding resolve_roles_missing using s by metis
qed

definition role_demo_names :: "string list" where
  "role_demo_names = [''x'', ''log_time_utc'', ''charger_id'', ''connectorno'', ''module_no'', ''connector_no'']"

theorem roles_unambiguous_witness:
  "map (\<lambda>(role, c). (role, rc_position c)) (resolved (resolve_roles role_demo_names None))
     = [(EVENT_TIME, 1), (CHARGER_ID, 2), (CONNECTOR, 5), (SMR, 4)]
   \<and> missing_required (resolve_roles role_demo_names None) = []
   \<and> (\<exists>c. (CHARGER_ID, c) \<in> set (resolved (resolve_roles role_demo_names None)) \<and> rc_position c = 2
         \<and> rc_canonical_name c = role_demo_names ! 2 \<and> rc_canonical_name c \<notin> set (take 2 role_demo_names))"
proof -
  let ?r = "resolve_roles role_demo_names None"
  have roles: "map (\<lambda>(role, c). (role, rc_position c)) (resolved ?r)
     = [(EVENT_TIME, 1), (CHARGER_ID, 2), (CONNECTOR, 5), (SMR, 4)]
   \<and> missing_required ?r = []" by code_simp
  then have "(CHARGER_ID, 2) \<in> set (map (\<lambda>(role, c). (role, rc_position c)) (resolved ?r))" by simp
  then obtain c where c: "(CHARGER_ID, c) \<in> set (resolved ?r)" "rc_position c = 2" by auto
  then have "role_demo_names ! 2 = rc_canonical_name c" "rc_canonical_name c \<notin> set (take 2 role_demo_names)"
    using roles_unambiguous [of role_demo_names None] by metis+
  then show ?thesis using roles c by metis
qed

end
