(* ===== verification/Profile.thy ===== *)
theory Profile
  imports Headers EventTime ColumnRoles
begin

text \<open>
  The structured result of profiling a file, \<open>pipelines/profiling/profiler.py\<close>: the values the
  quality engine and the day split read. The statistics themselves are computed by Polars over
  the whole frame and are not modelled; the assembly of a field's profile from them is.
\<close>

record field_profile =
  fp_position :: nat
  fp_source_name :: string
  fp_source_occurrence :: nat
  fp_canonical_name :: string
  fp_null_count :: nat
  null_percentage :: pyfloat
  fp_unique_count :: nat
  variability :: variability_class
  min_value :: "string option"
  max_value :: "string option"
  numeric_valid_count :: "nat option"
  mean_value :: "pyfloat option"
  median_value :: "pyfloat option"
  stddev_value :: "pyfloat option"
  example_values :: "string list"
  observed_values :: "string list option"
  sentinel_hits :: "(string, nat) pydict"

definition fp_is_numeric :: "field_profile \<Rightarrow> bool" where
  "fp_is_numeric f = (case numeric_valid_count f of None \<Rightarrow> False | Some n \<Rightarrow> n > 0)"

definition sentinel_hit_count :: "field_profile \<Rightarrow> nat" where
  "sentinel_hit_count f = sum_list (dict_values (sentinel_hits f))"

record duplicate_analysis =
  da_exact_duplicate_rows :: nat
  rows_participating_in_duplicates :: nat
  logical_key_groups :: nat
  da_logical_collision_groups :: nat
  conflicting_logical_groups :: nat
  max_rows_per_logical_key :: nat
  rows_per_timestamp :: "(nat, nat) pydict"
  da_duplicate_timestamp_count :: nat

definition has_collisions :: "duplicate_analysis \<Rightarrow> bool" where
  "has_collisions d = (da_logical_collision_groups d > 0)"

record file_profile =
  row_count :: nat
  column_count :: nat
  profile_header :: header_result
  profile_roles :: role_resolution
  profile_timestamps :: timestamp_analysis
  duplicates :: duplicate_analysis
  profile_fields :: "field_profile list"
  charger_ids :: "(string, nat) pydict"
  ocpp_ids :: "(string, nat) pydict"
  profile_connectors :: "(string, nat) pydict"
  profile_smrs :: "(string, nat) pydict"
  session_ids :: "(string, nat) pydict"

definition empty_fields :: "file_profile \<Rightarrow> field_profile list" where
  "empty_fields p = filter (\<lambda>f. variability f = ALL_NULL_IN_SAMPLE) (profile_fields p)"

definition constant_fields :: "file_profile \<Rightarrow> field_profile list" where
  "constant_fields p = filter (\<lambda>f. variability f = CONSTANT_IN_SAMPLE) (profile_fields p)"

definition varying_fields :: "file_profile \<Rightarrow> field_profile list" where
  "varying_fields p = filter (\<lambda>f. variability f = VARIABLE_IN_SAMPLE) (profile_fields p)"

definition connector_count :: "file_profile \<Rightarrow> nat" where
  "connector_count p = length (profile_connectors p)"

definition smr_count :: "file_profile \<Rightarrow> nat" where
  "smr_count p = length (profile_smrs p)"

definition field_by_canonical :: "file_profile \<Rightarrow> string \<Rightarrow> field_profile option" where
  "field_by_canonical p name = find (\<lambda>f. fp_canonical_name f = name) (profile_fields p)"

section \<open>One field's profile\<close>

definition MAX_OBSERVED_VALUES :: nat where
  "MAX_OBSERVED_VALUES = 50"

definition MAX_EXAMPLE_VALUES :: nat where
  "MAX_EXAMPLE_VALUES = 5"

definition NUMERIC_DOMINANCE_THRESHOLD :: pyfloat where
  "NUMERIC_DOMINANCE_THRESHOLD = 95 / 100"

text \<open>
  The distinct values of all columns with their frequencies, most frequent first, are one stream;
  per column the loop keeps the first fifty, the number of distinct values and the sentinels.
\<close>

record column_tally =
  per_column_values :: "(string, (string \<times> nat) list) pydict"
  unique_counts :: "(string, nat) pydict"
  sentinel_lookup :: "(string, (string, nat) pydict) pydict"

definition tally_value :: "string list \<Rightarrow> column_tally \<Rightarrow> string \<times> string \<times> nat \<Rightarrow> column_tally" where
  "tally_value sentinels t = (\<lambda>(col, val, n).
     (let bucket = dict_get (per_column_values t) col []
      in \<lparr>per_column_values =
            AList.update col (if length bucket < MAX_OBSERVED_VALUES then bucket @ [(val, n)] else bucket)
              (per_column_values t),
          unique_counts = bump (unique_counts t) col,
          sentinel_lookup =
            (if val \<in> set sentinels
             then AList.update col (AList.update val n (dict_get (sentinel_lookup t) col [])) (sentinel_lookup t)
             else sentinel_lookup t)\<rparr>))"

definition tally_values :: "string list \<Rightarrow> (string \<times> string \<times> nat) list \<Rightarrow> column_tally" where
  "tally_values sentinels vals =
     foldl (tally_value sentinels) \<lparr>per_column_values = [], unique_counts = [], sentinel_lookup = []\<rparr> vals"

text \<open>What Polars computes for one column: nulls, castable values and the aggregates.\<close>

record column_stats =
  cs_nulls :: nat
  cs_numeric_valid :: nat
  numeric_min :: "string option"
  numeric_max :: "string option"
  numeric_mean :: "pyfloat option"
  numeric_median :: "pyfloat option"
  numeric_std :: "pyfloat option"
  text_min :: "string option"
  text_max :: "string option"

definition classify_variability :: "nat \<Rightarrow> nat \<Rightarrow> nat \<Rightarrow> variability_class" where
  "classify_variability rows nulls uniques =
     (if nulls \<ge> rows then ALL_NULL_IN_SAMPLE
      else if uniques \<le> 1 then CONSTANT_IN_SAMPLE
      else VARIABLE_IN_SAMPLE)"

definition profile_field ::
    "nat \<Rightarrow> column_tally \<Rightarrow> string \<Rightarrow> column_stats \<Rightarrow> raw_header_field \<Rightarrow> field_profile" where
  "profile_field rows t column s h =
     (let uniques = dict_get (unique_counts t) column 0;
          non_null = int rows - int (cs_nulls s);
          treat_numeric = (non_null > 0 \<and>
             of_nat (cs_numeric_valid s) / of_int non_null \<ge> NUMERIC_DOMINANCE_THRESHOLD);
          ranked = dict_get (per_column_values t) column []
      in \<lparr>fp_position = hf_position h, fp_source_name = hf_source_name h,
          fp_source_occurrence = hf_source_occurrence h, fp_canonical_name = hf_canonical_name h,
          fp_null_count = cs_nulls s,
          null_percentage = py_round 3 (if rows = 0 then 0 else of_nat (cs_nulls s) / of_nat rows * 100),
          fp_unique_count = uniques, variability = classify_variability rows (cs_nulls s) uniques,
          min_value = (if treat_numeric then numeric_min s else text_min s),
          max_value = (if treat_numeric then numeric_max s else text_max s),
          numeric_valid_count = (if treat_numeric then Some (cs_numeric_valid s) else None),
          mean_value = (if treat_numeric then numeric_mean s else None),
          median_value = (if treat_numeric then numeric_median s else None),
          stddev_value = (if treat_numeric then numeric_std s else None),
          example_values = map fst (take MAX_EXAMPLE_VALUES ranked),
          observed_values =
            (if 0 < uniques \<and> uniques \<le> MAX_OBSERVED_VALUES then Some (map fst ranked) else None),
          sentinel_hits = dict_get (sentinel_lookup t) column []\<rparr>)"

text \<open>The analysis reported when the event-time column is not found.\<close>

definition unresolved_timestamps :: "string option \<Rightarrow> nat \<Rightarrow> string \<Rightarrow> timestamp_analysis" where
  "unresolved_timestamps event_column rows zone =
     unparsed_analysis (case event_column of None \<Rightarrow> ''<unresolved>''
                        | Some c \<Rightarrow> if c = [] then ''<unresolved>'' else c) rows rows zone"

text \<open>
  The stream of distinct values of one column is kept in full exactly when its values are
  reported as the observed ones.
\<close>

lemma tally_column:
  "dict_get (unique_counts (tally_values sentinels vals)) col 0 = length (filter (\<lambda>v. fst v = col) vals) \<and>
   dict_get (per_column_values (tally_values sentinels vals)) col [] =
     take MAX_OBSERVED_VALUES (map snd (filter (\<lambda>v. fst v = col) vals))"
proof (induction vals rule: rev_induct)
  case Nil
  then show ?case by (simp add: tally_values_def dict_simps)
next
  case (snoc v vals)
  obtain c x n where v: "v = (c, x, n)" by (cases v) auto
  show ?case
    using snoc by (auto simp: tally_values_def tally_value_def v Let_def bump_def dict_simps)
qed

lemma observed_values_complete:
  assumes "observed_values (profile_field rows (tally_values sentinels vals) col s h) = Some xs"
  shows "xs = map (fst \<circ> snd) (filter (\<lambda>v. fst v = col) vals)"
  using assms tally_column [of sentinels vals col]
  by (auto simp: profile_field_def Let_def split: if_splits)

lemma sentinel_hits_mem:
  "(val, n) \<in> set (dict_get (sentinel_lookup (tally_values sentinels vals)) col []) \<Longrightarrow>
     val \<in> set sentinels \<and> (col, val, n) \<in> set vals"
proof (induction vals arbitrary: val n rule: rev_induct)
  case Nil
  then show ?case by (simp add: tally_values_def dict_simps)
next
  case (snoc v vals)
  obtain c x m where v: "v = (c, x, m)" by (cases v) auto
  have upd: "(val, n) \<in> set (AList.update x m d) \<Longrightarrow> (val, n) = (x, m) \<or> (val, n) \<in> set d" for d
    by (induction d) (auto split: if_splits)
  show ?case
    using snoc.prems snoc.IH upd
    by (auto simp: tally_values_def tally_value_def v Let_def dict_simps split: if_splits)
qed

end
