(* ===== verification/FieldEnums.thy ===== *)
theory FieldEnums
  imports Enums
begin

text \<open>
  The enumerations of a field definition, \<open>backend/app/models/enums.py\<close>, and for each the texts of
  its members in declaration order, from which \<open>Enum(text)\<close> picks a member.
\<close>

datatype field_entity =
    FILE | SITE | CHARGER | CONNECTOR | SMR | SESSION | ALARM | CONFIGURATION | UNKNOWN

datatype field_class =
    IDENTIFIER | DIMENSION | CONFIGURATION | CONTINUOUS_TELEMETRY | DISCRETE_TELEMETRY |
    STATE | COUNTER | SESSION_ATTRIBUTE | ALARM_FLAG | FAULT_CODE | TIMESTAMP |
    DERIVED_SOURCE_VALUE | UNKNOWN

datatype field_category =
    IDENTITY | ELECTRICAL_INPUT | ELECTRICAL_OUTPUT | THERMAL | POWER_MODULE | SMR |
    CONNECTOR | GUN | INSULATION | COMMUNICATION | OCPP | CCS | CCU | PLC | CAN | SESSION |
    STATE_MACHINE | CONTACTOR | COOLING | FAN | METER | BATTERY | COUNTER | FAULT | ALARM |
    FIRMWARE | HARDWARE | SYSTEM | UNKNOWN

datatype storage_strategy =
    MASTER_DATA | CONFIGURATION_SNAPSHOT | CHARGER_TELEMETRY | CONNECTOR_TELEMETRY |
    SMR_TELEMETRY | SESSION_OBSERVATION | ALARM_EVENT | COUNTER_TELEMETRY | RAW_ONLY | UNKNOWN

datatype normalization_strategy =
    PASSTHROUGH | CHARGER_SCALAR | PER_CONNECTOR | PER_SMR | PER_SESSION | ALARM_EDGE |
    COUNTER_SNAPSHOT | CONFIG_SNAPSHOT | RAW_RETAIN | UNKNOWN

datatype aggregation_strategy =
    NONE | FIRST | LAST | MIN | MAX | MEAN | MEDIAN | SUM | MODE | ANY_TRUE | COUNT_DISTINCT |
    UNKNOWN

datatype review_status =
    AUTO_CLASSIFIED | ENGINEER_REVIEWED | DOMAIN_REVIEW_REQUIRED | VERIFIED

datatype ml_candidate =
    YES | NO | UNKNOWN

datatype prediction_domain =
    CHARGER_HEALTH | SMR_HEALTH | THERMAL_FAILURE | CONTACTOR_FAILURE | COMMUNICATION_FAILURE |
    INSULATION_FAILURE | CONNECTOR_FAILURE | SESSION_FAILURE

datatype leakage_risk =
    NONE | LOW | MEDIUM | HIGH | UNKNOWN

datatype availability_semantics =
    REAL_TIME | SESSION_START | SESSION_DURING | SESSION_END | POST_EVENT | STATIC | UNKNOWN

datatype range_status =
    VERIFIED | UNVERIFIED | NOT_APPLICABLE

datatype schema_coverage_status =
    COMPLETE | INCOMPLETE

definition field_entity_members :: "(string \<times> field_entity) list" where
  "field_entity_members =
     [(''FILE'', field_entity.FILE), (''SITE'', field_entity.SITE),
      (''CHARGER'', field_entity.CHARGER), (''CONNECTOR'', field_entity.CONNECTOR),
      (''SMR'', field_entity.SMR), (''SESSION'', field_entity.SESSION),
      (''ALARM'', field_entity.ALARM), (''CONFIGURATION'', field_entity.CONFIGURATION),
      (''UNKNOWN'', field_entity.UNKNOWN)]"

definition field_class_members :: "(string \<times> field_class) list" where
  "field_class_members =
     [(''IDENTIFIER'', field_class.IDENTIFIER), (''DIMENSION'', field_class.DIMENSION),
      (''CONFIGURATION'', field_class.CONFIGURATION),
      (''CONTINUOUS_TELEMETRY'', field_class.CONTINUOUS_TELEMETRY),
      (''DISCRETE_TELEMETRY'', field_class.DISCRETE_TELEMETRY), (''STATE'', field_class.STATE),
      (''COUNTER'', field_class.COUNTER),
      (''SESSION_ATTRIBUTE'', field_class.SESSION_ATTRIBUTE),
      (''ALARM_FLAG'', field_class.ALARM_FLAG), (''FAULT_CODE'', field_class.FAULT_CODE),
      (''TIMESTAMP'', field_class.TIMESTAMP),
      (''DERIVED_SOURCE_VALUE'', field_class.DERIVED_SOURCE_VALUE),
      (''UNKNOWN'', field_class.UNKNOWN)]"

definition field_category_members :: "(string \<times> field_category) list" where
  "field_category_members =
     [(''IDENTITY'', field_category.IDENTITY),
      (''ELECTRICAL_INPUT'', field_category.ELECTRICAL_INPUT),
      (''ELECTRICAL_OUTPUT'', field_category.ELECTRICAL_OUTPUT),
      (''THERMAL'', field_category.THERMAL), (''POWER_MODULE'', field_category.POWER_MODULE),
      (''SMR'', field_category.SMR), (''CONNECTOR'', field_category.CONNECTOR),
      (''GUN'', field_category.GUN), (''INSULATION'', field_category.INSULATION),
      (''COMMUNICATION'', field_category.COMMUNICATION), (''OCPP'', field_category.OCPP),
      (''CCS'', field_category.CCS), (''CCU'', field_category.CCU),
      (''PLC'', field_category.PLC), (''CAN'', field_category.CAN),
      (''SESSION'', field_category.SESSION), (''STATE_MACHINE'', field_category.STATE_MACHINE),
      (''CONTACTOR'', field_category.CONTACTOR), (''COOLING'', field_category.COOLING),
      (''FAN'', field_category.FAN), (''METER'', field_category.METER),
      (''BATTERY'', field_category.BATTERY), (''COUNTER'', field_category.COUNTER),
      (''FAULT'', field_category.FAULT), (''ALARM'', field_category.ALARM),
      (''FIRMWARE'', field_category.FIRMWARE), (''HARDWARE'', field_category.HARDWARE),
      (''SYSTEM'', field_category.SYSTEM), (''UNKNOWN'', field_category.UNKNOWN)]"

definition storage_strategy_members :: "(string \<times> storage_strategy) list" where
  "storage_strategy_members =
     [(''MASTER_DATA'', storage_strategy.MASTER_DATA),
      (''CONFIGURATION_SNAPSHOT'', storage_strategy.CONFIGURATION_SNAPSHOT),
      (''CHARGER_TELEMETRY'', storage_strategy.CHARGER_TELEMETRY),
      (''CONNECTOR_TELEMETRY'', storage_strategy.CONNECTOR_TELEMETRY),
      (''SMR_TELEMETRY'', storage_strategy.SMR_TELEMETRY),
      (''SESSION_OBSERVATION'', storage_strategy.SESSION_OBSERVATION),
      (''ALARM_EVENT'', storage_strategy.ALARM_EVENT),
      (''COUNTER_TELEMETRY'', storage_strategy.COUNTER_TELEMETRY),
      (''RAW_ONLY'', storage_strategy.RAW_ONLY), (''UNKNOWN'', storage_strategy.UNKNOWN)]"

definition normalization_strategy_members :: "(string \<times> normalization_strategy) list" where
  "normalization_strategy_members =
     [(''PASSTHROUGH'', normalization_strategy.PASSTHROUGH),
      (''CHARGER_SCALAR'', normalization_strategy.CHARGER_SCALAR),
      (''PER_CONNECTOR'', normalization_strategy.PER_CONNECTOR),
      (''PER_SMR'', normalization_strategy.PER_SMR),
      (''PER_SESSION'', normalization_strategy.PER_SESSION),
      (''ALARM_EDGE'', normalization_strategy.ALARM_EDGE),
      (''COUNTER_SNAPSHOT'', normalization_strategy.COUNTER_SNAPSHOT),
      (''CONFIG_SNAPSHOT'', normalization_strategy.CONFIG_SNAPSHOT),
      (''RAW_RETAIN'', normalization_strategy.RAW_RETAIN),
      (''UNKNOWN'', normalization_strategy.UNKNOWN)]"

definition aggregation_strategy_members :: "(string \<times> aggregation_strategy) list" where
  "aggregation_strategy_members =
     [(''NONE'', aggregation_strategy.NONE), (''FIRST'', aggregation_strategy.FIRST),
      (''LAST'', aggregation_strategy.LAST), (''MIN'', aggregation_strategy.MIN),
      (''MAX'', aggregation_strategy.MAX), (''MEAN'', aggregation_strategy.MEAN),
      (''MEDIAN'', aggregation_strategy.MEDIAN), (''SUM'', aggregation_strategy.SUM),
      (''MODE'', aggregation_strategy.MODE), (''ANY_TRUE'', aggregation_strategy.ANY_TRUE),
      (''COUNT_DISTINCT'', aggregation_strategy.COUNT_DISTINCT),
      (''UNKNOWN'', aggregation_strategy.UNKNOWN)]"

definition review_status_members :: "(string \<times> review_status) list" where
  "review_status_members =
     [(''AUTO_CLASSIFIED'', review_status.AUTO_CLASSIFIED),
      (''ENGINEER_REVIEWED'', review_status.ENGINEER_REVIEWED),
      (''DOMAIN_REVIEW_REQUIRED'', review_status.DOMAIN_REVIEW_REQUIRED),
      (''VERIFIED'', review_status.VERIFIED)]"

definition ml_candidate_members :: "(string \<times> ml_candidate) list" where
  "ml_candidate_members =
     [(''YES'', ml_candidate.YES), (''NO'', ml_candidate.NO),
      (''UNKNOWN'', ml_candidate.UNKNOWN)]"

definition prediction_domain_members :: "(string \<times> prediction_domain) list" where
  "prediction_domain_members =
     [(''charger_health'', prediction_domain.CHARGER_HEALTH),
      (''smr_health'', prediction_domain.SMR_HEALTH),
      (''thermal_failure'', prediction_domain.THERMAL_FAILURE),
      (''contactor_failure'', prediction_domain.CONTACTOR_FAILURE),
      (''communication_failure'', prediction_domain.COMMUNICATION_FAILURE),
      (''insulation_failure'', prediction_domain.INSULATION_FAILURE),
      (''connector_failure'', prediction_domain.CONNECTOR_FAILURE),
      (''session_failure'', prediction_domain.SESSION_FAILURE)]"

definition leakage_risk_members :: "(string \<times> leakage_risk) list" where
  "leakage_risk_members =
     [(''NONE'', leakage_risk.NONE), (''LOW'', leakage_risk.LOW),
      (''MEDIUM'', leakage_risk.MEDIUM), (''HIGH'', leakage_risk.HIGH),
      (''UNKNOWN'', leakage_risk.UNKNOWN)]"

definition availability_semantics_members :: "(string \<times> availability_semantics) list" where
  "availability_semantics_members =
     [(''REAL_TIME'', availability_semantics.REAL_TIME),
      (''SESSION_START'', availability_semantics.SESSION_START),
      (''SESSION_DURING'', availability_semantics.SESSION_DURING),
      (''SESSION_END'', availability_semantics.SESSION_END),
      (''POST_EVENT'', availability_semantics.POST_EVENT),
      (''STATIC'', availability_semantics.STATIC), (''UNKNOWN'', availability_semantics.UNKNOWN)]"

definition range_status_members :: "(string \<times> range_status) list" where
  "range_status_members =
     [(''VERIFIED'', range_status.VERIFIED), (''UNVERIFIED'', range_status.UNVERIFIED),
      (''NOT_APPLICABLE'', range_status.NOT_APPLICABLE)]"

definition canonical_data_type_members :: "(string \<times> canonical_data_type) list" where
  "canonical_data_type_members =
     [(''STRING'', canonical_data_type.STRING), (''INTEGER'', canonical_data_type.INTEGER),
      (''FLOAT'', canonical_data_type.FLOAT), (''BOOLEAN'', canonical_data_type.BOOLEAN),
      (''ENUM'', canonical_data_type.ENUM), (''DATETIME'', canonical_data_type.DATETIME),
      (''DURATION'', canonical_data_type.DURATION),
      (''IDENTIFIER'', canonical_data_type.IDENTIFIER),
      (''UNKNOWN'', canonical_data_type.UNKNOWN)]"

text \<open>\<open>enum_cls(text)\<close>: the member with this value.\<close>

definition enum_of :: "(string \<times> 'e) list \<Rightarrow> string \<Rightarrow> 'e option" where
  "enum_of members text = map_of members text"

end
