(* ===== verification/FrameModel.thy ===== *)
theory FrameModel
  imports Enums
begin

text \<open>
  The value objects of \<open>pipelines/frame_reconstruction/models.py\<close>: logical positions, raw-row
  references, timestamp groups and reconstructed frames, with the properties those classes
  define. Record fields carry a short prefix (\<open>tg_\<close>, \<open>fr_\<close>) where the classes share field
  names. A frozenset is a \<open>set\<close>, a \<open>Mapping\<close> an insertion-ordered dict.
\<close>

type_synonym uuid = nat

section \<open>Logical positions\<close>

text \<open>\<open>LogicalPosition\<close> is declared with \<open>order=True\<close>: it is ordered field by field.\<close>

datatype logical_position = LogicalPosition (connector_id: string) (smr_id: string)

instantiation logical_position :: linorder
begin

definition less_eq_logical_position :: "logical_position \<Rightarrow> logical_position \<Rightarrow> bool" where
  "less_eq_logical_position p q =
     ((connector_id p, smr_id p) \<le> (connector_id q, smr_id q))"

definition less_logical_position :: "logical_position \<Rightarrow> logical_position \<Rightarrow> bool" where
  "less_logical_position p q =
     ((connector_id p, smr_id p) < (connector_id q, smr_id q))"

instance
proof
  fix x y z :: logical_position
  show "(x < y) = (x \<le> y \<and> \<not> y \<le> x)"
    unfolding less_eq_logical_position_def less_logical_position_def by (rule less_le_not_le)
  show "x \<le> x"
    unfolding less_eq_logical_position_def by (rule order_refl)
  show "x \<le> z" if "x \<le> y" and "y \<le> z"
    using that unfolding less_eq_logical_position_def by (rule order_trans)
  show "x = y" if "x \<le> y" and "y \<le> x"
    using that antisym [of "(connector_id x, smr_id x)" "(connector_id y, smr_id y)"]
    unfolding less_eq_logical_position_def by (cases x; cases y) simp
  show "x \<le> y \<or> y \<le> x"
    unfolding less_eq_logical_position_def by (rule linear)
qed

end

definition position_str :: "logical_position \<Rightarrow> string" where
  "position_str p = ''C'' @ connector_id p @ ''/S'' @ smr_id p"

definition position_is_assigned :: "logical_position \<Rightarrow> bool" where
  "position_is_assigned p = (connector_id p \<noteq> [] \<and> smr_id p \<noteq> [])"

definition UNASSIGNED_POSITION :: logical_position where
  "UNASSIGNED_POSITION = LogicalPosition [] []"

section \<open>Rows and groups\<close>

record raw_row_ref =
  telemetry_file_id :: "uuid option"
  source_row_number :: nat
  position :: logical_position
  occurrence_index :: nat
  row_fingerprint :: string
  unassigned :: bool

record timestamp_group =
  tg_charger_id :: string
  tg_event_time :: datetime
  tg_rows :: "raw_row_ref list"
  expected_positions :: "logical_position set"
  occurrences :: "(logical_position, nat) pydict"
  unassigned_rows :: "raw_row_ref list"

definition raw_row_count :: "timestamp_group \<Rightarrow> nat" where
  "raw_row_count g = length (tg_rows g) + length (unassigned_rows g)"

definition observed_positions :: "timestamp_group \<Rightarrow> logical_position set" where
  "observed_positions g = set (dict_keys (occurrences g))"

definition missing_positions :: "timestamp_group \<Rightarrow> logical_position set" where
  "missing_positions g = expected_positions g - observed_positions g"

definition unexpected_positions :: "timestamp_group \<Rightarrow> logical_position set" where
  "unexpected_positions g = observed_positions g - expected_positions g"

definition max_occurrence :: "timestamp_group \<Rightarrow> nat" where
  "max_occurrence g = max_default 0 (dict_values (occurrences g))"

definition is_evenly_occupied :: "timestamp_group \<Rightarrow> bool" where
  "is_evenly_occupied g = (card (set (dict_values (occurrences g))) \<le> 1)"

section \<open>Reconstructed frames\<close>

datatype reconstruction_issue_type =
    FRAME_INCOMPLETE | FRAME_OVERCOMPLETE | FRAME_MISSING_POSITION | FRAME_UNEXPECTED_POSITION
  | AMBIGUOUS_FRAME_BOUNDARY | FULL_FRAME_REPLAY | PARTIAL_FRAME_REPLAY
  | SAME_TIMESTAMP_DISTINCT_FRAME | INCONSISTENT_TOPOLOGY | ENTITY_ID_MISSING
  | UNASSIGNED_RAW_ROW

record reconstructed_frame =
  fr_charger_id :: string
  fr_event_time :: datetime
  frame_sequence :: nat
  fr_rows :: "raw_row_ref list"
  frame_fingerprint :: string
  fr_status :: frame_status
  fr_classification :: duplicate_classification
  expected_position_count :: nat
  observed_position_count :: nat
  missing_position_count :: nat
  unexpected_position_count :: nat
  fr_replay_of_sequence :: "nat option"
  fr_missing_positions :: "logical_position list"
  fr_unexpected_positions :: "logical_position list"
  fr_issues :: "reconstruction_issue_type list"

definition completeness_percentage :: "reconstructed_frame \<Rightarrow> pyfloat" where
  "completeness_percentage f =
     (if expected_position_count f \<le> 0 then 0
      else py_round 3 (100 * of_nat (observed_position_count f) / of_nat (expected_position_count f)))"

definition source_order_min :: "reconstructed_frame \<Rightarrow> nat" where
  "source_order_min f = min_default 0 (map source_row_number (fr_rows f))"

definition source_order_max :: "reconstructed_frame \<Rightarrow> nat" where
  "source_order_max f = max_default 0 (map source_row_number (fr_rows f))"

definition canonical_class :: "duplicate_classification \<Rightarrow> bool" where
  "canonical_class c =
     (c \<in> {UNIQUE, duplicate_classification.SAME_TIMESTAMP_DISTINCT_FRAME})"

definition frame_is_canonical :: "reconstructed_frame \<Rightarrow> bool" where
  "frame_is_canonical f = canonical_class (fr_classification f)"

definition source_file_ids :: "reconstructed_frame \<Rightarrow> uuid option list" where
  "source_file_ids f = py_unique (map telemetry_file_id (fr_rows f))"

definition all_frame_statuses :: "frame_status list" where
  "all_frame_statuses =
     [frame_status.COMPLETE, frame_status.PARTIAL, frame_status.SEVERELY_INCOMPLETE, MALFORMED,
      frame_status.AMBIGUOUS]"

definition all_classifications :: "duplicate_classification list" where
  "all_classifications =
     [UNIQUE, EXACT_ROW_DUPLICATE, duplicate_classification.FULL_FRAME_REPLAY,
      duplicate_classification.PARTIAL_FRAME_REPLAY,
      duplicate_classification.SAME_TIMESTAMP_DISTINCT_FRAME, duplicate_classification.AMBIGUOUS]"

definition summarise_statuses :: "reconstructed_frame list \<Rightarrow> (frame_status, nat) pydict" where
  "summarise_statuses frames =
     foldl (\<lambda>d f. bump d (fr_status f)) (map (\<lambda>s. (s, 0)) all_frame_statuses) frames"

definition summarise_classifications ::
    "reconstructed_frame list \<Rightarrow> (duplicate_classification, nat) pydict" where
  "summarise_classifications frames =
     foldl (\<lambda>d f. bump d (fr_classification f)) (map (\<lambda>c. (c, 0)) all_classifications) frames"

section \<open>Lemmas\<close>

lemma position_eqI: "connector_id p = connector_id q \<Longrightarrow> smr_id p = smr_id q \<Longrightarrow> p = q"
  by (cases p; cases q) simp

text \<open>
  The printed form of a position determines it as soon as no connector id contains a slash.
\<close>

lemma position_str_inj:
  assumes "CHR ''/'' \<notin> set (connector_id p)" and "CHR ''/'' \<notin> set (connector_id q)"
    and "position_str p = position_str q"
  shows "p = q"
proof -
  let ?until = "takeWhile (\<lambda>c. c \<noteq> CHR ''/'')"
  have cut: "?until (connector_id r @ ''/S'' @ smr_id r) = connector_id r"
    if "CHR ''/'' \<notin> set (connector_id r)" for r
    using that by (subst takeWhile_append2) auto
  have eq: "connector_id p @ ''/S'' @ smr_id p = connector_id q @ ''/S'' @ smr_id q"
    using assms(3) by (simp add: position_str_def)
  then have "connector_id p = connector_id q" using cut assms(1,2) by metis
  with eq show ?thesis by (simp add: position_eqI)
qed

interpretation summary_fold: history_fold "\<lambda>d f. bump d (key f)" "map (\<lambda>s. (s, 0)) universe"
  "\<lambda>_. distinct universe"
  "\<lambda>es d. set (dict_keys d) = set universe \<union> key ` set es \<and> distinct (dict_keys d) \<and>
          (\<forall>s. dict_get d s 0 = count_list (map key es) s)" for key universe
proof unfold_locales
  have "map_of (map (\<lambda>s. (s, 0::nat)) universe) s = (if s \<in> set universe then Some 0 else None)" for s
    by (induction universe) auto
  then have "dict_get (map (\<lambda>s. (s, 0::nat)) universe) s 0 = 0" for s
    by (simp add: dict_get_def)
  then show "distinct universe \<Longrightarrow>
        set (dict_keys (map (\<lambda>s. (s, 0::nat)) universe)) = set universe \<union> key ` set [] \<and>
        distinct (dict_keys (map (\<lambda>s. (s, 0::nat)) universe)) \<and>
        (\<forall>s. dict_get (map (\<lambda>s. (s, 0::nat)) universe) s 0 = count_list (map key []) s)"
    by (simp add: comp_def)
qed (auto simp: bump_def dict_simps simp del: set_map)

section \<open>Rows as the key builder hands them over\<close>

text \<open>
  The contract between the key builder and the frame builder: the rows of one timestamp are in
  source order, carry a usable position, and their occurrence index counts the earlier rows of
  the same position.
\<close>

definition earlier_same :: "raw_row_ref list \<Rightarrow> raw_row_ref \<Rightarrow> nat" where
  "earlier_same rs r = length (filter (\<lambda>x. position x = position r) rs)"

definition rows_wf :: "raw_row_ref list \<Rightarrow> bool" where
  "rows_wf rs =
     (sorted_wrt (<) (map source_row_number rs)
      \<and> list_all (\<lambda>r. position_is_assigned (position r) \<and> \<not> unassigned r) rs
      \<and> (\<forall>i<length rs. occurrence_index (rs ! i) = earlier_same (take i rs) (rs ! i)))"

lemma rows_wf_Nil [simp]: "rows_wf []"
  by (simp add: rows_wf_def)

lemma rows_wf_snoc:
  "rows_wf (rs @ [r]) \<longleftrightarrow>
     rows_wf rs \<and> (\<forall>x\<in>set rs. source_row_number x < source_row_number r)
     \<and> position_is_assigned (position r) \<and> \<not> unassigned r \<and> occurrence_index r = earlier_same rs r"
proof -
  have "(\<forall>i<length (rs @ [r]). occurrence_index ((rs @ [r]) ! i) =
            earlier_same (take i (rs @ [r])) ((rs @ [r]) ! i)) \<longleftrightarrow>
        (\<forall>i<length rs. occurrence_index (rs ! i) = earlier_same (take i rs) (rs ! i))
        \<and> occurrence_index r = earlier_same rs r"
    by (auto simp: nth_append less_Suc_eq all_conj_distrib)
  then show ?thesis by (auto simp: rows_wf_def sorted_wrt_append)
qed

end
