(* ===== verification/Serializer.thy ===== *)
theory Serializer
  imports FrameModel
begin

text \<open>
  Schema-aware canonical text and fingerprints,
  \<open>pipelines/frame_reconstruction/canonical_serializer.py\<close>.

  \<open>decimal.Decimal\<close> is modelled as sign, coefficient and exponent: \<open>parse_decimal\<close> is the
  constructor on text (underscores dropped, the exponent limits of the C implementation
  included), \<open>decimal_normalize\<close> is \<open>normalize()\<close> in the default context (28 digits, half to
  even, exponents between -999999 and 999999), and \<open>decimal_quantize_1\<close> is
  \<open>quantize(Decimal(1))\<close>. Both may raise, and the code does not catch it.

  \<open>hashlib.sha256(text.encode()).hexdigest()\<close> is the argument \<open>digest\<close>: every theorem holds
  for any digest function, and the ones that need distinct digests for distinct texts say so.
\<close>

section \<open>Decimal\<close>

datatype decimal = Decimal (negative: bool) (coeff: nat) (expo: int)

datatype decimal_error = InvalidOperation | Overflow

definition num_digits :: "nat \<Rightarrow> nat" where
  "num_digits n = length (nat_str n)"

definition is_exp_char :: "char \<Rightarrow> bool" where
  "is_exp_char c = (c = CHR ''e'' \<or> c = CHR ''E'')"

fun split_sign :: "string \<Rightarrow> bool \<times> string" where
  "split_sign [] = (False, [])"
| "split_sign (c # cs) =
     (if c = CHR ''-'' then (True, cs) else if c = CHR ''+'' then (False, cs)
      else (False, c # cs))"

definition parse_exponent :: "string \<Rightarrow> int option" where
  "parse_exponent s =
     (case s of
        [] \<Rightarrow> Some 0
      | _ # r \<Rightarrow>
          (let (neg, ds) = split_sign r
           in if py_isdigit ds
              then Some (if neg then - int (digits_value ds) else int (digits_value ds))
              else None))"

definition parse_decimal :: "string \<Rightarrow> decimal option" where
  "parse_decimal text =
     (let s = filter (\<lambda>c. c \<noteq> CHR ''_'') text;
          (neg, body) = split_sign s;
          mant = takeWhile (\<lambda>c. \<not> is_exp_char c) body;
          whole = takeWhile (\<lambda>c. c \<noteq> CHR ''.'') mant;
          frac = drop 1 (dropWhile (\<lambda>c. c \<noteq> CHR ''.'') mant);
          ds = whole @ frac
      in if \<not> py_isdigit ds then None
         else case parse_exponent (dropWhile (\<lambda>c. \<not> is_exp_char c) body) of
                None \<Rightarrow> None
              | Some x \<Rightarrow>
                  (let c = digits_value ds; e = x - int (length frac)
                   in if e + int (num_digits c) - 1 > 999999999999999999
                         \<or> e < - 1999999999999999997
                      then None else Some (Decimal neg c e)))"

definition decimal_value :: "decimal \<Rightarrow> rat" where
  "decimal_value d = (if negative d then -1 else 1) * of_nat (coeff d) * 10 powi expo d"

function strip_zeros :: "nat \<Rightarrow> int \<Rightarrow> nat \<times> int" where
  "strip_zeros c e = (if c = 0 \<or> c mod 10 \<noteq> 0 then (c, e) else strip_zeros (c div 10) (e + 1))"
  by pat_completeness auto
termination
  by (relation "measure fst") auto

declare strip_zeros.simps [simp del]

definition decimal_normalize :: "decimal \<Rightarrow> decimal_error + decimal" where
  "decimal_normalize d =
     (let shift = nat (max 0 (max (int (num_digits (coeff d)) - 28) (- 1000026 - expo d)));
          c = nat (round_half_even (of_nat (coeff d) / 10 ^ shift));
          e = expo d + int shift
      in if e + int (num_digits c) - 1 > 999999 then Inl Overflow
         else if c = 0 then Inr (Decimal (negative d) 0 0)
         else (let (c', e') = strip_zeros c e in Inr (Decimal (negative d) c' e')))"

text \<open>Evaluation avoids the division when nothing is shifted out.\<close>

lemma decimal_normalize_code [code]:
  "decimal_normalize d =
     (let shift = nat (max 0 (max (int (num_digits (coeff d)) - 28) (- 1000026 - expo d)));
          c = (if shift = 0 then coeff d else nat (round_half_even (of_nat (coeff d) / 10 ^ shift)));
          e = expo d + int shift
      in if e + int (num_digits c) - 1 > 999999 then Inl Overflow
         else if c = 0 then Inr (Decimal (negative d) 0 0)
         else (let (c', e') = strip_zeros c e in Inr (Decimal (negative d) c' e')))"
proof -
  have "(if s = 0 then coeff d else nat (round_half_even (of_nat (coeff d) / 10 ^ s)))
      = nat (round_half_even (of_nat (coeff d) / 10 ^ s))" for s
    using round_half_even_of_int [of "int (coeff d)"] by (cases "s = 0") (simp_all del: round_half_even_of_int)
  then show ?thesis unfolding decimal_normalize_def Let_def by (simp only:)
qed

definition decimal_quantize_1 :: "decimal \<Rightarrow> decimal_error + decimal" where
  "decimal_quantize_1 d =
     (let c = coeff d * 10 ^ nat (expo d)
      in if num_digits c > 28 then Inl InvalidOperation else Inr (Decimal (negative d) c 0))"

text \<open>\<open>format(d, "f")\<close> for an exponent that is not positive.\<close>

definition decimal_format :: "decimal \<Rightarrow> string" where
  "decimal_format d =
     (let ds = nat_str (coeff d); k = nat (- expo d);
          body = (if k = 0 then ds
                  else if k < length ds then take (length ds - k) ds @ ''.'' @ drop (length ds - k) ds
                  else ''0.'' @ replicate (k - length ds) (CHR ''0'') @ ds)
      in (if negative d then ''-'' else []) @ body)"

section \<open>canonical\_number\<close>

definition canonical_number :: "string \<Rightarrow> decimal_error + string option" where
  "canonical_number raw =
     (let text = py_strip raw
      in if text = [] then Inr None
         else case parse_decimal text of
           None \<Rightarrow> Inr None
         | Some value \<Rightarrow>
             if coeff value = 0 then Inr (Some ''0'')
             else bind_err (decimal_normalize value) (\<lambda>normalized.
               bind_err (if expo normalized > 0 then decimal_quantize_1 normalized
                         else Inr normalized) (\<lambda>normalized.
                 let text_out = decimal_format normalized;
                     text_out = (if CHR ''.'' \<in> set text_out
                                 then py_rstrip (\<lambda>c. c = CHR ''.'')
                                        (py_rstrip (\<lambda>c. c = CHR ''0'') text_out)
                                 else text_out)
                 in Inr (Some (if text_out = [] then ''0'' else text_out)))))"

section \<open>The serializer\<close>

text \<open>
  A raw cell is \<open>None\<close>, a float NaN, or anything else, of which only \<open>str(raw)\<close> is used.
\<close>

datatype raw_value = RNone | RNaN | RText string

fun value_str :: "raw_value \<Rightarrow> string" where
  "value_str RNone = ''None''"
| "value_str RNaN = ''nan''"
| "value_str (RText s) = s"

definition NULL_TOKEN :: string where
  "NULL_TOKEN = CHR 0x00 # ''NULL''"

record serializer =
  field_types :: "(string, canonical_data_type) pydict"
  null_literals :: "string set"
  excluded_fields :: "string set"

definition canonical_boolean :: "string \<Rightarrow> string" where
  "canonical_boolean text =
     (let lowered = py_lower text
      in if lowered \<in> {''1'', ''true'', ''t'', ''yes'', ''y'', ''on''} then ''TRUE''
         else if lowered \<in> {''0'', ''false'', ''f'', ''no'', ''n'', ''off''} then ''FALSE''
         else text)"

definition number_or_text :: "string \<Rightarrow> decimal_error + string" where
  "number_or_text text =
     bind_err (canonical_number text) (\<lambda>r. Inr (case r of None \<Rightarrow> text | Some t \<Rightarrow> t))"

definition is_null :: "serializer \<Rightarrow> raw_value \<Rightarrow> bool" where
  "is_null s raw =
     (raw = RNone \<or> raw = RNaN \<or> py_strip (value_str raw) = []
      \<or> py_lower (py_strip (value_str raw)) \<in> null_literals s)"

definition canonical_value :: "serializer \<Rightarrow> string \<Rightarrow> raw_value \<Rightarrow> decimal_error + string" where
  "canonical_value s field_name raw =
     (if is_null s raw then Inr NULL_TOKEN
      else let text = py_strip (value_str raw);
               declared = dict_get (field_types s) field_name canonical_data_type.UNKNOWN
           in if declared = BOOLEAN then Inr (canonical_boolean text)
              else if type_is_numeric declared then number_or_text text
              else if declared \<in> {STRING, ENUM, IDENTIFIER, DATETIME, DURATION} then Inr text
              else number_or_text text)"

definition VALUE_SEP :: string where
  "VALUE_SEP = [CHR 0x1F]"

definition FIELD_SEP :: string where
  "FIELD_SEP = [CHR 0x1E]"

definition canonical_row :: "serializer \<Rightarrow> string list \<Rightarrow> raw_value list \<Rightarrow> decimal_error + string" where
  "canonical_row s field_names vals =
     bind_err
       (traverse (\<lambda>(name, raw). bind_err (canonical_value s name raw) (\<lambda>v. Inr (name @ ''='' @ v)))
          (filter (\<lambda>(name, raw). name \<notin> excluded_fields s) (zip field_names vals)))
       (\<lambda>parts. Inr (py_join VALUE_SEP parts))"

definition row_fingerprint_of ::
    "(string \<Rightarrow> string) \<Rightarrow> serializer \<Rightarrow> string list \<Rightarrow> raw_value list \<Rightarrow> decimal_error + string" where
  "row_fingerprint_of digest s field_names vals =
     bind_err (canonical_row s field_names vals) (\<lambda>text. Inr (digest text))"

definition frame_payload :: "(string, string) pydict \<Rightarrow> string" where
  "frame_payload position_fingerprints =
     py_join FIELD_SEP (map (\<lambda>(pos, fp). pos @ ''='' @ fp) (sort position_fingerprints))"

definition frame_fingerprint_of ::
    "(string \<Rightarrow> string) \<Rightarrow> (string, string) pydict \<Rightarrow> string" where
  "frame_fingerprint_of digest position_fingerprints = digest (frame_payload position_fingerprints)"

section \<open>Canonical numbers\<close>

lemma char_of_48: "char_of (48 :: nat) = CHR ''0''"
  by code_simp

lemma nat_str_times_10: "0 < c \<Longrightarrow> nat_str (10 * c) = nat_str c @ ''0''"
  by (subst nat_str.simps) (simp add: char_of_48)

lemma num_digits_times_10: "0 < c \<Longrightarrow> num_digits (10 * c) = num_digits c + 1"
  by (simp add: num_digits_def nat_str_times_10)

lemma strip_zeros_times_10: "0 < c \<Longrightarrow> strip_zeros (10 * c) (e - 1) = strip_zeros c e"
  by (subst strip_zeros.simps) simp

lemma decimal_normalize_times_10:
  assumes "0 < c"
  shows "decimal_normalize (Decimal n (10 * c) (e - 1)) = decimal_normalize (Decimal n c e)"
proof -
  let ?m = "max (int (num_digits c) - 28) (- 1000026 - e)"
  have m: "max (int (num_digits (10 * c)) - 28) (- 1000026 - (e - 1)) = ?m + 1"
    using assms by (simp add: num_digits_times_10)
  show ?thesis
  proof (cases "0 \<le> ?m")
    case True
    then have shift: "nat (max 0 (?m + 1)) = Suc (nat (max 0 ?m))" by simp
    have "(of_nat (10 * c) :: rat) / 10 ^ Suc (nat (max 0 ?m)) = of_nat c / 10 ^ nat (max 0 ?m)"
      by simp
    moreover have "(e - 1) + int (Suc (nat (max 0 ?m))) = e + int (nat (max 0 ?m))" by simp
    ultimately show ?thesis
      unfolding decimal_normalize_def Let_def decimal.sel m shift by (simp only:)
  next
    case False
    then have neg: "?m < 0" by linarith
    have s: "nat (max 0 (?m + 1)) = 0" "nat (max 0 ?m) = 0" using neg by linarith+
    have r: "nat (round_half_even (of_nat k / 10 ^ 0)) = k" for k
      using round_half_even_of_int [of "int k"] by simp
    show ?thesis
      unfolding decimal_normalize_def Let_def decimal.sel m s r
      using assms by (simp add: num_digits_times_10 strip_zeros_times_10)
  qed
qed

lemma decimal_normalize_scale:
  assumes "0 < c"
  shows "decimal_normalize (Decimal n (c * 10 ^ k) (e - int k)) = decimal_normalize (Decimal n c e)"
proof (induction k)
  case 0
  show ?case by simp
next
  case (Suc k)
  have "decimal_normalize (Decimal n (10 * (c * 10 ^ k)) (e - int k - 1)) =
        decimal_normalize (Decimal n (c * 10 ^ k) (e - int k))"
    by (rule decimal_normalize_times_10) (simp add: assms)
  then show ?case using Suc by (simp add: algebra_simps)
qed

lemma decimal_value_scale:
  assumes "e1 \<le> e2" and "0 < c1" and "decimal_value (Decimal n c1 e1) = decimal_value (Decimal n' c2 e2)"
  shows "n = n' \<and> c1 = c2 * 10 ^ nat (e2 - e1)"
proof -
  have pos: "0 < (of_nat c1 :: rat) * 10 powi e1" using assms(2) by simp
  have nonneg: "0 \<le> (of_nat c2 :: rat) * 10 powi e2" by simp
  have n: "n = n'" and eq: "(of_nat c1 :: rat) * 10 powi e1 = of_nat c2 * 10 powi e2"
    using assms(3) pos nonneg by (cases n; cases n'; simp add: decimal_value_def)+
  have "(10 :: rat) powi e2 = 10 powi e1 * 10 ^ nat (e2 - e1)"
    using assms(1) power_int_add [of "10::rat" e1 "e2 - e1"] by (simp add: power_int_def)
  with eq have "(of_nat c1 :: rat) = of_nat (c2 * 10 ^ nat (e2 - e1))" by simp
  then show ?thesis using n of_nat_eq_iff by blast
qed

lemma decimal_normalize_value:
  assumes "decimal_value d1 = decimal_value d2" and "0 < coeff d1"
  shows "decimal_normalize d1 = decimal_normalize d2"
proof -
  have nz: "0 < coeff d2"
    using assms by (cases d1; cases d2) (auto simp: decimal_value_def intro!: Nat.gr0I split: if_splits)
  have *: "decimal_normalize a = decimal_normalize b"
    if "expo a \<le> expo b" "0 < coeff a" "0 < coeff b" "decimal_value a = decimal_value b" for a b
    using that decimal_value_scale [of "expo a" "expo b" "coeff a" "negative a" "negative b" "coeff b"]
      decimal_normalize_scale [of "coeff b" "negative a" "nat (expo b - expo a)" "expo b"]
    by (cases a; cases b) simp
  show ?thesis
    using * [of d1 d2] * [of d2 d1] assms nz by (cases "expo d1 \<le> expo d2") auto
qed

text \<open>
  C33: two numerals with the same decimal value have the same canonical text, or raise alike:
  leading and trailing zeros, signs of zero and exponent notation never separate readings.
\<close>

lemma canonical_number_value:
  assumes "parse_decimal (py_strip s) = Some d" and "parse_decimal (py_strip t) = Some e"
    and "decimal_value d = decimal_value e"
  shows "canonical_number s = canonical_number t"
proof -
  have ne: "py_strip s \<noteq> []" "py_strip t \<noteq> []"
    using assms(1,2) by (auto simp: parse_decimal_def py_isdigit_def)
  have zero: "coeff d = 0 \<longleftrightarrow> coeff e = 0"
    using assms(3) by (auto simp: decimal_value_def split: if_splits)
  show ?thesis
    using assms(1,2) ne zero decimal_normalize_value [OF assms(3)]
    by (auto simp: canonical_number_def)
qed

lemma canonical_number_value_witness:
  "canonical_number ''1.50'' = canonical_number ''+015e-1''"
proof (rule canonical_number_value)
  show "parse_decimal (py_strip ''1.50'') = Some (Decimal False 150 (- 2))" by code_simp
  show "parse_decimal (py_strip ''+015e-1'') = Some (Decimal False 15 (- 1))" by code_simp
  show "decimal_value (Decimal False 150 (- 2)) = decimal_value (Decimal False 15 (- 1))"
    by (simp add: decimal_value_def power_int_minus)
qed

lemma decimal_format_chars:
  "c \<in> set (decimal_format d) \<Longrightarrow> is_digit c \<or> c = CHR ''.'' \<or> c = CHR ''-''"
proof -
  have "is_digit (CHR ''0'')" by (simp add: is_digit_def)
  then show "c \<in> set (decimal_format d) \<Longrightarrow> is_digit c \<or> c = CHR ''.'' \<or> c = CHR ''-''"
    using nat_str_digits [of "coeff d"]
    by (auto simp: decimal_format_def Let_def split: if_splits dest: in_set_takeD in_set_dropD)
qed

lemma py_rstrip_subset: "set (py_rstrip p s) \<subseteq> set s"
  using set_dropWhileD [of _ p "rev s"] by (auto simp: py_rstrip_def)

lemma canonical_number_chars:
  assumes "canonical_number s = Inr (Some u)" and "c \<in> set u"
  shows "is_digit c \<or> c = CHR ''.'' \<or> c = CHR ''-''"
proof (cases "parse_decimal (py_strip s)")
  case None
  then show ?thesis using assms by (simp add: canonical_number_def Let_def split: if_splits)
next
  case (Some d)
  have "is_digit (CHR ''0'')" by (simp add: is_digit_def)
  then have zero: "c \<in> set u \<Longrightarrow> u = ''0'' \<Longrightarrow> ?thesis" by simp
  have "u = ''0'' \<or> (\<exists>n. set u \<subseteq> set (decimal_format n))"
    using assms(1) Some py_rstrip_subset
    by (simp add: canonical_number_def Let_def bind_err_Inr split: if_splits) blast+
  then show ?thesis using zero assms(2) decimal_format_chars by blast
qed

lemma nat_str_power: "nat_str (10 ^ k) = CHR ''1'' # replicate k (CHR ''0'')"
proof (induction k)
  case 0
  show ?case by (subst nat_str.simps) (simp add: char_of_def, code_simp)
next
  case (Suc k)
  then show ?case
    by (simp add: nat_str_times_10 replicate_append_same)
qed

lemma digit_not_special:
  "is_digit c \<Longrightarrow> \<not> is_space c \<and> c \<noteq> CHR ''_'' \<and> c \<noteq> CHR ''-'' \<and> c \<noteq> CHR ''+'' \<and> c \<noteq> CHR ''.'' \<and> \<not> is_exp_char c"
  by (auto simp: is_digit_def is_space_def is_exp_char_def Let_def)

lemma strip_plain:
  assumes "\<forall>c\<in>set s. \<not> is_space c"
  shows "py_strip s = s"
proof -
  have "dropWhile is_space s = s" using assms by (cases s) simp_all
  moreover have "dropWhile is_space (rev s) = rev s" using assms by (cases s rule: rev_cases) simp_all
  ultimately show ?thesis by (simp add: py_strip_def py_lstrip_def py_rstrip_def)
qed

lemma parse_power:
  assumes "k \<le> 999999"
  shows "parse_decimal (''1e'' @ nat_str k) = Some (Decimal False 1 (int k))"
proof -
  let ?n = "nat_str k"
  have dig: "\<forall>c\<in>set ?n. is_digit c" by (rule nat_str_digits)
  then have f: "filter (\<lambda>c. c \<noteq> CHR ''_'') ?n = ?n" using digit_not_special by (auto simp: filter_id_conv)
  obtain c cs where n: "?n = c # cs" using nat_str_ne [of k] by (cases ?n) auto
  have c: "c \<noteq> CHR ''-''" "c \<noteq> CHR ''+''" using dig n digit_not_special by auto
  have "py_isdigit (c # cs)" using dig n by (simp add: py_isdigit_def list_all_iff)
  then have e: "parse_exponent (CHR ''e'' # ?n) = Some (int k)"
    using c digits_value_nat_str [of k] n by (simp add: parse_exponent_def)
  have "digits_value ''1'' = 1" "num_digits 1 = 1" "is_digit (CHR ''1'')" "is_exp_char (CHR ''e'')" "\<not> is_exp_char (CHR ''1'')" by code_simp+
  then show ?thesis
    using f e assms by (simp add: parse_decimal_def Let_def py_isdigit_def)
qed

lemma power_of_ten_number:
  assumes "0 < k" and "k \<le> 999999"
  shows "canonical_number (''1e'' @ nat_str k) =
     (if k < 28 then Inr (Some (CHR ''1'' # replicate k (CHR ''0''))) else Inl InvalidOperation)"
proof -
  have "\<not> is_space (CHR ''1'')" "\<not> is_space (CHR ''e'')" by code_simp+
  then have s: "py_strip (''1e'' @ nat_str k) = ''1e'' @ nat_str k"
    using nat_str_digits [of k] digit_not_special by (intro strip_plain) auto
  have d1: "num_digits 1 = 1" by code_simp
  have "round_half_even 1 = 1" using round_half_even_of_int [of 1] by simp
  then have n: "decimal_normalize (Decimal False 1 (int k)) = Inr (Decimal False 1 (int k))"
    using assms d1 by (simp add: decimal_normalize_def Let_def strip_zeros.simps)
  have q: "decimal_quantize_1 (Decimal False 1 (int k)) =
      (if k < 28 then Inr (Decimal False (10 ^ k) 0) else Inl InvalidOperation)"
    by (simp add: decimal_quantize_1_def num_digits_def nat_str_power)
  show ?thesis
    using assms n q s parse_power [OF assms(2)]
    by (simp add: canonical_number_def Let_def decimal_format_def nat_str_power)
qed

text \<open>
  powers of ten in exponent notation become plain digits up to \<open>1e27\<close>; from \<open>1e28\<close> on the
  call raises InvalidOperation, because quantize needs more than the 28 digits of the context.
\<close>

lemma power_of_ten_text:
  assumes "0 < k" and "k \<le> 999999"
  shows "canonical_number (''1e'' @ nat_str k) =
     (if k < 28 then Inr (Some (CHR ''1'' # replicate k (CHR ''0''))) else Inl InvalidOperation)"
  using assms by (rule power_of_ten_number)

lemma power_of_ten_text_witness:
  "canonical_number (''1e'' @ nat_str 28) = Inl InvalidOperation
   \<and> canonical_number (''1e'' @ nat_str 3) = Inr (Some ''1000'')"
  using power_of_ten_text [of 28] power_of_ten_text [of 3]
  by (simp add: numeral_3_eq_3 del: nat_str.simps)

lemma canonical_number_not_null: "canonical_number s \<noteq> Inr (Some NULL_TOKEN)"
  using canonical_number_chars [of s NULL_TOKEN "CHR 0x00"] 
  by (auto simp: NULL_TOKEN_def is_digit_def)

text \<open>
  absence has its own token. Unless the text itself starts with the NUL character, a cell
  canonicalises to the token exactly when it means absence.
\<close>

lemma canonical_value_null_iff:
  assumes "\<not> is_null s raw \<Longrightarrow> hd (py_strip (value_str raw)) \<noteq> CHR 0x00"
  shows "canonical_value s f raw = Inr NULL_TOKEN \<longleftrightarrow> is_null s raw"
proof (cases "is_null s raw")
  case True
  then show ?thesis by (simp add: canonical_value_def)
next
  case False
  then have t: "py_strip (value_str raw) \<noteq> NULL_TOKEN"
    using assms by (auto simp: NULL_TOKEN_def)
  then have "canonical_boolean (py_strip (value_str raw)) \<noteq> NULL_TOKEN"
    by (auto simp: canonical_boolean_def Let_def NULL_TOKEN_def)
  moreover have "number_or_text (py_strip (value_str raw)) \<noteq> Inr NULL_TOKEN"
    using t canonical_number_not_null
    by (auto simp: number_or_text_def bind_err_Inr split: option.splits)
  ultimately show ?thesis using False t by (auto simp: canonical_value_def Let_def)
qed

lemma canonical_value_null_iff_witness:
  "canonical_value \<lparr>field_types = [(''v'', canonical_data_type.FLOAT)], null_literals = {''null''},
     excluded_fields = {}\<rparr> ''v'' (RText ''0'') \<noteq> Inr NULL_TOKEN"
proof -
  let ?s = "\<lparr>field_types = [(''v'', canonical_data_type.FLOAT)], null_literals = {''null''},
     excluded_fields = {}\<rparr>"
  have "\<not> is_null ?s (RText ''0'')" and "hd (py_strip (value_str (RText ''0''))) \<noteq> CHR 0x00"
    by code_simp+
  then show ?thesis using canonical_value_null_iff [of ?s "RText ''0''" "''v''"] by blast
qed

lemma sort_mset_eq: "mset xs = mset ys \<Longrightarrow> sort xs = sort ys" for xs :: "'a::linorder list"
  by (metis mset_sort properties_for_sort sorted_sort)

lemma frame_fingerprint_perm:
  "mset p = mset q \<Longrightarrow> frame_fingerprint_of digest p = frame_fingerprint_of digest q"
  using sort_mset_eq [of p q] by (simp add: frame_fingerprint_of_def frame_payload_def)

lemma py_join_Nil_iff: "\<forall>x\<in>set xs. x \<noteq> [] \<Longrightarrow> py_join sep xs = [] \<longleftrightarrow> xs = []"
  by (cases "(sep, xs)" rule: py_join.cases) auto

lemma py_join_inj:
  "\<forall>x\<in>set xs \<union> set ys. x \<noteq> [] \<and> c \<notin> set x \<Longrightarrow> py_join [c] xs = py_join [c] ys \<Longrightarrow> xs = ys"
  using py_join_Nil_iff [of xs "[c]"] py_join_Nil_iff [of ys "[c]"] py_join_inj_ne [of xs ys c]
  by (cases "xs = []"; cases "ys = []") (auto simp del: py_join.simps)

text \<open>
  A frame payload is read back: with separators absent from the labels and fingerprints, the
  payload text determines the set of (label, fingerprint) pairs.
\<close>

definition clean_items :: "(string, string) pydict \<Rightarrow> bool" where
  "clean_items items =
     (\<forall>(pos, fp)\<in>set items. CHR 0x1E \<notin> set pos \<and> CHR 0x1E \<notin> set fp \<and> CHR ''='' \<notin> set fp)"

lemma item_text_inj:
  assumes "CHR ''='' \<notin> set f" and "CHR ''='' \<notin> set g" and "p @ CHR ''='' # f = q @ CHR ''='' # g"
  shows "p = q \<and> f = g"
proof -
  have "rev f @ CHR ''='' # rev p = rev g @ CHR ''='' # rev q"
    using arg_cong [OF assms(3), of rev] by simp
  then have "rev f = rev g \<and> rev p = rev q" using append_sep_cancel assms(1,2) by (metis set_rev)
  then show ?thesis by simp
qed

lemma frame_payload_inj:
  assumes "clean_items p" and "clean_items q" and "frame_payload p = frame_payload q"
  shows "set p = set q"
proof -
  let ?text = "\<lambda>(pos, fp). pos @ ''='' @ fp"
  have clean: "\<forall>x\<in>set (map ?text (sort p)) \<union> set (map ?text (sort q)). x \<noteq> [] \<and> CHR 0x1E \<notin> set x"
    using assms(1,2) by (auto simp: clean_items_def)
  have texts: "map ?text (sort p) = map ?text (sort q)"
    using py_join_inj [OF clean] assms(3) by (simp add: frame_payload_def FIELD_SEP_def)
  have "inj_on ?text (set p \<union> set q)"
  proof (rule inj_onI)
    fix x y
    assume x: "x \<in> set p \<union> set q" and y: "y \<in> set p \<union> set q" and eq: "?text x = ?text y"
    have "CHR ''='' \<notin> set (snd x)" "CHR ''='' \<notin> set (snd y)"
      using x y assms(1,2) by (auto simp: clean_items_def)
    then show "x = y"
      using item_text_inj [of "snd x" "snd y" "fst x" "fst y"] eq by (cases x; cases y) simp
  qed
  moreover have "?text ` set p = ?text ` set q"
    using arg_cong [OF texts, of set] by simp
  ultimately show ?thesis by (simp add: inj_on_Un_image_eq_iff)
qed

text \<open>
  a frame's fingerprint identifies its content. Under a collision-free digest and separator-free
  labels, two frames have the same fingerprint exactly when they hold the same row fingerprint
  at every position, in whatever order the positions are listed.
\<close>

lemma frame_fingerprint_iff:
  assumes "inj digest" and "clean_items p" and "clean_items q"
    and "distinct (dict_keys p)" and "distinct (dict_keys q)"
  shows "frame_fingerprint_of digest p = frame_fingerprint_of digest q \<longleftrightarrow> set p = set q"
proof
  assume "frame_fingerprint_of digest p = frame_fingerprint_of digest q"
  then have "frame_payload p = frame_payload q"
    using assms(1) by (simp add: frame_fingerprint_of_def inj_eq)
  then show "set p = set q" by (rule frame_payload_inj [OF assms(2,3)])
next
  assume "set p = set q"
  then have "mset p = mset q" using assms(4,5) by (simp add: distinct_map set_eq_iff_mset_eq_distinct)
  then show "frame_fingerprint_of digest p = frame_fingerprint_of digest q"
    by (rule frame_fingerprint_perm)
qed

lemma frame_fingerprint_iff_witness:
  "frame_fingerprint_of (\<lambda>x. x) [(''C1/S1'', ''a''), (''C1/S2'', ''b'')]
     = frame_fingerprint_of (\<lambda>x. x) [(''C1/S2'', ''b''), (''C1/S1'', ''a'')]
   \<and> frame_fingerprint_of (\<lambda>x. x) [(''C1/S1'', ''a'')] \<noteq> frame_fingerprint_of (\<lambda>x. x) [(''C1/S1'', ''c'')]"
proof -
  have "inj (\<lambda>x::string. x)" by simp
  note f = frame_fingerprint_iff [OF this]
  show ?thesis
    using f [of "[(''C1/S1'', ''a''), (''C1/S2'', ''b'')]" "[(''C1/S2'', ''b''), (''C1/S1'', ''a'')]"]
      f [of "[(''C1/S1'', ''a'')]" "[(''C1/S1'', ''c'')]"]
    by (auto simp: clean_items_def)
qed

end
