(* ===== verification/FieldSpec.thy ===== *)
theory FieldSpec
  imports FieldEnums Serializer
begin

text \<open>
  Field definitions and how they are read from YAML, the first half of
  \<open>pipelines/validation/dictionary.py\<close>: the definition record, the unit and missing-value
  registries, and \<open>build_spec\<close> with every check it makes.

  A parsed YAML document is a value of type \<open>yaml\<close>, with string keys in mappings; a YAML float
  carries the text \<open>str\<close> gives for it, and \<open>repr\<close> is the text of a list or a mapping. Exceptions
  are values of \<open>dict_error\<close>, without their messages. Text is Latin-1, \<open>casefold\<close> is written for
  ASCII.
\<close>

section \<open>YAML values\<close>

datatype yaml =
    YNull
  | YBool bool
  | YInt int
  | YFloat rat string
  | YStr string
  | YList "yaml list"
  | YDict "(string \<times> yaml) list"

datatype dict_error = DictionaryError | ValueErr | TypeErr | KeyErr | AttributeErr | RegexErr

definition int_str :: "int \<Rightarrow> string" where
  "int_str n = (if n < 0 then CHR ''-'' # nat_str (nat (- n)) else nat_str (nat n))"

fun yaml_str :: "(yaml \<Rightarrow> string) \<Rightarrow> yaml \<Rightarrow> string" where
  "yaml_str repr YNull = ''None''"
| "yaml_str repr (YBool b) = (if b then ''True'' else ''False'')"
| "yaml_str repr (YInt n) = int_str n"
| "yaml_str repr (YFloat x s) = s"
| "yaml_str repr (YStr s) = s"
| "yaml_str repr y = repr y"

fun truthy :: "yaml \<Rightarrow> bool" where
  "truthy YNull = False"
| "truthy (YBool b) = b"
| "truthy (YInt n) = (n \<noteq> 0)"
| "truthy (YFloat x s) = (x \<noteq> 0)"
| "truthy (YStr s) = (s \<noteq> [])"
| "truthy (YList ys) = (ys \<noteq> [])"
| "truthy (YDict d) = (d \<noteq> [])"

text \<open>\<open>yaml.safe_load(text) or {}\<close>\<close>

definition document :: "yaml \<Rightarrow> yaml" where
  "document doc = (if truthy doc then doc else YDict [])"

text \<open>\<open>raw.get(key)\<close>\<close>

definition yget :: "(string \<times> yaml) list \<Rightarrow> string \<Rightarrow> yaml" where
  "yget raw key = dict_get raw key YNull"

text \<open>The values of a \<open>for\<close> loop over \<open>value or []\<close>.\<close>

fun yaml_items :: "yaml \<Rightarrow> dict_error + yaml list" where
  "yaml_items (YList ys) = Inr ys"
| "yaml_items (YStr s) = Inr (map (\<lambda>c. YStr [c]) s)"
| "yaml_items (YDict d) = Inr (map (YStr \<circ> fst) d)"
| "yaml_items y = (if truthy y then Inl TypeErr else Inr [])"

text \<open>\<open>item["key"]\<close> and \<open>item.get("key")\<close>\<close>

fun yaml_index :: "yaml \<Rightarrow> string \<Rightarrow> dict_error + yaml" where
  "yaml_index (YDict d) key = (case map_of d key of None \<Rightarrow> Inl KeyErr | Some y \<Rightarrow> Inr y)"
| "yaml_index y key = Inl TypeErr"

fun yaml_get :: "yaml \<Rightarrow> string \<Rightarrow> dict_error + yaml" where
  "yaml_get (YDict d) key = Inr (yget d key)"
| "yaml_get y key = Inl AttributeErr"

text \<open>\<open>int(value)\<close>; a text may have a sign, and single underscores between its digits.\<close>

fun underscores_ok :: "string \<Rightarrow> bool" where
  "underscores_ok [] = True"
| "underscores_ok [c] = (c \<noteq> CHR ''_'')"
| "underscores_ok (c # d # s) = (\<not> (c = CHR ''_'' \<and> d = CHR ''_'') \<and> underscores_ok (d # s))"

definition parse_int :: "string \<Rightarrow> int option" where
  "parse_int text =
     (let (neg, ds) = split_sign (py_strip text); plain = filter (\<lambda>c. c \<noteq> CHR ''_'') ds
      in if py_isdigit plain \<and> underscores_ok ds \<and> hd ds \<noteq> CHR ''_''
         then Some (if neg then - int (digits_value plain) else int (digits_value plain)) else None)"

fun yaml_int :: "yaml \<Rightarrow> dict_error + int" where
  "yaml_int (YBool b) = Inr (of_bool b)"
| "yaml_int (YInt n) = Inr n"
| "yaml_int (YFloat x s) = Inr (py_int x)"
| "yaml_int (YStr s) = (case parse_int s of None \<Rightarrow> Inl ValueErr | Some n \<Rightarrow> Inr n)"
| "yaml_int y = Inl TypeErr"

definition opt_str :: "(yaml \<Rightarrow> string) \<Rightarrow> yaml \<Rightarrow> string option" where
  "opt_str repr y =
     (if y = YNull then None
      else let text = py_strip (yaml_str repr y) in if text = [] then None else Some text)"

section \<open>Numbers of a definition\<close>

text \<open>\<open>Decimal(text)\<close> with the values that are not finite.\<close>

datatype dec_number = Fin decimal | Infinite bool | NaN

definition parse_dec_number :: "string \<Rightarrow> dec_number option" where
  "parse_dec_number text =
     (let s = py_strip text;
          (neg, body) = split_sign (py_lower (filter (\<lambda>c. c \<noteq> CHR ''_'') s))
      in if body = ''inf'' \<or> body = ''infinity'' then Some (Infinite neg)
         else if (take 3 body = ''nan'' \<and> list_all is_digit (drop 3 body))
              \<or> (take 4 body = ''snan'' \<and> list_all is_digit (drop 4 body)) then Some NaN
         else map_option Fin (parse_decimal s))"

text \<open>\<open>a < b\<close>: a comparison with NaN raises \<open>InvalidOperation\<close>, here \<open>None\<close>.\<close>

fun dec_less :: "dec_number \<Rightarrow> dec_number \<Rightarrow> bool option" where
  "dec_less (Fin a) (Fin b) = Some (decimal_value a < decimal_value b)"
| "dec_less (Fin a) (Infinite neg) = Some (\<not> neg)"
| "dec_less (Infinite neg) (Fin b) = Some neg"
| "dec_less (Infinite m) (Infinite n) = Some (m \<and> \<not> n)"
| "dec_less a b = None"

section \<open>Definitions\<close>

record value_spec =
  vs_value :: string
  vs_meaning :: "string option"

record field_spec =
  fs_source_name :: string
  fs_canonical_name :: string
  fs_source_occurrence :: "int option"
  fs_display_name :: "string option"
  fs_description :: "string option"
  fs_entity :: field_entity
  fs_field_class :: field_class
  fs_category :: field_category
  fs_sub_category :: "string option"
  fs_data_type :: canonical_data_type
  fs_unit :: "string option"
  fs_nullable :: bool
  fs_required :: bool
  fs_sentinel_values :: "value_spec list"
  fs_allowed_values :: "value_spec list"
  fs_allowed_values_authoritative :: bool
  fs_valid_min :: "dec_number option"
  fs_valid_max :: "dec_number option"
  fs_range_status :: range_status
  fs_normalization_strategy :: normalization_strategy
  fs_storage_strategy :: storage_strategy
  fs_aggregation_strategy :: aggregation_strategy
  fs_ml_candidate :: ml_candidate
  fs_prediction_domains :: "prediction_domain list"
  fs_leakage_risk :: leakage_risk
  fs_availability_semantics :: availability_semantics
  fs_review_status :: review_status
  fs_deprecated :: bool
  fs_notes :: "string option"
  fs_origin :: string

definition needs_domain_review :: "field_spec \<Rightarrow> bool" where
  "needs_domain_review s = (fs_review_status s = review_status.DOMAIN_REVIEW_REQUIRED)"

definition has_verified_range :: "field_spec \<Rightarrow> bool" where
  "has_verified_range s =
     (fs_range_status s = range_status.VERIFIED \<and> (fs_valid_min s \<noteq> None \<or> fs_valid_max s \<noteq> None))"

record dict_resolved =
  dr_spec :: field_spec
  dr_source_position :: nat
  dr_is_dictionary_mapped :: bool

section \<open>Units and missing values\<close>

text \<open>\<open>entry.get(key, default)\<close> as text\<close>

definition yget_str :: "(yaml \<Rightarrow> string) \<Rightarrow> (string \<times> yaml) list \<Rightarrow> string \<Rightarrow> string \<Rightarrow> string" where
  "yget_str repr e key dflt = (case map_of e key of None \<Rightarrow> dflt | Some y \<Rightarrow> yaml_str repr y)"

record unit_registry =
  unit_symbols :: "string list"
  unit_dimensions :: "(string, string) pydict"

text \<open>
  A file that does not exist is \<open>None\<close>. The symbols are a set in the code and only tested for
  membership.
\<close>

definition load_units :: "(yaml \<Rightarrow> string) \<Rightarrow> yaml option \<Rightarrow> dict_error + unit_registry" where
  "load_units repr file =
     (case file of
        None \<Rightarrow> Inr \<lparr>unit_symbols = [], unit_dimensions = []\<rparr>
      | Some doc \<Rightarrow>
          bind_err (yaml_get (document doc) ''units'') (\<lambda>us.
          bind_err (yaml_items us) (\<lambda>entries.
          bind_err (traverse (\<lambda>e. bind_err (yaml_index e ''symbol'') (\<lambda>sym.
              Inr (yaml_str repr sym, (case e of YDict m \<Rightarrow> yget_str repr m ''dimension'' [] | _ \<Rightarrow> []))))
            entries) (\<lambda>sd.
          Inr \<lparr>unit_symbols = map fst sd, unit_dimensions = foldl (\<lambda>d (k, v). AList.update k v d) [] sd\<rparr>))))"

definition validate_unit :: "unit_registry \<Rightarrow> string option \<Rightarrow> dict_error + string option" where
  "validate_unit units u =
     (case u of None \<Rightarrow> Inr None
      | Some s \<Rightarrow> if s \<in> set (unit_symbols units) then Inr (Some s) else Inl DictionaryError)"

record missing_registry =
  missing_tokens :: "(string, string) pydict"
  case_insensitive_tokens :: "(string, string) pydict"
  explicit_states :: "(string, string) pydict"

fun missing_entry ::
    "(yaml \<Rightarrow> string) \<Rightarrow> (string, string) pydict \<times> (string, string) pydict \<Rightarrow> yaml
     \<Rightarrow> dict_error + (string, string) pydict \<times> (string, string) pydict" where
  "missing_entry repr (exact, folded) (YDict e) =
     (let token = yget_str repr e ''token'' []; meaning = yget_str repr e ''meaning'' ''missing''
      in Inr (if truthy (yget e ''case_insensitive'')
              then (exact, AList.update (py_lower token) meaning folded)
              else (AList.update token meaning exact, folded)))"
| "missing_entry repr ef y = Inl AttributeErr"

fun fold_err :: "('s \<Rightarrow> 'a \<Rightarrow> 'e + 's) \<Rightarrow> 's \<Rightarrow> 'a list \<Rightarrow> 'e + 's" where
  "fold_err f s [] = Inr s"
| "fold_err f s (x # xs) = bind_err (f s x) (\<lambda>s'. fold_err f s' xs)"

definition load_missing :: "(yaml \<Rightarrow> string) \<Rightarrow> yaml option \<Rightarrow> dict_error + missing_registry" where
  "load_missing repr file =
     (case file of
        None \<Rightarrow> Inr \<lparr>missing_tokens = [], case_insensitive_tokens = [], explicit_states = []\<rparr>
      | Some doc \<Rightarrow>
          (let payload = document doc
           in bind_err (yaml_get payload ''missing_tokens'') (\<lambda>ts.
              bind_err (yaml_items ts) (\<lambda>entries.
              bind_err (fold_err (missing_entry repr) ([], []) entries) (\<lambda>(exact, folded).
              bind_err (yaml_get payload ''explicit_states'') (\<lambda>es.
              bind_err (yaml_items es) (\<lambda>states.
              bind_err (traverse (\<lambda>e. bind_err (yaml_index e ''token'') (\<lambda>t.
                  Inr (yaml_str repr t,
                       (case e of YDict m \<Rightarrow> yget_str repr m ''meaning'' ''state'' | _ \<Rightarrow> []))))
                states) (\<lambda>kv.
              Inr \<lparr>missing_tokens = exact, case_insensitive_tokens = folded,
                   explicit_states = foldl (\<lambda>d (k, v). AList.update k v d) [] kv\<rparr>))))))))"

definition is_missing :: "missing_registry \<Rightarrow> string option \<Rightarrow> bool" where
  "is_missing r v =
     (case v of None \<Rightarrow> True
      | Some value \<Rightarrow>
          if value \<in> set (dict_keys (explicit_states r)) then False
          else if value \<in> set (dict_keys (missing_tokens r)) then True
          else py_lower value \<in> set (dict_keys (case_insensitive_tokens r)))"

section \<open>Reading a definition\<close>

definition yaml_enum :: "(yaml \<Rightarrow> string) \<Rightarrow> (string \<times> 'e) list \<Rightarrow> yaml \<Rightarrow> 'e \<Rightarrow> dict_error + 'e" where
  "yaml_enum repr members y dflt =
     (if y = YNull then Inr dflt
      else case enum_of members (yaml_str repr y) of None \<Rightarrow> Inl DictionaryError | Some e \<Rightarrow> Inr e)"

definition yaml_decimal :: "(yaml \<Rightarrow> string) \<Rightarrow> yaml \<Rightarrow> dict_error + dec_number option" where
  "yaml_decimal repr y =
     (if y = YNull then Inr None
      else case parse_dec_number (yaml_str repr y) of None \<Rightarrow> Inl DictionaryError | Some d \<Rightarrow> Inr (Some d))"

definition yaml_value_spec :: "(yaml \<Rightarrow> string) \<Rightarrow> yaml \<Rightarrow> dict_error + value_spec" where
  "yaml_value_spec repr item =
     bind_err (yaml_index item ''value'') (\<lambda>v. bind_err (yaml_get item ''meaning'') (\<lambda>m.
       Inr \<lparr>vs_value = yaml_str repr v, vs_meaning = opt_str repr m\<rparr>))"

text \<open>The items of \<open>prediction_domains\<close>: a null item is dropped.\<close>

definition yaml_domains :: "(yaml \<Rightarrow> string) \<Rightarrow> yaml list \<Rightarrow> dict_error + prediction_domain list" where
  "yaml_domains repr items =
     traverse (\<lambda>y. case enum_of prediction_domain_members (yaml_str repr y) of
         None \<Rightarrow> Inl DictionaryError | Some d \<Rightarrow> Inr d)
       (filter (\<lambda>y. y \<noteq> YNull) items)"

definition yaml_bool :: "(string \<times> yaml) list \<Rightarrow> string \<Rightarrow> bool \<Rightarrow> bool" where
  "yaml_bool raw key dflt = (case map_of raw key of None \<Rightarrow> dflt | Some y \<Rightarrow> truthy y)"

definition build_spec ::
    "(yaml \<Rightarrow> string) \<Rightarrow> unit_registry \<Rightarrow> string \<Rightarrow> (string \<times> yaml) list \<Rightarrow> dict_error + field_spec" where
  "build_spec repr units origin raw =
     (if \<not> truthy (yget raw ''source_name'') then Inl DictionaryError
      else if \<not> truthy (yget raw ''canonical_name'') then Inl DictionaryError
      else
      bind_err (if yget raw ''source_occurrence'' = YNull then Inr None
                else bind_err (yaml_int (yget raw ''source_occurrence'')) (\<lambda>n. Inr (Some n))) (\<lambda>occurrence.
      bind_err (yaml_enum repr field_entity_members (yget raw ''entity'') field_entity.UNKNOWN) (\<lambda>entity.
      bind_err (yaml_enum repr field_class_members (yget raw ''field_class'') field_class.UNKNOWN) (\<lambda>fclass.
      bind_err (yaml_enum repr field_category_members (yget raw ''category'') field_category.UNKNOWN) (\<lambda>category.
      bind_err (yaml_enum repr canonical_data_type_members (yget raw ''data_type'') canonical_data_type.UNKNOWN) (\<lambda>dtype.
      bind_err (validate_unit units (opt_str repr (yget raw ''unit''))) (\<lambda>u.
      bind_err (bind_err (yaml_items (yget raw ''sentinel_values'')) (traverse (yaml_value_spec repr))) (\<lambda>sentinels.
      bind_err (bind_err (yaml_items (yget raw ''allowed_values'')) (traverse (yaml_value_spec repr))) (\<lambda>allowed.
      bind_err (yaml_decimal repr (yget raw ''valid_min'')) (\<lambda>lo.
      bind_err (yaml_decimal repr (yget raw ''valid_max'')) (\<lambda>hi.
      bind_err (yaml_enum repr range_status_members (yget raw ''range_status'') range_status.UNVERIFIED) (\<lambda>rstatus.
      bind_err (yaml_enum repr normalization_strategy_members (yget raw ''normalization_strategy'')
        normalization_strategy.UNKNOWN) (\<lambda>normal.
      bind_err (yaml_enum repr storage_strategy_members (yget raw ''storage_strategy'') storage_strategy.UNKNOWN) (\<lambda>storage.
      bind_err (yaml_enum repr aggregation_strategy_members (yget raw ''aggregation_strategy'')
        aggregation_strategy.UNKNOWN) (\<lambda>aggregation.
      bind_err (yaml_enum repr ml_candidate_members (yget raw ''ml_candidate'') ml_candidate.UNKNOWN) (\<lambda>ml.
      bind_err (bind_err (yaml_items (yget raw ''prediction_domains'')) (yaml_domains repr)) (\<lambda>domains.
      bind_err (yaml_enum repr leakage_risk_members (yget raw ''leakage_risk'') leakage_risk.UNKNOWN) (\<lambda>leakage.
      bind_err (yaml_enum repr availability_semantics_members (yget raw ''availability_semantics'')
        availability_semantics.UNKNOWN) (\<lambda>availability.
      bind_err (yaml_enum repr review_status_members (yget raw ''review_status'') review_status.AUTO_CLASSIFIED) (\<lambda>review.
      Inr \<lparr>fs_source_name = yaml_str repr (yget raw ''source_name''),
           fs_canonical_name = yaml_str repr (yget raw ''canonical_name''),
           fs_source_occurrence = occurrence,
           fs_display_name = opt_str repr (yget raw ''display_name''),
           fs_description = opt_str repr (yget raw ''description''),
           fs_entity = entity, fs_field_class = fclass, fs_category = category,
           fs_sub_category = opt_str repr (yget raw ''sub_category''),
           fs_data_type = dtype, fs_unit = u,
           fs_nullable = yaml_bool raw ''nullable'' True, fs_required = yaml_bool raw ''required'' False,
           fs_sentinel_values = sentinels, fs_allowed_values = allowed,
           fs_allowed_values_authoritative = yaml_bool raw ''allowed_values_authoritative'' False,
           fs_valid_min = lo, fs_valid_max = hi, fs_range_status = rstatus,
           fs_normalization_strategy = normal, fs_storage_strategy = storage,
           fs_aggregation_strategy = aggregation, fs_ml_candidate = ml, fs_prediction_domains = domains,
           fs_leakage_risk = leakage, fs_availability_semantics = availability, fs_review_status = review,
           fs_deprecated = yaml_bool raw ''deprecated'' False,
           fs_notes = opt_str repr (yget raw ''notes''), fs_origin = origin\<rparr>))))))))))))))))))))"

end
