(* ===== verification/Classifier.thy ===== *)
theory Classifier
  imports FieldSpec
begin

text \<open>
  The deterministic classifier of \<open>pipelines/validation/classifier.py\<close>: keyword rules over the
  lower-case field name, first match wins. The degree sign is the Latin-1 character 0xB0.
\<close>

section \<open>Rules\<close>

record 't keyword_rule =
  kr_keywords :: "string list"
  kr_result :: 't
  kr_none_of :: "string list"

definition rule_matches :: "'t keyword_rule \<Rightarrow> string \<Rightarrow> bool" where
  "rule_matches r text =
     (\<not> list_ex (\<lambda>bad. contains bad text) (kr_none_of r) \<and> list_ex (\<lambda>keyword. contains keyword text) (kr_keywords r))"

definition rule_of :: "string list \<Rightarrow> 't \<Rightarrow> 't keyword_rule" where
  "rule_of keywords result = \<lparr>kr_keywords = keywords, kr_result = result, kr_none_of = []\<rparr>"

fun first_match :: "'t keyword_rule list \<Rightarrow> string \<Rightarrow> 't \<Rightarrow> 't" where
  "first_match [] text dflt = dflt"
| "first_match (r # rs) text dflt = (if rule_matches r text then kr_result r else first_match rs text dflt)"

definition ENTITY_RULES :: "field_entity keyword_rule list" where
  "ENTITY_RULES =
     [rule_of [''alarm'', ''fault'', ''trip'', ''error code''] field_entity.ALARM,
      rule_of [''smr'', ''rectifier''] field_entity.SMR,
      rule_of [''session'', ''transaction'', ''charge session''] field_entity.SESSION,
      rule_of [''connector'', ''gun'', ''plug'', ''socket''] field_entity.CONNECTOR,
      rule_of [''site'', ''station''] field_entity.SITE,
      rule_of [''config'', ''setting'', ''parameter'', ''threshold'', ''limit''] field_entity.CONFIGURATION,
      rule_of [''charger'', ''cabinet'', ''grid'', ''meter'', ''contactor'', ''fan'', ''cooling''] field_entity.CHARGER]"

definition CATEGORY_RULES :: "field_category keyword_rule list" where
  "CATEGORY_RULES =
     [rule_of [''insulation'', ''isolation''] field_category.INSULATION,
      rule_of [''temp'', ''thermal''] field_category.THERMAL,
      rule_of [''ocpp''] field_category.OCPP,
      rule_of [''ccs''] field_category.CCS,
      rule_of [''ccu''] field_category.CCU,
      rule_of [''plc''] field_category.PLC,
      rule_of [''can bus'', ''canbus'', ''can ''] field_category.CAN,
      rule_of [''alarm''] field_category.ALARM,
      rule_of [''fault'', ''trip'', ''error''] field_category.FAULT,
      rule_of [''contactor'', ''relay''] field_category.CONTACTOR,
      rule_of [''fan''] field_category.FAN,
      rule_of [''cooling'', ''coolant'', ''pump''] field_category.COOLING,
      rule_of [''meter''] field_category.METER,
      rule_of [''battery'', ''soc'', ''vehicle''] field_category.BATTERY,
      rule_of [''gun'', ''plug'', ''socket''] field_category.GUN,
      rule_of [''firmware'', ''software version''] field_category.FIRMWARE,
      rule_of [''hardware'', ''board'', ''pcb''] field_category.HARDWARE,
      rule_of [''counter'', ''total'', ''cumulative'', ''lifetime''] field_category.COUNTER,
      rule_of [''session'', ''transaction''] field_category.SESSION,
      rule_of [''smr'', ''rectifier'', ''module''] field_category.SMR,
      rule_of [''connector''] field_category.CONNECTOR,
      rule_of [''grid'', ''input'', ''mains'', ''supply''] field_category.ELECTRICAL_INPUT,
      rule_of [''output'', ''dc ''] field_category.ELECTRICAL_OUTPUT,
      rule_of [''signal'', ''network'', ''modem'', ''sim'', ''gsm''] field_category.COMMUNICATION,
      rule_of [''state'', ''status'', ''mode''] field_category.STATE_MACHINE,
      rule_of [''id'', ''serial'', ''identity''] field_category.IDENTITY]"

definition CLASS_RULES :: "field_class keyword_rule list" where
  "CLASS_RULES =
     [rule_of [''alarm''] field_class.ALARM_FLAG,
      rule_of [''fault code'', ''error code'', ''reason code''] field_class.FAULT_CODE,
      rule_of [''time'', ''date'', ''timestamp''] field_class.TIMESTAMP,
      rule_of [''counter'', ''total'', ''cumulative'', ''lifetime'', ''uptime''] field_class.COUNTER,
      rule_of [''status'', ''state'', ''mode'', ''flag''] field_class.STATE,
      rule_of [''id'', ''serial'', ''identity''] field_class.IDENTIFIER,
      rule_of [''config'', ''setting'', ''parameter'', ''threshold'', ''limit''] field_class.CONFIGURATION,
      rule_of [''temp'', ''voltage'', ''current'', ''power'', ''energy'', ''frequency'', ''resistance'', ''speed''] field_class.CONTINUOUS_TELEMETRY]"

definition UNIT_RULES :: "(string list \<times> string \<times> canonical_data_type) list" where
  "UNIT_RULES =
     [([''temperature'', ''temp''], CHR 0xB0 # ''C'', canonical_data_type.FLOAT),
      ([''voltage'', ''volt''], ''V'', canonical_data_type.FLOAT),
      ([''current'', ''ampere'', ''amp''], ''A'', canonical_data_type.FLOAT),
      ([''frequency''], ''Hz'', canonical_data_type.FLOAT),
      ([''energy'', ''kwh''], ''kWh'', canonical_data_type.FLOAT),
      ([''power''], ''kW'', canonical_data_type.FLOAT),
      ([''resistance'', ''insulation''], ''kOhm'', canonical_data_type.FLOAT),
      ([''percentage'', ''percent'', ''soc''], ''percent'', canonical_data_type.FLOAT),
      ([''duration'', ''elapsed'', ''uptime'', ''seconds''], ''seconds'', canonical_data_type.DURATION),
      ([''speed'', ''rpm''], ''rpm'', canonical_data_type.INTEGER),
      ([''counter'', ''count''], ''count'', canonical_data_type.INTEGER)]"

definition STORAGE_BY_ENTITY :: "(field_entity, storage_strategy) pydict" where
  "STORAGE_BY_ENTITY =
     [(field_entity.CHARGER, storage_strategy.CHARGER_TELEMETRY),
      (field_entity.CONNECTOR, storage_strategy.CONNECTOR_TELEMETRY),
      (field_entity.SMR, storage_strategy.SMR_TELEMETRY),
      (field_entity.SESSION, storage_strategy.SESSION_OBSERVATION),
      (field_entity.ALARM, storage_strategy.ALARM_EVENT),
      (field_entity.CONFIGURATION, storage_strategy.CONFIGURATION_SNAPSHOT),
      (field_entity.SITE, storage_strategy.MASTER_DATA),
      (field_entity.FILE, storage_strategy.RAW_ONLY),
      (field_entity.UNKNOWN, storage_strategy.RAW_ONLY)]"

definition NORMALIZATION_BY_ENTITY :: "(field_entity, normalization_strategy) pydict" where
  "NORMALIZATION_BY_ENTITY =
     [(field_entity.CHARGER, normalization_strategy.CHARGER_SCALAR),
      (field_entity.CONNECTOR, normalization_strategy.PER_CONNECTOR),
      (field_entity.SMR, normalization_strategy.PER_SMR),
      (field_entity.SESSION, normalization_strategy.PER_SESSION),
      (field_entity.ALARM, normalization_strategy.ALARM_EDGE),
      (field_entity.CONFIGURATION, normalization_strategy.CONFIG_SNAPSHOT),
      (field_entity.SITE, normalization_strategy.CHARGER_SCALAR),
      (field_entity.FILE, normalization_strategy.PASSTHROUGH),
      (field_entity.UNKNOWN, normalization_strategy.RAW_RETAIN)]"

definition AGGREGATION_BY_CLASS :: "(field_class, aggregation_strategy) pydict" where
  "AGGREGATION_BY_CLASS =
     [(field_class.CONTINUOUS_TELEMETRY, aggregation_strategy.MEAN),
      (field_class.COUNTER, aggregation_strategy.MAX),
      (field_class.STATE, aggregation_strategy.LAST),
      (field_class.ALARM_FLAG, aggregation_strategy.ANY_TRUE),
      (field_class.IDENTIFIER, aggregation_strategy.FIRST),
      (field_class.TIMESTAMP, aggregation_strategy.FIRST),
      (field_class.CONFIGURATION, aggregation_strategy.LAST),
      (field_class.FAULT_CODE, aggregation_strategy.LAST)]"

section \<open>Classification\<close>

definition infer_unit :: "string \<Rightarrow> string option \<times> canonical_data_type" where
  "infer_unit text =
     (case find (\<lambda>(keywords, symbol, t). list_ex (\<lambda>keyword. contains keyword text) keywords) UNIT_RULES of
        None \<Rightarrow> (None, canonical_data_type.UNKNOWN)
      | Some (keywords, symbol, t) \<Rightarrow> (Some symbol, t))"

definition infer_type :: "field_class \<Rightarrow> canonical_data_type \<Rightarrow> canonical_data_type" where
  "infer_type c t =
     (if t \<noteq> canonical_data_type.UNKNOWN then t
      else if c = field_class.TIMESTAMP then canonical_data_type.DATETIME
      else if c = field_class.IDENTIFIER then canonical_data_type.IDENTIFIER
      else if c \<in> {field_class.STATE, field_class.ALARM_FLAG} then canonical_data_type.ENUM
      else t)"

definition range_status_for :: "field_class \<Rightarrow> range_status" where
  "range_status_for c =
     (if c \<in> {field_class.IDENTIFIER, field_class.TIMESTAMP, field_class.STATE, field_class.ALARM_FLAG}
      then range_status.NOT_APPLICABLE else range_status.UNVERIFIED)"

definition classifier_note :: "field_entity \<Rightarrow> field_class \<Rightarrow> field_category \<Rightarrow> bool \<Rightarrow> string" where
  "classifier_note entity c category determined =
     (let parts = (if entity \<noteq> field_entity.UNKNOWN then [''entity''] else [])
                  @ (if c \<noteq> field_class.UNKNOWN then [''class''] else [])
                  @ (if category \<noteq> field_category.UNKNOWN then [''category''] else [])
      in ''Auto-classified from the field name. ''
         @ (if parts = [] then [] else ''Inferred: '' @ py_join '', '' parts @ ''. '')
         @ (if determined
            then ''No curated dictionary entry exists; review recommended before treating the classification as authoritative.''
            else ''No curated dictionary entry exists; semantics require domain confirmation before downstream use.''))"

definition classify_field :: "unit_registry option \<Rightarrow> string \<Rightarrow> int \<Rightarrow> string \<Rightarrow> field_spec" where
  "classify_field units source_name occurrence canonical_name =
     (let text = py_lower source_name;
          entity = first_match ENTITY_RULES text field_entity.UNKNOWN;
          fclass = first_match CLASS_RULES text field_class.UNKNOWN;
          category = first_match CATEGORY_RULES text field_category.UNKNOWN;
          (u, t) = infer_unit text;
          u = (case (u, units) of (Some s, Some reg) \<Rightarrow> if s \<in> set (unit_symbols reg) then u else None | _ \<Rightarrow> u);
          u = (if fclass \<in> {field_class.STATE, field_class.IDENTIFIER, field_class.ALARM_FLAG} then None else u);
          determined = (entity \<noteq> field_entity.UNKNOWN \<and> fclass \<noteq> field_class.UNKNOWN)
      in \<lparr>fs_source_name = source_name, fs_canonical_name = canonical_name,
          fs_source_occurrence = Some occurrence, fs_display_name = Some source_name, fs_description = None,
          fs_entity = entity, fs_field_class = fclass, fs_category = category, fs_sub_category = None,
          fs_data_type = infer_type fclass t, fs_unit = u, fs_nullable = True, fs_required = False,
          fs_sentinel_values = [], fs_allowed_values = [], fs_allowed_values_authoritative = False,
          fs_valid_min = None, fs_valid_max = None, fs_range_status = range_status_for fclass,
          fs_normalization_strategy = dict_get NORMALIZATION_BY_ENTITY entity normalization_strategy.RAW_RETAIN,
          fs_storage_strategy = dict_get STORAGE_BY_ENTITY entity storage_strategy.RAW_ONLY,
          fs_aggregation_strategy = dict_get AGGREGATION_BY_CLASS fclass aggregation_strategy.UNKNOWN,
          fs_ml_candidate =
            (if fclass \<in> {field_class.CONTINUOUS_TELEMETRY, field_class.COUNTER, field_class.ALARM_FLAG}
             then ml_candidate.YES else ml_candidate.UNKNOWN),
          fs_prediction_domains = [], fs_leakage_risk = leakage_risk.UNKNOWN,
          fs_availability_semantics = availability_semantics.UNKNOWN,
          fs_review_status =
            (if determined then review_status.AUTO_CLASSIFIED else review_status.DOMAIN_REVIEW_REQUIRED),
          fs_deprecated = False, fs_notes = Some (classifier_note entity fclass category determined),
          fs_origin = ''classifier''\<rparr>)"

section \<open>What the classifier asserts\<close>

lemma first_match_hit:
  "first_match rs text dflt \<noteq> dflt \<Longrightarrow> \<exists>r\<in>set rs. rule_matches r text \<and> kr_result r = first_match rs text dflt"
  by (induction rs) auto

lemma first_match_keyword:
  assumes "first_match rs text dflt \<noteq> dflt"
  shows "\<exists>r\<in>set rs. kr_result r = first_match rs text dflt \<and> (\<exists>w\<in>set (kr_keywords r). contains w text)"
  using first_match_hit [OF assms] by (auto simp: rule_matches_def list_ex_iff)

lemma find_SomeD: "find P xs = Some r \<Longrightarrow> r \<in> set xs \<and> P r"
  by (induction xs) (auto split: if_splits)

lemma infer_unit_keyword:
  assumes "fst (infer_unit text) = Some u"
  shows "\<exists>ws t. (ws, u, t) \<in> set UNIT_RULES \<and> (\<exists>w\<in>set ws. contains w text)"
proof -
  obtain r where r: "find (\<lambda>(ws, symbol, t). list_ex (\<lambda>w. contains w text) ws) UNIT_RULES = Some r"
      and "fst (snd r) = u"
    using assms by (auto simp: infer_unit_def split: option.splits)
  then show ?thesis using find_SomeD [OF r] by (cases r) (auto simp: list_ex_iff)
qed

lemma classify_fields:
  fixes units name n c
  defines "s \<equiv> classify_field units name n c"
  shows "fs_entity s = first_match ENTITY_RULES (py_lower name) field_entity.UNKNOWN"
    and "fs_field_class s = first_match CLASS_RULES (py_lower name) field_class.UNKNOWN"
    and "fs_category s = first_match CATEGORY_RULES (py_lower name) field_category.UNKNOWN"
    and "fs_unit s = (if fs_field_class s \<in> {field_class.STATE, field_class.IDENTIFIER, field_class.ALARM_FLAG} then None
          else case (fst (infer_unit (py_lower name)), units) of
            (Some u, Some reg) \<Rightarrow> if u \<in> set (unit_symbols reg) then Some u else None
          | (u, _) \<Rightarrow> u)"
    and "fs_review_status s = (if fs_entity s \<noteq> field_entity.UNKNOWN \<and> fs_field_class s \<noteq> field_class.UNKNOWN
          then review_status.AUTO_CLASSIFIED else review_status.DOMAIN_REVIEW_REQUIRED)"
    and "fs_valid_min s = None \<and> fs_valid_max s = None \<and> fs_sentinel_values s = [] \<and> fs_allowed_values s = []
          \<and> fs_description s = None \<and> fs_range_status s \<noteq> range_status.VERIFIED"
  unfolding s_def classify_field_def Let_def
  by (auto simp: range_status_for_def split: prod.splits option.splits)

text \<open>
  The classifier asserts only what the name of a field says. An entity, a class, a category or a
  unit is given only when the lower-case name contains a keyword of a rule for it, a unit moreover
  only when the unit registry lists it and the field is not a state, an identifier or an alarm; a field
  without entity or class is put up for domain review; no value range, sentinel or allowed value
  is ever invented.
\<close>

theorem classifier_sound:
  fixes units name n c
  defines "s \<equiv> classify_field (Some units) name n c"
  shows "(fs_entity s \<noteq> field_entity.UNKNOWN \<longrightarrow>
       (\<exists>r\<in>set ENTITY_RULES. kr_result r = fs_entity s \<and> (\<exists>w\<in>set (kr_keywords r). contains w (py_lower name)))) \<and>
     (fs_field_class s \<noteq> field_class.UNKNOWN \<longrightarrow>
       (\<exists>r\<in>set CLASS_RULES. kr_result r = fs_field_class s \<and> (\<exists>w\<in>set (kr_keywords r). contains w (py_lower name)))) \<and>
     (fs_category s \<noteq> field_category.UNKNOWN \<longrightarrow>
       (\<exists>r\<in>set CATEGORY_RULES. kr_result r = fs_category s \<and> (\<exists>w\<in>set (kr_keywords r). contains w (py_lower name)))) \<and>
     (\<forall>u. fs_unit s = Some u \<longrightarrow> u \<in> set (unit_symbols units) \<and>
       fs_field_class s \<notin> {field_class.STATE, field_class.IDENTIFIER, field_class.ALARM_FLAG} \<and>
       (\<exists>ws t. (ws, u, t) \<in> set UNIT_RULES \<and> (\<exists>w\<in>set ws. contains w (py_lower name)))) \<and>
     (fs_review_status s = review_status.AUTO_CLASSIFIED \<longleftrightarrow>
       fs_entity s \<noteq> field_entity.UNKNOWN \<and> fs_field_class s \<noteq> field_class.UNKNOWN) \<and>
     fs_valid_min s = None \<and> fs_valid_max s = None \<and> fs_sentinel_values s = [] \<and> fs_allowed_values s = [] \<and>
     \<not> has_verified_range s"
proof (intro conjI)
  note f = classify_fields [of "Some units" name n c, folded s_def]
  show "fs_entity s \<noteq> field_entity.UNKNOWN \<longrightarrow>
       (\<exists>r\<in>set ENTITY_RULES. kr_result r = fs_entity s \<and> (\<exists>w\<in>set (kr_keywords r). contains w (py_lower name)))"
    unfolding f(1) by (intro impI first_match_keyword)
  show "fs_field_class s \<noteq> field_class.UNKNOWN \<longrightarrow>
       (\<exists>r\<in>set CLASS_RULES. kr_result r = fs_field_class s \<and> (\<exists>w\<in>set (kr_keywords r). contains w (py_lower name)))"
    unfolding f(2) by (intro impI first_match_keyword)
  show "fs_category s \<noteq> field_category.UNKNOWN \<longrightarrow>
       (\<exists>r\<in>set CATEGORY_RULES. kr_result r = fs_category s \<and> (\<exists>w\<in>set (kr_keywords r). contains w (py_lower name)))"
    unfolding f(3) by (intro impI first_match_keyword)
  show "\<forall>u. fs_unit s = Some u \<longrightarrow> u \<in> set (unit_symbols units) \<and>
       fs_field_class s \<notin> {field_class.STATE, field_class.IDENTIFIER, field_class.ALARM_FLAG} \<and>
       (\<exists>ws t. (ws, u, t) \<in> set UNIT_RULES \<and> (\<exists>w\<in>set ws. contains w (py_lower name)))"
  proof (intro allI impI)
    fix u assume u: "fs_unit s = Some u"
    then have k: "fs_field_class s \<notin> {field_class.STATE, field_class.IDENTIFIER, field_class.ALARM_FLAG}"
      unfolding f(4) by (metis option.distinct(1))
    moreover have "fst (infer_unit (py_lower name)) = Some u \<and> u \<in> set (unit_symbols units)"
      using u unfolding f(4) if_not_P [OF k] by (auto split: option.splits if_splits)
    ultimately show "u \<in> set (unit_symbols units) \<and>
       fs_field_class s \<notin> {field_class.STATE, field_class.IDENTIFIER, field_class.ALARM_FLAG} \<and>
       (\<exists>ws t. (ws, u, t) \<in> set UNIT_RULES \<and> (\<exists>w\<in>set ws. contains w (py_lower name)))"
      using infer_unit_keyword by blast
  qed
  show "fs_review_status s = review_status.AUTO_CLASSIFIED \<longleftrightarrow>
       fs_entity s \<noteq> field_entity.UNKNOWN \<and> fs_field_class s \<noteq> field_class.UNKNOWN"
    unfolding f(5) by simp
qed (use classify_fields(6) [of "Some units" name n c, folded s_def] in \<open>simp_all add: has_verified_range_def\<close>)

lemma keyword_in_name: "contains w name \<Longrightarrow> rule_matches (rule_of ws t) name \<longleftrightarrow> w \<in> set ws \<or> list_ex (\<lambda>v. contains v name) ws"
  by (auto simp: rule_matches_def rule_of_def list_ex_iff)

text \<open>
  Two keywords of the class rules cannot take effect as meant: every name with \<open>uptime\<close> contains
  \<open>time\<close>, whose rule comes first, and \<open>grid\<close> contains \<open>id\<close>.
\<close>

lemma uptime_never_counter:
  assumes "contains ''uptime'' (py_lower name)"
  shows "fs_field_class (classify_field units name n c) \<in>
    {field_class.ALARM_FLAG, field_class.FAULT_CODE, field_class.TIMESTAMP}"
proof -
  have "contains ''time'' ''uptime''" by code_simp
  then have "contains ''time'' (py_lower name)" using assms by (rule contains_trans)
  then show ?thesis
    unfolding classify_fields CLASS_RULES_def by (simp add: rule_matches_def rule_of_def)
qed

lemma grid_voltage_identifier:
  "case classify_field None ''Grid Voltage'' 1 c of s \<Rightarrow>
     fs_field_class s = field_class.IDENTIFIER \<and> fs_unit s = None
     \<and> fs_aggregation_strategy s = aggregation_strategy.FIRST \<and> fs_data_type s = canonical_data_type.FLOAT"
  by code_simp

definition demo_units :: unit_registry where
  "demo_units = \<lparr>unit_symbols = [''V'', CHR 0xB0 # ''C''], unit_dimensions = []\<rparr>"

theorem classifier_sound_witness:
  "let s = classify_field (Some demo_units) ''Cabinet Temperature'' 1 ''cabinet_temperature'' in
     fs_unit s = Some (CHR 0xB0 # ''C'') \<and> fs_entity s = field_entity.CHARGER \<and>
     (\<exists>ws t. (ws, CHR 0xB0 # ''C'', t) \<in> set UNIT_RULES \<and> (\<exists>w\<in>set ws. contains w ''cabinet temperature''))"
proof -
  let ?s = "classify_field (Some demo_units) ''Cabinet Temperature'' 1 ''cabinet_temperature''"
  have "fs_unit ?s = Some (CHR 0xB0 # ''C'') \<and> fs_entity ?s = field_entity.CHARGER
      \<and> py_lower ''Cabinet Temperature'' = ''cabinet temperature''" by code_simp
  then show ?thesis
    using classifier_sound [of demo_units "''Cabinet Temperature''" 1 "''cabinet_temperature''"] by auto
qed

end
