(* ===== verification/Dictionary.thy ===== *)
theory Dictionary
  imports Classifier Headers
begin

text \<open>
  The field dictionary, \<open>pipelines/validation/dictionary.py\<close>: loading it from parsed YAML files with
  its duplicate checks, and resolving a raw source position by its four precedence levels; and the
  coverage report of \<open>pipelines/validation/coverage.py\<close>.

  \<open>files\<close> gives the parsed content of an included file, \<open>re_compile\<close> the match test of a regular
  expression (\<open>None\<close> when it does not compile); both are parameters, as is \<open>repr\<close> for the text of a
  list or a mapping. Replacing \<open>\s+\<close> by nothing drops the white space of a name.
\<close>

section \<open>The registry\<close>

record pattern_rule =
  pr_id :: string
  pr_pattern :: "string \<Rightarrow> bool"
  pr_template :: field_spec

record dictionary_registry =
  reg_name :: string
  reg_revision :: string
  reg_units :: unit_registry
  reg_missing_values :: missing_registry
  specs_by_identity :: "(string \<times> int, field_spec) pydict"
  specs_by_name :: "(string, field_spec) pydict"
  specs_by_norm :: "(string, field_spec) pydict"
  reg_patterns :: "pattern_rule list"

definition norm_key :: "string \<Rightarrow> string" where
  "norm_key name = py_lower (filter (\<lambda>c. \<not> is_space c) name)"

definition curated :: "dictionary_registry \<Rightarrow> field_spec list" where
  "curated reg = dict_values (specs_by_name reg) @ dict_values (specs_by_identity reg)"

definition curated_field_count :: "dictionary_registry \<Rightarrow> nat" where
  "curated_field_count reg = length (specs_by_name reg) + length (specs_by_identity reg)"

definition set_default :: "'k \<Rightarrow> 'v \<Rightarrow> ('k, 'v) pydict \<Rightarrow> ('k, 'v) pydict" where
  "set_default k v d = (if k \<in> set (dict_keys d) then d else d @ [(k, v)])"

definition register_spec :: "dictionary_registry \<Rightarrow> field_spec \<Rightarrow> dict_error + dictionary_registry" where
  "register_spec reg spec =
     (let reg = reg\<lparr>specs_by_norm := set_default (norm_key (fs_source_name spec)) spec (specs_by_norm reg)\<rparr>
      in case fs_source_occurrence spec of
           None \<Rightarrow>
             (if fs_source_name spec \<in> set (dict_keys (specs_by_name reg)) then Inl DictionaryError
              else Inr (reg\<lparr>specs_by_name := specs_by_name reg @ [(fs_source_name spec, spec)]\<rparr>))
         | Some n \<Rightarrow>
             (if (fs_source_name spec, n) \<in> set (dict_keys (specs_by_identity reg)) then Inl DictionaryError
              else Inr (reg\<lparr>specs_by_identity :=
                               specs_by_identity reg @ [((fs_source_name spec, n), spec)]\<rparr>)))"

text \<open>The loop of \<open>_validate\<close>, over the canonical names seen so far.\<close>

fun check_canonical :: "string list \<Rightarrow> field_spec list \<Rightarrow> bool" where
  "check_canonical known [] = True"
| "check_canonical known (s # ss) =
     (fs_canonical_name s \<notin> set known \<and> check_canonical (fs_canonical_name s # known) ss)"

definition validate_registry :: "dictionary_registry \<Rightarrow> dict_error + dictionary_registry" where
  "validate_registry reg = (if check_canonical [] (curated reg) then Inr reg else Inl DictionaryError)"

section \<open>Loading\<close>

definition load_field ::
    "(yaml \<Rightarrow> string) \<Rightarrow> string \<Rightarrow> dictionary_registry \<Rightarrow> yaml \<Rightarrow> dict_error + dictionary_registry" where
  "load_field repr origin reg y =
     (case y of
        YDict raw \<Rightarrow> bind_err (build_spec repr (reg_units reg) origin raw) (register_spec reg)
      | _ \<Rightarrow> Inl AttributeErr)"

definition load_include ::
    "(yaml \<Rightarrow> string) \<Rightarrow> (string \<Rightarrow> yaml option) \<Rightarrow> dictionary_registry \<Rightarrow> yaml
     \<Rightarrow> dict_error + dictionary_registry" where
  "load_include repr files reg include =
     (case files (yaml_str repr include) of
        None \<Rightarrow> Inl DictionaryError
      | Some doc \<Rightarrow>
          bind_err (yaml_get (document doc) ''fields'') (\<lambda>fs.
          bind_err (yaml_items fs) (\<lambda>raws.
          fold_err (load_field repr (yaml_str repr include)) reg raws)))"

definition load_pattern ::
    "(yaml \<Rightarrow> string) \<Rightarrow> (string \<Rightarrow> (string \<Rightarrow> bool) option) \<Rightarrow> dictionary_registry \<Rightarrow> yaml
     \<Rightarrow> dict_error + dictionary_registry" where
  "load_pattern repr re_compile reg y =
     (case y of
        YDict raw \<Rightarrow>
          (let rule_id = yget_str repr raw ''id'' ''unnamed-pattern''; expression = yget raw ''match''
           in if \<not> truthy expression then Inl DictionaryError
              else bind_err
                (build_spec repr (reg_units reg) (''registry.yaml#'' @ rule_id)
                  (AList.update ''canonical_name'' (YStr ''<pattern>'')
                    (AList.update ''source_name'' (YStr (''<pattern:'' @ rule_id @ ''>'')) raw)))
                (\<lambda>template. case re_compile (yaml_str repr expression) of
                   None \<Rightarrow> Inl RegexErr
                 | Some p \<Rightarrow> Inr (reg\<lparr>reg_patterns := reg_patterns reg @
                     [\<lparr>pr_id = rule_id, pr_pattern = p, pr_template = template\<rparr>]\<rparr>)))
      | _ \<Rightarrow> Inl AttributeErr)"

definition load_index ::
    "(yaml \<Rightarrow> string) \<Rightarrow> (string \<Rightarrow> (string \<Rightarrow> bool) option) \<Rightarrow> (string \<Rightarrow> yaml option)
     \<Rightarrow> unit_registry \<Rightarrow> missing_registry \<Rightarrow> (string \<times> yaml) list \<Rightarrow> dict_error + dictionary_registry" where
  "load_index repr re_compile files units missing index =
     bind_err (yaml_items (yget index ''includes'')) (\<lambda>incs.
     bind_err (fold_err (load_include repr files)
       \<lparr>reg_name = yget_str repr index ''name'' ''unnamed'', reg_revision = yget_str repr index ''revision'' ''0'',
        reg_units = units, reg_missing_values = missing,
        specs_by_identity = [], specs_by_name = [], specs_by_norm = [], reg_patterns = []\<rparr> incs) (\<lambda>reg.
     bind_err (yaml_items (yget index ''patterns'')) (\<lambda>patterns.
     bind_err (fold_err (load_pattern repr re_compile) reg patterns) validate_registry)))"

text \<open>\<open>index_file\<close>, \<open>units_file\<close> and \<open>missing_file\<close> are the registry and the two contract files.\<close>

definition load_registry ::
    "(yaml \<Rightarrow> string) \<Rightarrow> (string \<Rightarrow> (string \<Rightarrow> bool) option) \<Rightarrow> (string \<Rightarrow> yaml option)
     \<Rightarrow> yaml option \<Rightarrow> yaml option \<Rightarrow> yaml option \<Rightarrow> dict_error + dictionary_registry" where
  "load_registry repr re_compile files index_file units_file missing_file =
     (case index_file of
        None \<Rightarrow> Inl DictionaryError
      | Some doc \<Rightarrow>
          bind_err (load_units repr units_file) (\<lambda>units.
          bind_err (load_missing repr missing_file) (\<lambda>missing.
          case document doc of
            YDict index \<Rightarrow> load_index repr re_compile files units missing index
          | _ \<Rightarrow> Inl AttributeErr)))"

section \<open>Resolution\<close>

text \<open>A single entry applied to a further occurrence of its header.\<close>

definition occurrence_spec :: "field_spec \<Rightarrow> int \<Rightarrow> field_spec" where
  "occurrence_spec named n =
     named\<lparr>fs_canonical_name := fs_canonical_name named @ ''_occurrence_'' @ int_str n,
           fs_source_occurrence := Some n,
           fs_review_status := review_status.DOMAIN_REVIEW_REQUIRED,
           fs_notes := Some ((case fs_notes named of None \<Rightarrow> [] | Some t \<Rightarrow> if t = [] then [] else t @ '' '')
             @ ''Occurrence '' @ int_str n
             @ '' of a repeated raw header inherits the occurrence-1 definition and requires domain confirmation.'')\<rparr>"

definition named_spec :: "dictionary_registry \<Rightarrow> string \<Rightarrow> field_spec option" where
  "named_spec reg source_name =
     (case map_of (specs_by_name reg) source_name of
        Some s \<Rightarrow> Some s
      | None \<Rightarrow> map_of (specs_by_norm reg) (norm_key source_name))"

definition pattern_spec :: "dictionary_registry \<Rightarrow> string \<Rightarrow> int \<Rightarrow> string \<Rightarrow> field_spec option" where
  "pattern_spec reg source_name n fallback_canonical =
     map_option (\<lambda>rule. (pr_template rule)\<lparr>fs_source_name := source_name, fs_source_occurrence := Some n,
         fs_canonical_name := fallback_canonical, fs_display_name := Some source_name\<rparr>)
       (find (\<lambda>rule. pr_pattern rule source_name) (reg_patterns reg))"

definition resolve_field :: "dictionary_registry \<Rightarrow> string \<Rightarrow> int \<Rightarrow> nat \<Rightarrow> string \<Rightarrow> dict_resolved" where
  "resolve_field reg source_name n pos fallback_canonical =
     (case map_of (specs_by_identity reg) (source_name, n) of
        Some s \<Rightarrow> \<lparr>dr_spec = s, dr_source_position = pos, dr_is_dictionary_mapped = True\<rparr>
      | None \<Rightarrow>
     (case named_spec reg source_name of
        Some s \<Rightarrow>
          \<lparr>dr_spec = (if n > 1 then occurrence_spec s n else s), dr_source_position = pos,
           dr_is_dictionary_mapped = True\<rparr>
      | None \<Rightarrow>
     (case pattern_spec reg source_name n fallback_canonical of
        Some s \<Rightarrow> \<lparr>dr_spec = s, dr_source_position = pos, dr_is_dictionary_mapped = True\<rparr>
      | None \<Rightarrow>
          \<lparr>dr_spec = classify_field (Some (reg_units reg)) source_name n fallback_canonical,
           dr_source_position = pos, dr_is_dictionary_mapped = False\<rparr>)))"

definition resolve_all :: "dictionary_registry \<Rightarrow> (string \<times> int \<times> nat \<times> string) list \<Rightarrow> dict_resolved list" where
  "resolve_all reg fs = map (\<lambda>(name, n, pos, canonical). resolve_field reg name n pos canonical) fs"

section \<open>Coverage report\<close>

record coverage_report =
  cr_source_positions :: nat
  cr_mapped :: nat
  cr_unmapped :: nat
  cr_duplicate_names_handled :: nat
  cr_duplicate_positions :: nat
  cr_verified :: nat
  cr_engineer_reviewed :: nat
  cr_auto_classified :: nat
  cr_domain_review_required :: nat
  cr_unmapped_examples :: "string list"

definition coverage_status :: "coverage_report \<Rightarrow> schema_coverage_status" where
  "coverage_status r =
     (if cr_unmapped r = 0 then schema_coverage_status.COMPLETE else schema_coverage_status.INCOMPLETE)"

definition report_percentage :: "coverage_report \<Rightarrow> pyfloat" where
  "report_percentage r =
     (if cr_source_positions r = 0 then 0
      else py_round 3 (100 * of_nat (cr_mapped r) / of_nat (cr_source_positions r)))"

definition review_count :: "dict_resolved list \<Rightarrow> review_status \<Rightarrow> nat" where
  "review_count rs st = length (filter (\<lambda>r. fs_review_status (dr_spec r) = st) rs)"

definition build_coverage_report :: "header_result \<Rightarrow> dict_resolved list \<Rightarrow> coverage_report" where
  "build_coverage_report header rs =
     (let mapped = filter dr_is_dictionary_mapped rs; unmapped = filter (\<lambda>r. \<not> dr_is_dictionary_mapped r) rs
      in \<lparr>cr_source_positions = field_count header, cr_mapped = length mapped, cr_unmapped = length unmapped,
          cr_duplicate_names_handled = duplicate_header_count header,
          cr_duplicate_positions = duplicated_position_count header,
          cr_verified = review_count rs review_status.VERIFIED,
          cr_engineer_reviewed = review_count rs review_status.ENGINEER_REVIEWED,
          cr_auto_classified = review_count rs review_status.AUTO_CLASSIFIED,
          cr_domain_review_required = review_count rs review_status.DOMAIN_REVIEW_REQUIRED,
          cr_unmapped_examples = map (\<lambda>r. fs_source_name (dr_spec r)) (take 20 unmapped)\<rparr>)"

record field_inventory =
  fi_total_fields :: nat
  fi_registered_fields :: nat
  fi_unregistered_fields :: nat
  fi_duplicate_headers :: nat
  fi_unknown_fields :: "string list"
  fi_missing_expected :: "string list"
  fi_additional :: "string list"
  fi_coverage :: coverage_report

definition build_inventory ::
    "header_result \<Rightarrow> dict_resolved list \<Rightarrow> string list \<Rightarrow> string list \<Rightarrow> field_inventory" where
  "build_inventory header rs missing additional =
     (let coverage = build_coverage_report header rs
      in \<lparr>fi_total_fields = field_count header, fi_registered_fields = cr_mapped coverage,
          fi_unregistered_fields = cr_unmapped coverage, fi_duplicate_headers = duplicate_header_count header,
          fi_unknown_fields = map (\<lambda>r. fs_source_name (dr_spec r)) (filter (\<lambda>r. \<not> dr_is_dictionary_mapped r) rs),
          fi_missing_expected = missing, fi_additional = additional, fi_coverage = coverage\<rparr>)"

section \<open>What loading and resolution guarantee\<close>

lemma fold_err_invariant:
  assumes "fold_err f s xs = Inr s'" and "I s" and "\<And>s x s'. I s \<Longrightarrow> f s x = Inr s' \<Longrightarrow> I s'"
  shows "I s'"
  using assms(1,2)
proof (induction xs arbitrary: s)
  case (Cons x xs)
  from Cons.prems(1) obtain s1 where "f s x = Inr s1" "fold_err f s1 xs = Inr s'" by (auto simp: bind_err_Inr)
  then show ?case using Cons.IH assms(3) Cons.prems(2) by blast
qed simp

lemma check_canonical_iff:
  "check_canonical known ss \<longleftrightarrow> distinct (map fs_canonical_name ss) \<and> set known \<inter> fs_canonical_name ` set ss = {}"
  by (induction ss arbitrary: known) auto

lemma set_default_keys [simp]: "fst ` set (set_default k v d) = insert k (fst ` set d)"
  by (auto simp: set_default_def)

lemma set_default_distinct: "distinct (dict_keys d) \<Longrightarrow> distinct (dict_keys (set_default k v d))"
  by (simp add: set_default_def)

lemma set_default_mem: "e \<in> set (set_default k v d) \<Longrightarrow> e = (k, v) \<or> e \<in> set d"
  by (auto simp: set_default_def split: if_splits)

text \<open>What registration keeps: every table is keyed by what its entries say.\<close>

definition registry_wf :: "dictionary_registry \<Rightarrow> bool" where
  "registry_wf reg =
     (distinct (dict_keys (specs_by_name reg)) \<and> distinct (dict_keys (specs_by_identity reg)) \<and>
      distinct (dict_keys (specs_by_norm reg)) \<and>
      (\<forall>(k, s)\<in>set (specs_by_name reg). k = fs_source_name s \<and> fs_source_occurrence s = None) \<and>
      (\<forall>((k, n), s)\<in>set (specs_by_identity reg). k = fs_source_name s \<and> fs_source_occurrence s = Some n) \<and>
      (\<forall>(k, s)\<in>set (specs_by_norm reg). k = norm_key (fs_source_name s) \<and> s \<in> set (curated reg)) \<and>
      (\<forall>s\<in>set (curated reg). norm_key (fs_source_name s) \<in> set (dict_keys (specs_by_norm reg))))"

lemma registry_wfI:
  assumes "distinct (dict_keys (specs_by_name reg))" "distinct (dict_keys (specs_by_identity reg))"
    "distinct (dict_keys (specs_by_norm reg))"
    "\<And>k s. (k, s) \<in> set (specs_by_name reg) \<Longrightarrow> k = fs_source_name s \<and> fs_source_occurrence s = None"
    "\<And>k n s. ((k, n), s) \<in> set (specs_by_identity reg) \<Longrightarrow> k = fs_source_name s \<and> fs_source_occurrence s = Some n"
    "\<And>k s. (k, s) \<in> set (specs_by_norm reg) \<Longrightarrow> k = norm_key (fs_source_name s) \<and> s \<in> set (curated reg)"
    "\<And>s. s \<in> set (curated reg) \<Longrightarrow> norm_key (fs_source_name s) \<in> set (dict_keys (specs_by_norm reg))"
  shows "registry_wf reg"
  using assms unfolding registry_wf_def by blast

lemma registry_wfD:
  assumes "registry_wf reg"
  shows "distinct (dict_keys (specs_by_name reg))" "distinct (dict_keys (specs_by_identity reg))"
    "distinct (dict_keys (specs_by_norm reg))"
    "(k, s) \<in> set (specs_by_name reg) \<Longrightarrow> k = fs_source_name s \<and> fs_source_occurrence s = None"
    "((k, n), s) \<in> set (specs_by_identity reg) \<Longrightarrow> k = fs_source_name s \<and> fs_source_occurrence s = Some n"
    "(k, s) \<in> set (specs_by_norm reg) \<Longrightarrow> k = norm_key (fs_source_name s) \<and> s \<in> set (curated reg)"
    "s \<in> set (curated reg) \<Longrightarrow> norm_key (fs_source_name s) \<in> set (dict_keys (specs_by_norm reg))"
  using assms unfolding registry_wf_def by blast+

lemma register_curated:
  assumes "register_spec reg spec = Inr reg'"
  shows "set (curated reg') = insert spec (set (curated reg))"
    and "specs_by_norm reg' = set_default (norm_key (fs_source_name spec)) spec (specs_by_norm reg)"
    and "reg_patterns reg' = reg_patterns reg"
  using assms by (auto simp: register_spec_def curated_def Let_def split: option.splits if_splits)

lemma register_wf:
  assumes "registry_wf reg" and "register_spec reg spec = Inr reg'"
  shows "registry_wf reg'"
proof (rule registry_wfI)
  note c = register_curated [OF assms(2)] and w = registry_wfD [OF assms(1)]
  show "distinct (dict_keys (specs_by_name reg'))" "distinct (dict_keys (specs_by_identity reg'))"
    using assms(2) w(1,2) by (auto simp: register_spec_def Let_def split: option.splits if_splits)
  show "distinct (dict_keys (specs_by_norm reg'))" unfolding c(2) by (rule set_default_distinct [OF w(3)])
  show "k = fs_source_name s \<and> fs_source_occurrence s = None" if "(k, s) \<in> set (specs_by_name reg')" for k s
    using that assms(2) w(4) [of k s] by (auto simp: register_spec_def Let_def split: option.splits if_splits)
  show "k = fs_source_name s \<and> fs_source_occurrence s = Some n" if "((k, n), s) \<in> set (specs_by_identity reg')" for k n s
    using that assms(2) w(5) [of k n s] by (auto simp: register_spec_def Let_def split: option.splits if_splits)
  show "k = norm_key (fs_source_name s) \<and> s \<in> set (curated reg')" if "(k, s) \<in> set (specs_by_norm reg')" for k s
    using set_default_mem [OF that [unfolded c(2)]] w(6) [of k s] c(1) by auto
  show "norm_key (fs_source_name s) \<in> set (dict_keys (specs_by_norm reg'))" if "s \<in> set (curated reg')" for s
    using that w(7) [of s] unfolding c(1,2) by auto
qed

lemma load_registry_wf:
  assumes "load_registry repr re_compile files index_file units_file missing_file = Inr reg"
  shows "registry_wf reg \<and> distinct (map fs_canonical_name (curated reg))"
proof -
  obtain doc where d: "index_file = Some doc" using assms by (cases index_file) (simp_all add: load_registry_def)
  obtain index units missing where
    "load_index repr re_compile files units missing index = Inr reg"
    using assms unfolding d by (cases "document doc") (auto simp: load_registry_def bind_err_Inr)
  then obtain incs patterns r1 r2 where
    i: "fold_err (load_include repr files)
          \<lparr>reg_name = yget_str repr index ''name'' ''unnamed'', reg_revision = yget_str repr index ''revision'' ''0'',
           reg_units = units, reg_missing_values = missing, specs_by_identity = [], specs_by_name = [],
           specs_by_norm = [], reg_patterns = []\<rparr> incs = Inr r1"
    and p: "fold_err (load_pattern repr re_compile) r1 patterns = Inr r2"
    and v: "validate_registry r2 = Inr reg"
    by (auto simp: load_index_def bind_err_Inr)
  have field: "registry_wf r'" if "registry_wf r" "load_field repr origin r y = Inr r'" for r r' origin y
    using that by (auto simp: load_field_def bind_err_Inr split: yaml.splits intro: register_wf)
  have incl: "registry_wf r'" if "registry_wf r" "load_include repr files r y = Inr r'" for r r' y
  proof -
    from that(2) obtain origin raws where "fold_err (load_field repr origin) r raws = Inr r'"
      by (auto simp: load_include_def bind_err_Inr split: option.splits)
    then show ?thesis using that(1) field by (rule fold_err_invariant)
  qed
  have pat: "registry_wf r'" if "registry_wf r" "load_pattern repr re_compile r y = Inr r'" for r r' y
  proof -
    from that(2) obtain ps where "r' = r\<lparr>reg_patterns := ps\<rparr>"
      by (auto simp: load_pattern_def bind_err_Inr Let_def split: yaml.splits if_splits option.splits)
    then show ?thesis using that(1) by (simp add: registry_wf_def curated_def)
  qed
  have "registry_wf r1"
  proof (rule fold_err_invariant [OF i])
    show "registry_wf r'" if "registry_wf r" "load_include repr files r y = Inr r'" for r y r' using that by (rule incl)
  qed (simp add: registry_wf_def curated_def)
  then have "registry_wf r2" using p pat by (metis fold_err_invariant)
  moreover have "reg = r2" "check_canonical [] (curated r2)"
    using v by (auto simp: validate_registry_def split: if_splits)
  ultimately show ?thesis by (simp add: check_canonical_iff)
qed


lemma map_of_mem_iff:
  "distinct (map fst d) \<Longrightarrow> map_of d k = Some v \<longleftrightarrow> (k, v) \<in> set d"
  by (rule map_of_eq_Some_iff)

lemma curated_cases:
  assumes "s \<in> set (curated reg)"
  obtains k where "(k, s) \<in> set (specs_by_name reg)" | k n where "((k, n), s) \<in> set (specs_by_identity reg)"
  using assms unfolding curated_def by force

lemma named_spec_mem:
  assumes "registry_wf reg" and "named_spec reg name = Some s"
  shows "s \<in> set (curated reg) \<and> norm_key (fs_source_name s) = norm_key name"
proof (cases "map_of (specs_by_name reg) name")
  case (Some t)
  then have "(name, s) \<in> set (specs_by_name reg)" using assms(2) by (auto simp: named_spec_def dest: map_of_SomeD)
  then show ?thesis using registry_wfD(4) [OF assms(1)] by (force simp: curated_def)
next
  case None
  then have "(norm_key name, s) \<in> set (specs_by_norm reg)" using assms(2) by (auto simp: named_spec_def dest: map_of_SomeD)
  then show ?thesis using registry_wfD(6) [OF assms(1)] by metis
qed

lemma named_spec_None:
  assumes "registry_wf reg"
  shows "named_spec reg name = None \<longleftrightarrow> norm_key name \<notin> norm_key ` fs_source_name ` set (curated reg)"
proof
  assume n: "named_spec reg name = None"
  then have "norm_key name \<notin> set (dict_keys (specs_by_norm reg))"
    by (auto simp: named_spec_def map_of_eq_None_iff split: option.splits)
  then show "norm_key name \<notin> norm_key ` fs_source_name ` set (curated reg)"
    using registry_wfD(7) [OF assms] by auto
next
  assume "norm_key name \<notin> norm_key ` fs_source_name ` set (curated reg)"
  then show "named_spec reg name = None" using named_spec_mem [OF assms, of name]
    by (cases "named_spec reg name") (auto simp del: image_iff, metis image_eqI)
qed

lemma identity_mem:
  assumes "registry_wf reg"
  shows "map_of (specs_by_identity reg) (name, n) = Some s \<longleftrightarrow>
    s \<in> set (curated reg) \<and> fs_source_name s = name \<and> fs_source_occurrence s = Some n"
proof -
  have "((name, n), s) \<in> set (specs_by_identity reg)"
    if "s \<in> set (curated reg)" "fs_source_name s = name" "fs_source_occurrence s = Some n"
  proof -
    note m = that(1)
    have nin: "(k, s) \<notin> set (specs_by_name reg)" for k using registry_wfD(4) [OF assms, of k s] that(3) by auto
    obtain k m where "((k, m), s) \<in> set (specs_by_identity reg)" using m nin by (elim curated_cases) blast+
    then show ?thesis using registry_wfD(5) [OF assms, of k m s] that(2,3) by simp
  qed
  moreover have "s \<in> set (curated reg) \<and> fs_source_name s = name \<and> fs_source_occurrence s = Some n"
    if "((name, n), s) \<in> set (specs_by_identity reg)"
    using registry_wfD(5) [OF assms that] that by (force simp: curated_def)
  ultimately show ?thesis using map_of_mem_iff [OF registry_wfD(2) [OF assms], of "(name, n)" s] by blast
qed

text \<open>
  C23: The dictionary resolves every source position, by the curated knowledge where there is any. In a
  registry that was loaded, the canonical names of the curated definitions are distinct; a curated
  definition is what its own name and occurrence resolve to; and a position counts as mapped exactly
  when a curated source name agrees with its header up to white space and case, or a pattern
  matches it. Otherwise its definition is the classifier's.
\<close>

theorem resolution_complete:
  assumes "load_registry repr re_compile files index_file units_file missing_file = Inr reg"
  shows "distinct (map fs_canonical_name (curated reg)) \<and>
    (\<forall>s\<in>set (curated reg). \<forall>n pos fb. fs_source_occurrence s = Some n \<longrightarrow>
       dr_spec (resolve_field reg (fs_source_name s) n pos fb) = s) \<and>
    (\<forall>s\<in>set (curated reg). \<forall>pos fb. fs_source_occurrence s = None \<longrightarrow>
       (\<forall>t\<in>set (curated reg). fs_source_name t = fs_source_name s \<longrightarrow> t = s) \<longrightarrow>
       dr_spec (resolve_field reg (fs_source_name s) 1 pos fb) = s) \<and>
    (\<forall>name n pos fb. dr_is_dictionary_mapped (resolve_field reg name n pos fb) \<longleftrightarrow>
       norm_key name \<in> norm_key ` fs_source_name ` set (curated reg) \<or>
       (\<exists>rule\<in>set (reg_patterns reg). pr_pattern rule name)) \<and>
    (\<forall>name n pos fb. \<not> dr_is_dictionary_mapped (resolve_field reg name n pos fb) \<longrightarrow>
       dr_spec (resolve_field reg name n pos fb) = classify_field (Some (reg_units reg)) name n fb)"
proof (intro conjI ballI allI impI)
  from load_registry_wf [OF assms] have wf: "registry_wf reg" and d: "distinct (map fs_canonical_name (curated reg))"
    by blast+
  show "distinct (map fs_canonical_name (curated reg))" by (rule d)
  show "dr_spec (resolve_field reg (fs_source_name s) n pos fb) = s"
    if "s \<in> set (curated reg)" "fs_source_occurrence s = Some n" for s n pos fb
  proof -
    have "map_of (specs_by_identity reg) (fs_source_name s, n) = Some s" using that identity_mem [OF wf] by blast
    then show ?thesis by (simp add: resolve_field_def)
  qed
  show "dr_spec (resolve_field reg (fs_source_name s) 1 pos fb) = s"
    if s: "s \<in> set (curated reg)" "fs_source_occurrence s = None"
      and only: "\<forall>t\<in>set (curated reg). fs_source_name t = fs_source_name s \<longrightarrow> t = s" for s pos fb
  proof -
    have "map_of (specs_by_identity reg) (fs_source_name s, 1) = None"
      using identity_mem [OF wf] only s(2) by (metis not_Some_eq option.distinct(1))
    moreover have "(fs_source_name s, s) \<in> set (specs_by_name reg)"
    proof -
      have nin: "((k, n), s) \<notin> set (specs_by_identity reg)" for k n using registry_wfD(5) [OF wf, of k n s] s(2) by auto
      obtain k where "(k, s) \<in> set (specs_by_name reg)" using s(1) nin by (elim curated_cases) blast+
      then show ?thesis using registry_wfD(4) [OF wf, of k s] by simp
    qed
    then have "named_spec reg (fs_source_name s) = Some s"
      using map_of_mem_iff [OF registry_wfD(1) [OF wf], of "fs_source_name s" s] by (simp add: named_spec_def)
    ultimately show ?thesis by (simp add: resolve_field_def)
  qed
  have pat: "pattern_spec reg name n fb = None \<longleftrightarrow> \<not> (\<exists>rule\<in>set (reg_patterns reg). pr_pattern rule name)" for name n fb
    by (auto simp: pattern_spec_def find_None_iff)
  have ident: "map_of (specs_by_identity reg) (name, n) = Some s \<Longrightarrow> norm_key name \<in> norm_key ` fs_source_name ` set (curated reg)"
    for name n s using identity_mem [OF wf, of name n s] by (intro image_eqI) auto
  show "dr_is_dictionary_mapped (resolve_field reg name n pos fb) \<longleftrightarrow>
       norm_key name \<in> norm_key ` fs_source_name ` set (curated reg) \<or>
       (\<exists>rule\<in>set (reg_patterns reg). pr_pattern rule name)" for name n pos fb
  proof (cases "map_of (specs_by_identity reg) (name, n)")
    case (Some s)
    then show ?thesis using ident [OF Some] by (simp add: resolve_field_def)
  next
    case None
    have "dr_is_dictionary_mapped (resolve_field reg name n pos fb) \<longleftrightarrow>
        named_spec reg name \<noteq> None \<or> pattern_spec reg name n fb \<noteq> None"
      by (cases "named_spec reg name"; cases "pattern_spec reg name n fb") (simp_all add: resolve_field_def None)
    then show ?thesis unfolding named_spec_None [OF wf] pat by blast
  qed
  show "dr_spec (resolve_field reg name n pos fb) = classify_field (Some (reg_units reg)) name n fb"
    if "\<not> dr_is_dictionary_mapped (resolve_field reg name n pos fb)" for name n pos fb
    using that by (auto simp: resolve_field_def split: option.splits)
qed

text \<open>
  A definition registered for the second occurrence of a header alone also serves its first
  occurrence, under the same canonical name.
\<close>

lemma occurrence_leak:
  assumes "registry_wf reg" and "s \<in> set (curated reg)" and "fs_source_occurrence s = Some 2"
    and "\<forall>t\<in>set (curated reg). norm_key (fs_source_name t) = norm_key (fs_source_name s) \<longrightarrow> t = s"
  shows "fs_canonical_name (dr_spec (resolve_field reg (fs_source_name s) 1 pos fb)) =
         fs_canonical_name (dr_spec (resolve_field reg (fs_source_name s) 2 pos' fb'))"
proof -
  have "map_of (specs_by_identity reg) (fs_source_name s, 2) = Some s" using assms identity_mem by blast
  moreover have "map_of (specs_by_identity reg) (fs_source_name s, 1) = None"
  proof (rule ccontr)
    assume "map_of (specs_by_identity reg) (fs_source_name s, 1) \<noteq> None"
    then obtain t where "map_of (specs_by_identity reg) (fs_source_name s, 1) = Some t" by blast
    then have "t \<in> set (curated reg)" "fs_source_name t = fs_source_name s" "fs_source_occurrence t = Some 1"
      using identity_mem [OF assms(1)] by blast+
    then show False using assms(3,4) by force
  qed
  moreover obtain t where "named_spec reg (fs_source_name s) = Some t"
    using named_spec_None [OF assms(1)] assms(2) by blast
  moreover from this have "t = s" using named_spec_mem [OF assms(1)] assms(4) by blast
  ultimately show ?thesis by (simp add: resolve_field_def)
qed

text \<open>The review counts of a coverage report, and mapped and unmapped positions, partition the fields.\<close>

lemma coverage_report_partition:
  "cr_mapped (build_coverage_report h rs) + cr_unmapped (build_coverage_report h rs) = length rs
   \<and> cr_verified (build_coverage_report h rs) + cr_engineer_reviewed (build_coverage_report h rs)
     + cr_auto_classified (build_coverage_report h rs) + cr_domain_review_required (build_coverage_report h rs) = length rs"
proof (induction rs)
  case (Cons r rs)
  then show ?case
    by (cases "fs_review_status (dr_spec r)") (auto simp: build_coverage_report_def Let_def review_count_def)
qed (simp add: build_coverage_report_def Let_def review_count_def)


section \<open>A loaded registry\<close>

definition demo_field :: "string \<Rightarrow> string \<Rightarrow> (string \<times> yaml) list \<Rightarrow> yaml" where
  "demo_field name canonical extra =
     YDict ([(''source_name'', YStr name), (''canonical_name'', YStr canonical)] @ extra)"

definition demo_index :: yaml where
  "demo_index =
     YDict [(''name'', YStr ''demo''), (''includes'', YList [YStr ''charger.yaml'']),
            (''patterns'', YList [YDict [(''id'', YStr ''alarm''), (''match'', YStr ''^Alarm''), (''entity'', YStr ''ALARM'')]])]"

definition demo_files :: "string \<Rightarrow> yaml option" where
  "demo_files path =
     (if path = ''charger.yaml''
      then Some (YDict [(''fields'', YList
        [demo_field ''Grid Voltage'' ''grid_voltage'' [(''data_type'', YStr ''FLOAT'')],
         demo_field ''Stop Reason'' ''stop_reason_2'' [(''source_occurrence'', YInt 2)]])])
      else None)"

definition demo_registry :: "dict_error + dictionary_registry" where
  "demo_registry =
     load_registry (\<lambda>y. []) (\<lambda>expression. Some (\<lambda>name. take 5 name = drop 1 expression)) demo_files
       (Some demo_index) None None"

theorem resolution_complete_witness:
  "\<exists>reg. demo_registry = Inr reg \<and>
     dr_is_dictionary_mapped (resolve_field reg ''GRID  voltage'' 1 3 ''x'') \<and>
     dr_is_dictionary_mapped (resolve_field reg ''Alarm Door'' 1 4 ''alarm_door'') \<and>
     \<not> dr_is_dictionary_mapped (resolve_field reg ''Door'' 1 5 ''door'') \<and>
     distinct (map fs_canonical_name (curated reg))"
proof -
  have ev: "case demo_registry of Inl _ \<Rightarrow> False | Inr reg \<Rightarrow>
      map fs_source_name (curated reg) = [''Grid Voltage'', ''Stop Reason'']
      \<and> list_ex (\<lambda>r. pr_pattern r ''Alarm Door'') (reg_patterns reg)
      \<and> \<not> list_ex (\<lambda>r. pr_pattern r ''Door'') (reg_patterns reg)"
    by code_simp
  obtain reg where r1: "demo_registry = Inr reg" using ev by (simp split: sum.splits)
  have r: "demo_registry = Inr reg" "map fs_source_name (curated reg) = [''Grid Voltage'', ''Stop Reason'']"
      "\<exists>rule\<in>set (reg_patterns reg). pr_pattern rule ''Alarm Door''"
      "\<not> (\<exists>rule\<in>set (reg_patterns reg). pr_pattern rule ''Door'')"
    using ev unfolding r1 list_ex_iff sum.case by blast+
  have "fs_source_name ` set (curated reg) = {''Grid Voltage'', ''Stop Reason''}" using arg_cong [OF r(2), of set] by simp
  moreover have "norm_key ''GRID  voltage'' = norm_key ''Grid Voltage''" "norm_key ''Door'' \<noteq> norm_key ''Grid Voltage''"
    "norm_key ''Door'' \<noteq> norm_key ''Stop Reason''" by code_simp+
  ultimately have n: "norm_key ''GRID  voltage'' \<in> norm_key ` fs_source_name ` set (curated reg)"
    "norm_key ''Door'' \<notin> norm_key ` fs_source_name ` set (curated reg)" by auto
  note c = resolution_complete [OF r(1) [unfolded demo_registry_def]]
  have m: "dr_is_dictionary_mapped (resolve_field reg name n pos fb) \<longleftrightarrow>
       norm_key name \<in> norm_key ` fs_source_name ` set (curated reg) \<or> (\<exists>rule\<in>set (reg_patterns reg). pr_pattern rule name)"
    for name n pos fb using c by blast
  show ?thesis using r n c m by (intro exI [of _ reg]) simp
qed

text \<open>There the second-occurrence definition also serves the first occurrence.\<close>

lemma demo_occurrence_leak:
  "case demo_registry of Inl _ \<Rightarrow> False | Inr reg \<Rightarrow>
     map (\<lambda>n. fs_canonical_name (dr_spec (resolve_field reg ''Stop Reason'' n 0 []))) [1, 2] = [''stop_reason_2'', ''stop_reason_2'']"
  by code_simp

end
