(* ===== verification/Quality.thy ===== *)
theory Quality
  imports Profile Dictionary
begin

text \<open>
  The rule framework of file quality, \<open>pipelines/quality/base.py\<close>, and the quality score,
  \<open>pipelines/quality/scoring.py\<close>.

  A rule is a generator: evaluating it yields findings and may then raise, so it is modelled as the
  findings yielded and the text of the exception, if any. \<open>hashlib.sha256\<close> is \<open>digest\<close> and
  \<open>datetime.isoformat\<close> is the parameter \<open>isoformat\<close>. Messages of the score's explanation and of findings that only
  format numbers are left out, as are the free-form \<open>details\<close>.
\<close>

section \<open>Findings\<close>

text \<open>The persisted text of an issue type and of a scope, \<open>StrEnum.value\<close>.\<close>

primrec issue_type_value :: "quality_issue_type \<Rightarrow> string" where
  "issue_type_value quality_issue_type.MISSING_REQUIRED_FIELD = ''MISSING_REQUIRED_FIELD''"
| "issue_type_value quality_issue_type.DUPLICATE_HEADER = ''DUPLICATE_HEADER''"
| "issue_type_value quality_issue_type.INVALID_TIMESTAMP = ''INVALID_TIMESTAMP''"
| "issue_type_value quality_issue_type.EXACT_DUPLICATE = ''EXACT_DUPLICATE''"
| "issue_type_value quality_issue_type.LOGICAL_KEY_COLLISION = ''LOGICAL_KEY_COLLISION''"
| "issue_type_value quality_issue_type.UNKNOWN_FIELD = ''UNKNOWN_FIELD''"
| "issue_type_value quality_issue_type.MISSING_FIELD = ''MISSING_FIELD''"
| "issue_type_value quality_issue_type.ALL_NULL_FIELD = ''ALL_NULL_FIELD''"
| "issue_type_value quality_issue_type.SENTINEL_VALUE = ''SENTINEL_VALUE''"
| "issue_type_value quality_issue_type.OUT_OF_RANGE = ''OUT_OF_RANGE''"
| "issue_type_value quality_issue_type.UNEXPECTED_CONNECTOR_CARDINALITY = ''UNEXPECTED_CONNECTOR_CARDINALITY''"
| "issue_type_value quality_issue_type.UNEXPECTED_SMR_CARDINALITY = ''UNEXPECTED_SMR_CARDINALITY''"
| "issue_type_value quality_issue_type.TELEMETRY_GAP = ''TELEMETRY_GAP''"
| "issue_type_value quality_issue_type.SCHEMA_MISMATCH = ''SCHEMA_MISMATCH''"
| "issue_type_value quality_issue_type.INVALID_TYPE = ''INVALID_TYPE''"
| "issue_type_value quality_issue_type.UNKNOWN_ENUM_VALUE = ''UNKNOWN_ENUM_VALUE''"
| "issue_type_value quality_issue_type.MISSING_CHARGER_DATA = ''MISSING_CHARGER_DATA''"
| "issue_type_value quality_issue_type.LATE_FILE = ''LATE_FILE''"
| "issue_type_value quality_issue_type.PARTIAL_DAY = ''PARTIAL_DAY''"
| "issue_type_value quality_issue_type.SEVERELY_INCOMPLETE_DAY = ''SEVERELY_INCOMPLETE_DAY''"
| "issue_type_value quality_issue_type.ABNORMAL_SAMPLING_INTERVAL = ''ABNORMAL_SAMPLING_INTERVAL''"
| "issue_type_value quality_issue_type.MISSING_EXPECTED_CONNECTOR = ''MISSING_EXPECTED_CONNECTOR''"
| "issue_type_value quality_issue_type.MISSING_EXPECTED_SMR = ''MISSING_EXPECTED_SMR''"
| "issue_type_value quality_issue_type.MULTIPLE_FILES_SAME_CHARGER_DAY = ''MULTIPLE_FILES_SAME_CHARGER_DAY''"
| "issue_type_value quality_issue_type.OVERLAPPING_FILE_COVERAGE = ''OVERLAPPING_FILE_COVERAGE''"
| "issue_type_value quality_issue_type.EVENT_DATE_FILENAME_MISMATCH = ''EVENT_DATE_FILENAME_MISMATCH''"
| "issue_type_value quality_issue_type.FRAME_INCOMPLETE = ''FRAME_INCOMPLETE''"
| "issue_type_value quality_issue_type.FRAME_OVERCOMPLETE = ''FRAME_OVERCOMPLETE''"
| "issue_type_value quality_issue_type.FRAME_MISSING_POSITION = ''FRAME_MISSING_POSITION''"
| "issue_type_value quality_issue_type.FRAME_UNEXPECTED_POSITION = ''FRAME_UNEXPECTED_POSITION''"
| "issue_type_value quality_issue_type.AMBIGUOUS_FRAME_BOUNDARY = ''AMBIGUOUS_FRAME_BOUNDARY''"
| "issue_type_value quality_issue_type.FULL_FRAME_REPLAY = ''FULL_FRAME_REPLAY''"
| "issue_type_value quality_issue_type.PARTIAL_FRAME_REPLAY = ''PARTIAL_FRAME_REPLAY''"
| "issue_type_value quality_issue_type.SAME_TIMESTAMP_DISTINCT_FRAME = ''SAME_TIMESTAMP_DISTINCT_FRAME''"
| "issue_type_value quality_issue_type.INCONSISTENT_TOPOLOGY = ''INCONSISTENT_TOPOLOGY''"
| "issue_type_value quality_issue_type.ENTITY_ID_MISSING = ''ENTITY_ID_MISSING''"
| "issue_type_value quality_issue_type.UNASSIGNED_RAW_ROW = ''UNASSIGNED_RAW_ROW''"
| "issue_type_value quality_issue_type.TYPE_CONVERSION_FAILED = ''TYPE_CONVERSION_FAILED''"
| "issue_type_value quality_issue_type.SENTINEL_MASKED = ''SENTINEL_MASKED''"
| "issue_type_value quality_issue_type.REPEATED_FIELD_CONFLICT = ''REPEATED_FIELD_CONFLICT''"
| "issue_type_value quality_issue_type.CONNECTOR_FIELD_CONFLICT = ''CONNECTOR_FIELD_CONFLICT''"
| "issue_type_value quality_issue_type.MISSING_COMPONENT_ID = ''MISSING_COMPONENT_ID''"
| "issue_type_value quality_issue_type.UNROUTABLE_FIELD = ''UNROUTABLE_FIELD''"
| "issue_type_value quality_issue_type.NORMALIZATION_FAILED = ''NORMALIZATION_FAILED''"

fun rule_scope_value :: "quality_rule_scope \<Rightarrow> string" where
  "rule_scope_value quality_rule_scope.FILE = ''FILE''"
| "rule_scope_value quality_rule_scope.FIELD = ''FIELD''"
| "rule_scope_value quality_rule_scope.ROW = ''ROW''"
| "rule_scope_value quality_rule_scope.CHARGER_DAY = ''CHARGER_DAY''"
| "rule_scope_value quality_rule_scope.TIMESTAMP = ''TIMESTAMP''"
| "rule_scope_value quality_rule_scope.FRAME = ''FRAME''"
| "rule_scope_value quality_rule_scope.ENTITY = ''ENTITY''"

record quality_finding =
  rule_code :: quality_issue_type
  finding_scope :: quality_rule_scope
  severity :: quality_severity
  message :: string
  field_name :: "string option"
  field_occurrence :: "int option"
  finding_canonical_name :: "string option"
  finding_entity :: "field_entity option"
  source_row_number :: "nat option"
  finding_event_time :: "datetime option"
  entity_reference :: "string option"
  finding_raw_value :: "string option"
  occurrence_count :: nat

definition MAX_RAW_VALUE_CHARS :: nat where
  "MAX_RAW_VALUE_CHARS = 128"

definition or_empty :: "string option \<Rightarrow> string" where
  "or_empty v = (case v of None \<Rightarrow> [] | Some s \<Rightarrow> s)"

definition number_or_empty :: "int option \<Rightarrow> string" where
  "number_or_empty v = (case v of None \<Rightarrow> [] | Some n \<Rightarrow> if n = 0 then [] else int_str n)"

definition issue_hash :: "(string \<Rightarrow> string) \<Rightarrow> (datetime \<Rightarrow> string) \<Rightarrow> quality_finding \<Rightarrow> string" where
  "issue_hash digest isoformat f =
     digest (py_join [CHR 0x1F]
       [issue_type_value (rule_code f), rule_scope_value (finding_scope f), or_empty (field_name f),
        number_or_empty (field_occurrence f), number_or_empty (map_option int (source_row_number f)),
        or_empty (entity_reference f),
        (case finding_event_time f of None \<Rightarrow> [] | Some t \<Rightarrow> isoformat t)])"

definition truncated_value :: "quality_finding \<Rightarrow> string option" where
  "truncated_value f = map_option (take MAX_RAW_VALUE_CHARS) (finding_raw_value f)"

section \<open>Context and rules\<close>

record quality_context =
  profile :: file_profile
  resolved_fields :: "dict_resolved list"
  ctx_registry :: dictionary_registry
  original_filename :: string
  filename_date :: "(nat \<times> nat \<times> nat) option"
  expected_connector_count :: "nat option"
  expected_smr_count :: "nat option"
  telemetry_gap_factor :: pyfloat
  timestamp_failure_tolerance :: pyfloat
  missing_schema_fields :: "string list"
  additional_schema_fields :: "string list"
  schema_is_known :: bool

text \<open>Dict comprehensions: a later entry of the same key replaces the value.\<close>

definition dict_of :: "('k \<times> 'v) list \<Rightarrow> ('k, 'v) pydict" where
  "dict_of kvs = foldl (\<lambda>d (k, v). AList.update k v d) [] kvs"

definition spec_by_position :: "quality_context \<Rightarrow> (nat, field_spec) pydict" where
  "spec_by_position c = dict_of (map (\<lambda>r. (dr_source_position r, dr_spec r)) (resolved_fields c))"

definition mapped_by_position :: "quality_context \<Rightarrow> (nat, bool) pydict" where
  "mapped_by_position c = dict_of (map (\<lambda>r. (dr_source_position r, dr_is_dictionary_mapped r)) (resolved_fields c))"

definition profile_by_position :: "quality_context \<Rightarrow> (nat, field_profile) pydict" where
  "profile_by_position c = dict_of (map (\<lambda>f. (fp_position f, f)) (profile_fields (profile c)))"

definition context_spec :: "quality_context \<Rightarrow> nat \<Rightarrow> field_spec option" where
  "context_spec c pos = map_of (spec_by_position c) pos"

definition context_mapped :: "quality_context \<Rightarrow> nat \<Rightarrow> bool" where
  "context_mapped c pos = dict_get (mapped_by_position c) pos False"

definition context_field_profile :: "quality_context \<Rightarrow> nat \<Rightarrow> field_profile option" where
  "context_field_profile c pos = map_of (profile_by_position c) pos"

definition context_pairs :: "quality_context \<Rightarrow> (field_spec \<times> field_profile) list" where
  "context_pairs c =
     concat (map (\<lambda>(pos, spec). case map_of (profile_by_position c) pos of
         None \<Rightarrow> [] | Some observed \<Rightarrow> [(spec, observed)])
       (spec_by_position c))"

record quality_rule =
  qr_code :: quality_issue_type
  qr_scope :: quality_rule_scope
  qr_name :: string
  evaluate :: "quality_context \<Rightarrow> quality_finding list \<times> string option"

definition failed_rule :: "quality_rule \<Rightarrow> string \<Rightarrow> quality_finding" where
  "failed_rule r exc =
     \<lparr>rule_code = qr_code r, finding_scope = qr_scope r, severity = quality_severity.ERROR,
      message = ''Quality rule '' @ qr_name r @ '' failed: '' @ exc, field_name = None,
      field_occurrence = None, finding_canonical_name = None, finding_entity = None, source_row_number = None,
      finding_event_time = None, entity_reference = None, finding_raw_value = None, occurrence_count = 1\<rparr>"

definition run_rule :: "quality_context \<Rightarrow> quality_rule \<Rightarrow> quality_finding list" where
  "run_rule c r =
     (case evaluate r c of (fs, exc) \<Rightarrow> fs @ (case exc of None \<Rightarrow> [] | Some e \<Rightarrow> [failed_rule r e]))"

definition finding_key :: "(string \<Rightarrow> string) \<Rightarrow> (datetime \<Rightarrow> string) \<Rightarrow> quality_finding \<Rightarrow> string \<times> string \<times> string" where
  "finding_key digest isoformat f = (issue_type_value (rule_code f), or_empty (field_name f), issue_hash digest isoformat f)"

definition evaluate_rules ::
    "(string \<Rightarrow> string) \<Rightarrow> (datetime \<Rightarrow> string) \<Rightarrow> quality_rule list \<Rightarrow> quality_context \<Rightarrow> quality_finding list" where
  "evaluate_rules digest isoformat rules c =
     sort_key (finding_key digest isoformat) (foldl (\<lambda>fs r. fs @ run_rule c r) [] rules)"

section \<open>Score\<close>

definition VALIDITY_RULES :: "quality_issue_type list" where
  "VALIDITY_RULES = [SENTINEL_VALUE, OUT_OF_RANGE, INVALID_TYPE, UNKNOWN_ENUM_VALUE]"

definition MISSING_REQUIRED_PENALTY :: pyfloat where "MISSING_REQUIRED_PENALTY = 30"
definition DUPLICATE_HEADER_PENALTY_EACH :: pyfloat where "DUPLICATE_HEADER_PENALTY_EACH = 2"
definition DUPLICATE_HEADER_PENALTY_CAP :: pyfloat where "DUPLICATE_HEADER_PENALTY_CAP = 10"
definition SCHEMA_DRIFT_PENALTY_CAP :: pyfloat where "SCHEMA_DRIFT_PENALTY_CAP = 40"
definition UNKNOWN_SCHEMA_PENALTY :: pyfloat where "UNKNOWN_SCHEMA_PENALTY = 10"
definition GAP_PENALTY_CAP :: pyfloat where "GAP_PENALTY_CAP = 30"

definition clamp :: "pyfloat \<Rightarrow> pyfloat" where
  "clamp v = max 0 (min 100 v)"

record quality_score =
  schema_quality :: pyfloat
  completeness_quality :: pyfloat
  validity_quality :: pyfloat
  duplicate_quality :: pyfloat
  timestamp_quality :: pyfloat
  overall_quality :: pyfloat

definition as_decimals :: "quality_score \<Rightarrow> (string, pyfloat) pydict" where
  "as_decimals q =
     [(''schema_quality'', py_round 2 (schema_quality q)), (''completeness_quality'', py_round 2 (completeness_quality q)),
      (''validity_quality'', py_round 2 (validity_quality q)), (''duplicate_quality'', py_round 2 (duplicate_quality q)),
      (''timestamp_quality'', py_round 2 (timestamp_quality q)), (''quality_score'', py_round 2 (overall_quality q))]"

definition schema_dimension :: "quality_context \<Rightarrow> quality_finding list \<Rightarrow> pyfloat" where
  "schema_dimension c findings =
     (let header = profile_header (profile c);
          fields = max (field_count header) 1;
          has_missing_required = list_ex (\<lambda>f. rule_code f = MISSING_REQUIRED_FIELD
            \<and> severity f = quality_severity.CRITICAL) findings;
          duplicate_names = duplicate_header_count header;
          drift = length (missing_schema_fields c) + length (additional_schema_fields c);
          required_penalty = (if has_missing_required then MISSING_REQUIRED_PENALTY else 0);
          duplicate_penalty = min DUPLICATE_HEADER_PENALTY_CAP (of_nat duplicate_names * DUPLICATE_HEADER_PENALTY_EACH);
          drift_penalty = min SCHEMA_DRIFT_PENALTY_CAP (100 * of_nat drift / of_nat fields);
          unknown_penalty = (if schema_is_known c then 0 else UNKNOWN_SCHEMA_PENALTY)
      in clamp (100 - required_penalty - duplicate_penalty - drift_penalty - unknown_penalty))"

definition completeness_dimension :: "quality_context \<Rightarrow> pyfloat" where
  "completeness_dimension c =
     (let considered = filter (\<lambda>f. variability f \<noteq> ALL_NULL_IN_SAMPLE) (profile_fields (profile c));
          total_cells = row_count (profile c) * length considered
      in if total_cells = 0 then 100
         else clamp (100 * (of_nat total_cells - of_nat (sum_list (map fp_null_count considered))) / of_nat total_cells))"

definition validity_dimension :: "quality_context \<Rightarrow> quality_finding list \<Rightarrow> pyfloat" where
  "validity_dimension c findings =
     (let non_null_cells = sum_list (map (\<lambda>f. int (row_count (profile c)) - int (fp_null_count f)) (profile_fields (profile c)));
          violations = sum_list (map occurrence_count (filter (\<lambda>f. rule_code f \<in> set VALIDITY_RULES) findings))
      in if non_null_cells \<le> 0 then 100
         else clamp (100 * (1 - of_nat violations / of_int non_null_cells)))"

definition duplicate_dimension :: "quality_context \<Rightarrow> pyfloat" where
  "duplicate_dimension c =
     (let d = duplicates (profile c);
          rows = max (row_count (profile c)) 1;
          groups = max (logical_key_groups d) 1;
          exact_ratio = of_nat (da_exact_duplicate_rows d) / of_nat rows;
          conflict_ratio = of_nat (conflicting_logical_groups d) / of_nat groups
      in clamp (100 - 100 * exact_ratio - 100 * conflict_ratio))"

datatype score_error = ZeroDivision

definition gap_penalty :: "pyfloat \<Rightarrow> timestamp_analysis \<Rightarrow> score_error + pyfloat" where
  "gap_penalty factor a =
     (case (median_interval_seconds a, max_interval_seconds a) of
        (Some median, Some largest) \<Rightarrow>
          (if median \<noteq> 0 \<and> largest \<noteq> 0 \<and> median > 0 then
             (let threshold = median * factor
              in if largest > threshold
                 then if threshold = 0 then Inl ZeroDivision
                      else Inr (min GAP_PENALTY_CAP (10 * (largest / threshold - 1)))
                 else Inr 0)
           else Inr 0)
      | _ \<Rightarrow> Inr 0)"

definition timestamp_dimension :: "quality_context \<Rightarrow> score_error + pyfloat" where
  "timestamp_dimension c =
     (let a = profile_timestamps (profile c);
          considered = int (total_values a) - int (null_count a);
          parse_score = (if considered \<le> 0 then 100 else 100 * of_nat (parsed_count a) / of_int considered)
      in bind_err (gap_penalty (telemetry_gap_factor c) a) (\<lambda>penalty. Inr (clamp (parse_score - penalty))))"

record score_weights =
  w_schema :: pyfloat
  w_completeness :: pyfloat
  w_validity :: pyfloat
  w_duplicate :: pyfloat
  w_timestamp :: pyfloat

definition default_weights :: score_weights where
  "default_weights = \<lparr>w_schema = 30 / 100, w_completeness = 20 / 100, w_validity = 20 / 100,
     w_duplicate = 15 / 100, w_timestamp = 15 / 100\<rparr>"

text \<open>The weights are kept in a dict keyed by the score they belong to.\<close>

definition weighted_scores :: "(pyfloat \<times> pyfloat) list \<Rightarrow> pyfloat" where
  "weighted_scores scored =
     (let weighted = dict_of scored; total_weight = sum_list (dict_values weighted)
      in if total_weight > 0 then sum_list (map (\<lambda>(score, weight). score * weight) weighted) / total_weight else 0)"

definition compute_quality_score ::
    "quality_context \<Rightarrow> quality_finding list \<Rightarrow> score_weights option \<Rightarrow> score_error + quality_score" where
  "compute_quality_score c findings weights =
     bind_err (timestamp_dimension c) (\<lambda>times.
     (let w = (case weights of None \<Rightarrow> default_weights | Some w \<Rightarrow> w);
          schema = schema_dimension c findings;
          completeness = completeness_dimension c;
          validity = validity_dimension c findings;
          dups = duplicate_dimension c;
          overall = weighted_scores [(schema, w_schema w), (completeness, w_completeness w),
            (validity, w_validity w), (dups, w_duplicate w), (times, w_timestamp w)]
      in Inr \<lparr>schema_quality = py_round 2 schema, completeness_quality = py_round 2 completeness,
          validity_quality = py_round 2 validity, duplicate_quality = py_round 2 dups,
          timestamp_quality = py_round 2 times, overall_quality = py_round 2 (clamp overall)\<rparr>))"

section \<open>Rules are contained\<close>

lemma fold_rules: "foldl (\<lambda>fs r. fs @ run_rule c r) fs rules = fs @ concat (map (run_rule c) rules)"
  by (induction rules arbitrary: fs) simp_all

text \<open>
  A rule that raises costs nothing but itself: the report holds every finding of every rule,
  those a failing rule had yielded before it raised included, and one error finding under the code
  of each failing rule, and nothing else, in the order of code, field and hash.
\<close>

theorem rules_contained:
  "mset (evaluate_rules digest isoformat rules c) =
     (\<Sum>r\<leftarrow>rules. mset (fst (evaluate r c)) +
        (case snd (evaluate r c) of None \<Rightarrow> {#} | Some e \<Rightarrow> {#failed_rule r e#})) \<and>
   sorted (map (finding_key digest isoformat) (evaluate_rules digest isoformat rules c))"
proof -
  have "mset (concat (map (run_rule c) rules)) = (\<Sum>r\<leftarrow>rules. mset (fst (evaluate r c)) +
        (case snd (evaluate r c) of None \<Rightarrow> {#} | Some e \<Rightarrow> {#failed_rule r e#}))"
    by (induction rules) (simp_all add: run_rule_def split: prod.split option.split)
  then show ?thesis by (simp add: evaluate_rules_def fold_rules)
qed

section \<open>Bounds\<close>

lemma clamp_bounds: "0 \<le> clamp v \<and> clamp v \<le> 100"
  by (simp add: clamp_def)

lemma round_clamp: "0 \<le> py_round n (clamp v) \<and> py_round n (clamp v) \<le> 100"
  using clamp_bounds [of v] by (simp add: py_round_ge_0 py_round_le_100)

lemma clamp_mono: "v \<le> w \<Longrightarrow> clamp v \<le> clamp w"
  by (auto simp: clamp_def)

lemma dimension_bounds:
  "0 \<le> schema_dimension c fs \<and> schema_dimension c fs \<le> 100"
  "0 \<le> completeness_dimension c \<and> completeness_dimension c \<le> 100"
  "0 \<le> validity_dimension c fs \<and> validity_dimension c fs \<le> 100"
  "0 \<le> duplicate_dimension c \<and> duplicate_dimension c \<le> 100"
  "timestamp_dimension c = Inr t \<Longrightarrow> 0 \<le> t \<and> t \<le> 100"
  using clamp_bounds
  by (auto simp: schema_dimension_def completeness_dimension_def validity_dimension_def
      duplicate_dimension_def timestamp_dimension_def Let_def bind_err_Inr)

lemma score_fields:
  assumes "compute_quality_score c fs weights = Inr q"
  obtains t where "timestamp_dimension c = Inr t"
    and "schema_quality q = py_round 2 (schema_dimension c fs)"
    and "completeness_quality q = py_round 2 (completeness_dimension c)"
    and "validity_quality q = py_round 2 (validity_dimension c fs)"
    and "duplicate_quality q = py_round 2 (duplicate_dimension c)"
    and "timestamp_quality q = py_round 2 t"
    and "overall_quality q = py_round 2 (clamp (weighted_scores
      [(schema_dimension c fs, w_schema (case weights of None \<Rightarrow> default_weights | Some w \<Rightarrow> w)),
       (completeness_dimension c, w_completeness (case weights of None \<Rightarrow> default_weights | Some w \<Rightarrow> w)),
       (validity_dimension c fs, w_validity (case weights of None \<Rightarrow> default_weights | Some w \<Rightarrow> w)),
       (duplicate_dimension c, w_duplicate (case weights of None \<Rightarrow> default_weights | Some w \<Rightarrow> w)),
       (t, w_timestamp (case weights of None \<Rightarrow> default_weights | Some w \<Rightarrow> w))]))"
  using assms by (auto simp: compute_quality_score_def bind_err_Inr Let_def)

text \<open>
  The five dimensions and the overall score of every file lie between 0 and 100.
\<close>

theorem score_bounds:
  assumes "compute_quality_score c findings weights = Inr q"
  shows "\<forall>v\<in>{schema_quality q, completeness_quality q, validity_quality q, duplicate_quality q,
              timestamp_quality q, overall_quality q}. 0 \<le> v \<and> v \<le> 100"
  using assms
proof (rule score_fields)
  fix t
  assume t: "timestamp_dimension c = Inr t"
    and s: "schema_quality q = py_round 2 (schema_dimension c findings)"
    "completeness_quality q = py_round 2 (completeness_dimension c)"
    "validity_quality q = py_round 2 (validity_dimension c findings)"
    "duplicate_quality q = py_round 2 (duplicate_dimension c)" "timestamp_quality q = py_round 2 t"
    "overall_quality q = py_round 2 (clamp (weighted_scores
      [(schema_dimension c findings, w_schema (case weights of None \<Rightarrow> default_weights | Some w \<Rightarrow> w)),
       (completeness_dimension c, w_completeness (case weights of None \<Rightarrow> default_weights | Some w \<Rightarrow> w)),
       (validity_dimension c findings, w_validity (case weights of None \<Rightarrow> default_weights | Some w \<Rightarrow> w)),
       (duplicate_dimension c, w_duplicate (case weights of None \<Rightarrow> default_weights | Some w \<Rightarrow> w)),
       (t, w_timestamp (case weights of None \<Rightarrow> default_weights | Some w \<Rightarrow> w))]))"
  show ?thesis
    using dimension_bounds(1) [of c findings] dimension_bounds(2) [of c] dimension_bounds(3) [of c findings]
      dimension_bounds(4) [of c] dimension_bounds(5) [OF t] round_clamp
    by (simp add: s py_round_ge_0 py_round_le_100)
qed

section \<open>The weighted mean\<close>

lemma update_fresh: "k \<notin> set (dict_keys d) \<Longrightarrow> AList.update k v d = d @ [(k, v)]"
  by (induction d) auto

lemma dict_of_distinct: "distinct (dict_keys kvs) \<Longrightarrow> dict_of kvs = kvs"
proof (induction kvs rule: rev_induct)
  case (snoc kv kvs)
  then show ?case by (cases kv) (simp add: dict_of_def update_fresh)
qed (simp add: dict_of_def)

lemma weighted_scores_distinct:
  assumes "distinct (dict_keys scored)" and "0 < sum_list (dict_values scored)"
  shows "weighted_scores scored = (\<Sum>(s, w)\<leftarrow>scored. s * w) / sum_list (dict_values scored)"
  using assms by (simp add: weighted_scores_def dict_of_distinct Let_def)

text \<open>
  C28: When no two dimensions have the same score, the overall score is their mean under the
  configured weights, normalised by the sum of the weights.
\<close>

theorem overall_is_weighted_mean:
  assumes "compute_quality_score c findings (Some w) = Inr q" and "timestamp_dimension c = Inr t"
    and "distinct [schema_dimension c findings, completeness_dimension c, validity_dimension c findings,
                   duplicate_dimension c, t]"
    and "0 < w_schema w + w_completeness w + w_validity w + w_duplicate w + w_timestamp w"
  shows "overall_quality q = py_round 2 (clamp
    ((schema_dimension c findings * w_schema w + completeness_dimension c * w_completeness w +
      validity_dimension c findings * w_validity w + duplicate_dimension c * w_duplicate w + t * w_timestamp w) /
     (w_schema w + w_completeness w + w_validity w + w_duplicate w + w_timestamp w)))"
proof -
  have "weighted_scores [(schema_dimension c findings, w_schema w), (completeness_dimension c, w_completeness w),
      (validity_dimension c findings, w_validity w), (duplicate_dimension c, w_duplicate w), (t, w_timestamp w)] =
    (schema_dimension c findings * w_schema w + completeness_dimension c * w_completeness w +
      validity_dimension c findings * w_validity w + duplicate_dimension c * w_duplicate w + t * w_timestamp w) /
     (w_schema w + w_completeness w + w_validity w + w_duplicate w + w_timestamp w)"
    using assms(3,4) by (subst weighted_scores_distinct) (simp_all add: add.assoc)
  then show ?thesis using assms(1,2) by (auto simp: compute_quality_score_def Let_def)
qed

text \<open>
  Dimensions with equal scores are counted once, under the weight of the last of them: four
  perfect dimensions and a timestamp score of 60 give 80 under the default weights, where the
  weighted mean is 94.
\<close>

theorem equal_scores_lose_weight:
  "weighted_scores [(100, w_schema default_weights), (100, w_completeness default_weights),
     (100, w_validity default_weights), (100, w_duplicate default_weights), (60, w_timestamp default_weights)] = 80 \<and>
   100 * (w_schema default_weights + w_completeness default_weights + w_validity default_weights +
     w_duplicate default_weights) + 60 * w_timestamp default_weights = 94"
  by code_simp

lemma weighted_scores_mono:
  assumes "dict_values scored = dict_values scored'" and "list_all2 (\<lambda>x y. fst x \<le> fst y) scored scored'"
    and "distinct (dict_keys scored)" "distinct (dict_keys scored')" and "\<forall>w\<in>set (dict_values scored). 0 \<le> w"
  shows "weighted_scores scored \<le> weighted_scores scored'"
proof -
  have sums: "(\<Sum>(s, w)\<leftarrow>xs. s * w) \<le> (\<Sum>(s, w)\<leftarrow>ys. s * w)"
    if "dict_values xs = dict_values ys" "list_all2 (\<lambda>x y. fst x \<le> fst y) xs ys" "\<forall>w\<in>set (dict_values xs). 0 \<le> w"
    for xs ys :: "(pyfloat \<times> pyfloat) list"
    using that(2,1,3) by (induction rule: list_all2_induct) (auto intro!: add_mono mult_right_mono)
  show ?thesis
    using sums [OF assms(1,2,5)]
    by (simp add: weighted_scores_def Let_def dict_of_distinct [OF assms(3)] dict_of_distinct [OF assms(4)]
        assms(1) divide_right_mono)
qed

text \<open>
  C29: More findings never raise a dimension. Adding findings can only lower the schema and validity scores
  and leaves the other three dimensions as they are. The overall score follows only when, before and after,
  no two dimensions have the same score and no weight is negative: the dict keyed by the score drops the
  weight of a dimension that ties with another, and a finding that breaks the tie can raise the overall score.
\<close>

theorem findings_never_help:
  assumes "compute_quality_score c findings weights = Inr q"
    and "compute_quality_score c (findings @ extra) weights = Inr q'"
  shows "schema_quality q' \<le> schema_quality q \<and> validity_quality q' \<le> validity_quality q \<and>
    completeness_quality q' = completeness_quality q \<and> duplicate_quality q' = duplicate_quality q \<and>
    timestamp_quality q' = timestamp_quality q \<and>
    (timestamp_dimension c = Inr t
       \<and> distinct [schema_dimension c findings, completeness_dimension c, validity_dimension c findings,
                  duplicate_dimension c, t]
       \<and> distinct [schema_dimension c (findings @ extra), completeness_dimension c, validity_dimension c (findings @ extra),
                  duplicate_dimension c, t]
       \<and> w = (case weights of None \<Rightarrow> default_weights | Some w \<Rightarrow> w)
       \<and> 0 \<le> w_schema w \<and> 0 \<le> w_completeness w \<and> 0 \<le> w_validity w \<and> 0 \<le> w_duplicate w \<and> 0 \<le> w_timestamp w
     \<longrightarrow> overall_quality q' \<le> overall_quality q)"
proof -
  have s: "schema_dimension c (findings @ extra) \<le> schema_dimension c findings"
    unfolding schema_dimension_def Let_def MISSING_REQUIRED_PENALTY_def by (intro clamp_mono) simp
  have v: "validity_dimension c (findings @ extra) \<le> validity_dimension c findings"
    unfolding validity_dimension_def Let_def
    by (auto intro!: clamp_mono simp: add_divide_distrib)
  have "schema_quality q' = py_round 2 (schema_dimension c (findings @ extra))"
    "validity_quality q' = py_round 2 (validity_dimension c (findings @ extra))"
    "schema_quality q = py_round 2 (schema_dimension c findings)"
    "validity_quality q = py_round 2 (validity_dimension c findings)"
    "completeness_quality q' = completeness_quality q" "duplicate_quality q' = duplicate_quality q"
    "timestamp_quality q' = timestamp_quality q"
    using assms by (auto simp: compute_quality_score_def Let_def bind_err_Inr)
  moreover have "overall_quality q' \<le> overall_quality q"
    if t: "timestamp_dimension c = Inr t" and d: "distinct [schema_dimension c findings, completeness_dimension c,
          validity_dimension c findings, duplicate_dimension c, t]"
      "distinct [schema_dimension c (findings @ extra), completeness_dimension c, validity_dimension c (findings @ extra),
          duplicate_dimension c, t]"
      and w: "w = (case weights of None \<Rightarrow> default_weights | Some w \<Rightarrow> w)" "0 \<le> w_schema w" "0 \<le> w_completeness w" "0 \<le> w_validity w" "0 \<le> w_duplicate w"
        "0 \<le> w_timestamp w"
  proof -
    let ?scored = "\<lambda>fs. [(schema_dimension c fs, w_schema w), (completeness_dimension c, w_completeness w),
        (validity_dimension c fs, w_validity w), (duplicate_dimension c, w_duplicate w), (t, w_timestamp w)]"
    have "weighted_scores (?scored (findings @ extra)) \<le> weighted_scores (?scored findings)"
      using d w s v by (intro weighted_scores_mono) simp_all
    then show ?thesis
      using assms t w(1) by (auto simp: compute_quality_score_def Let_def bind_err_Inr intro!: py_round_mono clamp_mono)
  qed
  ultimately show ?thesis using py_round_mono [OF s] py_round_mono [OF v] by auto
qed


section \<open>Witnesses\<close>

definition demo_field :: field_profile where
  "demo_field = \<lparr>fp_position = 0, fp_source_name = ''Temp'', fp_source_occurrence = 1, fp_canonical_name = ''temp'',
     fp_null_count = 2, null_percentage = 20, fp_unique_count = 8, variability = VARIABLE_IN_SAMPLE,
     min_value = None, max_value = None, numeric_valid_count = None, mean_value = None, median_value = None,
     stddev_value = None, example_values = [], observed_values = None, sentinel_hits = []\<rparr>"

definition demo_empty_registry :: dictionary_registry where
  "demo_empty_registry =
     \<lparr>reg_name = [], reg_revision = [], reg_units = \<lparr>unit_symbols = [], unit_dimensions = []\<rparr>,
      reg_missing_values = \<lparr>missing_tokens = [], case_insensitive_tokens = [], explicit_states = []\<rparr>,
      specs_by_identity = [], specs_by_name = [], specs_by_norm = [], reg_patterns = []\<rparr>"

definition demo_context :: "quality_context" where
  "demo_context = \<lparr>profile = \<lparr>row_count = 10, column_count = 1,
       profile_header = \<lparr>field_count = 1, fields_of = [], header_fingerprint = [], duplicate_names = [],
         empty_name_count = 0, has_bom = False, header_encoding = ''utf-8''\<rparr>,
       profile_roles = \<lparr>resolved = [], missing_required = []\<rparr>,
       profile_timestamps = (unparsed_analysis ''at'' 10 0 ''UTC'')\<lparr>parsed_count := 6\<rparr>,
       duplicates = \<lparr>da_exact_duplicate_rows = 3, rows_participating_in_duplicates = 6, logical_key_groups = 7,
         da_logical_collision_groups = 0, conflicting_logical_groups = 0, max_rows_per_logical_key = 1,
         rows_per_timestamp = [], da_duplicate_timestamp_count = 0\<rparr>,
       profile_fields = [demo_field], charger_ids = [], ocpp_ids = [], profile_connectors = [],
       profile_smrs = [], session_ids = []\<rparr>,
     resolved_fields = [], ctx_registry = demo_empty_registry, original_filename = ''f.csv'', filename_date = None, expected_connector_count = None,
     expected_smr_count = None, telemetry_gap_factor = 5, timestamp_failure_tolerance = 1 / 50,
     missing_schema_fields = [], additional_schema_fields = [], schema_is_known = False\<rparr>"

definition demo_finding :: "nat \<Rightarrow> quality_finding" where
  "demo_finding n = \<lparr>rule_code = SENTINEL_VALUE, finding_scope = FIELD, severity = quality_severity.WARNING,
     message = [], field_name = Some ''temp'', field_occurrence = Some 1, finding_canonical_name = None, finding_entity = None,
     source_row_number = None, finding_event_time = None, entity_reference = None, finding_raw_value = None,
     occurrence_count = n\<rparr>"

lemma demo_score:
  "case compute_quality_score demo_context [demo_finding 4] (Some default_weights) of
     Inl _ \<Rightarrow> False
   | Inr q \<Rightarrow> schema_quality q = 90 \<and> completeness_quality q = 80 \<and> validity_quality q = 50 \<and>
       duplicate_quality q = 70 \<and> timestamp_quality q = 60 \<and> overall_quality q = 725 / 10"
  by code_simp

theorem score_bounds_witness:
  "\<exists>q. compute_quality_score demo_context [demo_finding 4] (Some default_weights) = Inr q \<and>
     0 \<le> overall_quality q \<and> overall_quality q \<le> 100 \<and> validity_quality q = 50"
  using demo_score by (auto split: sum.splits dest: score_bounds)

lemma demo_dimensions:
  "timestamp_dimension demo_context = Inr 60"
  "[schema_dimension demo_context [demo_finding 4], completeness_dimension demo_context,
    validity_dimension demo_context [demo_finding 4], duplicate_dimension demo_context] = [90, 80, 50, 70]"
  "0 < w_schema default_weights + w_completeness default_weights + w_validity default_weights +
    w_duplicate default_weights + w_timestamp default_weights"
  by code_simp+

theorem overall_is_weighted_mean_witness:
  "\<exists>q. compute_quality_score demo_context [demo_finding 4] (Some default_weights) = Inr q \<and>
     overall_quality q = py_round 2 (clamp ((90 * w_schema default_weights + 80 * w_completeness default_weights +
        50 * w_validity default_weights + 70 * w_duplicate default_weights + 60 * w_timestamp default_weights) /
       (w_schema default_weights + w_completeness default_weights + w_validity default_weights +
        w_duplicate default_weights + w_timestamp default_weights)))"
proof -
  obtain q where q: "compute_quality_score demo_context [demo_finding 4] (Some default_weights) = Inr q"
    using demo_score by (auto split: sum.splits)
  show ?thesis
    using overall_is_weighted_mean [OF q demo_dimensions(1) _ demo_dimensions(3)] demo_dimensions(2) q by auto
qed

lemma demo_more_findings:
  "[schema_dimension demo_context ([demo_finding 4] @ [demo_finding 2]), completeness_dimension demo_context,
    validity_dimension demo_context ([demo_finding 4] @ [demo_finding 2]), duplicate_dimension demo_context] = [90, 80, 25, 70]"
  "0 \<le> w_schema default_weights \<and> 0 \<le> w_completeness default_weights \<and> 0 \<le> w_validity default_weights
   \<and> 0 \<le> w_duplicate default_weights \<and> 0 \<le> w_timestamp default_weights"
  by code_simp+

theorem findings_never_help_witness:
  "\<exists>q q'. compute_quality_score demo_context [demo_finding 4] (Some default_weights) = Inr q \<and>
     compute_quality_score demo_context ([demo_finding 4] @ [demo_finding 2]) (Some default_weights) = Inr q' \<and>
     validity_quality q' \<le> validity_quality q \<and> overall_quality q' \<le> overall_quality q"
proof -
  obtain q q' where q: "compute_quality_score demo_context [demo_finding 4] (Some default_weights) = Inr q"
    "compute_quality_score demo_context ([demo_finding 4] @ [demo_finding 2]) (Some default_weights) = Inr q'"
    using demo_dimensions(1) by (simp add: compute_quality_score_def Let_def)
  then show ?thesis
    using findings_never_help [OF q, where t = 60 and w = default_weights] demo_dimensions(1,2) demo_more_findings by auto
qed

text \<open>
  A finding that raises the overall score: without it schema and validity tie at 100 and count once; with it
  the validity score falls to 87.5 and both count.
\<close>

lemma tie_broken_by_finding:
  "map (\<lambda>fs. case compute_quality_score (demo_context\<lparr>schema_is_known := True\<rparr>) fs (Some default_weights) of
        Inl e \<Rightarrow> None | Inr q \<Rightarrow> Some (validity_quality q, overall_quality q)) [[], [demo_finding 1]]
   = [Some (100, 7929 / 100), Some (175 / 2, 83)]"
  by code_simp

end
