(* ===== verification/FileRules.thy ===== *)
theory FileRules
  imports Quality
begin

text \<open>
  The file-level quality rules, \<open>pipelines/quality/rules.py\<close>: sixteen rules in execution order. A
  finding's message and free-form details are left out; every other field is as in the code.
  Only the range rule can raise, when it compares a NaN; the findings it yielded before are then
  kept by the framework.
\<close>

section \<open>Structure\<close>

definition file_finding :: "quality_issue_type \<Rightarrow> quality_rule_scope \<Rightarrow> quality_severity \<Rightarrow> quality_finding" where
  "file_finding code scope sev =
     \<lparr>rule_code = code, finding_scope = scope, severity = sev, message = [], field_name = None,
      field_occurrence = None, finding_canonical_name = None, finding_entity = None, source_row_number = None,
      finding_event_time = None, entity_reference = None, finding_raw_value = None, occurrence_count = 1\<rparr>"

text \<open>The locators the field rules take from a definition.\<close>

definition at_spec :: "field_spec \<Rightarrow> quality_finding \<Rightarrow> quality_finding" where
  "at_spec spec f =
     f\<lparr>field_name := Some (fs_source_name spec), field_occurrence := fs_source_occurrence spec,
       finding_canonical_name := Some (fs_canonical_name spec), finding_entity := Some (fs_entity spec)\<rparr>"

definition duplicate_header_rule :: "quality_context \<Rightarrow> quality_finding list" where
  "duplicate_header_rule c =
     map (\<lambda>(name, n). (file_finding DUPLICATE_HEADER quality_rule_scope.FILE quality_severity.WARNING)
         \<lparr>field_name := Some name, occurrence_count := n\<rparr>)
       (sort (duplicate_names (profile_header (profile c))))"

definition required_specs :: "dictionary_registry \<Rightarrow> field_spec list" where
  "required_specs reg = sort_key fs_source_name (filter fs_required (curated reg))"

definition missing_required_field_rule :: "quality_context \<Rightarrow> quality_finding list" where
  "missing_required_field_rule c =
     map (\<lambda>spec. (file_finding MISSING_REQUIRED_FIELD quality_rule_scope.FILE quality_severity.CRITICAL)
         \<lparr>field_name := Some (fs_source_name spec), finding_canonical_name := Some (fs_canonical_name spec),
          finding_entity := Some (fs_entity spec)\<rparr>)
       (filter (\<lambda>spec. fs_source_name spec \<notin> set (source_names (profile_header (profile c))))
         (required_specs (ctx_registry c)))
     @ map (\<lambda>role. file_finding MISSING_REQUIRED_FIELD quality_rule_scope.FILE quality_severity.CRITICAL)
         (missing_required (profile_roles (profile c)))"

definition unknown_field_rule :: "quality_context \<Rightarrow> quality_finding list" where
  "unknown_field_rule c =
     (let unmapped = filter (\<lambda>r. \<not> dr_is_dictionary_mapped r) (resolved_fields c)
      in if unmapped = [] then []
         else [(file_finding UNKNOWN_FIELD FIELD quality_severity.INFO)\<lparr>occurrence_count := length unmapped\<rparr>])"

definition schema_drift_rule :: "quality_context \<Rightarrow> quality_finding list" where
  "schema_drift_rule c =
     (if missing_schema_fields c = [] then []
      else [(file_finding MISSING_FIELD quality_rule_scope.FILE quality_severity.WARNING)
              \<lparr>occurrence_count := length (missing_schema_fields c)\<rparr>])
     @ (if additional_schema_fields c = [] then []
        else [(file_finding SCHEMA_MISMATCH quality_rule_scope.FILE quality_severity.WARNING)
                \<lparr>occurrence_count := length (additional_schema_fields c)\<rparr>])"

section \<open>Time\<close>

definition invalid_timestamp_rule :: "quality_context \<Rightarrow> quality_finding list" where
  "invalid_timestamp_rule c =
     (let analysis = profile_timestamps (profile c)
      in if failed_count analysis = 0 then []
         else [(file_finding INVALID_TIMESTAMP quality_rule_scope.TIMESTAMP
                  (if \<not> is_within_tolerance analysis (timestamp_failure_tolerance c)
                   then quality_severity.CRITICAL else quality_severity.WARNING))
                 \<lparr>field_name := Some (ta_column analysis), occurrence_count := failed_count analysis\<rparr>])"

definition telemetry_gap_file_rule :: "quality_context \<Rightarrow> quality_finding list" where
  "telemetry_gap_file_rule c =
     (let analysis = profile_timestamps (profile c)
      in case (median_interval_seconds analysis, max_interval_seconds analysis) of
           (Some median, Some largest) \<Rightarrow>
             (if median = 0 \<or> largest = 0 \<or> median \<le> 0 then []
              else if largest \<le> median * telemetry_gap_factor c then []
              else [(file_finding TELEMETRY_GAP quality_rule_scope.TIMESTAMP quality_severity.WARNING)
                      \<lparr>field_name := Some (ta_column analysis)\<rparr>])
         | _ \<Rightarrow> [])"

text \<open>Days since the epoch of a calendar date, \<open>date.toordinal() - 719163\<close>.\<close>

definition date_days :: "nat \<times> nat \<times> nat \<Rightarrow> int" where
  "date_days = (\<lambda>(y, m, d).
     int (365 * (y - 1) + (y - 1) div 4 + (y - 1) div 400 + sum_list (map (days_in_month y) [1..<m]) + d)
       - int ((y - 1) div 100) - 719163)"

definition event_date_filename_mismatch_rule :: "quality_context \<Rightarrow> quality_finding list" where
  "event_date_filename_mismatch_rule c =
     (case (filename_date c, dominant_business_date (profile_timestamps (profile c))) of
        (Some f, Some actual) \<Rightarrow>
          (if date_days f = actual then []
           else [file_finding EVENT_DATE_FILENAME_MISMATCH quality_rule_scope.FILE quality_severity.INFO])
      | _ \<Rightarrow> [])"

section \<open>Duplication and cardinality\<close>

definition exact_duplicate_rule :: "quality_context \<Rightarrow> quality_finding list" where
  "exact_duplicate_rule c =
     (let n = da_exact_duplicate_rows (duplicates (profile c))
      in if n = 0 then []
         else [(file_finding EXACT_DUPLICATE ROW quality_severity.WARNING)\<lparr>occurrence_count := n\<rparr>])"

definition logical_key_collision_rule :: "quality_context \<Rightarrow> quality_finding list" where
  "logical_key_collision_rule c =
     (let d = duplicates (profile c)
      in if da_logical_collision_groups d = 0 then []
         else [(file_finding LOGICAL_KEY_COLLISION ENTITY
                  (if conflicting_logical_groups d > 0 then quality_severity.ERROR else quality_severity.WARNING))
                 \<lparr>occurrence_count := da_logical_collision_groups d\<rparr>])"

definition cardinality_rule ::
    "quality_issue_type \<Rightarrow> column_role \<Rightarrow> quality_context \<Rightarrow> quality_finding list" where
  "cardinality_rule code role c =
     (let expected = (if role = column_role.CONNECTOR then expected_connector_count c else expected_smr_count c);
          observed = (if role = column_role.CONNECTOR then profile_connectors (profile c) else profile_smrs (profile c))
      in case expected of
           None \<Rightarrow> []
         | Some n \<Rightarrow>
             (if observed = [] \<or> length observed = n then []
              else [(file_finding code quality_rule_scope.FILE quality_severity.WARNING)
                      \<lparr>occurrence_count := nat \<bar>int n - int (length observed)\<bar>\<rparr>]))"

section \<open>Values\<close>

definition all_null_field_rule :: "quality_context \<Rightarrow> quality_finding list" where
  "all_null_field_rule c =
     (let empty = filter (\<lambda>f. variability f = ALL_NULL_IN_SAMPLE) (profile_fields (profile c))
      in if empty = [] then []
         else [(file_finding ALL_NULL_FIELD FIELD quality_severity.INFO)\<lparr>occurrence_count := length empty\<rparr>])"

definition sentinel_findings :: "field_spec \<times> field_profile \<Rightarrow> quality_finding list" where
  "sentinel_findings = (\<lambda>(spec, observed).
     map (\<lambda>(value, n). (at_spec spec (file_finding SENTINEL_VALUE FIELD quality_severity.WARNING))
           \<lparr>finding_raw_value := Some value, occurrence_count := n\<rparr>)
       (filter (\<lambda>(value, n). value \<in> vs_value ` set (fs_sentinel_values spec) \<and> n > 0) (sentinel_hits observed)))"

definition sentinel_value_rule :: "quality_context \<Rightarrow> quality_finding list" where
  "sentinel_value_rule c =
     concat (map sentinel_findings (filter (\<lambda>(spec, observed). fs_sentinel_values spec \<noteq> []) (context_pairs c)))"

text \<open>
  One bound of one field: whether a finding is yielded, or \<open>None\<close> when the comparison raises.
\<close>

definition breaches :: "field_spec \<Rightarrow> bool \<Rightarrow> dec_number option \<Rightarrow> string option \<Rightarrow> bool option" where
  "breaches spec is_min bound actual =
     (case (bound, actual) of
        (Some b, Some a) \<Rightarrow>
          (if a \<in> vs_value ` set (fs_sentinel_values spec) then Some False
           else case parse_dec_number a of
                  None \<Rightarrow> Some False
                | Some n \<Rightarrow> if is_min then dec_less n b else dec_less b n)
      | _ \<Rightarrow> Some False)"

definition range_finding :: "field_spec \<Rightarrow> string \<Rightarrow> quality_finding" where
  "range_finding spec actual =
     (at_spec spec (file_finding OUT_OF_RANGE FIELD quality_severity.ERROR))\<lparr>finding_raw_value := Some actual\<rparr>"

definition INVALID_COMPARISON :: string where
  "INVALID_COMPARISON = ''[<class '' @ CHR 0x27 # ''decimal.InvalidOperation'' @ CHR 0x27 # ''>]''"


text \<open>The findings of a list of bounds, up to the first comparison that raises.\<close>

fun bound_findings ::
    "field_spec \<Rightarrow> (bool \<times> dec_number option \<times> string option) list \<Rightarrow> quality_finding list \<times> string option" where
  "bound_findings spec [] = ([], None)"
| "bound_findings spec ((is_min, bound, actual) # bs) =
     (case breaches spec is_min bound actual of
        None \<Rightarrow> ([], Some INVALID_COMPARISON)
      | Some b \<Rightarrow>
          (let (fs, exc) = bound_findings spec bs
           in ((case (b, actual) of (True, Some a) \<Rightarrow> [range_finding spec a] | _ \<Rightarrow> []) @ fs, exc)))"

fun range_findings :: "(field_spec \<times> field_profile) list \<Rightarrow> quality_finding list \<times> string option" where
  "range_findings [] = ([], None)"
| "range_findings ((spec, observed) # ps) =
     (if \<not> has_verified_range spec \<or> \<not> fp_is_numeric observed then range_findings ps
      else case bound_findings spec
               [(True, fs_valid_min spec, min_value observed), (False, fs_valid_max spec, max_value observed)] of
             (fs, Some exc) \<Rightarrow> (fs, Some exc)
           | (fs, None) \<Rightarrow> (let (rest, exc) = range_findings ps in (fs @ rest, exc)))"

definition out_of_range_rule :: "quality_context \<Rightarrow> quality_finding list \<times> string option" where
  "out_of_range_rule c = range_findings (context_pairs c)"

definition invalid_count :: "nat \<Rightarrow> field_profile \<Rightarrow> int" where
  "invalid_count rows observed =
     int rows - int (fp_null_count observed)
       - int (case numeric_valid_count observed of None \<Rightarrow> 0 | Some n \<Rightarrow> n)"

definition invalid_type_finding :: "nat \<Rightarrow> field_spec \<times> field_profile \<Rightarrow> quality_finding list" where
  "invalid_type_finding rows = (\<lambda>(spec, observed).
     (if \<not> type_is_numeric (fs_data_type spec) then []
      else if int rows - int (fp_null_count observed) \<le> 0 then []
      else if invalid_count rows observed \<le> 0 then []
      else [(at_spec spec (file_finding INVALID_TYPE FIELD quality_severity.ERROR))
              \<lparr>occurrence_count := nat (invalid_count rows observed)\<rparr>]))"

definition invalid_type_rule :: "quality_context \<Rightarrow> quality_finding list" where
  "invalid_type_rule c = concat (map (invalid_type_finding (row_count (profile c))) (context_pairs c))"

definition unknown_enum_finding :: "field_spec \<times> field_profile \<Rightarrow> quality_finding list" where
  "unknown_enum_finding = (\<lambda>(spec, observed).
     (if \<not> fs_allowed_values_authoritative spec \<or> fs_allowed_values spec = [] then []
      else case observed_values observed of
             None \<Rightarrow> []
           | Some vs \<Rightarrow>
               (case filter (\<lambda>v. v \<notin> vs_value ` set (fs_allowed_values spec)) vs of
                  [] \<Rightarrow> []
                | v # more_vs \<Rightarrow>
                    [(at_spec spec (file_finding UNKNOWN_ENUM_VALUE FIELD quality_severity.WARNING))
                       \<lparr>finding_raw_value := Some v, occurrence_count := Suc (length more_vs)\<rparr>])))"

definition unknown_enum_value_rule :: "quality_context \<Rightarrow> quality_finding list" where
  "unknown_enum_value_rule c = concat (map unknown_enum_finding (context_pairs c))"

section \<open>The default registry\<close>

definition plain_rule ::
    "quality_issue_type \<Rightarrow> quality_rule_scope \<Rightarrow> string \<Rightarrow> (quality_context \<Rightarrow> quality_finding list) \<Rightarrow> quality_rule" where
  "plain_rule code scope name f =
     \<lparr>qr_code = code, qr_scope = scope, qr_name = name, evaluate = (\<lambda>c. (f c, None))\<rparr>"

definition default_registry :: "quality_rule list" where
  "default_registry =
     [plain_rule DUPLICATE_HEADER quality_rule_scope.FILE ''DuplicateHeaderRule'' duplicate_header_rule,
      plain_rule MISSING_REQUIRED_FIELD quality_rule_scope.FILE ''MissingRequiredFieldRule'' missing_required_field_rule,
      plain_rule UNKNOWN_FIELD FIELD ''UnknownFieldRule'' unknown_field_rule,
      plain_rule SCHEMA_MISMATCH quality_rule_scope.FILE ''SchemaDriftRule'' schema_drift_rule,
      plain_rule INVALID_TIMESTAMP quality_rule_scope.TIMESTAMP ''InvalidTimestampRule'' invalid_timestamp_rule,
      plain_rule TELEMETRY_GAP quality_rule_scope.TIMESTAMP ''TelemetryGapRule'' telemetry_gap_file_rule,
      plain_rule EVENT_DATE_FILENAME_MISMATCH quality_rule_scope.FILE ''EventDateFilenameMismatchRule''
        event_date_filename_mismatch_rule,
      plain_rule EXACT_DUPLICATE ROW ''ExactDuplicateRule'' exact_duplicate_rule,
      plain_rule LOGICAL_KEY_COLLISION ENTITY ''LogicalKeyCollisionRule'' logical_key_collision_rule,
      plain_rule UNEXPECTED_CONNECTOR_CARDINALITY quality_rule_scope.FILE ''_CardinalityRule''
        (cardinality_rule UNEXPECTED_CONNECTOR_CARDINALITY column_role.CONNECTOR),
      plain_rule UNEXPECTED_SMR_CARDINALITY quality_rule_scope.FILE ''_CardinalityRule''
        (cardinality_rule UNEXPECTED_SMR_CARDINALITY column_role.SMR),
      plain_rule ALL_NULL_FIELD FIELD ''AllNullFieldRule'' all_null_field_rule,
      plain_rule SENTINEL_VALUE FIELD ''SentinelValueRule'' sentinel_value_rule,
      \<lparr>qr_code = OUT_OF_RANGE, qr_scope = FIELD, qr_name = ''OutOfRangeRule'', evaluate = out_of_range_rule\<rparr>,
      plain_rule INVALID_TYPE FIELD ''InvalidTypeRule'' invalid_type_rule,
      plain_rule UNKNOWN_ENUM_VALUE FIELD ''UnknownEnumValueRule'' unknown_enum_value_rule]"

section \<open>What the rules report\<close>

lemma evaluate_rules_mem:
  "f \<in> set (evaluate_rules digest isoformat rules c) \<longleftrightarrow> (\<exists>r\<in>set rules. f \<in> set (run_rule c r))"
  by (simp add: evaluate_rules_def fold_rules)

lemma plain_rule_mem: "f \<in> set (run_rule c (plain_rule code scope name g)) \<longleftrightarrow> f \<in> set (g c)"
  by (simp add: run_rule_def plain_rule_def)

lemma file_finding_fields [simp]:
  "rule_code (file_finding code scope sev) = code" "severity (file_finding code scope sev) = sev"
  "finding_scope (file_finding code scope sev) = scope"
  by (simp_all add: file_finding_def)

text \<open>
  C24: A missing required field is fatal for the schema score. When the dictionary requires a field
  whose name no column of the file carries, the default rules report it as critical, and the schema
  quality of the file is at most 70 whatever else holds.
\<close>

theorem missing_required_caps_schema:
  assumes "spec \<in> set (curated (ctx_registry c))" and "fs_required spec"
    and "fs_source_name spec \<notin> set (source_names (profile_header (profile c)))"
    and "findings = evaluate_rules digest isoformat default_registry c"
    and "compute_quality_score c findings weights = Inr q"
  shows "(\<exists>f\<in>set findings. rule_code f = MISSING_REQUIRED_FIELD \<and> severity f = quality_severity.CRITICAL
           \<and> field_name f = Some (fs_source_name spec)) \<and> schema_quality q \<le> 70"
proof -
  define f where "f = (file_finding MISSING_REQUIRED_FIELD quality_rule_scope.FILE quality_severity.CRITICAL)
    \<lparr>field_name := Some (fs_source_name spec), finding_canonical_name := Some (fs_canonical_name spec),
     finding_entity := Some (fs_entity spec)\<rparr>"
  have f: "rule_code f = MISSING_REQUIRED_FIELD" "severity f = quality_severity.CRITICAL"
      "field_name f = Some (fs_source_name spec)" by (simp_all add: f_def)
  have mem: "f \<in> set (missing_required_field_rule c)"
    unfolding missing_required_field_rule_def set_append set_map
    by (rule UnI1, rule image_eqI [where x = spec]) (simp_all add: f_def required_specs_def assms(1-3))
  have "f \<in> set findings"
    unfolding assms(4) evaluate_rules_mem
    by (rule bexI [of _ "plain_rule MISSING_REQUIRED_FIELD quality_rule_scope.FILE ''MissingRequiredFieldRule'' missing_required_field_rule"])
      (simp_all only: plain_rule_mem mem default_registry_def, simp)
  then have crit: "list_ex (\<lambda>f. rule_code f = MISSING_REQUIRED_FIELD \<and> severity f = quality_severity.CRITICAL) findings"
    using f by (auto simp: list_ex_iff)
  have nn: "0 \<le> min DUPLICATE_HEADER_PENALTY_CAP (of_nat k * DUPLICATE_HEADER_PENALTY_EACH)"
      "0 \<le> min SCHEMA_DRIFT_PENALTY_CAP (100 * of_nat k / of_nat m)" for k m
    by (simp_all add: DUPLICATE_HEADER_PENALTY_CAP_def DUPLICATE_HEADER_PENALTY_EACH_def SCHEMA_DRIFT_PENALTY_CAP_def)
  have "schema_dimension c findings \<le> clamp 70"
    unfolding schema_dimension_def Let_def if_P [OF crit]
    using nn(1) [of "duplicate_header_count (profile_header (profile c))"]
      nn(2) [of "length (missing_schema_fields c) + length (additional_schema_fields c)" "max (field_count (profile_header (profile c))) 1"]
    by (intro clamp_mono, cases "schema_is_known c"; simp only: if_True if_False MISSING_REQUIRED_PENALTY_def UNKNOWN_SCHEMA_PENALTY_def; linarith)
  then have "py_round 2 (schema_dimension c findings) \<le> py_round 2 70"
    by (intro py_round_mono) (simp add: clamp_def)
  moreover have "schema_quality q = py_round 2 (schema_dimension c findings)"
    using score_fields [OF assms(5)] by metis
  ultimately show ?thesis using \<open>f \<in> set findings\<close> f by auto
qed

text \<open>
  Type violations of a profiled field are counted exactly only when nearly all its values are
  numbers. With \<open>k\<close> non-null values of which \<open>v\<close> are numbers, the rule reports \<open>k - v\<close> violations when
  \<open>v\<close> is at least 95 percent of \<open>k\<close>, and all \<open>k\<close> otherwise, the valid ones included: the profile drops
  the number of valid values of a field it does not treat as numeric.
\<close>

theorem invalid_type_counts:
  assumes "type_is_numeric (fs_data_type spec)" and "cs_nulls s + v \<le> rows" and "cs_numeric_valid s = v"
    and "k = rows - cs_nulls s"
  shows "map occurrence_count (invalid_type_finding rows (spec, profile_field rows t col s h)) =
    (if k = 0 then []
     else if 95 / 100 \<le> (of_nat v / of_nat k :: rat) then (if v = k then [] else [k - v])
     else [k])"
proof -
  have n: "int rows - int (cs_nulls s) = int k" using assms(2,4) by linarith
  have valid: "numeric_valid_count (profile_field rows t col s h) =
      (if k > 0 \<and> 95 / 100 \<le> (of_nat v / of_nat k :: rat) then Some v else None)"
    unfolding profile_field_def Let_def by (simp add: n assms(3) NUMERIC_DOMINANCE_THRESHOLD_def)
  have nulls: "fp_null_count (profile_field rows t col s h) = cs_nulls s" by (simp add: profile_field_def Let_def)
  have le: "v \<le> k" using assms(2,4) by linarith
  show ?thesis
    using le unfolding invalid_type_finding_def prod.case invalid_count_def nulls valid n
    by (auto simp: assms(1) at_spec_def)
qed

lemma bound_findings_mem:
  assumes "bound_findings spec bs = (fs, None)"
  shows "f \<in> set fs \<longleftrightarrow> (\<exists>is_min bound a. (is_min, bound, Some a) \<in> set bs
    \<and> breaches spec is_min bound (Some a) = Some True \<and> f = range_finding spec a)"
  using assms
proof (induction bs arbitrary: fs)
  case (Cons e bs)
  obtain is_min bound actual where e: "e = (is_min, bound, actual)" by (cases e)
  obtain b where b: "breaches spec is_min bound actual = Some b"
    using Cons.prems by (cases "breaches spec is_min bound actual") (simp_all add: e)
  obtain fs' where fs': "bound_findings spec bs = (fs', None)"
    and fs: "fs = (case (b, actual) of (True, Some a) \<Rightarrow> [range_finding spec a] | _ \<Rightarrow> []) @ fs'"
    using Cons.prems by (cases "bound_findings spec bs") (auto simp: e b)
  have "actual = None \<Longrightarrow> b = False" using b by (auto simp: breaches_def split: option.splits)
  then show ?case
    using Cons.IH [OF fs'] b unfolding fs e by (cases actual; cases b) auto
qed simp

lemma two_bounds:
  "(\<exists>i b a. (i, b, Some a) \<in> set [(True, lo, x), (False, hi, y)] \<and> P i b a \<and> F a) \<longleftrightarrow>
   (\<exists>a. x = Some a \<and> P True lo a \<and> F a \<or> y = Some a \<and> P False hi a \<and> F a)" (is "?l \<longleftrightarrow> ?r")
proof
  assume ?r
  then obtain a where "x = Some a \<and> P True lo a \<and> F a \<or> y = Some a \<and> P False hi a \<and> F a" by blast
  then show ?l
  proof
    assume "x = Some a \<and> P True lo a \<and> F a"
    then show ?l by (intro exI [of _ True] exI [of _ lo] exI [of _ a]) simp
  next
    assume "y = Some a \<and> P False hi a \<and> F a"
    then show ?l by (intro exI [of _ False] exI [of _ hi] exI [of _ a]) simp
  qed
qed auto

lemma bounds_collect:
  "(\<exists>a. x = Some a \<and> (\<exists>b n. lo = Some b \<and> S a \<and> Q a n \<and> L n b) \<and> F a
      \<or> y = Some a \<and> (\<exists>b n. hi = Some b \<and> S a \<and> Q a n \<and> M n b) \<and> F a) \<longleftrightarrow>
   (\<exists>a n b. F a \<and> S a \<and> Q a n \<and> (x = Some a \<and> lo = Some b \<and> L n b \<or> y = Some a \<and> hi = Some b \<and> M n b))"
  by blast

definition range_hit :: "quality_finding \<Rightarrow> field_spec \<times> field_profile \<Rightarrow> bool" where
  "range_hit f = (\<lambda>(spec, observed). has_verified_range spec \<and> fp_is_numeric observed \<and>
     (\<exists>a. min_value observed = Some a \<and> breaches spec True (fs_valid_min spec) (Some a) = Some True
            \<and> f = range_finding spec a
        \<or> max_value observed = Some a \<and> breaches spec False (fs_valid_max spec) (Some a) = Some True
            \<and> f = range_finding spec a))"

lemma range_findings_mem:
  assumes "range_findings ps = (fs, None)"
  shows "f \<in> set fs \<longleftrightarrow> (\<exists>p\<in>set ps. range_hit f p)"
  using assms
proof (induction ps arbitrary: fs)
  case (Cons e ps)
  obtain spec observed where e: "e = (spec, observed)" by (cases e)
  show ?case
  proof (cases "has_verified_range spec \<and> fp_is_numeric observed")
    case False
    then have r: "range_findings ps = (fs, None)" using Cons.prems by (auto simp: e)
    have "\<not> range_hit f e" using False by (auto simp: range_hit_def e)
    then show ?thesis using Cons.IH [OF r] by simp
  next
    case True
    obtain fs1 fs2 where b: "bound_findings spec
          [(True, fs_valid_min spec, min_value observed), (False, fs_valid_max spec, max_value observed)] = (fs1, None)"
      and r: "range_findings ps = (fs2, None)" and fs: "fs = fs1 @ fs2"
      using Cons.prems True unfolding e
      by (auto simp del: bound_findings.simps split: prod.splits option.splits)
    have "f \<in> set fs1 \<longleftrightarrow> range_hit f e"
      unfolding bound_findings_mem [OF b] two_bounds range_hit_def e prod.case by (simp only: True simp_thms)
    then show ?thesis using Cons.IH [OF r] by (simp add: fs)
  qed
qed simp

text \<open>
  A range violation is reported exactly when it is one. Unless a comparison with NaN aborts the rule,
  its findings are those of a field with a verified range whose observed minimum lies below the
  declared one, or whose maximum above; a declared sentinel is never out of range.
\<close>

theorem range_findings_exact:
  assumes "out_of_range_rule c = (fs, None)"
  shows "f \<in> set fs \<longleftrightarrow> (\<exists>spec observed. (spec, observed) \<in> set (context_pairs c)
    \<and> has_verified_range spec \<and> fp_is_numeric observed \<and> (\<exists>a n b.
    f = range_finding spec a \<and> a \<notin> vs_value ` set (fs_sentinel_values spec) \<and> parse_dec_number a = Some n
    \<and> (min_value observed = Some a \<and> fs_valid_min spec = Some b \<and> dec_less n b = Some True
       \<or> max_value observed = Some a \<and> fs_valid_max spec = Some b \<and> dec_less b n = Some True)))"
proof -
  have br: "breaches spec is_min bound (Some a) = Some True \<longleftrightarrow> (\<exists>b n. bound = Some b
      \<and> a \<notin> vs_value ` set (fs_sentinel_values spec) \<and> parse_dec_number a = Some n
      \<and> (if is_min then dec_less n b else dec_less b n) = Some True)" for spec is_min bound a
    by (auto simp: breaches_def split: option.splits if_splits)
  have hit: "range_hit f (spec, observed) \<longleftrightarrow> has_verified_range spec \<and> fp_is_numeric observed \<and> (\<exists>a n b.
    f = range_finding spec a \<and> a \<notin> vs_value ` set (fs_sentinel_values spec) \<and> parse_dec_number a = Some n
    \<and> (min_value observed = Some a \<and> fs_valid_min spec = Some b \<and> dec_less n b = Some True
       \<or> max_value observed = Some a \<and> fs_valid_max spec = Some b \<and> dec_less b n = Some True))" for spec observed
    unfolding range_hit_def prod.case br if_True if_False bounds_collect by (rule refl)
  show ?thesis
    unfolding range_findings_mem [OF assms [unfolded out_of_range_rule_def]] Bex_def split_paired_Ex hit by blast
qed


section \<open>Concrete reports\<close>

definition demo_spec :: field_spec where
  "demo_spec = (classify_field None ''Cabinet Temperature'' 1 ''cabinet_temperature'')
     \<lparr>fs_data_type := canonical_data_type.FLOAT, fs_required := True, fs_valid_min := Some (Fin (Decimal True 40 0)),
      fs_valid_max := Some (Fin (Decimal False 95 0)), fs_range_status := range_status.VERIFIED,
      fs_sentinel_values := [\<lparr>vs_value = ''999'', vs_meaning = None\<rparr>], fs_source_occurrence := None\<rparr>"

definition rules_context :: quality_context where
  "rules_context = demo_context
     \<lparr>ctx_registry := demo_empty_registry\<lparr>specs_by_name := [(''Cabinet Temperature'', demo_spec)]\<rparr>,
      resolved_fields := [\<lparr>dr_spec = demo_spec, dr_source_position = fp_position demo_field, dr_is_dictionary_mapped = True\<rparr>],
      profile := (profile demo_context)\<lparr>profile_fields :=
        [demo_field\<lparr>numeric_valid_count := Some 3, min_value := Some ''-41.5'', max_value := Some ''999''\<rparr>]\<rparr>\<rparr>"

theorem missing_required_caps_schema_witness:
  "\<exists>q. compute_quality_score rules_context (evaluate_rules (\<lambda>s. s) (\<lambda>t. []) default_registry rules_context) None = Inr q
     \<and> schema_quality q \<le> 70"
proof -
  have "demo_spec \<in> set (curated (ctx_registry rules_context)) \<and> fs_required demo_spec
      \<and> fs_source_name demo_spec \<notin> set (source_names (profile_header (profile rules_context)))"
    by (simp add: rules_context_def curated_def demo_spec_def source_names_def demo_context_def)
  moreover have "timestamp_dimension rules_context = timestamp_dimension demo_context"
    by (simp add: timestamp_dimension_def rules_context_def)
  then obtain q where "compute_quality_score rules_context
      (evaluate_rules (\<lambda>s. s) (\<lambda>t. []) default_registry rules_context) None = Inr q"
    using demo_dimensions(1) by (simp add: compute_quality_score_def Let_def)
  ultimately show ?thesis using missing_required_caps_schema [OF _ _ _ refl] by blast
qed

definition demo_stats :: "nat \<Rightarrow> column_stats" where
  "demo_stats valid = \<lparr>cs_nulls = 0, cs_numeric_valid = valid, numeric_min = None, numeric_max = None, numeric_mean = None,
     numeric_median = None, numeric_std = None, text_min = None, text_max = None\<rparr>"

theorem invalid_type_counts_witness:
  "map occurrence_count (invalid_type_finding 100 (demo_spec, profile_field 100 t col (demo_stats 94) h)) = [100]
   \<and> map occurrence_count (invalid_type_finding 100 (demo_spec, profile_field 100 t col (demo_stats 95) h)) = [5]"
proof -
  have "type_is_numeric (fs_data_type demo_spec)" by (simp add: demo_spec_def type_is_numeric_def)
  then show ?thesis
    using invalid_type_counts [of demo_spec "demo_stats 94" 94 100 100 t col h]
      invalid_type_counts [of demo_spec "demo_stats 95" 95 100 100 t col h]
    by (simp add: demo_stats_def)
qed

theorem range_findings_exact_witness:
  "\<exists>fs. out_of_range_rule rules_context = (fs, None) \<and> range_finding demo_spec ''-41.5'' \<in> set fs
     \<and> range_finding demo_spec ''999'' \<notin> set fs"
proof -
  have ev: "map finding_raw_value (fst (out_of_range_rule rules_context)) = [Some ''-41.5'']
      \<and> snd (out_of_range_rule rules_context) = None" by code_simp
  then obtain fs where fs: "out_of_range_rule rules_context = (fs, None)" by (metis prod.collapse)
  obtain f where f: "fs = [f]" "finding_raw_value f = Some ''-41.5''" using ev by (auto simp: fs)
  have "f \<in> set fs" by (simp add: f)
  then obtain spec observed a where m: "(spec, observed) \<in> set (context_pairs rules_context)" "f = range_finding spec a"
    unfolding range_findings_exact [OF fs] by blast
  have "map fst (context_pairs rules_context) = [demo_spec]"
    by (simp add: context_pairs_def spec_by_position_def profile_by_position_def dict_of_def rules_context_def)
  then have "spec = demo_spec" using m(1) by (metis fst_conv list.set_map image_eqI list.set(1,2) singletonD)
  moreover have raw: "finding_raw_value (range_finding demo_spec x) = Some x" for x by (simp add: range_finding_def)
  ultimately have "f = range_finding demo_spec ''-41.5''" using f(2) m(2) by simp
  moreover have "range_finding demo_spec ''999'' \<noteq> f"
  proof
    assume "range_finding demo_spec ''999'' = f"
    then show False using raw [of "''999''"] f(2) by simp
  qed
  ultimately show ?thesis using f(1) fs by auto
qed

end
