(* ===== verification/Compatibility.thy ===== *)
theory Compatibility
  imports Quality
begin

text \<open>
  Schema registration: \<open>compare_schema\<close> of \<open>pipelines/validation/compatibility.py\<close> and
  \<open>SchemaService.resolve\<close> of \<open>backend/app/services/schema_service.py\<close> over the list of registered
  versions. The free-form detail of a comparison and the name and description of a version, which are
  renderings of its number and counts, are left out.
\<close>

section \<open>Comparing a header with a registered version\<close>

record registered_field =
  rf_source_name :: string
  rf_source_occurrence :: int
  rf_source_position :: nat
  rf_required :: bool
  rf_data_type :: "canonical_data_type option"

type_synonym field_identity = "string \<times> int"

definition rf_identity :: "registered_field \<Rightarrow> field_identity" where
  "rf_identity f = (rf_source_name f, rf_source_occurrence f)"

definition incoming_identity :: "raw_header_field \<Rightarrow> field_identity" where
  "incoming_identity f = (hf_source_name f, int (hf_source_occurrence f))"

record schema_comparison =
  sc_compatibility :: schema_compatibility
  sc_matched_count :: nat
  sc_registered_count :: nat
  sc_incoming_count :: nat
  sc_missing_required :: "string list"
  sc_missing_optional :: "string list"
  sc_additional :: "string list"
  sc_type_changes :: "(string \<times> canonical_data_type \<times> canonical_data_type) list"
  sc_reordered :: bool
  sc_fingerprint_match :: bool

definition comparison_is_compatible :: "schema_comparison \<Rightarrow> bool" where
  "comparison_is_compatible c = is_compatible (sc_compatibility c)"

definition missing_all :: "schema_comparison \<Rightarrow> string list" where
  "missing_all c = sc_missing_required c @ sc_missing_optional c"

definition field_label :: "field_identity \<Rightarrow> string" where
  "field_label = (\<lambda>(name, n). if n = 1 then name else name @ '' (occurrence '' @ int_str n @ '')'')"

definition unknown_schema :: "header_result \<Rightarrow> schema_comparison" where
  "unknown_schema h =
     \<lparr>sc_compatibility = UNKNOWN_SCHEMA, sc_matched_count = 0, sc_registered_count = 0,
      sc_incoming_count = field_count h, sc_missing_required = [], sc_missing_optional = [], sc_additional = [],
      sc_type_changes = [], sc_reordered = False, sc_fingerprint_match = False\<rparr>"

definition fingerprint_matched :: "header_result \<Rightarrow> registered_field list \<Rightarrow> schema_comparison" where
  "fingerprint_matched h registered =
     \<lparr>sc_compatibility = EXACT_MATCH, sc_matched_count = field_count h, sc_registered_count = length registered,
      sc_incoming_count = field_count h, sc_missing_required = [], sc_missing_optional = [], sc_additional = [],
      sc_type_changes = [], sc_reordered = False, sc_fingerprint_match = True\<rparr>"

definition type_change ::
    "(field_identity \<Rightarrow> canonical_data_type option) \<Rightarrow> (field_identity \<times> registered_field) list \<Rightarrow> field_identity
     \<Rightarrow> (string \<times> canonical_data_type \<times> canonical_data_type) option" where
  "type_change incoming_types reg_index key =
     (case (map_of reg_index key, incoming_types key) of
        (Some r, Some incoming) \<Rightarrow>
          (case rf_data_type r of
             Some declared \<Rightarrow> if declared \<noteq> incoming then Some (field_label key, declared, incoming) else None
           | None \<Rightarrow> None)
      | _ \<Rightarrow> None)"

definition verdict :: "string list \<Rightarrow> 'a list \<Rightarrow> string list \<Rightarrow> string list \<Rightarrow> bool \<Rightarrow> schema_compatibility" where
  "verdict req_gone type_changes opt_gone additional reordered =
     (if req_gone \<noteq> [] then INCOMPATIBLE_MISSING_REQUIRED
      else if type_changes \<noteq> [] then INCOMPATIBLE_TYPE_CHANGE
      else if opt_gone \<noteq> [] then COMPATIBLE_MISSING_OPTIONAL
      else if additional \<noteq> [] then COMPATIBLE_ADDITION
      else if reordered then COMPATIBLE_ADDITION
      else EXACT_MATCH)"

definition compare_fields ::
    "header_result \<Rightarrow> registered_field list \<Rightarrow> (field_identity \<Rightarrow> canonical_data_type option) \<Rightarrow> schema_comparison" where
  "compare_fields h registered incoming_types =
     (let inc_index = dict_of (map (\<lambda>f. (incoming_identity f, f)) (fields_of h));
          reg_index = dict_of (map (\<lambda>f. (rf_identity f, f)) registered);
          matched = filter (\<lambda>k. k \<in> set (dict_keys reg_index)) (dict_keys inc_index);
          added = filter (\<lambda>k. k \<notin> set (dict_keys reg_index)) (dict_keys inc_index);
          removed = filter (\<lambda>(k, r). k \<notin> set (dict_keys inc_index)) reg_index;
          req_gone = sort (map (field_label \<circ> fst) (filter (\<lambda>(k, r). rf_required r) removed));
          opt_gone = sort (map (field_label \<circ> fst) (filter (\<lambda>(k, r). \<not> rf_required r) removed));
          additional = sort (map field_label added);
          type_changes = List.map_filter (type_change incoming_types reg_index) (sort matched);
          reordered = list_ex (\<lambda>k. case (map_of inc_index k, map_of reg_index k) of
              (Some f, Some r) \<Rightarrow> hf_position f \<noteq> rf_source_position r | _ \<Rightarrow> False) matched
      in \<lparr>sc_compatibility = verdict req_gone type_changes opt_gone additional reordered,
          sc_matched_count = length matched, sc_registered_count = length registered,
          sc_incoming_count = field_count h, sc_missing_required = req_gone,
          sc_missing_optional = opt_gone, sc_additional = additional, sc_type_changes = type_changes,
          sc_reordered = reordered, sc_fingerprint_match = False\<rparr>)"

definition compare_schema ::
    "header_result \<Rightarrow> registered_field list \<Rightarrow> string option \<Rightarrow> (field_identity \<Rightarrow> canonical_data_type option)
     \<Rightarrow> schema_comparison" where
  "compare_schema h registered registered_fingerprint incoming_types =
     (if registered = [] then unknown_schema h
      else if registered_fingerprint \<noteq> None \<and> registered_fingerprint \<noteq> Some []
              \<and> registered_fingerprint = Some (header_fingerprint h)
      then fingerprint_matched h registered
      else compare_fields h registered incoming_types)"

section \<open>The registry of versions\<close>

text \<open>A stored field definition.\<close>

record field_row =
  fr_source_name :: string
  fr_source_occurrence :: int
  fr_source_position :: nat
  fr_canonical_name :: string
  fr_display_name :: "string option"
  fr_description :: "string option"
  fr_entity :: field_entity
  fr_field_class :: field_class
  fr_category :: field_category
  fr_sub_category :: "string option"
  fr_data_type :: canonical_data_type
  fr_unit :: "string option"
  fr_nullable :: bool
  fr_required :: bool
  fr_valid_min :: "dec_number option"
  fr_valid_max :: "dec_number option"
  fr_range_status :: range_status
  fr_normalization_strategy :: normalization_strategy
  fr_storage_strategy :: storage_strategy
  fr_aggregation_strategy :: aggregation_strategy
  fr_ml_candidate :: ml_candidate
  fr_leakage_risk :: leakage_risk
  fr_availability_semantics :: availability_semantics
  fr_review_status :: review_status
  fr_deprecated :: bool
  fr_notes :: "string option"
  fr_is_dictionary_mapped :: bool
  fr_dictionary_source :: string

record schema_version =
  ver_number :: nat
  ver_fingerprint :: string
  ver_field_count :: nat
  ver_duplicate_headers :: nat
  ver_coverage_status :: schema_coverage_status
  ver_mapped :: nat
  ver_unmapped :: nat
  ver_dictionary_revision :: string
  ver_fields :: "field_row list"
  ver_sentinels :: "(nat \<times> string \<times> string option) list"
  ver_allowed_values :: "(nat \<times> string \<times> string option) list"
  ver_prediction_domains :: "(nat \<times> prediction_domain) list"

record schema_resolution =
  res_version :: schema_version
  res_fields :: "dict_resolved list"
  res_comparison :: schema_comparison
  res_coverage :: coverage_report
  res_created :: bool

text \<open>\<open>_field_rows\<close>: the stored row of a resolved field; the occurrence falls back to 1.\<close>

definition field_row_of :: "dict_resolved \<Rightarrow> field_row" where
  "field_row_of r =
     \<lparr>fr_source_name = fs_source_name (dr_spec r),
      fr_source_occurrence = (case fs_source_occurrence (dr_spec r) of None \<Rightarrow> 1 | Some n \<Rightarrow> if n = 0 then 1 else n),
      fr_source_position = dr_source_position r, fr_canonical_name = fs_canonical_name (dr_spec r),
      fr_display_name = fs_display_name (dr_spec r), fr_description = fs_description (dr_spec r),
      fr_entity = fs_entity (dr_spec r), fr_field_class = fs_field_class (dr_spec r),
      fr_category = fs_category (dr_spec r), fr_sub_category = fs_sub_category (dr_spec r),
      fr_data_type = fs_data_type (dr_spec r), fr_unit = fs_unit (dr_spec r),
      fr_nullable = fs_nullable (dr_spec r), fr_required = fs_required (dr_spec r),
      fr_valid_min = fs_valid_min (dr_spec r), fr_valid_max = fs_valid_max (dr_spec r),
      fr_range_status = fs_range_status (dr_spec r),
      fr_normalization_strategy = fs_normalization_strategy (dr_spec r),
      fr_storage_strategy = fs_storage_strategy (dr_spec r),
      fr_aggregation_strategy = fs_aggregation_strategy (dr_spec r),
      fr_ml_candidate = fs_ml_candidate (dr_spec r), fr_leakage_risk = fs_leakage_risk (dr_spec r),
      fr_availability_semantics = fs_availability_semantics (dr_spec r),
      fr_review_status = fs_review_status (dr_spec r), fr_deprecated = fs_deprecated (dr_spec r),
      fr_notes = fs_notes (dr_spec r), fr_is_dictionary_mapped = dr_is_dictionary_mapped r,
      fr_dictionary_source = fs_origin (dr_spec r)\<rparr>"

type_synonym position_value = "nat \<times> string \<times> string option"

definition value_rows :: "(field_spec \<Rightarrow> value_spec list) \<Rightarrow> dict_resolved list \<Rightarrow> position_value list" where
  "value_rows values rs =
     concat (map (\<lambda>r. map (\<lambda>v. (dr_source_position r, vs_value v, vs_meaning v)) (values (dr_spec r))) rs)"

definition field_rows ::
    "dict_resolved list \<Rightarrow> field_row list \<times> position_value list \<times> position_value list \<times> (nat \<times> prediction_domain) list" where
  "field_rows rs =
     (map field_row_of rs, value_rows fs_sentinel_values rs, value_rows fs_allowed_values rs,
      concat (map (\<lambda>r. map (Pair (dr_source_position r)) (fs_prediction_domains (dr_spec r))) rs))"

text \<open>
  The unique constraints of the table \<open>field_definition\<close> on the rows of one version. Inserting rows that
  violate them raises: two columns the dictionary gives one definition or one canonical name make the
  insert fail.
\<close>

definition storable :: "field_row list \<Rightarrow> bool" where
  "storable fs =
     (distinct (map (\<lambda>f. (fr_source_name f, fr_source_occurrence f)) fs)
      \<and> distinct (map fr_source_position fs) \<and> distinct (map fr_canonical_name fs))"

definition registered_of_row :: "field_row \<Rightarrow> registered_field" where
  "registered_of_row f =
     \<lparr>rf_source_name = fr_source_name f, rf_source_occurrence = fr_source_occurrence f,
      rf_source_position = fr_source_position f, rf_required = fr_required f, rf_data_type = Some (fr_data_type f)\<rparr>"

definition next_version_number :: "schema_version list \<Rightarrow> nat" where
  "next_version_number vs = max_default 0 (map ver_number vs) + 1"

definition newest_version :: "schema_version list \<Rightarrow> schema_version option" where
  "newest_version vs = (if vs = [] then None else Some (last (sort_key ver_number vs)))"

definition fields_for_version :: "schema_version \<Rightarrow> registered_field list" where
  "fields_for_version v = map registered_of_row (sort_key fr_source_position (ver_fields v))"

definition compare_with_active :: "header_result \<Rightarrow> schema_version list \<Rightarrow> schema_comparison" where
  "compare_with_active h vs =
     (case newest_version vs of
        None \<Rightarrow> compare_schema h [] None (\<lambda>_. None)
      | Some v \<Rightarrow> compare_schema h (fields_for_version v) (Some (ver_fingerprint v)) (\<lambda>_. None))"

definition resolve_header :: "dictionary_registry \<Rightarrow> header_result \<Rightarrow> dict_resolved list" where
  "resolve_header reg h =
     resolve_all reg (map (\<lambda>f. (hf_source_name f, int (hf_source_occurrence f), hf_position f, hf_canonical_name f)) (fields_of h))"

definition resolve_schema ::
    "dictionary_registry \<Rightarrow> schema_version list \<Rightarrow> header_result \<Rightarrow> schema_resolution \<times> schema_version list" where
  "resolve_schema reg vs h =
     (let resolved = resolve_header reg h; coverage = build_coverage_report h resolved
      in case find (\<lambda>v. ver_fingerprint v = header_fingerprint h) vs of
           Some existing \<Rightarrow>
             (\<lparr>res_version = existing, res_fields = resolved,
               res_comparison = compare_schema h (fields_for_version existing) (Some (ver_fingerprint existing)) (\<lambda>_. None),
               res_coverage = coverage, res_created = False\<rparr>, vs)
         | None \<Rightarrow>
             (let (fields, sentinels, allowed, domains) = field_rows resolved;
                  v = \<lparr>ver_number = next_version_number vs, ver_fingerprint = header_fingerprint h,
                       ver_field_count = field_count h, ver_duplicate_headers = duplicate_header_count h,
                       ver_coverage_status = coverage_status coverage, ver_mapped = cr_mapped coverage,
                       ver_unmapped = cr_unmapped coverage, ver_dictionary_revision = reg_revision reg,
                       ver_fields = fields, ver_sentinels = sentinels,
                       ver_allowed_values = allowed, ver_prediction_domains = domains\<rparr>
              in (\<lparr>res_version = v, res_fields = resolved, res_comparison = compare_with_active h vs,
                   res_coverage = coverage, res_created = True\<rparr>, vs @ [v])))"

text \<open>
  \<open>resolve_schema\<close> is the method without the database's check; with it, an unseen header whose rows are not
  storable raises. The transaction of the whole run is lost then, so the callers modelled in \<open>Ingestion\<close>
  are about runs in which no header raises, and use \<open>resolve_schema\<close>.
\<close>

datatype registration_error = IntegrityError

definition register_header ::
    "dictionary_registry \<Rightarrow> schema_version list \<Rightarrow> header_result
     \<Rightarrow> registration_error + schema_resolution \<times> schema_version list" where
  "register_header reg vs h =
     (case resolve_schema reg vs h of
        (r, vs') \<Rightarrow> if res_created r \<and> \<not> storable (ver_fields (res_version r)) then Inl IntegrityError else Inr (r, vs'))"

definition refresh_coverage :: "coverage_report \<Rightarrow> schema_version \<Rightarrow> schema_version" where
  "refresh_coverage coverage v =
     v\<lparr>ver_coverage_status := coverage_status coverage, ver_mapped := cr_mapped coverage,
        ver_unmapped := cr_unmapped coverage\<rparr>"

section \<open>The verdict\<close>

lemma dict_of_keys: "set (dict_keys (dict_of kvs)) = fst ` set kvs"
proof -
  have step: "fst ` set (AList.update k v d) = insert k (fst ` set d)" for k v and d :: "('a \<times> 'b) list"
    using dict_keys_update [of k v d] by simp
  have "set (dict_keys (foldl (\<lambda>d (k, v). AList.update k v d) d kvs)) = set (dict_keys d) \<union> fst ` set kvs" for d
  proof (induction kvs arbitrary: d)
    case (Cons kv kvs)
    show ?case using Cons.IH by (cases kv) (simp add: step)
  qed simp
  then show ?thesis by (simp add: dict_of_def)
qed

lemma dict_of_keys_distinct: "distinct (dict_keys (dict_of kvs))"
proof -
  have "distinct (dict_keys d) \<Longrightarrow> distinct (dict_keys (foldl (\<lambda>d (k, v). AList.update k v d) d kvs))" for d
    by (induction kvs arbitrary: d) (auto simp: distinct_update)
  then show ?thesis by (simp add: dict_of_def)
qed

lemma dict_of_lookup_distinct:
  assumes "distinct (map fst kvs)"
  shows "map_of (dict_of kvs) k = map_of kvs k"
proof -
  have "map_of (foldl (\<lambda>d (k, v). AList.update k v d) d kvs) k =
      (case map_of kvs k of None \<Rightarrow> map_of d k | Some v \<Rightarrow> Some v)" for d
    using assms
  proof (induction kvs arbitrary: d)
    case (Cons kv kvs)
    obtain a b where kv: "kv = (a, b)" by (cases kv)
    have "map_of kvs a = None" using Cons.prems by (simp add: kv map_of_eq_None_iff)
    then show ?case using Cons by (simp add: kv update_conv' split: option.split)
  qed simp
  then show ?thesis by (simp add: dict_of_def split: option.split)
qed

lemma dict_of_mem:
  assumes "distinct (map fst kvs)"
  shows "(k, v) \<in> set (dict_of kvs) \<longleftrightarrow> (k, v) \<in> set kvs"
  using map_of_eq_Some_iff [OF dict_of_keys_distinct, of kvs k v] map_of_eq_Some_iff [OF assms, of k v]
    dict_of_lookup_distinct [OF assms, of k] by simp

lemma sort_Nil_iff: "sort_key g xs = [] \<longleftrightarrow> xs = []"
  by (metis length_0_conv length_sort)

lemma same_placed:
  assumes "distinct (map g ys)"
  shows "(\<lambda>x. (f x, p x)) ` set xs = (\<lambda>y. (g y, q y)) ` set ys \<longleftrightarrow>
    g ` set ys \<subseteq> f ` set xs \<and> f ` set xs \<subseteq> g ` set ys \<and> \<not> (\<exists>x\<in>set xs. \<exists>y\<in>set ys. f x = g y \<and> p x \<noteq> q y)"
    (is "?S = ?T \<longleftrightarrow> _")
proof
  assume eq: "?S = ?T"
  have "fst ` ?S = fst ` ?T" using eq by (rule arg_cong)
  moreover have "p x = q y" if "x \<in> set xs" "y \<in> set ys" "f x = g y" for x y
  proof -
    have "(f x, p x) \<in> ?T" using eq that(1) by blast
    then obtain z where "z \<in> set ys" "g z = f x" "q z = p x" by auto
    then show ?thesis using assms that(2,3) by (auto simp: distinct_map inj_on_def)
  qed
  ultimately show "g ` set ys \<subseteq> f ` set xs \<and> f ` set xs \<subseteq> g ` set ys
      \<and> \<not> (\<exists>x\<in>set xs. \<exists>y\<in>set ys. f x = g y \<and> p x \<noteq> q y)" by (simp add: image_image)
next
  assume *: "g ` set ys \<subseteq> f ` set xs \<and> f ` set xs \<subseteq> g ` set ys
      \<and> \<not> (\<exists>x\<in>set xs. \<exists>y\<in>set ys. f x = g y \<and> p x \<noteq> q y)"
  have "(f x, p x) \<in> ?T" if x: "x \<in> set xs" for x
  proof -
    obtain y where y: "y \<in> set ys" "f x = g y" using * x by blast
    then have "p x = q y" using * x by blast
    then show ?thesis using y by auto
  qed
  moreover have "(g y, q y) \<in> ?S" if y: "y \<in> set ys" for y
  proof -
    obtain x where x: "x \<in> set xs" "g y = f x" using * y by blast
    then have "p x = q y" using * y by metis
    then show ?thesis using x by (auto intro!: image_eqI [of _ _ x])
  qed
  ultimately show "?S = ?T" by auto
qed

text \<open>
  The verdict of a comparison in full, for a header that does not carry the registered fingerprint and
  registered fields of distinct identities. No caller passes incoming types, so no type change is found.
\<close>

lemma schema_verdict:
  assumes "registered \<noteq> []" and "fp \<noteq> Some (header_fingerprint h)"
    and "distinct (map rf_identity registered)" and "distinct (map incoming_identity (fields_of h))"
    and "c = compare_schema h registered fp (\<lambda>_. None)"
  shows "sc_compatibility c =
    (if \<exists>r\<in>set registered. rf_required r \<and> rf_identity r \<notin> incoming_identity ` set (fields_of h)
     then INCOMPATIBLE_MISSING_REQUIRED
     else if \<not> rf_identity ` set registered \<subseteq> incoming_identity ` set (fields_of h) then COMPATIBLE_MISSING_OPTIONAL
     else if (\<lambda>f. (incoming_identity f, hf_position f)) ` set (fields_of h) =
             (\<lambda>r. (rf_identity r, rf_source_position r)) ` set registered then EXACT_MATCH
     else COMPATIBLE_ADDITION)"
proof -
  define inc where "inc = dict_of (map (\<lambda>f. (incoming_identity f, f)) (fields_of h))"
  define reg where "reg = dict_of (map (\<lambda>f. (rf_identity f, f)) registered)"
  have c: "c = compare_fields h registered (\<lambda>_. None)" using assms(1,2,5) by (auto simp: compare_schema_def)
  have ikeys: "set (dict_keys inc) = incoming_identity ` set (fields_of h)" unfolding inc_def dict_of_keys by (simp add: image_image)
  have rkeys: "set (dict_keys reg) = rf_identity ` set registered" unfolding reg_def dict_of_keys by (simp add: image_image)
  have imem: "(k, f) \<in> set inc \<longleftrightarrow> f \<in> set (fields_of h) \<and> k = incoming_identity f" for k f
    unfolding inc_def using dict_of_mem [of "map (\<lambda>f. (incoming_identity f, f)) (fields_of h)" k f] assms(4)
    by (auto simp: comp_def)
  have rmem: "(k, r) \<in> set reg \<longleftrightarrow> r \<in> set registered \<and> k = rf_identity r" for k r
    unfolding reg_def using dict_of_mem [of "map (\<lambda>f. (rf_identity f, f)) registered" k r] assms(3)
    by (auto simp: comp_def)
  have ilook: "map_of inc (incoming_identity f) = Some f" if "f \<in> set (fields_of h)" for f
    using that imem map_of_eq_Some_iff [of inc] dict_of_keys_distinct by (metis inc_def)
  have rlook: "map_of reg (rf_identity r) = Some r" if "r \<in> set registered" for r
    using that rmem map_of_eq_Some_iff [of reg] dict_of_keys_distinct by (metis reg_def)
  define removed where "removed = filter (\<lambda>(k, r). k \<notin> set (dict_keys inc)) reg"
  define matched where "matched = filter (\<lambda>k. k \<in> set (dict_keys reg)) (dict_keys inc)"
  define reordered where "reordered = list_ex (\<lambda>k. case (map_of inc k, map_of reg k) of
              (Some f, Some r) \<Rightarrow> hf_position f \<noteq> rf_source_position r | _ \<Rightarrow> False) matched"
  define missing where "missing b = filter (\<lambda>(k, r). rf_required r = b) removed" for b
  have none: "List.map_filter (type_change (\<lambda>_. None) reg) xs = []" for xs
    by (induction xs) (simp_all add: List.map_filter_simps type_change_def split: option.split)
  have v: "sc_compatibility c =
      (if missing True \<noteq> [] then INCOMPATIBLE_MISSING_REQUIRED
       else if missing False \<noteq> [] then COMPATIBLE_MISSING_OPTIONAL
       else if filter (\<lambda>k. k \<notin> set (dict_keys reg)) (dict_keys inc) \<noteq> [] then COMPATIBLE_ADDITION
       else if reordered then COMPATIBLE_ADDITION else EXACT_MATCH)"
    unfolding c compare_fields_def Let_def inc_def [symmetric] reg_def [symmetric] removed_def [symmetric]
      matched_def [symmetric] reordered_def [symmetric] none verdict_def missing_def
    by (simp add: sort_Nil_iff)
  have removed: "(k, r) \<in> set removed \<longleftrightarrow> r \<in> set registered \<and> k = rf_identity r \<and> k \<notin> incoming_identity ` set (fields_of h)" for k r
    unfolding removed_def using rmem ikeys [unfolded set_map] by auto
  have kept: "missing b \<noteq> [] \<longleftrightarrow>
      (\<exists>r\<in>set registered. rf_required r = b \<and> rf_identity r \<notin> incoming_identity ` set (fields_of h))" for b
  proof -
    have "missing b \<noteq> [] \<longleftrightarrow> (\<exists>k r. (k, r) \<in> set removed \<and> rf_required r = b)"
      by (auto simp: missing_def filter_empty_conv)
    then show ?thesis unfolding removed by blast
  qed
  have fatal: "missing True \<noteq> [] \<longleftrightarrow>
      (\<exists>r\<in>set registered. rf_required r \<and> rf_identity r \<notin> incoming_identity ` set (fields_of h))"
    using kept [of True] by simp
  have gone: "missing True = [] \<and> missing False = [] \<longleftrightarrow> rf_identity ` set registered \<subseteq> incoming_identity ` set (fields_of h)"
    using kept [of True] kept [of False] by blast
  have new: "filter (\<lambda>k. k \<notin> set (dict_keys reg)) (dict_keys inc) = [] \<longleftrightarrow>
      incoming_identity ` set (fields_of h) \<subseteq> rf_identity ` set registered"
    unfolding ikeys [symmetric] rkeys [symmetric] by (simp only: filter_empty_conv not_not subset_eq)
  have re: "reordered \<longleftrightarrow> (\<exists>f\<in>set (fields_of h). \<exists>r\<in>set registered.
      incoming_identity f = rf_identity r \<and> hf_position f \<noteq> rf_source_position r)"
  proof -
    define C where "C k = (case (map_of inc k, map_of reg k) of
        (Some f, Some r) \<Rightarrow> hf_position f \<noteq> rf_source_position r | _ \<Rightarrow> False)" for k
    have at: "C (incoming_identity f) \<longleftrightarrow> hf_position f \<noteq> rf_source_position r"
      if "f \<in> set (fields_of h)" "r \<in> set registered" "incoming_identity f = rf_identity r" for f r
      using ilook [OF that(1)] rlook [OF that(2)] that(3) by (simp add: C_def)
    have "k \<in> set matched \<longleftrightarrow> k \<in> set (dict_keys inc) \<and> k \<in> set (dict_keys reg)" for k by (auto simp: matched_def)
    then have mem: "k \<in> set matched \<longleftrightarrow> (\<exists>f\<in>set (fields_of h). \<exists>r\<in>set registered. k = incoming_identity f \<and> k = rf_identity r)" for k
      unfolding ikeys rkeys by blast
    have "reordered \<longleftrightarrow> (\<exists>k. k \<in> set matched \<and> C k)" by (simp add: reordered_def list_ex_iff C_def Bex_def)
    also have "\<dots> \<longleftrightarrow> (\<exists>f\<in>set (fields_of h). \<exists>r\<in>set registered. incoming_identity f = rf_identity r \<and> C (incoming_identity f))"
      unfolding mem by blast
    also have "\<dots> \<longleftrightarrow> (\<exists>f\<in>set (fields_of h). \<exists>r\<in>set registered.
        incoming_identity f = rf_identity r \<and> hf_position f \<noteq> rf_source_position r)"
      by (intro bex_cong refl conj_cong) (rule at)
    finally show ?thesis .
  qed
  have same: "(\<lambda>f. (incoming_identity f, hf_position f)) ` set (fields_of h) = (\<lambda>r. (rf_identity r, rf_source_position r)) ` set registered
      \<longleftrightarrow> rf_identity ` set registered \<subseteq> incoming_identity ` set (fields_of h)
        \<and> incoming_identity ` set (fields_of h) \<subseteq> rf_identity ` set registered \<and> \<not> reordered"
    unfolding re by (rule same_placed [OF assms(3)])
  show ?thesis
  proof (cases "missing True = [] \<and> missing False = []")
    case True
    have "(if filter (\<lambda>k. k \<notin> set (dict_keys reg)) (dict_keys inc) \<noteq> [] then COMPATIBLE_ADDITION
        else if reordered then COMPATIBLE_ADDITION else EXACT_MATCH) =
      (if filter (\<lambda>k. k \<notin> set (dict_keys reg)) (dict_keys inc) = [] \<and> \<not> reordered then EXACT_MATCH
       else COMPATIBLE_ADDITION)" by simp
    also have "\<dots> = (if (\<lambda>f. (incoming_identity f, hf_position f)) ` set (fields_of h) =
        (\<lambda>r. (rf_identity r, rf_source_position r)) ` set registered then EXACT_MATCH else COMPATIBLE_ADDITION)"
      unfolding same new using True unfolding gone by simp
    finally show ?thesis unfolding v fatal [symmetric] gone [symmetric] using True by simp
  next
    case False
    then show ?thesis unfolding v fatal [symmetric] gone [symmetric] by auto
  qed
qed

section \<open>Registering a header\<close>

lemma resolve_field_position: "dr_source_position (resolve_field reg name n pos canonical) = pos"
  by (simp add: resolve_field_def split: option.split)

lemma header_length:
  assumes "parse_header_text digest row encoding bom = Inr h"
  shows "length (fields_of h) = length row"
proof -
  let ?es = "enumerate 0 (clean_names row)"
  have "map (\<lambda>f. (hf_position f, hf_source_name f)) (fields_of h) = ?es"
    using header_loop.fold_inv [OF TrueI, where es = ?es and totals = "tally (clean_names row)"]
    unfolding parse_header_fields(3) [OF assms] by blast
  from arg_cong [OF this, of length] show ?thesis by (simp add: clean_names_def)
qed

lemma header_positions:
  assumes "parse_header_text digest row encoding bom = Inr h"
  shows "length (fields_of h) = length row" and "i < length row \<Longrightarrow> hf_position (fields_of h ! i) = i"
    and "distinct (map incoming_identity (fields_of h))"
proof -
  show len: "length (fields_of h) = length row" using header_length [OF assms] .
  show "i < length row \<Longrightarrow> hf_position (fields_of h ! i) = i" using header_identities [OF assms] by blast
  show "distinct (map incoming_identity (fields_of h))"
  proof (simp add: distinct_conv_nth len, intro allI impI)
    fix i j assume ij: "i < length row" "j < length row" "i \<noteq> j"
    show "incoming_identity (fields_of h ! i) \<noteq> incoming_identity (fields_of h ! j)"
    proof
      assume "incoming_identity (fields_of h ! i) = incoming_identity (fields_of h ! j)"
      then have "hf_source_name (fields_of h ! i) = hf_source_name (fields_of h ! j)"
        "hf_source_occurrence (fields_of h ! i) = hf_source_occurrence (fields_of h ! j)"
        by (simp_all add: incoming_identity_def)
      then have "fields_of h ! i = fields_of h ! j"
        using header_identities [OF assms ij(1)] header_identities [OF assms ij(2)] by (metis option.inject)
      then show False using header_identities [OF assms ij(1)] header_identities [OF assms ij(2)] ij(3) by metis
    qed
  qed
qed

lemma rows_positions: "map fr_source_position (fst (field_rows (resolve_header reg h))) = map hf_position (fields_of h)"
  by (simp add: field_rows_def resolve_header_def resolve_all_def field_row_of_def resolve_field_position comp_def)

text \<open>The positions of a header never collide, so only names can make its rows unstorable.\<close>

lemma header_rows_positions:
  assumes "parse_header_text digest row encoding bom = Inr h"
  shows "distinct (map fr_source_position (fst (field_rows (resolve_header reg h))))"
proof -
  have "map hf_position (fields_of h) = [0..<length row]"
    using header_positions(1,2) [OF assms] by (intro nth_equalityI) simp_all
  then show ?thesis by (simp only: rows_positions distinct_upt)
qed

section \<open>The registry\<close>

definition registry_ok :: "schema_version list \<Rightarrow> bool" where
  "registry_ok vs = (distinct (map ver_fingerprint vs) \<and> distinct (map ver_number vs))"

lemma next_version_fresh: "v \<in> set vs \<Longrightarrow> ver_number v < next_version_number vs"
  using max_default_ge [of "ver_number v" "map ver_number vs" 0] by (simp add: next_version_number_def)

lemma resolve_schema_known:
  assumes "find (\<lambda>v. ver_fingerprint v = header_fingerprint h) vs = Some v"
  shows "resolve_schema reg vs h =
     (\<lparr>res_version = v, res_fields = resolve_header reg h,
       res_comparison = compare_schema h (fields_for_version v) (Some (ver_fingerprint v)) (\<lambda>_. None),
       res_coverage = build_coverage_report h (resolve_header reg h), res_created = False\<rparr>, vs)"
  using assms by (simp add: resolve_schema_def Let_def)

lemma resolve_schema_new:
  assumes "find (\<lambda>v. ver_fingerprint v = header_fingerprint h) vs = None"
  obtains v where "snd (resolve_schema reg vs h) = vs @ [v]" and "res_version (fst (resolve_schema reg vs h)) = v"
    and "res_created (fst (resolve_schema reg vs h))" and "ver_number v = next_version_number vs"
    and "ver_fingerprint v = header_fingerprint h" and "ver_fields v = map field_row_of (resolve_header reg h)"
  using assms by (simp add: resolve_schema_def Let_def field_rows_def)

lemma find_snoc_new: "find P xs = None \<Longrightarrow> find P (xs @ [x]) = (if P x then Some x else None)"
  by (induction xs) (auto split: if_splits)

lemma resolve_header_nonempty: "fields_of h \<noteq> [] \<Longrightarrow> resolve_header reg h \<noteq> []"
  by (simp add: resolve_header_def resolve_all_def)

text \<open>
  C22: A schema version is registered once. Resolving a header (one whose rows are storable, see \<open>storable\<close>:
  the insert of others raises) keeps the versions of the registry, with
  distinct fingerprints and numbers; a version is created exactly for an unseen fingerprint; and
  resolving a header again finds the version of the first time, adds nothing, and is an exact match.
\<close>

theorem schema_registered_once:
  assumes "registry_ok vs" and "\<forall>v\<in>set vs. ver_fields v \<noteq> []"
    and "fields_of h \<noteq> []" and "header_fingerprint h \<noteq> []"
    and "resolve_schema reg vs h = (r, vs')" and "resolve_schema reg' vs' h = (r', vs'')"
  shows "registry_ok vs' \<and> set vs \<subseteq> set vs' \<and> (res_created r \<longleftrightarrow> header_fingerprint h \<notin> ver_fingerprint ` set vs)
    \<and> vs'' = vs' \<and> \<not> res_created r' \<and> res_version r' = res_version r
    \<and> sc_compatibility (res_comparison r') = EXACT_MATCH"
proof (cases "find (\<lambda>v. ver_fingerprint v = header_fingerprint h) vs")
  case (Some v)
  then have v: "v \<in> set vs" "ver_fingerprint v = header_fingerprint h" by (auto simp: find_Some_iff)
  have r: "r = fst (resolve_schema reg vs h)" "vs' = vs" using assms(5) resolve_schema_known [OF Some] by auto
  have r': "r' = fst (resolve_schema reg' vs h)" "vs'' = vs" using assms(6) resolve_schema_known [OF Some] r by auto
  have "fields_for_version v \<noteq> []" using assms(2) v(1) by (simp add: fields_for_version_def sort_Nil_iff)
  then have "sc_compatibility (res_comparison r') = EXACT_MATCH"
    unfolding r' resolve_schema_known [OF Some] using v(2) assms(4) by (simp add: compare_schema_def fingerprint_matched_def)
  then show ?thesis
    using assms(1) v imageI [of v "set vs" ver_fingerprint] unfolding r r' resolve_schema_known [OF Some] by simp
next
  case None
  obtain v where v: "snd (resolve_schema reg vs h) = vs @ [v]" "res_version (fst (resolve_schema reg vs h)) = v"
    "res_created (fst (resolve_schema reg vs h))" "ver_number v = next_version_number vs"
    "ver_fingerprint v = header_fingerprint h" "ver_fields v = map field_row_of (resolve_header reg h)"
    using resolve_schema_new [OF None] by blast
  have r: "res_version r = v" "res_created r" "vs' = vs @ [v]" using assms(5) v(1-3) by auto
  have unseen: "header_fingerprint h \<notin> ver_fingerprint ` set vs" using None by (force simp: find_None_iff)
  have fresh: "ver_number v \<notin> ver_number ` set vs" unfolding v(4) using next_version_fresh [of _ vs] by (metis imageE less_irrefl_nat)
  have "find (\<lambda>w. ver_fingerprint w = header_fingerprint h) vs' = Some v"
    unfolding r(3) find_snoc_new [OF None] using v(5) by simp
  note known = resolve_schema_known [OF this, of reg']
  have r': "r' = fst (resolve_schema reg' vs' h)" "vs'' = vs'" using assms(6) unfolding known by auto
  have "fields_for_version v \<noteq> []"
    using resolve_header_nonempty [OF assms(3)] by (simp add: fields_for_version_def v(6) sort_Nil_iff)
  then have "sc_compatibility (res_comparison r') = EXACT_MATCH"
    unfolding r' known using v(5) assms(4) by (simp add: compare_schema_def fingerprint_matched_def)
  moreover have "registry_ok vs'"
    unfolding r(3) registry_ok_def using assms(1) unseen v(5) fresh by (simp add: registry_ok_def)
  moreover have "res_version r' = v" "\<not> res_created r'" unfolding r' known by simp_all
  ultimately show ?thesis using r unseen r'(2) by auto
qed

text \<open>
  Registration raises exactly for an unseen header with colliding rows, and the versions it keeps are
  storable, which is what the comparison with one of them rests on.
\<close>

lemma register_header_raises:
  "register_header reg vs h = Inl IntegrityError \<longleftrightarrow>
     header_fingerprint h \<notin> ver_fingerprint ` set vs \<and> \<not> storable (map field_row_of (resolve_header reg h))"
proof (cases "find (\<lambda>v. ver_fingerprint v = header_fingerprint h) vs")
  case (Some v)
  then have "v \<in> set vs" "ver_fingerprint v = header_fingerprint h" by (auto simp: find_Some_iff)
  then have "header_fingerprint h \<in> ver_fingerprint ` set vs" using imageI [of v "set vs" ver_fingerprint] by simp
  then show ?thesis by (simp add: register_header_def resolve_schema_known [OF Some])
next
  case None
  then have "header_fingerprint h \<notin> ver_fingerprint ` set vs" by (force simp: find_None_iff)
  moreover obtain v where "res_version (fst (resolve_schema reg vs h)) = v" "res_created (fst (resolve_schema reg vs h))"
    "ver_fields v = map field_row_of (resolve_header reg h)"
    using resolve_schema_new [OF None] by blast
  ultimately show ?thesis by (simp add: register_header_def split_beta)
qed

lemma registered_storable:
  assumes "\<forall>v\<in>set vs. storable (ver_fields v)" and "register_header reg vs h = Inr (r, vs')"
  shows "resolve_schema reg vs h = (r, vs') \<and> (\<forall>v\<in>set vs'. storable (ver_fields v))"
proof -
  have r: "resolve_schema reg vs h = (r, vs')" "res_created r \<longrightarrow> storable (ver_fields (res_version r))"
    using assms(2) by (auto simp: register_header_def split: prod.splits if_splits)
  show ?thesis
  proof (cases "find (\<lambda>v. ver_fingerprint v = header_fingerprint h) vs")
    case (Some v)
    then have "vs' = vs" using r(1) resolve_schema_known [OF Some, of reg] by auto
    then show ?thesis using assms(1) r(1) by simp
  next
    case None
    obtain v where v: "snd (resolve_schema reg vs h) = vs @ [v]" "res_version (fst (resolve_schema reg vs h)) = v"
      "res_created (fst (resolve_schema reg vs h))"
      using resolve_schema_new [OF None] by blast
    then show ?thesis using assms(1) r by auto
  qed
qed

section \<open>Drift\<close>

definition row_identity :: "field_row \<Rightarrow> field_identity" where
  "row_identity f = (fr_source_name f, fr_source_occurrence f)"

lemma row_fields:
  "set (fields_for_version v) = registered_of_row ` set (ver_fields v)"
  "rf_identity (registered_of_row f) = row_identity f" "rf_required (registered_of_row f) = fr_required f"
  "rf_source_position (registered_of_row f) = fr_source_position f"
  by (simp_all add: fields_for_version_def registered_of_row_def rf_identity_def row_identity_def)

lemma fields_for_version_distinct:
  assumes "storable (ver_fields v)"
  shows "distinct (map rf_identity (fields_for_version v))"
proof -
  have "map rf_identity (fields_for_version v) = map row_identity (sort_key fr_source_position (ver_fields v))"
    by (simp add: fields_for_version_def row_fields(2) comp_def)
  moreover have "distinct (map row_identity (ver_fields v))"
    using assms by (simp add: storable_def row_identity_def [abs_def])
  ultimately show ?thesis by (simp add: distinct_map)
qed

lemma newest_version_max:
  assumes "newest_version vs = Some v"
  shows "v \<in> set vs" and "w \<in> set vs \<Longrightarrow> ver_number w \<le> ver_number v"
proof -
  have ne: "vs \<noteq> []" and v: "v = last (sort_key ver_number vs)"
    using assms by (auto simp: newest_version_def split: if_splits)
  have ne': "sort_key ver_number vs \<noteq> []" using ne by (simp add: sort_Nil_iff)
  show "v \<in> set vs" unfolding v using last_in_set [OF ne'] by simp
  assume "w \<in> set vs"
  then obtain i where i: "i < length vs" "sort_key ver_number vs ! i = w"
    using in_set_conv_nth [of w "sort_key ver_number vs"] by auto
  have "map ver_number (sort_key ver_number vs) ! i \<le> map ver_number (sort_key ver_number vs) ! (length vs - 1)"
    using i(1) by (intro sorted_nth_mono) simp_all
  then show "ver_number w \<le> ver_number v"
    using i ne by (simp add: v last_conv_nth [OF ne'])
qed

text \<open>
  C35: What drift is reported for an unseen header. A header whose fingerprint no version has is compared
  with the version of the highest number, and the verdict is decided by the stored rows of that version,
  which the unique constraints keep apart: a missing required column makes it incompatible; otherwise a
  missing column makes it compatible with an optional one missing; otherwise it is an exact match when the
  same columns stand at the same positions, and an addition when a column is new or has moved.
\<close>

theorem drift_verdict:
  assumes "parse_header_text digest row encoding bom = Inr h"
    and "header_fingerprint h \<notin> ver_fingerprint ` set vs" and "newest_version vs = Some v"
    and "ver_fields v \<noteq> []" and "storable (ver_fields v)" and "resolve_schema reg vs h = (r, vs')"
  shows "v \<in> set vs \<and> (\<forall>w\<in>set vs. ver_number w \<le> ver_number v) \<and> sc_compatibility (res_comparison r) =
    (if \<exists>f\<in>set (ver_fields v). fr_required f \<and> row_identity f \<notin> incoming_identity ` set (fields_of h)
     then INCOMPATIBLE_MISSING_REQUIRED
     else if \<not> row_identity ` set (ver_fields v) \<subseteq> incoming_identity ` set (fields_of h) then COMPATIBLE_MISSING_OPTIONAL
     else if (\<lambda>f. (incoming_identity f, hf_position f)) ` set (fields_of h) =
             (\<lambda>f. (row_identity f, fr_source_position f)) ` set (ver_fields v) then EXACT_MATCH
     else COMPATIBLE_ADDITION)"
proof -
  have unseen: "find (\<lambda>w. ver_fingerprint w = header_fingerprint h) vs = None"
    using assms(2) by (force simp: find_None_iff)
  have "res_comparison r = compare_with_active h vs"
    using assms(6) unseen by (auto simp: resolve_schema_def Let_def field_rows_def)
  then have c: "res_comparison r = compare_schema h (fields_for_version v) (Some (ver_fingerprint v)) (\<lambda>_. None)"
    by (simp add: compare_with_active_def assms(3))
  have ne: "fields_for_version v \<noteq> []" using assms(4) by (simp add: fields_for_version_def sort_Nil_iff)
  have "Some (ver_fingerprint v) \<noteq> Some (header_fingerprint h)"
    using assms(2) newest_version_max(1) [OF assms(3)] by (metis imageI option.inject)
  from schema_verdict [OF ne this fields_for_version_distinct [OF assms(5)] header_positions(3) [OF assms(1)] c]
  show ?thesis using newest_version_max [OF assms(3)] by (simp add: row_fields image_image)
qed

section \<open>A concrete registration\<close>

definition demo_schema_registry :: dictionary_registry where
  "demo_schema_registry = demo_empty_registry\<lparr>specs_by_name := [(''Grid Fail'', classify_field None ''Grid Fail'' 1 ''grid_fail'')]\<rparr>"

definition demo_header :: "string list \<Rightarrow> header_result" where
  "demo_header row = (case parse_header_text id row ''utf-8'' False of Inr h \<Rightarrow> h)"

definition demo_versions :: "schema_version list" where
  "demo_versions = snd (resolve_schema demo_schema_registry [] (demo_header [''Grid Fail'']))"

lemma demo_drift:
  "case parse_header_text id [''Grid Fail'', ''Door''] ''utf-8'' False of Inl _ \<Rightarrow> False
   | Inr h \<Rightarrow> header_fingerprint h \<notin> ver_fingerprint ` set demo_versions
       \<and> sc_compatibility (res_comparison (fst (resolve_schema demo_schema_registry demo_versions h))) = COMPATIBLE_ADDITION"
  "case newest_version demo_versions of None \<Rightarrow> False | Some v \<Rightarrow> ver_fields v \<noteq> [] \<and> storable (ver_fields v)"
  by code_simp+

theorem drift_verdict_witness:
  "\<exists>h v. parse_header_text id [''Grid Fail'', ''Door''] ''utf-8'' False = Inr h
     \<and> newest_version demo_versions = Some v \<and> v \<in> set demo_versions
     \<and> sc_compatibility (res_comparison (fst (resolve_schema demo_schema_registry demo_versions h))) = COMPATIBLE_ADDITION
     \<and> row_identity ` set (ver_fields v) \<subseteq> incoming_identity ` set (fields_of h)"
proof -
  obtain h where h: "parse_header_text id [''Grid Fail'', ''Door''] ''utf-8'' False = Inr h"
    "header_fingerprint h \<notin> ver_fingerprint ` set demo_versions"
    "sc_compatibility (res_comparison (fst (resolve_schema demo_schema_registry demo_versions h))) = COMPATIBLE_ADDITION"
    using demo_drift(1) by (auto split: sum.splits)
  obtain v where v: "newest_version demo_versions = Some v" "ver_fields v \<noteq> []" "storable (ver_fields v)"
    using demo_drift(2) by (auto split: option.splits)
  show ?thesis
    using h v drift_verdict [OF h(1,2) v surjective_pairing, of demo_schema_registry] by (auto split: if_splits)
qed

text \<open>
  A definition found by its normalised name is stored under the name of the definition. When the same
  column comes back in a wider header, the version reports it as missing, here as a required one.
\<close>

definition renaming_registry :: dictionary_registry where
  "renaming_registry = demo_empty_registry
     \<lparr>specs_by_norm := [(norm_key ''Grid Fail'', (classify_field None ''Grid Fail'' 1 ''grid_fail'')\<lparr>fs_required := True\<rparr>)]\<rparr>"

lemma renamed_column_missing:
  "map (\<lambda>row. let vs = snd (resolve_schema renaming_registry [] (demo_header [''GRID fail'']))
        in sc_missing_required (res_comparison (fst (resolve_schema renaming_registry vs (demo_header row)))))
     [[''GRID fail''], [''GRID fail'', ''Door'']] = [[], [''Grid Fail'']]"
  by code_simp

text \<open>
  Two spellings of a name find one definition, and their rows collide in the unique constraints of the
  table: registering such a header raises.
\<close>

lemma unstorable_header:
  "register_header renaming_registry [] (demo_header [''GRID fail'', ''Grid  Fail'']) = Inl IntegrityError"
  by code_simp

theorem schema_registered_once_witness:
  "\<exists>h. parse_header_text id [''Grid Fail''] ''utf-8'' False = Inr h
     \<and> res_created (fst (resolve_schema demo_schema_registry [] h))
     \<and> \<not> res_created (fst (resolve_schema demo_schema_registry (snd (resolve_schema demo_schema_registry [] h)) h))"
proof -
  have "case parse_header_text id [''Grid Fail''] ''utf-8'' False of
     Inl _ \<Rightarrow> False | Inr h \<Rightarrow> fields_of h \<noteq> [] \<and> header_fingerprint h \<noteq> []" by code_simp
  then obtain h where h: "parse_header_text id [''Grid Fail''] ''utf-8'' False = Inr h"
    "fields_of h \<noteq> []" "header_fingerprint h \<noteq> []" by (auto split: sum.splits)
  show ?thesis
    using h(1) schema_registered_once [of "[]" h demo_schema_registry _ _ demo_schema_registry, OF _ _ h(2,3) surjective_pairing surjective_pairing]
    by (auto simp: registry_ok_def)
qed

end
