(* ===== verification/Coverage.thy ===== *)
theory Coverage
  imports EventTime
begin

text \<open>
  Charger-day coverage, \<open>pipelines/ingestion/coverage.py\<close>: the policy, the evaluation of one
  charger and business date from the files that contribute to it, its gaps and cadence, and the
  late-arrival test.

  Dates are day numbers of the policy's timezone, which is looked up in a parameter
  \<open>zones\<close> (\<open>ZoneInfo\<close>). Decimals (the quality scores) are exact rationals. The division by
  \<open>day_seconds\<close> raises when it is zero, so an evaluation is a sum. The free-form \<open>detail\<close>
  mapping of the evaluation is left out.
\<close>

section \<open>Policy\<close>

type_synonym zone_db = "string \<Rightarrow> timezone option"

record fleet_settings =
  default_source_timezone :: string
  default_sampling_interval_seconds :: int
  fs_gap_threshold_multiplier :: pyfloat
  fs_gap_minor_seconds :: int
  fs_gap_moderate_seconds :: int
  fs_gap_major_seconds :: int
  fs_gap_critical_seconds :: int
  completeness_complete_min_pct :: pyfloat
  completeness_partial_min_pct :: pyfloat
  late_arrival_grace_hours :: int
  fs_day_seconds :: int
  fs_cadence_deviation_tolerance :: pyfloat

definition default_fleet_settings :: fleet_settings where
  "default_fleet_settings =
     \<lparr>default_source_timezone = ''Asia/Kolkata'', default_sampling_interval_seconds = 120,
      fs_gap_threshold_multiplier = 3, fs_gap_minor_seconds = 300, fs_gap_moderate_seconds = 1800,
      fs_gap_major_seconds = 7200, fs_gap_critical_seconds = 21600,
      completeness_complete_min_pct = 95, completeness_partial_min_pct = 50,
      late_arrival_grace_hours = 24, fs_day_seconds = 86400, fs_cadence_deviation_tolerance = 1 / 2\<rparr>"

definition check_multiplier :: "pyfloat \<Rightarrow> string + pyfloat" where
  "check_multiplier v =
     (if v \<le> 1 then Inl ''gap_threshold_multiplier must be greater than 1.0'' else Inr v)"

record coverage_policy =
  expected_interval_seconds :: int
  day_seconds :: int
  gap_threshold_multiplier :: pyfloat
  gap_minor_seconds :: int
  gap_moderate_seconds :: int
  gap_major_seconds :: int
  gap_critical_seconds :: int
  complete_min_pct :: pyfloat
  partial_min_pct :: pyfloat
  late_grace_hours :: int
  cadence_deviation_tolerance :: pyfloat
  source_timezone :: string

definition from_settings :: "fleet_settings \<Rightarrow> int option \<Rightarrow> string option \<Rightarrow> coverage_policy" where
  "from_settings s interval zone =
     \<lparr>expected_interval_seconds =
        (case interval of None \<Rightarrow> default_sampling_interval_seconds s
         | Some i \<Rightarrow> if i = 0 then default_sampling_interval_seconds s else i),
      day_seconds = fs_day_seconds s,
      gap_threshold_multiplier = fs_gap_threshold_multiplier s,
      gap_minor_seconds = fs_gap_minor_seconds s,
      gap_moderate_seconds = fs_gap_moderate_seconds s,
      gap_major_seconds = fs_gap_major_seconds s,
      gap_critical_seconds = fs_gap_critical_seconds s,
      complete_min_pct = completeness_complete_min_pct s,
      partial_min_pct = completeness_partial_min_pct s,
      late_grace_hours = late_arrival_grace_hours s,
      cadence_deviation_tolerance = fs_cadence_deviation_tolerance s,
      source_timezone =
        (case zone of None \<Rightarrow> default_source_timezone s
         | Some z \<Rightarrow> if z = [] then default_source_timezone s else z)\<rparr>"

definition gap_threshold_seconds :: "coverage_policy \<Rightarrow> pyfloat" where
  "gap_threshold_seconds p = of_int (expected_interval_seconds p) * gap_threshold_multiplier p"

definition classify_gap :: "coverage_policy \<Rightarrow> pyfloat \<Rightarrow> gap_severity" where
  "classify_gap p duration =
     (if duration \<ge> of_int (gap_critical_seconds p) then gap_severity.CRITICAL
      else if duration \<ge> of_int (gap_major_seconds p) then gap_severity.MAJOR
      else if duration \<ge> of_int (gap_moderate_seconds p) then MODERATE
      else gap_severity.MINOR)"

definition classify_completeness :: "coverage_policy \<Rightarrow> pyfloat \<Rightarrow> bool \<Rightarrow> completeness_status" where
  "classify_completeness p pct has_data =
     (if \<not> has_data then completeness_status.NO_DATA
      else if pct \<ge> complete_min_pct p then completeness_status.COMPLETE
      else if pct \<ge> partial_min_pct p then completeness_status.PARTIAL
      else completeness_status.SEVERELY_INCOMPLETE)"

section \<open>Values\<close>

record 'f file_contribution =
  telemetry_file_id :: "'f option"
  timestamps :: "datetime list"
  received_at :: "datetime option"
  connectors :: "string set"
  smrs :: "string set"
  fc_quality_score :: "pyfloat option"
  exact_duplicate_rows :: nat
  logical_collision_groups :: nat
  fc_duplicate_timestamp_count :: nat

record gap_candidate =
  start_event_at :: datetime
  end_event_at :: datetime
  gap_duration :: int
  gap_expected_interval :: int
  estimated_missing_samples :: int
  gap_severity_of :: gap_severity

record 'f coverage_evaluation =
  ev_charger_id :: string
  business_date :: int
  file_count :: nat
  primary_telemetry_file_id :: "'f option"
  first_event_at :: "datetime option"
  last_event_at :: "datetime option"
  unique_timestamp_count :: nat
  expected_timestamp_count :: int
  expected_sampling_interval_seconds :: int
  observed_median_interval_seconds :: "pyfloat option"
  observed_p95_interval_seconds :: "pyfloat option"
  observed_min_interval_seconds :: "pyfloat option"
  observed_max_interval_seconds :: "pyfloat option"
  coverage_seconds :: int
  expected_coverage_seconds :: int
  span_coverage_percentage :: pyfloat
  sample_coverage_percentage :: pyfloat
  gap_adjusted_coverage_percentage :: pyfloat
  coverage_percentage :: pyfloat
  gaps :: "gap_candidate list"
  gap_count :: nat
  largest_gap_seconds :: int
  total_gap_seconds :: int
  leading_missing_seconds :: int
  trailing_missing_seconds :: int
  connectors_detected :: "string set"
  smrs_detected :: "string set"
  ev_duplicate_timestamp_count :: nat
  ev_logical_collision_count :: nat
  overlapping_timestamp_count :: nat
  duplicate_file_count :: nat
  completeness_status_of :: completeness_status
  cadence_is_abnormal :: bool
  first_received_at :: "datetime option"
  ev_quality_score :: "pyfloat option"

definition ev_has_data :: "'f coverage_evaluation \<Rightarrow> bool" where
  "ev_has_data e = (unique_timestamp_count e > 0)"

section \<open>One charger-day\<close>

definition day_bounds :: "zone_db \<Rightarrow> int \<Rightarrow> string \<Rightarrow> datetime \<times> datetime" where
  "day_bounds zones date zone =
     (let z = resolve_timezone zones zone
      in (wall_to_utc z (date * day_us), wall_to_utc z ((date + 1) * day_us)))"

text \<open>\<open>statistics.median\<close>\<close>

definition py_median :: "pyfloat list \<Rightarrow> pyfloat" where
  "py_median xs =
     (let s = sort xs; n = length s
      in if odd n then s ! (n div 2) else (s ! (n div 2 - 1) + s ! (n div 2)) / 2)"

definition interval_stats ::
    "datetime list \<Rightarrow> pyfloat option \<times> pyfloat option \<times> pyfloat option \<times> pyfloat option" where
  "interval_stats ts =
     (if length ts < 2 then (None, None, None, None)
      else let positive = filter (\<lambda>d. d > 0) (seconds_between ts)
           in if positive = [] then (None, None, None, None)
              else let ordered = sort positive;
                       n = length ordered;
                       p95 = nat (max 0 (min (int n - 1) (round_half_even (95 / 100 * of_nat (n - 1)))))
                   in (Some (py_median positive), Some (ordered ! p95), Some (hd ordered), Some (last ordered)))"

definition gap_of :: "coverage_policy \<Rightarrow> datetime \<times> datetime \<Rightarrow> gap_candidate list" where
  "gap_of p = (\<lambda>(earlier, later).
     (let duration = total_seconds (later - earlier); interval = expected_interval_seconds p
      in if duration \<le> gap_threshold_seconds p then []
         else [\<lparr>start_event_at = earlier, end_event_at = later, gap_duration = py_int duration,
                gap_expected_interval = interval,
                estimated_missing_samples =
                  (if interval > 0 then max 0 (\<lfloor>duration / of_int interval\<rfloor> - 1) else 0),
                gap_severity_of = classify_gap p duration\<rparr>]))"

definition detect_gaps :: "coverage_policy \<Rightarrow> datetime list \<Rightarrow> gap_candidate list" where
  "detect_gaps p ts = (if length ts < 2 then [] else concat (map (gap_of p) (pairs ts)))"

definition primary_file :: "'f file_contribution list \<Rightarrow> 'f option" where
  "primary_file items =
     (case foldl (\<lambda>best item.
         if telemetry_file_id item = None then best
         else case best of None \<Rightarrow> Some item
           | Some b \<Rightarrow> if card (set (timestamps item)) > card (set (timestamps b)) then Some item else best)
       None items of
      None \<Rightarrow> None | Some b \<Rightarrow> telemetry_file_id b)"

text \<open>How many files of the day carry each timestamp, \<open>seen\<close>.\<close>

definition in_day :: "datetime \<times> datetime \<Rightarrow> datetime \<Rightarrow> bool" where
  "in_day bounds t = (fst bounds \<le> t \<and> t < snd bounds)"

definition seen_step ::
    "datetime \<times> datetime \<Rightarrow> (datetime, nat) pydict \<Rightarrow> 'f file_contribution \<Rightarrow> (datetime, nat) pydict" where
  "seen_step bounds seen item = foldl bump seen (remdups (filter (in_day bounds) (timestamps item)))"

datatype coverage_error = ZeroDivision

definition option_list :: "'a option \<Rightarrow> 'a list" where
  "option_list v = (case v of None \<Rightarrow> [] | Some x \<Rightarrow> [x])"

definition cadence_abnormal :: "coverage_policy \<Rightarrow> pyfloat option \<Rightarrow> bool" where
  "cadence_abnormal p median =
     (case median of None \<Rightarrow> False
      | Some m \<Rightarrow> expected_interval_seconds p > 0 \<and>
          (m < of_int (expected_interval_seconds p) * (1 - cadence_deviation_tolerance p) \<or>
           m > of_int (expected_interval_seconds p) * (1 + cadence_deviation_tolerance p)))"

text \<open>The assessment of the day, from the counts of its timestamps and their sorted list.\<close>

definition assess ::
    "datetime \<times> datetime \<Rightarrow> string \<Rightarrow> int \<Rightarrow> 'f file_contribution list \<Rightarrow> coverage_policy
     \<Rightarrow> (datetime, nat) pydict \<Rightarrow> datetime list \<Rightarrow> 'f coverage_evaluation" where
  "assess bounds charger date items p seen stamps =
     (let received = concat (map (\<lambda>i. option_list (received_at i)) items);
          scores = concat (map (\<lambda>i. option_list (fc_quality_score i)) items);
          expected = max 1 (day_seconds p div max (expected_interval_seconds p) 1);
          n = length stamps;
          span = (if stamps = [] then 0 else py_int (total_seconds (last stamps - hd stamps)));
          found = detect_gaps p stamps;
          total_gap = sum_list (map gap_duration found);
          leading = (if stamps = [] then 0 else py_int (total_seconds (hd stamps - fst bounds)));
          trailing = (if stamps = [] then 0 else py_int (total_seconds (snd bounds - last stamps)));
          sample = min 100 (100 * of_nat n / of_int expected);
          stats = interval_stats stamps
      in \<lparr>ev_charger_id = charger, business_date = date, file_count = length items,
           primary_telemetry_file_id = primary_file items,
           first_event_at = (if stamps = [] then None else Some (hd stamps)),
           last_event_at = (if stamps = [] then None else Some (last stamps)),
           unique_timestamp_count = n, expected_timestamp_count = expected,
           expected_sampling_interval_seconds = expected_interval_seconds p,
           observed_median_interval_seconds = fst stats, observed_p95_interval_seconds = fst (snd stats),
           observed_min_interval_seconds = fst (snd (snd stats)), observed_max_interval_seconds = snd (snd (snd stats)),
           coverage_seconds = span, expected_coverage_seconds = day_seconds p,
           span_coverage_percentage =
             py_round 3 (min 100 (100 * of_int span / of_int (day_seconds p))),
           sample_coverage_percentage = py_round 3 sample,
           gap_adjusted_coverage_percentage =
             py_round 3 (min 100 (max 0 (100 * of_int (span - total_gap) / of_int (day_seconds p)))),
           coverage_percentage = py_round 3 sample,
           gaps = found, gap_count = length found,
           largest_gap_seconds = max_default 0 (map gap_duration found),
           total_gap_seconds = total_gap,
           leading_missing_seconds = max 0 leading, trailing_missing_seconds = max 0 trailing,
           connectors_detected = \<Union> (set (map connectors items)),
           smrs_detected = \<Union> (set (map smrs items)),
           ev_duplicate_timestamp_count = sum_list (map fc_duplicate_timestamp_count items),
           ev_logical_collision_count = sum_list (map logical_collision_groups items),
           overlapping_timestamp_count = length (filter (\<lambda>c. c > 1) (dict_values seen)),
           duplicate_file_count = length (filter (\<lambda>i. exact_duplicate_rows i > 0) items),
           completeness_status_of = classify_completeness p sample (n > 0),
           cadence_is_abnormal = cadence_abnormal p (fst stats),
           first_received_at = (if received = [] then None else Some (min_default 0 received)),
           ev_quality_score =
             (if scores = [] then None else Some (py_round 2 (sum_list scores / of_nat (length scores))))\<rparr>)"

definition evaluate_charger_day ::
    "zone_db \<Rightarrow> string \<Rightarrow> int \<Rightarrow> 'f file_contribution list \<Rightarrow> coverage_policy
     \<Rightarrow> coverage_error + 'f coverage_evaluation" where
  "evaluate_charger_day zones charger date items p =
     (let bounds = day_bounds zones date (source_timezone p);
          seen = foldl (seen_step bounds) [] items
      in if day_seconds p = 0 then Inl ZeroDivision
         else Inr (assess bounds charger date items p seen (sort (dict_keys seen))))"

definition is_late :: "zone_db \<Rightarrow> int \<Rightarrow> datetime option \<Rightarrow> coverage_policy \<Rightarrow> bool \<times> int option" where
  "is_late zones date received p =
     (case received of None \<Rightarrow> (False, None)
      | Some t \<Rightarrow>
          (let cutoff = snd (day_bounds zones date (source_timezone p)) + late_grace_hours p * 3600000000
           in if t \<le> cutoff then (False, Some 0)
              else (True, Some (py_int (total_seconds (t - cutoff))))))"

section \<open>The timeline of a day\<close>

definition day_stamps :: "zone_db \<Rightarrow> int \<Rightarrow> coverage_policy \<Rightarrow> 'f file_contribution list \<Rightarrow> datetime set" where
  "day_stamps zones date p items =
     {t \<in> \<Union> (set (map (\<lambda>i. set (timestamps i)) items)). in_day (day_bounds zones date (source_timezone p)) t}"

lemma finite_day_stamps [simp]: "finite (day_stamps zones date p items)"
  by (simp add: day_stamps_def)

lemma fold_bump:
  "set (dict_keys (foldl bump d xs)) = set (dict_keys d) \<union> set xs"
  "distinct (dict_keys d) \<Longrightarrow> distinct (dict_keys (foldl bump d xs))"
  "dict_get (foldl bump d xs) k 0 = dict_get d k 0 + count_list xs k"
  by (induction xs arbitrary: d) (auto simp: bump_def dict_simps simp del: set_map)

lemma seen_fold:
  "set (dict_keys (foldl (seen_step b) d items)) =
     set (dict_keys d) \<union> {t \<in> \<Union> (set (map (\<lambda>i. set (timestamps i)) items)). in_day b t}"
  "distinct (dict_keys d) \<Longrightarrow> distinct (dict_keys (foldl (seen_step b) d items))"
  "dict_get (foldl (seen_step b) d items) t 0 =
     dict_get d t 0 + (if in_day b t then length (filter (\<lambda>i. t \<in> set (timestamps i)) items) else 0)"
proof (induction items arbitrary: d)
  case (Cons i items)
  have step: "set (dict_keys (seen_step b d i)) = set (dict_keys d) \<union> {t \<in> set (timestamps i). in_day b t}" for d
    by (simp only: seen_step_def fold_bump(1)) auto
  { case 1
    have "set (dict_keys (foldl (seen_step b) d (i # items))) =
        set (dict_keys (seen_step b d i)) \<union> {t \<in> \<Union> (set (map (\<lambda>i. set (timestamps i)) items)). in_day b t}"
      by (simp only: foldl.simps Cons.IH(1))
    then show ?case by (simp only: step) (simp, blast)
  next
    case 2 then show ?case
      using Cons.IH(2) [of "seen_step b d i"] by (simp only: foldl.simps seen_step_def fold_bump(2))
  next
    case 3
    have "dict_get (seen_step b d i) t 0 = dict_get d t 0 + (if in_day b t \<and> t \<in> set (timestamps i) then 1 else 0)"
      by (simp add: seen_step_def fold_bump(3) count_list_distinct)
    then show ?case by (simp only: foldl.simps Cons.IH(3)) simp }
qed simp_all

lemma seen_stamps:
  "sort (dict_keys (foldl (seen_step (day_bounds zones date (source_timezone p))) [] items)) =
     sorted_list_of_set (day_stamps zones date p items)"
  (is "sort (dict_keys ?d) = _")
proof -
  have "distinct (dict_keys ?d)" by (simp add: seen_fold(2))
  moreover have "set (dict_keys ?d) = day_stamps zones date p items"
    by (simp only: seen_fold(1) day_stamps_def) simp
  ultimately show ?thesis
    by (metis remdups_id_iff_distinct sorted_list_of_set_sort_remdups)
qed

text \<open>Every reported quantity of the timeline, read off the in-day timestamps.\<close>

lemma evaluate_assess:
  "evaluate_charger_day zones charger date items p = Inr e \<longleftrightarrow> day_seconds p \<noteq> 0 \<and>
     e = assess (day_bounds zones date (source_timezone p)) charger date items p
           (foldl (seen_step (day_bounds zones date (source_timezone p))) [] items)
           (sorted_list_of_set (day_stamps zones date p items))"
  unfolding evaluate_charger_day_def Let_def seen_stamps by auto

lemma assess_fields:
  fixes bounds charger date items p seen ts
  defines "e \<equiv> assess bounds charger date items p seen ts"
  shows "first_event_at e = (if ts = [] then None else Some (hd ts))"
    and "last_event_at e = (if ts = [] then None else Some (last ts))"
    and "unique_timestamp_count e = length ts"
    and "expected_timestamp_count e = max 1 (day_seconds p div max (expected_interval_seconds p) 1)"
    and "observed_median_interval_seconds e = fst (interval_stats ts)"
    and "coverage_seconds e = (if ts = [] then 0 else py_int (total_seconds (last ts - hd ts)))"
    and "gaps e = detect_gaps p ts"
    and "total_gap_seconds e = sum_list (map gap_duration (gaps e))"
    and "largest_gap_seconds e = max_default 0 (map gap_duration (gaps e))"
    and "span_coverage_percentage e = py_round 3 (min 100 (100 * of_int (coverage_seconds e) / of_int (day_seconds p)))"
    and "sample_coverage_percentage e = py_round 3 (min 100 (100 * of_nat (unique_timestamp_count e) / of_int (expected_timestamp_count e)))"
    and "gap_adjusted_coverage_percentage e =
          py_round 3 (min 100 (max 0 (100 * of_int (coverage_seconds e - total_gap_seconds e) / of_int (day_seconds p))))"
    and "completeness_status_of e = classify_completeness p
          (min 100 (100 * of_nat (unique_timestamp_count e) / of_int (expected_timestamp_count e))) (unique_timestamp_count e > 0)"
    and "leading_missing_seconds e = (if ts = [] then 0 else max 0 (py_int (total_seconds (hd ts - fst bounds))))"
    and "trailing_missing_seconds e = (if ts = [] then 0 else max 0 (py_int (total_seconds (snd bounds - last ts))))"
    and "cadence_is_abnormal e = cadence_abnormal p (observed_median_interval_seconds e)"
    and "gap_count e = length (gaps e)"
    and "file_count e = length items"
    and "coverage_percentage e = sample_coverage_percentage e"
    and "primary_telemetry_file_id e = primary_file items"
    and "overlapping_timestamp_count e = length (filter (\<lambda>c. c > 1) (dict_values seen))"
    and "business_date e = date"
    and "first_received_at e = (if concat (map (\<lambda>i. option_list (received_at i)) items) = [] then None
          else Some (min_default 0 (concat (map (\<lambda>i. option_list (received_at i)) items))))"
  unfolding e_def assess_def Let_def by simp_all

text \<open>
  C13: Coverage is computed from the distinct timestamps of the day alone. Two sets of files with
  the same in-day timestamps, however often repeated and however spread over files, get the same
  timeline, gaps, percentages, cadence and completeness.
\<close>

theorem coverage_from_distinct_timestamps:
  assumes "evaluate_charger_day zones charger date items p = Inr e"
    and "evaluate_charger_day zones charger' date items' p = Inr e'"
    and "{t \<in> \<Union> (set (map (\<lambda>i. set (timestamps i)) items)). in_day (day_bounds zones date (source_timezone p)) t} =
         {t \<in> \<Union> (set (map (\<lambda>i. set (timestamps i)) items')). in_day (day_bounds zones date (source_timezone p)) t}"
  shows "unique_timestamp_count e = unique_timestamp_count e' \<and>
    first_event_at e = first_event_at e' \<and> last_event_at e = last_event_at e' \<and>
    gaps e = gaps e' \<and> sample_coverage_percentage e = sample_coverage_percentage e' \<and>
    span_coverage_percentage e = span_coverage_percentage e' \<and>
    gap_adjusted_coverage_percentage e = gap_adjusted_coverage_percentage e' \<and>
    completeness_status_of e = completeness_status_of e' \<and>
    cadence_is_abnormal e = cadence_is_abnormal e'"
proof -
  have ts: "day_stamps zones date p items = day_stamps zones date p items'"
    using assms(3) by (simp only: day_stamps_def)
  show ?thesis
    using assms(1,2) by (simp only: evaluate_assess assess_fields ts)
qed

section \<open>Accounting\<close>

lemma py_int_sum: "(\<And>x. x \<in> set xs \<Longrightarrow> 0 \<le> f x) \<Longrightarrow> sum_list (map (\<lambda>x. py_int (f x)) xs) \<le> py_int (sum_list (map f xs))"
proof (induction xs)
  case (Cons x xs)
  then have "0 \<le> f x" and "0 \<le> sum_list (map f xs)"
    by (auto intro!: sum_list_nonneg)
  then have "py_int (f x) + py_int (sum_list (map f xs)) \<le> py_int (f x + sum_list (map f xs))"
    using le_floor_add [of "f x" "sum_list (map f xs)"] by (simp add: py_int_def)
  then show ?case using Cons by force
qed (simp add: py_int_def)

lemma gap_of_cases:
  "gap_of p (a, b) = [] \<or> (gap_of p (a, b) \<noteq> [] \<and> gap_duration (hd (gap_of p (a, b))) = py_int (total_seconds (b - a)) \<and> length (gap_of p (a,b)) = 1)"
  by (simp add: gap_of_def Let_def)

lemma gap_total_pairs:
  assumes "\<And>a b. (a, b) \<in> set ps \<Longrightarrow> a \<le> b"
  shows "sum_list (map gap_duration (concat (map (gap_of p) ps))) \<le> py_int (\<Sum>(a, b)\<leftarrow>ps. total_seconds b - total_seconds a)"
    (is "?l \<le> _")
proof -
  have "?l = (\<Sum>q\<leftarrow>ps. sum_list (map gap_duration (gap_of p q)))"
    by (induction ps) simp_all
  also have "\<dots> \<le> (\<Sum>q\<leftarrow>ps. py_int (total_seconds (snd q - fst q)))"
  proof (rule sum_list_mono)
    fix q assume "q \<in> set ps"
    then have "0 \<le> py_int (total_seconds (snd q - fst q))"
      using assms [of "fst q" "snd q"] by (intro py_int_nonneg) simp
    then show "sum_list (map gap_duration (gap_of p q)) \<le> py_int (total_seconds (snd q - fst q))"
      by (cases q) (simp add: gap_of_def Let_def)
  qed
  also have "\<dots> \<le> py_int (\<Sum>q\<leftarrow>ps. total_seconds (snd q - fst q))"
    using assms by (intro py_int_sum) force
  finally show ?thesis by (simp add: total_seconds_diff split_beta')
qed

lemma gap_total:
  assumes "sorted ts" and "ts \<noteq> []"
  shows "sum_list (map gap_duration (detect_gaps p ts)) \<le> py_int (total_seconds (last ts - hd ts))"
proof (cases "length ts < 2")
  case True
  then show ?thesis using assms by (cases ts) (auto simp: detect_gaps_def py_int_def total_seconds_def)
next
  case False
  have "sum_list (map gap_duration (detect_gaps p ts)) \<le> py_int (\<Sum>(a, b)\<leftarrow>pairs ts. total_seconds b - total_seconds a)"
    using False gap_total_pairs [of "pairs ts" p] pairs_sorted [OF assms(1)] by (simp add: detect_gaps_def)
  then show ?thesis using pairs_telescope [OF assms(2), of total_seconds] by (simp add: total_seconds_diff)
qed

lemma gap_durations_nonneg:
  assumes "sorted ts" and "g \<in> set (detect_gaps p ts)"
  shows "0 \<le> gap_duration g"
proof -
  obtain a b where "(a, b) \<in> set (pairs ts)" and "g \<in> set (gap_of p (a, b))"
    using assms(2) by (auto simp: detect_gaps_def split: if_splits)
  then show ?thesis
    using pairs_sorted [OF assms(1)] by (auto simp: gap_of_def Let_def py_int_nonneg split: if_splits)
qed

lemma hd_le_last: "sorted ts \<Longrightarrow> ts \<noteq> [] \<Longrightarrow> hd ts \<le> (last ts :: 'a::linorder)"
  by (cases ts) auto

text \<open>
  Every coverage percentage lies between 0 and 100. Time lost in gaps never exceeds the
  observed span, so the gap-adjusted percentage never exceeds the span percentage, and the
  largest gap is one of the gaps.
\<close>

theorem coverage_bounds:
  assumes "evaluate_charger_day zones charger date items p = Inr e" and "0 < day_seconds p"
  shows "0 \<le> sample_coverage_percentage e \<and> sample_coverage_percentage e \<le> 100 \<and>
    0 \<le> gap_adjusted_coverage_percentage e \<and>
    gap_adjusted_coverage_percentage e \<le> span_coverage_percentage e \<and>
    span_coverage_percentage e \<le> 100 \<and>
    0 \<le> largest_gap_seconds e \<and> largest_gap_seconds e \<le> total_gap_seconds e \<and>
    total_gap_seconds e \<le> coverage_seconds e"
proof -
  obtain ts where ts: "ts = sorted_list_of_set (day_stamps zones date p items)" by simp
  have e: "e = assess (day_bounds zones date (source_timezone p)) charger date items p
           (foldl (seen_step (day_bounds zones date (source_timezone p))) [] items) ts"
    using assms(1) by (simp only: evaluate_assess ts)
  note f = assess_fields [of "day_bounds zones date (source_timezone p)" charger date items p
    "foldl (seen_step (day_bounds zones date (source_timezone p))) [] items" ts, folded e]
  have srt: "sorted ts" by (simp add: ts)
  have nn: "\<And>g. g \<in> set (gaps e) \<Longrightarrow> 0 \<le> gap_duration g" using gap_durations_nonneg [OF srt] f(7) by auto
  have tot: "total_gap_seconds e \<le> coverage_seconds e"
    using gap_total [OF srt, of p] by (cases "ts = []") (simp_all add: f(6,7,8) detect_gaps_def)
  have big: "0 \<le> largest_gap_seconds e \<and> largest_gap_seconds e \<le> total_gap_seconds e"
  proof (cases "gaps e = []")
    case True
    then show ?thesis by (simp add: f(8,9))
  next
    case False
    then have "largest_gap_seconds e \<in> set (map gap_duration (gaps e))"
      by (simp only: f(9)) (rule max_default_in, simp)
    then show ?thesis using nn by (auto simp: f(8) intro!: member_le_sum_list)
  qed
  have span: "0 \<le> coverage_seconds e" using tot big by linarith
  have pos: "(0::rat) < of_int (day_seconds p)" using assms(2) by simp
  have le: "100 * of_int (coverage_seconds e - total_gap_seconds e) / of_int (day_seconds p)
      \<le> (100 * of_int (coverage_seconds e) / of_int (day_seconds p) :: rat)"
    using pos big by (intro divide_right_mono) simp_all
  have ge: "(0::rat) \<le> 100 * of_int (coverage_seconds e) / of_int (day_seconds p)"
    using pos span by simp
  show ?thesis
    using tot big le ge
    by (simp add: f(10-12) f(4) py_round_ge_0 py_round_le_100 py_round_mono min.coboundedI2 max_def)
qed

section \<open>Gaps\<close>

lemma evaluate_total: "day_seconds p \<noteq> 0 \<Longrightarrow> \<exists>e. evaluate_charger_day zones charger date items p = Inr e"
  by (simp add: evaluate_assess)

lemma pairs_iff:
  assumes "sorted ts" and "distinct ts"
  shows "(a, b) \<in> set (pairs ts) \<longleftrightarrow>
    a \<in> set ts \<and> b \<in> set ts \<and> a < b \<and> (\<forall>x\<in>set ts. x \<le> a \<or> b \<le> x)"
proof
  assume "(a, b) \<in> set (pairs ts)"
  then show "a \<in> set ts \<and> b \<in> set ts \<and> a < b \<and> (\<forall>x\<in>set ts. x \<le> a \<or> b \<le> x)"
    using pairs_mem pairs_strict [OF assms] pairs_adjacent [OF assms] by fastforce
next
  assume r: "a \<in> set ts \<and> b \<in> set ts \<and> a < b \<and> (\<forall>x\<in>set ts. x \<le> a \<or> b \<le> x)"
  then obtain i j where ij: "i < length ts" "ts ! i = a" "j < length ts" "ts ! j = b"
    by (meson in_set_conv_nth)
  have "i < j" using r ij assms(1) by (metis linorder_not_less sorted_nth_mono)
  have "j = Suc i"
  proof (rule ccontr)
    assume "j \<noteq> Suc i"
    with \<open>i < j\<close> ij have "Suc i < length ts" and "Suc i < j" by auto
    moreover have "sorted_wrt (<) ts" using assms by (simp add: strict_sorted_iff)
    ultimately have "a < ts ! Suc i" and "ts ! Suc i < b"
      using ij sorted_wrt_nth_less [of "(<)" ts i "Suc i"] sorted_wrt_nth_less [of "(<)" ts "Suc i" j] by auto
    then show False using r \<open>Suc i < length ts\<close> by (meson leD nth_mem)
  qed
  then show "(a, b) \<in> set (pairs ts)" using pairs_nth [of i ts] ij by auto
qed

lemma gap_of_iff:
  "(\<exists>g\<in>set (gap_of p q). start_event_at g = a \<and> end_event_at g = b) \<longleftrightarrow>
     q = (a, b) \<and> gap_threshold_seconds p < total_seconds (b - a)"
  by (cases q) (auto simp: gap_of_def Let_def)

lemma detect_gaps_pairs:
  "(\<exists>g\<in>set (detect_gaps p ts). start_event_at g = a \<and> end_event_at g = b) \<longleftrightarrow>
     (a, b) \<in> set (pairs ts) \<and> gap_threshold_seconds p < total_seconds (b - a)"
proof (cases "length ts < 2")
  case True
  then show ?thesis by (cases ts) (auto simp: detect_gaps_def numeral_2_eq_2)
next
  case False
  then have "(\<exists>g\<in>set (detect_gaps p ts). start_event_at g = a \<and> end_event_at g = b) \<longleftrightarrow>
      (\<exists>q\<in>set (pairs ts). \<exists>g\<in>set (gap_of p q). start_event_at g = a \<and> end_event_at g = b)"
    by (simp add: detect_gaps_def)
  then show ?thesis by (simp only: gap_of_iff) blast
qed

text \<open>
  C14: A gap is reported between two timestamps of the day exactly when no timestamp of the day
  lies between them and they are more than the threshold apart, so replayed and repeated rows
  neither open nor close a gap.
\<close>

theorem gaps_iff:
  assumes "evaluate_charger_day zones charger date items p = Inr e"
  shows "(\<exists>g\<in>set (gaps e). start_event_at g = a \<and> end_event_at g = b) \<longleftrightarrow>
    a \<in> day_stamps zones date p items \<and> b \<in> day_stamps zones date p items \<and> a < b \<and>
    (\<forall>x\<in>day_stamps zones date p items. x \<le> a \<or> b \<le> x) \<and>
    gap_threshold_seconds p < total_seconds (b - a)"
proof -
  have "gaps e = detect_gaps p (sorted_list_of_set (day_stamps zones date p items))"
    using assms by (simp only: evaluate_assess assess_fields)
  then show ?thesis by (simp add: detect_gaps_pairs pairs_iff)
qed

text \<open>
  The time before the first reading, the observed span and the time after the last one
  account for the whole day, up to the three truncations to whole seconds.
\<close>

theorem day_accounting:
  assumes "evaluate_charger_day zones charger date items p = Inr e" and "0 < unique_timestamp_count e"
  shows "of_int (leading_missing_seconds e + coverage_seconds e + trailing_missing_seconds e)
      \<le> total_seconds (snd (day_bounds zones date (source_timezone p)) - fst (day_bounds zones date (source_timezone p))) \<and>
    total_seconds (snd (day_bounds zones date (source_timezone p)) - fst (day_bounds zones date (source_timezone p)))
      < of_int (leading_missing_seconds e + coverage_seconds e + trailing_missing_seconds e) + 3"
proof -
  let ?b = "day_bounds zones date (source_timezone p)"
  obtain ts where ts: "ts = sorted_list_of_set (day_stamps zones date p items)" by simp
  have e: "e = assess ?b charger date items p (foldl (seen_step ?b) [] items) ts"
    using assms(1) by (simp only: evaluate_assess ts)
  have ne: "ts \<noteq> []" using assms(2) by (auto simp: e assess_fields)
  then have "hd ts \<in> day_stamps zones date p items" and "last ts \<in> day_stamps zones date p items"
    using ts hd_in_set [OF ne] last_in_set [OF ne] by simp_all
  then have b: "fst ?b \<le> hd ts" "last ts \<le> snd ?b" by (simp_all add: day_stamps_def in_day_def)
  have s: "hd ts \<le> last ts" using hd_le_last [OF _ ne] ts by simp
  have i: "of_int (py_int (total_seconds x)) \<le> total_seconds x \<and>
      total_seconds x < of_int (py_int (total_seconds x)) + 1" if "0 \<le> x" for x
    using that floor_correct [of "total_seconds x"] by (simp add: py_int_floor)
  have nn: "0 \<le> py_int (total_seconds x)" if "0 \<le> x" for x
    using that by (simp add: py_int_nonneg)
  show ?thesis
    using i [of "hd ts - fst ?b"] i [of "last ts - hd ts"] i [of "snd ?b - last ts"] b s ne
      nn [of "hd ts - fst ?b"] nn [of "snd ?b - last ts"]
    by (simp add: e assess_fields max_def total_seconds_diff)
qed

section \<open>Severity and completeness bands\<close>

text \<open>A classification by thresholds never goes down when the measured value goes up.\<close>

locale banded =
  fixes band :: "pyfloat \<Rightarrow> 'b" and rank :: "'b \<Rightarrow> nat"
  assumes monotone: "x \<le> y \<Longrightarrow> rank (band x) \<le> rank (band y)"
begin

lemma band_between: "x \<le> y \<Longrightarrow> y \<le> z \<Longrightarrow> rank (band x) = rank (band z) \<Longrightarrow> rank (band y) = rank (band x)"
  using monotone [of x y] monotone [of y z] by simp

lemma worst_band: "xs \<noteq> [] \<Longrightarrow> x \<in> set xs \<Longrightarrow> rank (band x) \<le> rank (band (max_default d xs))"
  by (simp add: max_default_ge monotone)

end

fun severity_rank :: "gap_severity \<Rightarrow> nat" where
  "severity_rank gap_severity.MINOR = 0"
| "severity_rank MODERATE = 1"
| "severity_rank gap_severity.MAJOR = 2"
| "severity_rank gap_severity.CRITICAL = 3"

fun completeness_rank :: "completeness_status \<Rightarrow> nat" where
  "completeness_rank completeness_status.UNKNOWN = 0"
| "completeness_rank completeness_status.NO_DATA = 0"
| "completeness_rank completeness_status.SEVERELY_INCOMPLETE = 1"
| "completeness_rank completeness_status.PARTIAL = 2"
| "completeness_rank completeness_status.COMPLETE = 3"

interpretation severity: banded "classify_gap p" severity_rank for p
  by unfold_locales (auto simp: classify_gap_def)

interpretation completeness: banded "\<lambda>pct. classify_completeness p pct True" completeness_rank for p
  by unfold_locales (auto simp: classify_completeness_def)

lemma completeness_no_data: "completeness_rank (classify_completeness p pct False) = 0"
  by (simp add: classify_completeness_def)

text \<open>
  Further files never make a day look worse: adding contributions can only raise the number
  of distinct timestamps, the sample coverage and the completeness.
\<close>

theorem more_files_never_worse:
  assumes "evaluate_charger_day zones charger date items p = Inr e"
    and "evaluate_charger_day zones charger date (items @ extra) p = Inr e'"
  shows "unique_timestamp_count e \<le> unique_timestamp_count e' \<and>
    sample_coverage_percentage e \<le> sample_coverage_percentage e' \<and>
    completeness_rank (completeness_status_of e) \<le> completeness_rank (completeness_status_of e')"
proof -
  have sub: "day_stamps zones date p items \<subseteq> day_stamps zones date p (items @ extra)"
    by (auto simp: day_stamps_def)
  have n: "unique_timestamp_count e = card (day_stamps zones date p items)"
      "unique_timestamp_count e' = card (day_stamps zones date p (items @ extra))"
    using assms by (simp_all only: evaluate_assess assess_fields length_sorted_list_of_set)
  have le: "unique_timestamp_count e \<le> unique_timestamp_count e'"
    unfolding n by (rule card_mono [OF finite_day_stamps sub])
  have x: "expected_timestamp_count e = expected_timestamp_count e'" "(0::rat) < of_int (expected_timestamp_count e')"
    using assms by (auto simp: evaluate_assess assess_fields)
  have pct: "min 100 (100 * of_nat (unique_timestamp_count e) / of_int (expected_timestamp_count e)) \<le>
      (min 100 (100 * of_nat (unique_timestamp_count e') / of_int (expected_timestamp_count e')) :: rat)"
    using le x by (intro min.mono order_refl) (simp add: divide_right_mono)
  have s: "sample_coverage_percentage f = py_round 3 (min 100 (100 * of_nat (unique_timestamp_count f) / of_int (expected_timestamp_count f))) \<and>
      completeness_status_of f = classify_completeness p
          (min 100 (100 * of_nat (unique_timestamp_count f) / of_int (expected_timestamp_count f))) (unique_timestamp_count f > 0)"
    if "evaluate_charger_day zones charger date its p = Inr f" for f :: "'a coverage_evaluation" and its
    using that unfolding evaluate_assess by (auto simp only: assess_fields)
  have "completeness_rank (completeness_status_of e) \<le> completeness_rank (completeness_status_of e')"
  proof (cases "unique_timestamp_count e = 0")
    case True
    then show ?thesis using s [OF assms(1)] by (simp add: completeness_no_data)
  next
    case False
    then show ?thesis using s [OF assms(1)] s [OF assms(2)] completeness.monotone [OF pct, of p] le by simp
  qed
  then show ?thesis using le s [OF assms(1)] s [OF assms(2)] py_round_mono [OF pct] by simp
qed

lemma dict_values_card:
  assumes "distinct (dict_keys d)"
  shows "length (filter P (dict_values d)) = card {k \<in> set (dict_keys d). P (dict_get d k v)}"
proof -
  have "map (\<lambda>k. dict_get d k v) (dict_keys d) = dict_values d"
    by (simp add: comp_def) (auto intro!: dict_get_mem assms)
  then have "length (filter P (dict_values d)) = length (filter (P \<circ> (\<lambda>k. dict_get d k v)) (dict_keys d))"
    by (metis filter_map length_map)
  also have "\<dots> = card (set (filter (P \<circ> (\<lambda>k. dict_get d k v)) (dict_keys d)))"
    by (rule distinct_card [OF distinct_filter [OF assms], symmetric])
  finally show ?thesis by (simp only: set_filter comp_def)
qed

text \<open>
  The overlap counter is the number of in-day timestamps that at least two of the files
  carry, however often each file repeats them.
\<close>

theorem overlap_count:
  assumes "evaluate_charger_day zones charger date items p = Inr e"
  shows "overlapping_timestamp_count e =
    card {t \<in> day_stamps zones date p items. 2 \<le> length (filter (\<lambda>i. t \<in> set (timestamps i)) items)}"
proof -
  let ?b = "day_bounds zones date (source_timezone p)"
  let ?d = "foldl (seen_step ?b) [] items"
  let ?n = "\<lambda>t. length (filter (\<lambda>i. t \<in> set (timestamps i)) items)"
  have d: "distinct (dict_keys ?d)" by (simp add: seen_fold(2))
  have k: "set (dict_keys ?d) = day_stamps zones date p items"
    by (simp only: seen_fold(1) day_stamps_def) simp
  have g: "dict_get ?d t 0 = ?n t" if "t \<in> day_stamps zones date p items" for t
    using that by (simp only: seen_fold(3)) (simp add: dict_get_Nil day_stamps_def)
  have "length (filter (\<lambda>c. c > 1) (dict_values ?d)) = card {t \<in> set (dict_keys ?d). dict_get ?d t 0 > 1}"
    by (rule dict_values_card [OF d])
  also have "{t \<in> set (dict_keys ?d). dict_get ?d t 0 > 1} = {t \<in> day_stamps zones date p items. 2 \<le> ?n t}"
    unfolding k by (rule Collect_cong) (auto simp only: g Suc_1 [symmetric] less_eq_Suc_le One_nat_def)
  finally show ?thesis using assms by (simp only: evaluate_assess assess_fields)
qed

text \<open>
  A charger-day is late exactly when it received something and every file of it was received
  after the end of the local day plus the grace period: one file in time is enough.
\<close>

theorem late_iff:
  assumes "evaluate_charger_day zones charger date items p = Inr e"
  shows "fst (is_late zones date (first_received_at e) p) \<longleftrightarrow>
    (\<exists>i\<in>set items. received_at i \<noteq> None) \<and>
    (\<forall>i\<in>set items. \<forall>t. received_at i = Some t \<longrightarrow>
       snd (day_bounds zones date (source_timezone p)) + late_grace_hours p * 3600000000 < t)"
proof -
  let ?r = "concat (map (\<lambda>i. option_list (received_at i)) items)"
  have mem: "t \<in> set ?r \<longleftrightarrow> (\<exists>i\<in>set items. received_at i = Some t)" for t
    by (auto simp: option_list_def split: option.splits) metis
  have f: "first_received_at e = (if ?r = [] then None else Some (min_default 0 ?r))"
    using assms by (simp only: evaluate_assess assess_fields)
  show ?thesis
  proof (cases "?r = []")
    case True
    then have "\<not> (\<exists>i\<in>set items. received_at i \<noteq> None)"
      using mem by (metis empty_iff empty_set not_None_eq)
    then show ?thesis using f True by (simp add: is_late_def)
  next
    case False
    then have m: "min_default 0 ?r \<in> set ?r" "\<And>t. t \<in> set ?r \<Longrightarrow> min_default 0 ?r \<le> t"
      using min_default_in [OF False] by (simp_all add: min_default_le)
    have "fst (is_late zones date (first_received_at e) p) \<longleftrightarrow>
        snd (day_bounds zones date (source_timezone p)) + late_grace_hours p * 3600000000 < min_default 0 ?r"
      using f False by (simp add: is_late_def Let_def)
    also have "\<dots> \<longleftrightarrow> (\<forall>t\<in>set ?r. snd (day_bounds zones date (source_timezone p)) + late_grace_hours p * 3600000000 < t)"
      using m by (meson order_less_le_trans)
    finally show ?thesis using m(1) mem by blast
  qed
qed

section \<open>A concrete day\<close>

definition demo_file :: "nat \<Rightarrow> datetime list \<Rightarrow> datetime \<Rightarrow> nat file_contribution" where
  "demo_file k ts received = \<lparr>telemetry_file_id = Some k, timestamps = ts, received_at = Some received,
     connectors = {''1''}, smrs = {''1''}, fc_quality_score = Some 90, exact_duplicate_rows = 0,
     logical_collision_groups = 0, fc_duplicate_timestamp_count = 0\<rparr>"

definition demo_zones :: zone_db where
  "demo_zones name = Some (fixed_zone 19800000000)"

definition demo_policy :: coverage_policy where
  "demo_policy = from_settings default_fleet_settings (Some 60) None"

text \<open>Readings of day 0, at the given seconds from local midnight.\<close>

definition at_seconds :: "int list \<Rightarrow> datetime list" where
  "at_seconds ss = map (\<lambda>s. s * 1000000 - 19800000000) ss"

text \<open>
  The primary file of a day is chosen by all its timestamps, not by those of the day: a file
  with no reading on the date is named primary over the file that delivered it.
\<close>

theorem primary_file_ignores_day:
  "case evaluate_charger_day demo_zones ''c'' 0
      [demo_file 1 (at_seconds [0, 60]) 0, demo_file 2 (at_seconds [90000, 90060, 90120]) 0] demo_policy of
     Inl _ \<Rightarrow> False
   | Inr e \<Rightarrow> unique_timestamp_count e = 2 \<and> primary_telemetry_file_id e = Some 2"
  by code_simp


definition demo_items :: "nat file_contribution list" where
  "demo_items = [demo_file 1 (at_seconds [120, 0, 60, 0, 4000, 90000]) (2 * day_us)]"

definition demo_twice :: "nat file_contribution list" where
  "demo_twice = demo_items @ [demo_file 2 (at_seconds [60, 0, 4000, 120, 120]) (3 * day_us)]"

lemma demo_evaluation:
  "case evaluate_charger_day demo_zones ''c'' 0 demo_items demo_policy of
     Inl _ \<Rightarrow> False
   | Inr e \<Rightarrow> unique_timestamp_count e = 4 \<and> map gap_duration (gaps e) = [3880] \<and>
       coverage_seconds e = 4000 \<and> trailing_missing_seconds e = 82400 \<and>
       overlapping_timestamp_count e = 0 \<and> fst (is_late demo_zones 0 (first_received_at e) demo_policy)"
  by code_simp

lemma demo_day_seconds: "0 < day_seconds demo_policy"
  by code_simp

lemma demo_total: "\<exists>e. evaluate_charger_day demo_zones ''c'' 0 items demo_policy = Inr e"
  using evaluate_total demo_day_seconds by (metis less_irrefl)

lemma demo_same_stamps:
  "{t \<in> \<Union> (set (map (\<lambda>i. set (timestamps i)) demo_items)). in_day (day_bounds demo_zones 0 (source_timezone demo_policy)) t} =
   {t \<in> \<Union> (set (map (\<lambda>i. set (timestamps i)) demo_twice)). in_day (day_bounds demo_zones 0 (source_timezone demo_policy)) t}"
  by (auto simp: demo_twice_def demo_items_def demo_file_def at_seconds_def)

theorem coverage_from_distinct_timestamps_witness:
  "\<exists>e e'. evaluate_charger_day demo_zones ''c'' 0 demo_items demo_policy = Inr e \<and>
     evaluate_charger_day demo_zones ''c'' 0 demo_twice demo_policy = Inr e' \<and>
     unique_timestamp_count e = 4 \<and> unique_timestamp_count e' = 4 \<and> gaps e = gaps e'"
proof -
  obtain e where e: "evaluate_charger_day demo_zones ''c'' 0 demo_items demo_policy = Inr e"
    using demo_total by blast
  obtain e' where e': "evaluate_charger_day demo_zones ''c'' 0 demo_twice demo_policy = Inr e'"
    using demo_total by blast
  have "unique_timestamp_count e = 4" using demo_evaluation e by simp
  then show ?thesis
    using e e' coverage_from_distinct_timestamps [OF e e' demo_same_stamps] by auto
qed

theorem coverage_bounds_witness:
  "\<exists>e. evaluate_charger_day demo_zones ''c'' 0 demo_items demo_policy = Inr e \<and>
     total_gap_seconds e \<le> coverage_seconds e \<and> coverage_seconds e = 4000 \<and>
     gap_adjusted_coverage_percentage e \<le> span_coverage_percentage e"
proof -
  obtain e where e: "evaluate_charger_day demo_zones ''c'' 0 demo_items demo_policy = Inr e"
    using demo_total by blast
  then show ?thesis using coverage_bounds [OF e demo_day_seconds] demo_evaluation by auto
qed

theorem gaps_iff_witness:
  "\<exists>e. evaluate_charger_day demo_zones ''c'' 0 demo_items demo_policy = Inr e \<and>
     (\<exists>g\<in>set (gaps e). start_event_at g = 120000000 - 19800000000 \<and> end_event_at g = 4000000000 - 19800000000)"
proof -
  obtain e where e: "evaluate_charger_day demo_zones ''c'' 0 demo_items demo_policy = Inr e"
    using demo_total by blast
  have b: "day_bounds demo_zones 0 (source_timezone demo_policy) = (- 19800000000, 66600000000)"
    by code_simp
  have t: "gap_threshold_seconds demo_policy = 180" by code_simp
  show ?thesis
    using e gaps_iff [OF e, of "120000000 - 19800000000" "4000000000 - 19800000000"]
    by (auto simp: day_stamps_def b t in_day_def demo_items_def demo_file_def at_seconds_def total_seconds_def)
qed

theorem day_accounting_witness:
  "\<exists>e. evaluate_charger_day demo_zones ''c'' 0 demo_items demo_policy = Inr e \<and>
     of_int (leading_missing_seconds e + coverage_seconds e + trailing_missing_seconds e) \<le> (86400 :: rat) \<and>
     (86400 :: rat) < of_int (leading_missing_seconds e + coverage_seconds e + trailing_missing_seconds e) + 3"
proof -
  obtain e where e: "evaluate_charger_day demo_zones ''c'' 0 demo_items demo_policy = Inr e"
    using demo_total by blast
  then have n: "0 < unique_timestamp_count e" using demo_evaluation by simp
  have b: "day_bounds demo_zones 0 (source_timezone demo_policy) = (- 19800000000, 66600000000)"
    by code_simp
  show ?thesis
    using e day_accounting [OF e n] unfolding b by (auto simp: total_seconds_def)
qed

theorem more_files_never_worse_witness:
  "\<exists>e e'. evaluate_charger_day demo_zones ''c'' 0 demo_items demo_policy = Inr e \<and>
     evaluate_charger_day demo_zones ''c'' 0 (demo_items @ [demo_file 3 (at_seconds [7]) 0]) demo_policy = Inr e' \<and>
     unique_timestamp_count e = 4 \<and> 4 \<le> unique_timestamp_count e'"
proof -
  obtain e where e: "evaluate_charger_day demo_zones ''c'' 0 demo_items demo_policy = Inr e"
    using demo_total by blast
  obtain e' where e': "evaluate_charger_day demo_zones ''c'' 0 (demo_items @ [demo_file 3 (at_seconds [7]) 0]) demo_policy = Inr e'"
    using demo_total by blast
  have "unique_timestamp_count e = 4" using demo_evaluation e by simp
  then show ?thesis using e e' more_files_never_worse [OF e e'] by auto
qed

theorem overlap_count_witness:
  "\<exists>e. evaluate_charger_day demo_zones ''c'' 0 demo_items demo_policy = Inr e \<and>
     0 = card {t \<in> day_stamps demo_zones 0 demo_policy demo_items.
               2 \<le> length (filter (\<lambda>i. t \<in> set (timestamps i)) demo_items)}"
proof -
  obtain e where e: "evaluate_charger_day demo_zones ''c'' 0 demo_items demo_policy = Inr e"
    using demo_total by blast
  then show ?thesis using overlap_count [OF e] demo_evaluation by simp
qed

theorem late_iff_witness:
  "\<exists>e. evaluate_charger_day demo_zones ''c'' 0 demo_items demo_policy = Inr e \<and>
     fst (is_late demo_zones 0 (first_received_at e) demo_policy) \<and>
     (\<forall>i\<in>set demo_items. \<forall>t. received_at i = Some t \<longrightarrow>
       snd (day_bounds demo_zones 0 (source_timezone demo_policy)) + late_grace_hours demo_policy * 3600000000 < t)"
proof -
  obtain e where e: "evaluate_charger_day demo_zones ''c'' 0 demo_items demo_policy = Inr e"
    using demo_total by blast
  then show ?thesis using late_iff [OF e] demo_evaluation by simp
qed

end
