(* ===== verification/FileDay.thy ===== *)
theory FileDay
  imports Profile Coverage
begin

text \<open>
  Splitting a profiled file into its local business dates, \<open>pipelines/ingestion/file_day.py\<close>, and
  rebuilding the timestamps of a date from the offsets that are persisted.
\<close>

record file_day =
  fd_charger_id :: string
  fd_business_date :: int
  fd_source_timezone :: string
  fd_first_event_at :: datetime
  fd_last_event_at :: datetime
  fd_unique_timestamp_count :: nat
  fd_row_count :: int
  event_second_offsets :: "int list"
  connectors_seen :: "string list"
  smrs_seen :: "string list"
  fd_duplicate_timestamp_count :: nat
  fd_logical_collision_count :: nat
  fd_exact_duplicate_row_count :: nat
  fd_date_span :: file_date_span
  multi_day_file :: bool
  unique_timestamp_share :: pyfloat

text \<open>\<open>midnight + timedelta(seconds=offset)\<close> is wall-clock arithmetic.\<close>

definition timestamps_utc :: "zone_db \<Rightarrow> file_day \<Rightarrow> datetime list" where
  "timestamps_utc zones c =
     map (\<lambda>offset. wall_to_utc (resolve_timezone zones (fd_source_timezone c))
                     (fd_business_date c * day_us + offset * 1000000))
       (event_second_offsets c)"

definition dominant_identifier :: "(string, nat) pydict \<Rightarrow> string option" where
  "dominant_identifier counts =
     foldl (\<lambda>best v. case best of None \<Rightarrow> Some v
             | Some b \<Rightarrow> if (dict_get counts b 0, b) < (dict_get counts v 0, v) then Some v else Some b)
       None (sort (dict_keys counts))"

definition day_offset :: "timezone \<Rightarrow> int \<Rightarrow> datetime \<Rightarrow> int" where
  "day_offset z date t = py_int (total_seconds (wall z t - date * day_us))"

definition file_day_of ::
    "timezone \<Rightarrow> file_profile \<Rightarrow> string \<Rightarrow> string \<Rightarrow> bool \<Rightarrow> int \<times> datetime list \<Rightarrow> file_day" where
  "file_day_of z profile charger zone multi = (\<lambda>(date, day_stamps).
     (let ordered = sort (remdups day_stamps);
          share = of_nat (length ordered) / of_nat (length (unique_timestamps (profile_timestamps profile)));
          dups = duplicates profile
      in \<lparr>fd_charger_id = charger, fd_business_date = date, fd_source_timezone = zone,
          fd_first_event_at = hd ordered, fd_last_event_at = last ordered,
          fd_unique_timestamp_count = length ordered,
          fd_row_count = round_half_even (of_nat (row_count profile) * share),
          event_second_offsets = map (day_offset z date) ordered,
          connectors_seen = sort (dict_keys (profile_connectors profile)),
          smrs_seen = sort (dict_keys (profile_smrs profile)),
          fd_duplicate_timestamp_count = (if multi then 0 else da_duplicate_timestamp_count dups),
          fd_logical_collision_count = (if multi then 0 else da_logical_collision_groups dups),
          fd_exact_duplicate_row_count = (if multi then 0 else da_exact_duplicate_rows dups),
          fd_date_span = ta_date_span (profile_timestamps profile),
          multi_day_file = multi, unique_timestamp_share = py_round 6 share\<rparr>))"

definition build_file_days :: "zone_db \<Rightarrow> file_profile \<Rightarrow> string \<Rightarrow> string \<Rightarrow> file_day list" where
  "build_file_days zones profile charger zone =
     (let stamps = unique_timestamps (profile_timestamps profile);
          z = resolve_timezone zones zone;
          by_date = group_on (local_date z) stamps
      in if stamps = [] then []
         else map (file_day_of z profile charger zone (length by_date > 1)) (sort_key fst by_date))"

definition total_unique_timestamps :: "file_day list \<Rightarrow> nat" where
  "total_unique_timestamps cs = sum_list (map fd_unique_timestamp_count cs)"

text \<open>The persisted row of a contribution, \<open>as_row\<close>.\<close>

record 'f file_day_row =
  row_telemetry_file_id :: 'f
  row_day :: file_day

definition as_row :: "file_day \<Rightarrow> 'f \<Rightarrow> 'f file_day_row" where
  "as_row c file_id = \<lparr>row_telemetry_file_id = file_id, row_day = c\<rparr>"

section \<open>The split by local date\<close>

lemma by_date_items:
  assumes "stamps = unique_timestamps (profile_timestamps profile)" and "z = resolve_timezone zones zone"
    and "c \<in> set (build_file_days zones profile charger zone)"
  obtains d multi where "d \<in> local_date z ` set stamps"
    and "c = file_day_of z profile charger zone multi (d, filter (\<lambda>t. local_date z t = d) stamps)"
proof -
  let ?g = "group_on (local_date z) stamps"
  obtain d ts where m: "(d, ts) \<in> set ?g" "c = file_day_of z profile charger zone (length ?g > 1) (d, ts)"
    using assms by (auto simp: build_file_days_def Let_def split: if_splits)
  have "ts = filter (\<lambda>t. local_date z t = d) stamps"
    using dict_get_mem [OF group_on_distinct m(1), of "[]"] by (simp add: group_on_get)
  moreover have "d \<in> local_date z ` set stamps"
    using m(1) group_on_keys [of "local_date z" stamps] by force
  ultimately show thesis using that m(2) by blast
qed

lemma file_day_dates:
  assumes "stamps = unique_timestamps (profile_timestamps profile)" and "z = resolve_timezone zones zone"
  shows "map fd_business_date (build_file_days zones profile charger zone) = sorted_list_of_set (local_date z ` set stamps)"
proof (cases "stamps = []")
  case True
  then show ?thesis using assms by (simp add: build_file_days_def)
next
  case False
  let ?g = "group_on (local_date z) stamps"
  have "map fd_business_date (build_file_days zones profile charger zone) = map fst (sort_key fst ?g)"
    using assms False by (simp add: build_file_days_def Let_def file_day_of_def split_beta')
  also have "\<dots> = sort (dict_keys ?g)"
    by (rule properties_for_sort [symmetric]) (simp_all only: mset_map mset_sort sorted_sort_key)
  also have "\<dots> = sorted_list_of_set (set (dict_keys ?g))"
    using group_on_distinct [of "local_date z" stamps]
    by (metis remdups_id_iff_distinct sorted_list_of_set_sort_remdups)
  finally show ?thesis by (simp only: group_on_keys)
qed

lemma file_day_of_fields:
  "fd_business_date (file_day_of z profile charger zone multi (d, ts)) = d"
  "fd_source_timezone (file_day_of z profile charger zone multi (d, ts)) = zone"
  "fd_unique_timestamp_count (file_day_of z profile charger zone multi (d, ts)) = card (set ts)"
  "event_second_offsets (file_day_of z profile charger zone multi (d, ts)) = map (day_offset z d) (sort (remdups ts))"
  by (simp_all add: file_day_of_def Let_def length_remdups_card_conv)

lemma file_day_fields:
  assumes "stamps = unique_timestamps (profile_timestamps profile)" and "z = resolve_timezone zones zone"
    and "c \<in> set (build_file_days zones profile charger zone)"
  shows "fd_source_timezone c = zone"
    and "fd_unique_timestamp_count c = card {t \<in> set stamps. local_date z t = fd_business_date c}"
    and "event_second_offsets c = map (day_offset z (fd_business_date c))
          (sorted_list_of_set {t \<in> set stamps. local_date z t = fd_business_date c})"
  using assms(3)
  by (rule by_date_items [OF assms(1,2)];
      simp add: file_day_of_fields sorted_list_of_set_sort_remdups [symmetric])+

text \<open>
  A file is split into its local business dates in ascending order, one contribution for each
  date on which it has a reading, and every distinct timestamp is counted on exactly one of them.
\<close>

theorem file_days_partition:
  shows "map fd_business_date (build_file_days zones profile charger zone) =
      sorted_list_of_set (local_date (resolve_timezone zones zone) ` set (unique_timestamps (profile_timestamps profile))) \<and>
    total_unique_timestamps (build_file_days zones profile charger zone) =
      card (set (unique_timestamps (profile_timestamps profile)))"
proof -
  let ?S = "set (unique_timestamps (profile_timestamps profile))"
  let ?z = "resolve_timezone zones zone"
  let ?cs = "build_file_days zones profile charger zone"
  let ?n = "\<lambda>d. card {t \<in> ?S. local_date ?z t = d}"
  have dates: "map fd_business_date ?cs = sorted_list_of_set (local_date ?z ` ?S)"
    by (rule file_day_dates) simp_all
  have "total_unique_timestamps ?cs = sum_list (map (\<lambda>c. ?n (fd_business_date c)) ?cs)"
    unfolding total_unique_timestamps_def
    by (rule arg_cong [of _ _ sum_list], rule map_cong [OF refl], rule file_day_fields(2) [OF refl refl])
  also have "\<dots> = sum_list (map ?n (map fd_business_date ?cs))" by (simp add: comp_def)
  also have "\<dots> = sum ?n (local_date ?z ` ?S)"
    unfolding dates by (simp add: sum_list_distinct_conv_sum_set)
  also have "\<dots> = card ?S"
    using sum.image_gen [of ?S "\<lambda>_. 1 :: nat" "local_date ?z"] by simp
  finally show ?thesis using dates by simp
qed


section \<open>Offsets and back\<close>

lemma total_seconds_whole: "total_seconds (1000000 * n) = of_int n"
  by (simp add: total_seconds_def)

lemma py_int_of_int: "py_int (of_int n) = n"
  by (simp add: py_int_def)

lemma day_offset_back:
  assumes "local_date z t = d" and "wall z t mod 1000000 = 0"
  shows "d * day_us + day_offset z d t * 1000000 = wall z t" and "0 \<le> day_offset z d t" and "day_offset z d t < 86400"
proof -
  have w: "d * day_us \<le> wall z t" "wall z t < (d + 1) * day_us"
    using assms(1) div_day_iff [of d "wall z t"] by (simp_all add: local_date_def)
  obtain k where k: "wall z t = 1000000 * k" using assms(2) by (metis mod_0_imp_dvd dvdE)
  have "wall z t - d * day_us = 1000000 * (k - 86400 * d)" by (simp add: k day_us_def algebra_simps)
  then have o: "day_offset z d t = k - 86400 * d" by (simp only: day_offset_def total_seconds_whole py_int_of_int)
  then show "d * day_us + day_offset z d t * 1000000 = wall z t" by (simp add: k day_us_def algebra_simps)
  show "0 \<le> day_offset z d t" and "day_offset z d t < 86400"
    using w by (simp_all add: o k day_us_def algebra_simps)
qed

text \<open>The readings of a contribution's date.\<close>

definition readings_of :: "zone_db \<Rightarrow> file_profile \<Rightarrow> file_day \<Rightarrow> datetime set" where
  "readings_of zones profile c =
     {t \<in> set (unique_timestamps (profile_timestamps profile)).
        local_date (resolve_timezone zones (fd_source_timezone c)) t = fd_business_date c}"

lemma readings_fields:
  assumes "c \<in> set (build_file_days zones profile charger zone)"
  shows "finite (readings_of zones profile c)" and "fd_source_timezone c = zone"
    and "fd_unique_timestamp_count c = card (readings_of zones profile c)"
    and "event_second_offsets c =
      map (day_offset (resolve_timezone zones zone) (fd_business_date c)) (sorted_list_of_set (readings_of zones profile c))"
  using file_day_fields [OF refl refl assms] by (simp_all add: readings_of_def)

lemma timestamps_back:
  assumes "c \<in> set (build_file_days zones profile charger zone)"
    and "\<forall>t\<in>readings_of zones profile c. wall (resolve_timezone zones zone) t mod 1000000 = 0"
  shows "timestamps_utc zones c =
    map (\<lambda>t. wall_to_utc (resolve_timezone zones zone) (wall (resolve_timezone zones zone) t))
      (sorted_list_of_set (readings_of zones profile c))"
proof -
  let ?z = "resolve_timezone zones zone" and ?d = "fd_business_date c"
  note f = readings_fields [OF assms(1)]
  have "timestamps_utc zones c =
      map (\<lambda>t. wall_to_utc ?z (?d * day_us + day_offset ?z ?d t * 1000000)) (sorted_list_of_set (readings_of zones profile c))"
    by (simp add: timestamps_utc_def f(2,4) comp_def)
  also have "\<dots> = map (\<lambda>t. wall_to_utc ?z (wall ?z t)) (sorted_list_of_set (readings_of zones profile c))"
  proof (rule map_cong [OF refl])
    fix t assume "t \<in> set (sorted_list_of_set (readings_of zones profile c))"
    then have t: "t \<in> readings_of zones profile c" using f(1) by simp
    then have "local_date ?z t = ?d" by (simp add: readings_of_def f(2))
    then show "wall_to_utc ?z (?d * day_us + day_offset ?z ?d t * 1000000) = wall_to_utc ?z (wall ?z t)"
      using day_offset_back(1) [of ?z t ?d] assms(2) t by simp
  qed
  finally show ?thesis .
qed

lemma map_id_iff: "map f xs = xs \<longleftrightarrow> (\<forall>x\<in>set xs. f x = x)"
  by (induction xs) auto

text \<open>
  C15: What persisting a date as second offsets keeps, for any zone, of readings whose wall-clock times fall
  on whole seconds. The offsets are seconds of the day. The rebuilt timestamps are, in order, what the zone
  makes of the wall-clock times of the readings; they are the readings themselves exactly when the zone
  reads the wall-clock time of every reading back as that reading, and the offsets are distinct exactly when
  no two readings of the date show the same wall-clock time. Both fail in the second pass of a repeated hour.
\<close>

theorem offsets_roundtrip:
  assumes "c \<in> set (build_file_days zones profile charger zone)"
    and "z = resolve_timezone zones zone"
    and "\<forall>t\<in>readings_of zones profile c. wall z t mod 1000000 = 0"
  shows "timestamps_utc zones c = map (\<lambda>t. wall_to_utc z (wall z t)) (sorted_list_of_set (readings_of zones profile c))
    \<and> (\<forall>s\<in>set (event_second_offsets c). 0 \<le> s \<and> s < 86400)
    \<and> (timestamps_utc zones c = sorted_list_of_set (readings_of zones profile c)
         \<longleftrightarrow> (\<forall>t\<in>readings_of zones profile c. wall_to_utc z (wall z t) = t))
    \<and> (distinct (event_second_offsets c) \<longleftrightarrow> inj_on (wall z) (readings_of zones profile c))"
proof (intro conjI)
  let ?R = "readings_of zones profile c"
  note f = readings_fields [OF assms(1)]
  have date: "local_date z t = fd_business_date c" if "t \<in> ?R" for t
    using that by (simp add: readings_of_def f(2) assms(2))
  have reading: "fd_business_date c * day_us + day_offset z (fd_business_date c) t * 1000000 = wall z t" if "t \<in> ?R" for t
    using day_offset_back(1) [OF date [OF that]] assms(3) that by blast
  show rebuilt: "timestamps_utc zones c = map (\<lambda>t. wall_to_utc z (wall z t)) (sorted_list_of_set ?R)"
    using timestamps_back [OF assms(1)] assms(2,3) by simp
  show "timestamps_utc zones c = sorted_list_of_set ?R \<longleftrightarrow> (\<forall>t\<in>?R. wall_to_utc z (wall z t) = t)"
    unfolding rebuilt map_id_iff using f(1) by simp
  show "\<forall>s\<in>set (event_second_offsets c). 0 \<le> s \<and> s < 86400"
    using day_offset_back(2,3) [OF date] assms(2,3) f(1) by (simp add: f(4))
  have "inj_on (day_offset z (fd_business_date c)) ?R \<longleftrightarrow> inj_on (wall z) ?R"
  proof
    assume inj: "inj_on (day_offset z (fd_business_date c)) ?R"
    show "inj_on (wall z) ?R"
    proof (rule inj_onI)
      fix s t assume st: "s \<in> ?R" "t \<in> ?R" "wall z s = wall z t"
      then have "day_offset z (fd_business_date c) s = day_offset z (fd_business_date c) t" by (simp add: day_offset_def)
      then show "s = t" using inj st(1,2) by (simp add: inj_on_eq_iff)
    qed
  next
    assume inj: "inj_on (wall z) ?R"
    show "inj_on (day_offset z (fd_business_date c)) ?R"
    proof (rule inj_onI)
      fix s t assume st: "s \<in> ?R" "t \<in> ?R" "day_offset z (fd_business_date c) s = day_offset z (fd_business_date c) t"
      then have "wall z s = wall z t" using reading [OF st(1)] reading [OF st(2)] by simp
      then show "s = t" using inj st(1,2) by (simp add: inj_on_eq_iff)
    qed
  qed
  then show "distinct (event_second_offsets c) \<longleftrightarrow> inj_on (wall z) ?R"
    by (simp add: f(1,4) distinct_map assms(2))
qed

text \<open>
  C16: Coverage rebuilt from one file's persisted date. For any zone given by its table of transitions, the
  evaluation of a date from the persisted offsets of one file counts no more distinct timestamps than the
  file has on that date. When the readings fall on whole seconds of the wall clock, none of them lies in the
  second pass of a repeated hour and no transition skips the midnight at which the date begins or ends, it
  counts exactly those: the day split and the day bounds agree.
\<close>

theorem coverage_of_file_day:
  assumes "c \<in> set (build_file_days zones profile charger zone)"
    and "resolve_timezone zones zone = transition_zone off trs" and "table = sort_key fst trs"
    and "source_timezone p = zone" and "timestamps item = timestamps_utc zones c"
    and "evaluate_charger_day zones charger (fd_business_date c) [item] p = Inr e"
  shows "unique_timestamp_count e \<le> fd_unique_timestamp_count c
    \<and> ((\<forall>t\<in>readings_of zones profile c. wall (transition_zone off trs) t mod 1000000 = 0 \<and> unrepeated off table t)
        \<and> unskipped off table (fd_business_date c * day_us) \<and> unskipped off table ((fd_business_date c + 1) * day_us)
       \<longrightarrow> unique_timestamp_count e = fd_unique_timestamp_count c)"
proof (intro conjI impI)
  let ?R = "readings_of zones profile c" and ?z = "transition_zone off trs" and ?d = "fd_business_date c"
  note f = readings_fields [OF assms(1)]
  have e: "unique_timestamp_count e = card (day_stamps zones ?d p [item])"
    using assms(6) by (simp only: evaluate_assess assess_fields length_sorted_list_of_set)
  have "day_stamps zones ?d p [item] \<subseteq> set (timestamps_utc zones c)" by (auto simp: day_stamps_def assms(5))
  then have "card (day_stamps zones ?d p [item]) \<le> card (set (timestamps_utc zones c))" by (intro card_mono) simp_all
  also have "\<dots> \<le> length (event_second_offsets c)" using card_length [of "timestamps_utc zones c"] by (simp add: timestamps_utc_def)
  also have "\<dots> = fd_unique_timestamp_count c" by (simp add: f(3,4))
  finally show "unique_timestamp_count e \<le> fd_unique_timestamp_count c" by (simp only: e)
  assume clock: "(\<forall>t\<in>?R. wall ?z t mod 1000000 = 0 \<and> unrepeated off table t)
      \<and> unskipped off table (?d * day_us) \<and> unskipped off table ((?d + 1) * day_us)"
  then have A: "t \<in> {t. unrepeated off (sort_key fst trs) t}" if "t \<in> ?R" for t using that assms(3) by simp
  have "timestamps_utc zones c = sorted_list_of_set ?R"
    using timestamps_back [OF assms(1)] clock f(1) table_clock.wall_back [OF A] by (simp add: assms(2) map_id_iff)
  moreover have "in_day (day_bounds zones ?d (source_timezone p)) t" if "t \<in> ?R" for t
    using table_clock.in_day_iff [OF A [OF that], of ?d] clock that assms(3)
    by (simp add: in_day_def day_bounds_def Let_def assms(2,4) readings_of_def f(2))
  ultimately have "day_stamps zones ?d p [item] = ?R" using f(1) by (auto simp: day_stamps_def assms(5))
  then show "unique_timestamp_count e = fd_unique_timestamp_count c" by (simp add: e f(3))
qed

section \<open>A concrete file\<close>

definition demo_profile :: "datetime list \<Rightarrow> file_profile" where
  "demo_profile stamps =
     \<lparr>row_count = 8 * length stamps, column_count = 3,
      profile_header = \<lparr>field_count = 0, fields_of = [], header_fingerprint = [], duplicate_names = [],
        empty_name_count = 0, has_bom = False, header_encoding = ''utf-8''\<rparr>,
      profile_roles = \<lparr>resolved = [], missing_required = []\<rparr>,
      profile_timestamps = (unparsed_analysis ''at'' 0 0 ''UTC'')\<lparr>unique_timestamps := stamps\<rparr>,
      duplicates = \<lparr>da_exact_duplicate_rows = 0, rows_participating_in_duplicates = 0, logical_key_groups = 0,
        da_logical_collision_groups = 0, conflicting_logical_groups = 0, max_rows_per_logical_key = 0,
        rows_per_timestamp = [], da_duplicate_timestamp_count = 0\<rparr>,
      profile_fields = [], charger_ids = [(''c'', 8)], ocpp_ids = [], profile_connectors = [(''2'', 4), (''1'', 4)],
      profile_smrs = [], session_ids = []\<rparr>"

text \<open>Two readings within the same second share an offset, so one is lost on the way back.\<close>

lemma subsecond_offsets:
  "map (\<lambda>c. (fd_unique_timestamp_count c, event_second_offsets c, timestamps_utc demo_zones c))
     (build_file_days demo_zones (demo_profile [1500000 - 19800000000, 1900000 - 19800000000]) ''c'' ''Asia/Kolkata'')
   = [(2, [1, 1], [1000000 - 19800000000, 1000000 - 19800000000])]"
  by code_simp

definition demo_days :: "file_day list" where
  "demo_days = build_file_days demo_zones (demo_profile (at_seconds [- 60, 0, 60])) ''c'' ''Asia/Kolkata''"

lemma demo_days_offsets:
  "map (\<lambda>c. (fd_business_date c, event_second_offsets c)) demo_days = [(- 1, [86340]), (0, [0, 60])]"
  by code_simp

lemma demo_days_mem: "\<exists>c\<in>set demo_days. fd_business_date c = 0 \<and> event_second_offsets c = [0, 60]"
proof -
  have "(0, [0, 60]) \<in> set (map (\<lambda>c. (fd_business_date c, event_second_offsets c)) demo_days)"
    unfolding demo_days_offsets by simp
  then show ?thesis by auto
qed

lemma demo_clock: "resolve_timezone demo_zones ''Asia/Kolkata'' = transition_zone 19800000000 []"
  by (simp add: resolve_timezone_def demo_zones_def fixed_zone_table)

lemma demo_whole:
  "\<forall>t\<in>set (unique_timestamps (profile_timestamps (demo_profile (at_seconds [- 60, 0, 60])))).
     wall (resolve_timezone demo_zones ''Asia/Kolkata'') t mod 1000000 = 0"
  by code_simp

lemma demo_day_readings:
  "t \<in> readings_of demo_zones (demo_profile (at_seconds [- 60, 0, 60])) c \<Longrightarrow>
     wall (resolve_timezone demo_zones ''Asia/Kolkata'') t mod 1000000 = 0"
  using demo_whole by (auto simp: readings_of_def)

theorem offsets_roundtrip_witness:
  "\<exists>c\<in>set demo_days. event_second_offsets c = [0, 60] \<and>
     timestamps_utc demo_zones c = sorted_list_of_set (readings_of demo_zones (demo_profile (at_seconds [- 60, 0, 60])) c)"
proof -
  obtain c where c: "c \<in> set demo_days" "event_second_offsets c = [0, 60]" using demo_days_mem by blast
  show ?thesis
    using offsets_roundtrip [OF c(1) [unfolded demo_days_def] refl] demo_day_readings [of _ c] c fixed_clock.wall_back
    by (auto simp: demo_clock fixed_zone_table [symmetric])
qed

text \<open>
  A zone that falls back by an hour at instant 0, from two hours ahead to one. Two readings an hour apart
  show the same wall-clock time: the date counts two timestamps, stores one offset twice and rebuilds one of
  the readings as the other.
\<close>

lemma repeated_hour_lost:
  "map (\<lambda>c. (fd_unique_timestamp_count c, event_second_offsets c, timestamps_utc (\<lambda>name. Some (transition_zone 7200000000 [(0, 3600000000)])) c))
     (build_file_days (\<lambda>name. Some (transition_zone 7200000000 [(0, 3600000000)]))
        (demo_profile [- 1800000000, 1800000000]) ''c'' ''Europe/Berlin'')
   = [(2, [5400, 5400], [- 1800000000, - 1800000000])]"
  by code_simp

theorem coverage_of_file_day_witness:
  "\<exists>c\<in>set demo_days. \<exists>e. evaluate_charger_day demo_zones ''c'' (fd_business_date c)
     [(demo_file 1 [] 0)\<lparr>timestamps := timestamps_utc demo_zones c\<rparr>] demo_policy = Inr e \<and>
     fd_business_date c = 0 \<and> unique_timestamp_count e = fd_unique_timestamp_count c"
proof -
  obtain c where c: "c \<in> set demo_days" "fd_business_date c = 0" using demo_days_mem by blast
  let ?item = "(demo_file 1 [] 0)\<lparr>timestamps := timestamps_utc demo_zones c\<rparr>"
  obtain e where e: "evaluate_charger_day demo_zones ''c'' (fd_business_date c) [?item] demo_policy = Inr e"
    using evaluate_total demo_day_seconds by (metis less_irrefl)
  have z: "source_timezone demo_policy = ''Asia/Kolkata''" by code_simp
  have "unique_timestamp_count e = fd_unique_timestamp_count c"
    using coverage_of_file_day [OF c(1) [unfolded demo_days_def] demo_clock refl z _ e] demo_day_readings [of _ c]
    by (simp add: demo_clock)
  then show ?thesis using c e by blast
qed

end
