(* ===== verification/Lifecycle.thy ===== *)
theory Lifecycle
  imports Enums
begin

text \<open>
  The ingestion state machine, \<open>pipelines/ingestion/state_machine.py\<close>: the transition table
  is data, \<open>assert_transition_allowed\<close> guards every guarded status write, and a file's life is
  a path in the relation \<open>lifecycle_step\<close> that the guard admits.
\<close>

section \<open>The transition table\<close>

definition failure_exits :: "file_status set" where
  "failure_exits = {file_status.FAILED, QUARANTINED}"

definition allowed_transitions :: "(file_status, file_status set) pydict" where
  "allowed_transitions =
     [(DISCOVERED, {file_status.REGISTERED, file_status.DUPLICATE} \<union> failure_exits),
      (file_status.REGISTERED, {LANDING, file_status.DUPLICATE} \<union> failure_exits),
      (LANDING, {PROFILING} \<union> failure_exits),
      (PROFILING, {SCHEMA_VALIDATION} \<union> failure_exits),
      (SCHEMA_VALIDATION, {QUALITY_VALIDATION} \<union> failure_exits),
      (QUALITY_VALIDATION, {READY_FOR_NORMALIZATION, file_status.PARTIAL} \<union> failure_exits),
      (READY_FOR_NORMALIZATION,
        {FRAME_RECONSTRUCTION, file_status.COMPLETED, file_status.FAILED}),
      (FRAME_RECONSTRUCTION, {FRAMES_RECONSTRUCTED} \<union> failure_exits),
      (FRAMES_RECONSTRUCTED,
        {NORMALIZING, NORMALIZED, FRAME_RECONSTRUCTION, file_status.COMPLETED,
         file_status.FAILED}),
      (NORMALIZING,
        {NORMALIZED, NORMALIZED_WITH_WARNINGS, file_status.COMPLETED} \<union> failure_exits),
      (NORMALIZED, {NORMALIZING, file_status.COMPLETED}),
      (NORMALIZED_WITH_WARNINGS, {NORMALIZING, file_status.COMPLETED}),
      (file_status.PARTIAL, {READY_FOR_NORMALIZATION} \<union> failure_exits),
      (file_status.FAILED, {file_status.REGISTERED}),
      (file_status.COMPLETED, {}),
      (file_status.DUPLICATE, {}),
      (QUARANTINED, {})]"

definition terminal_states :: "file_status set" where
  "terminal_states = fst ` set (filter (\<lambda>(s, targets). targets = {}) allowed_transitions)"

definition phase_1a_happy_path :: "file_status list" where
  "phase_1a_happy_path =
     [DISCOVERED, file_status.REGISTERED, LANDING, PROFILING, SCHEMA_VALIDATION,
      QUALITY_VALIDATION, READY_FOR_NORMALIZATION]"

definition next_states :: "file_status \<Rightarrow> file_status set" where
  "next_states current = dict_get allowed_transitions current {}"

definition can_transition :: "file_status \<Rightarrow> file_status \<Rightarrow> bool" where
  "can_transition current target = (target \<in> next_states current)"

definition is_terminal :: "file_status \<Rightarrow> bool" where
  "is_terminal status = (status \<in> terminal_states)"

text \<open>The exception carries both states.\<close>

datatype illegal_transition = IllegalStateTransition file_status file_status

definition assert_transition_allowed ::
    "file_status \<Rightarrow> file_status \<Rightarrow> illegal_transition + unit" where
  "assert_transition_allowed current target =
     (if \<not> can_transition current target then Inl (IllegalStateTransition current target)
      else Inr ())"

section \<open>Characteristic facts\<close>

lemma next_states_eqs [simp]:
  "next_states DISCOVERED = {file_status.REGISTERED, file_status.DUPLICATE, file_status.FAILED, QUARANTINED}"
  "next_states file_status.REGISTERED = {LANDING, file_status.DUPLICATE, file_status.FAILED, QUARANTINED}"
  "next_states LANDING = {PROFILING, file_status.FAILED, QUARANTINED}"
  "next_states PROFILING = {SCHEMA_VALIDATION, file_status.FAILED, QUARANTINED}"
  "next_states SCHEMA_VALIDATION = {QUALITY_VALIDATION, file_status.FAILED, QUARANTINED}"
  "next_states QUALITY_VALIDATION =
     {READY_FOR_NORMALIZATION, file_status.PARTIAL, file_status.FAILED, QUARANTINED}"
  "next_states READY_FOR_NORMALIZATION =
     {FRAME_RECONSTRUCTION, file_status.COMPLETED, file_status.FAILED}"
  "next_states FRAME_RECONSTRUCTION = {FRAMES_RECONSTRUCTED, file_status.FAILED, QUARANTINED}"
  "next_states FRAMES_RECONSTRUCTED =
     {NORMALIZING, NORMALIZED, FRAME_RECONSTRUCTION, file_status.COMPLETED, file_status.FAILED}"
  "next_states NORMALIZING =
     {NORMALIZED, NORMALIZED_WITH_WARNINGS, file_status.COMPLETED, file_status.FAILED, QUARANTINED}"
  "next_states NORMALIZED = {NORMALIZING, file_status.COMPLETED}"
  "next_states NORMALIZED_WITH_WARNINGS = {NORMALIZING, file_status.COMPLETED}"
  "next_states file_status.PARTIAL = {READY_FOR_NORMALIZATION, file_status.FAILED, QUARANTINED}"
  "next_states file_status.FAILED = {file_status.REGISTERED}"
  "next_states file_status.COMPLETED = {}"
  "next_states file_status.DUPLICATE = {}"
  "next_states QUARANTINED = {}"
  by (auto simp: next_states_def allowed_transitions_def failure_exits_def dict_get_def)

lemma terminal_states_eq: "terminal_states = {file_status.COMPLETED, file_status.DUPLICATE, QUARANTINED}"
  by (simp add: terminal_states_def allowed_transitions_def failure_exits_def)

lemma is_terminal_iff: "is_terminal s \<longleftrightarrow> next_states s = {}"
  by (cases s) (simp_all add: is_terminal_def terminal_states_eq)

section \<open>Lives of a file\<close>

inductive lifecycle_step :: "file_status \<Rightarrow> file_status \<Rightarrow> bool" where
  guarded: "assert_transition_allowed s t = Inr () \<Longrightarrow> lifecycle_step s t"

inductive_simps lifecycle_step_iff: "lifecycle_step s t"

lemma lifecycle_step_next: "lifecycle_step s t \<longleftrightarrow> t \<in> next_states s"
  by (simp add: lifecycle_step_iff assert_transition_allowed_def can_transition_def)

text \<open>A life is the list of states a file goes through, each guarded from the one before.\<close>

definition life :: "file_status list \<Rightarrow> bool" where
  "life ss = (ss \<noteq> [] \<and> hd ss = DISCOVERED \<and> (\<forall>(s, t)\<in>set (pairs ss). lifecycle_step s t))"

text \<open>
  A gate: a set of states that a life cannot enter except from inside it or through its door.
\<close>

locale gated_region =
  fixes region :: "file_status set" and door :: "file_status set"
  assumes start_outside: "DISCOVERED \<notin> region"
    and entry: "lifecycle_step s t \<Longrightarrow> t \<in> region \<Longrightarrow> s \<in> region \<or> s \<in> door"
begin

lemma enters_through_door:
  "life ss \<Longrightarrow> last ss \<in> region \<Longrightarrow> \<exists>d\<in>door. d \<in> set ss"
proof (induction ss rule: rev_induct)
  case Nil
  then show ?case by (simp add: life_def)
next
  case (snoc t ss)
  show ?case
  proof (cases "ss = []")
    case True
    then show ?thesis using snoc.prems start_outside by (simp add: life_def)
  next
    case False
    then have p: "set (pairs (ss @ [t])) = insert (last ss, t) (set (pairs ss))"
      by (induction ss rule: induct_list012) auto
    then have step: "lifecycle_step (last ss) t" and l: "life ss"
      using snoc.prems False by (auto simp: life_def)
    then show ?thesis
      using entry [OF step] snoc.prems(2) snoc.IH last_in_set [OF False] by auto
  qed
qed

end

interpretation normalized_gate: gated_region
  "{NORMALIZING, NORMALIZED, NORMALIZED_WITH_WARNINGS}" "{FRAMES_RECONSTRUCTED}"
proof unfold_locales
  fix s t
  assume "lifecycle_step s t" and "t \<in> {NORMALIZING, NORMALIZED, NORMALIZED_WITH_WARNINGS}"
  then show "s \<in> {NORMALIZING, NORMALIZED, NORMALIZED_WITH_WARNINGS} \<or> s \<in> {FRAMES_RECONSTRUCTED}"
    unfolding lifecycle_step_next by (cases s) auto
qed simp

interpretation reconstruction_gate: gated_region
  "{FRAME_RECONSTRUCTION, FRAMES_RECONSTRUCTED, NORMALIZING, NORMALIZED,
    NORMALIZED_WITH_WARNINGS, file_status.COMPLETED}" "{READY_FOR_NORMALIZATION}"
proof unfold_locales
  fix s t
  assume "lifecycle_step s t"
    and "t \<in> {FRAME_RECONSTRUCTION, FRAMES_RECONSTRUCTED, NORMALIZING, NORMALIZED,
           NORMALIZED_WITH_WARNINGS, file_status.COMPLETED}"
  then show "s \<in> {FRAME_RECONSTRUCTION, FRAMES_RECONSTRUCTED, NORMALIZING, NORMALIZED,
           NORMALIZED_WITH_WARNINGS, file_status.COMPLETED} \<or> s \<in> {READY_FOR_NORMALIZATION}"
    unfolding lifecycle_step_next by (cases s) auto
qed simp

interpretation readiness_gate: gated_region
  "{READY_FOR_NORMALIZATION, file_status.PARTIAL}" "{QUALITY_VALIDATION}"
proof unfold_locales
  fix s t
  assume "lifecycle_step s t" and "t \<in> {READY_FOR_NORMALIZATION, file_status.PARTIAL}"
  then show "s \<in> {READY_FOR_NORMALIZATION, file_status.PARTIAL} \<or> s \<in> {QUALITY_VALIDATION}"
    unfolding lifecycle_step_next by (cases s) auto
qed simp

lemma life_take: "life ss \<Longrightarrow> 0 < n \<Longrightarrow> life (take n ss)"
  using pairs_take [of n ss] by (auto simp: life_def hd_take)

context gated_region begin

lemma door_before:
  assumes "life ss" and "i < length ss" and "ss ! i \<in> region" and "region \<inter> door = {}"
  shows "\<exists>j<i. ss ! j \<in> door"
proof -
  have "last (take (Suc i) ss) = ss ! i" using assms(2) by (simp add: take_Suc_conv_app_nth)
  then obtain d where "d \<in> door" "d \<in> set (take (Suc i) ss)"
    using enters_through_door [OF life_take [OF assms(1), of "Suc i"]] assms(3) by auto
  then obtain j where j: "j < Suc i" "ss ! j \<in> door" by (auto simp: in_set_conv_nth)
  then have "j \<noteq> i" using assms(3,4) by blast
  with j show ?thesis by (metis less_Suc_eq)
qed

end

section \<open>What a life can contain\<close>

text \<open>
  C30: a file that is being or has been normalized went, in this order, through quality
  validation, readiness for normalization and reconstructed frames.
\<close>

lemma normalized_life:
  assumes "life ss" and "i < length ss" and "ss ! i \<in> {NORMALIZING, NORMALIZED, NORMALIZED_WITH_WARNINGS}"
  shows "\<exists>q r f. q < r \<and> r < f \<and> f < i \<and> ss ! q = QUALITY_VALIDATION
    \<and> ss ! r = READY_FOR_NORMALIZATION \<and> ss ! f = FRAMES_RECONSTRUCTED"
proof -
  obtain f where f: "f < i" "ss ! f = FRAMES_RECONSTRUCTED"
    using normalized_gate.door_before [OF assms] by auto
  obtain r where r: "r < f" "ss ! r = READY_FOR_NORMALIZATION"
    using reconstruction_gate.door_before [OF assms(1), of f] f assms(2) by auto
  obtain q where "q < r" "ss ! q = QUALITY_VALIDATION"
    using readiness_gate.door_before [OF assms(1), of r] r f assms(2) by auto
  with r f show ?thesis by blast
qed

lemma normalized_life_witness:
  "\<exists>q r f. q < r \<and> r < f \<and> f < 9 \<and>
     (phase_1a_happy_path @ [FRAME_RECONSTRUCTION, FRAMES_RECONSTRUCTED, NORMALIZED]) ! f = FRAMES_RECONSTRUCTED"
proof -
  let ?ss = "phase_1a_happy_path @ [FRAME_RECONSTRUCTION, FRAMES_RECONSTRUCTED, NORMALIZED]"
  have "life ?ss" by (simp add: life_def phase_1a_happy_path_def lifecycle_step_next)
  moreover have "9 < length ?ss" "?ss ! 9 = NORMALIZED" by (simp_all add: phase_1a_happy_path_def)
  ultimately show ?thesis using normalized_life [of ?ss 9] by blast
qed

lemma completed_ready:
  assumes "life ss" and "i < length ss" and "ss ! i = file_status.COMPLETED"
  shows "\<exists>j<i. ss ! j = READY_FOR_NORMALIZATION"
  using reconstruction_gate.door_before [OF assms(1,2)] assms(3) by auto

text \<open>
  the terminal states absorb. COMPLETED, DUPLICATE and QUARANTINED can only be the last state
  of a life.
\<close>

lemma terminal_last:
  assumes "life ss" and "i < length ss" and "is_terminal (ss ! i)"
  shows "i = length ss - 1"
proof (rule ccontr)
  assume "i \<noteq> length ss - 1"
  then have "Suc i < length ss" using assms(2) by linarith
  then have "lifecycle_step (ss ! i) (ss ! Suc i)"
    using pairs_nth [of i ss] assms(1) by (auto simp: life_def)
  then show False using assms(3) by (simp add: lifecycle_step_next is_terminal_iff)
qed

lemma terminal_last_witness:
  "is_terminal file_status.DUPLICATE
   \<and> (1::nat) = length [DISCOVERED, file_status.DUPLICATE] - 1"
proof -
  let ?ss = "[DISCOVERED, file_status.DUPLICATE]"
  have "life ?ss" by (simp add: life_def lifecycle_step_next)
  moreover have "1 < length ?ss" "is_terminal (?ss ! 1)" by (simp_all add: is_terminal_iff)
  ultimately show ?thesis using terminal_last [of ?ss 1] by simp
qed

text \<open>
  which states in flight lack a failure exit. FAILED can be reached directly from every state
  that is neither terminal nor FAILED except the two normalized ones, and QUARANTINED from all
  of these but four.
\<close>

lemma missing_failure_exits:
  "{s. \<not> is_terminal s \<and> s \<noteq> file_status.FAILED \<and> \<not> can_transition s file_status.FAILED}
     = {NORMALIZED, NORMALIZED_WITH_WARNINGS}
   \<and> {s. \<not> is_terminal s \<and> s \<noteq> file_status.FAILED \<and> \<not> can_transition s QUARANTINED}
     = {READY_FOR_NORMALIZATION, FRAMES_RECONSTRUCTED, NORMALIZED, NORMALIZED_WITH_WARNINGS}"
proof -
  have "(\<not> is_terminal s \<and> s \<noteq> file_status.FAILED \<and> \<not> can_transition s file_status.FAILED)
      = (s \<in> {NORMALIZED, NORMALIZED_WITH_WARNINGS})" for s
    by (cases s) (simp_all add: is_terminal_iff can_transition_def)
  moreover have "(\<not> is_terminal s \<and> s \<noteq> file_status.FAILED \<and> \<not> can_transition s QUARANTINED) = 
     (s \<in> {READY_FOR_NORMALIZATION, FRAMES_RECONSTRUCTED, NORMALIZED, NORMALIZED_WITH_WARNINGS})" for s
    by (cases s) (simp_all add: is_terminal_iff can_transition_def)
  ultimately show ?thesis by blast
qed

end
