(* ===== verification/Ingestion.thy ===== *)
theory Ingestion
  imports FileRules Compatibility FileDay Lifecycle
begin

text \<open>
  Taking the files of a source to READY_FOR_NORMALIZATION, \<open>backend/app/services/ingestion_service.py\<close>
  with \<open>quality_service.py\<close>. The catalogue is what the repositories store: the registered files in
  order of registration, a file being named by its index, and the schema versions. A delivery holds
  what reading one file from the source gives: the checksum and size of the stored bytes, the parsed
  header, the profile, and which acknowledgements the source refuses. An exception raised while a file
  is analysed keeps what was written to its record before, so steps return the state with it. The
  history of a record is not stored by the code; it lists the statuses the record has had. Message
  texts, clock times, run identifiers and the redundant copies in raw storage are left out, and
  database errors do not occur.
\<close>

section \<open>Records\<close>

datatype acknowledge_outcome = PROCESSED | DUPLICATE | QUARANTINED | FAILED

datatype quarantine_reason =
    Extension_Not_Permitted | File_Too_Large | Header_Unreadable | Too_Many_Columns | Not_Profilable
  | Too_Many_Rows | Event_Time_Unparsed | Critical_Findings

datatype file_failure = Not_Stored | Crashed | Illegal illegal_transition | Unscored score_error | Not_Acknowledged

datatype ingest_error = Quarantine quarantine_reason | Failure file_failure

text \<open>\<open>HeaderParseError\<close> and \<open>ProfilerError\<close> are \<open>Unusable\<close>; any other exception is \<open>Unexpected\<close>.\<close>

datatype read_error = Unusable | Unexpected

record delivery =
  dl_display_name :: string
  dl_size_bytes :: nat
  dl_stored :: "(string \<times> nat) option"
  dl_header :: "read_error + header_result"
  dl_profile :: "read_error + file_profile"
  dl_refuses :: "acknowledge_outcome \<Rightarrow> bool"

record ingest_settings =
  max_file_size_bytes :: nat
  max_column_count :: nat
  max_row_count :: nat
  allowed_extensions :: "string list"
  is_failure_tolerance :: pyfloat
  is_expected_connectors :: "nat option"
  is_expected_smrs :: "nat option"
  is_gap_factor :: pyfloat

record ingestion_service =
  ing_settings :: ingest_settings
  ing_dictionary :: dictionary_registry
  ing_rules :: "quality_rule list"
  ing_weights :: score_weights
  ing_source_timezone :: string
  ing_zones :: zone_db
  ing_digest :: "string \<Rightarrow> string"
  ing_isoformat :: "datetime \<Rightarrow> string"

datatype identifier_type = CHARGER | OCPP | SESSION | CONNECTOR | SMR

record file_summary =
  sm_row_count :: nat
  sm_column_count :: nat
  sm_connector_count_detected :: nat
  sm_smr_count_detected :: nat
  sm_session_id_count :: nat
  sm_event_time_min :: "datetime option"
  sm_event_time_max :: "datetime option"
  sm_event_time_format :: "string option"
  sm_unique_event_timestamp_count :: nat
  sm_invalid_timestamp_count :: nat
  sm_median_sampling_interval :: "pyfloat option"
  sm_business_date :: "int option"
  sm_distinct_business_date_count :: nat
  sm_file_date_span :: file_date_span
  sm_exact_duplicate_row_count :: nat
  sm_duplicate_participating_row_count :: nat
  sm_logical_key_collision_groups :: nat
  sm_logical_key_conflicting_groups :: nat
  sm_max_occurrences_per_logical_key :: nat
  sm_empty_field_count :: nat
  sm_constant_field_count :: nat
  sm_varying_field_count :: nat
  sm_duplicate_header_count :: nat

record telemetry_file =
  tf_original_filename :: string
  tf_sha256 :: string
  tf_file_size_bytes :: nat
  tf_status :: file_status
  tf_filename_date :: "(nat \<times> nat \<times> nat) option"
  tf_duplicate_of :: "nat option"
  tf_summary :: "file_summary option"
  tf_identifiers :: "(identifier_type \<times> string \<times> nat) list"
  tf_file_days :: "file_day list"
  tf_schema_version :: "nat option"
  tf_header_fingerprint :: "string option"
  tf_schema_compatibility :: "schema_compatibility option"
  tf_findings :: "quality_finding list"
  tf_scores :: "(string, pyfloat) pydict"
  tf_quarantine_reason :: "quarantine_reason option"
  tf_failure_reason :: "file_failure option"
  tf_history :: "file_status list"

record catalogue =
  cat_files :: "telemetry_file list"
  cat_versions :: "schema_version list"

record file_outcome =
  fo_telemetry_file :: "nat option"
  fo_filename :: string
  fo_status :: file_status
  fo_quality_score :: "pyfloat option"
  fo_already_registered :: bool

section \<open>Admission and registration\<close>

definition name_suffix :: "string \<Rightarrow> string" where
  "name_suffix name =
     (if CHR ''.'' \<in> set name
      then CHR ''.'' # py_lower (rev (takeWhile (\<lambda>c. c \<noteq> CHR ''.'') (rev name))) else [])"

definition check_admission :: "ingest_settings \<Rightarrow> delivery \<Rightarrow> quarantine_reason option" where
  "check_admission limits d =
     (if allowed_extensions limits \<noteq> [] \<and> name_suffix (dl_display_name d) \<notin> set (allowed_extensions limits)
      then Some Extension_Not_Permitted
      else if dl_size_bytes d > max_file_size_bytes limits then Some File_Too_Large
      else None)"

definition set_status :: "file_status \<Rightarrow> telemetry_file \<Rightarrow> telemetry_file" where
  "set_status s f = f\<lparr>tf_status := s, tf_history := tf_history f @ [s]\<rparr>"

type_synonym file_state = "telemetry_file \<times> schema_version list"

definition transition :: "file_status \<Rightarrow> file_state \<Rightarrow> file_state \<times> ingest_error option" where
  "transition target = (\<lambda>(f, vs).
     (case assert_transition_allowed (tf_status f) target of
        Inl e \<Rightarrow> ((f, vs), Some (Failure (Illegal e)))
      | Inr _ \<Rightarrow> ((set_status target f, vs), None)))"

definition and_then ::
    "'s \<times> ingest_error option \<Rightarrow> ('s \<Rightarrow> 's \<times> ingest_error option) \<Rightarrow> 's \<times> ingest_error option" where
  "and_then r k = (case r of (s, None) \<Rightarrow> k s | (s, Some e) \<Rightarrow> (s, Some e))"

definition find_file :: "(telemetry_file \<Rightarrow> bool) \<Rightarrow> telemetry_file list \<Rightarrow> nat option" where
  "find_file P fs = find (\<lambda>i. P (fs ! i)) [0..<length fs]"

definition new_file :: "delivery \<Rightarrow> string \<times> nat \<Rightarrow> telemetry_file" where
  "new_file d = (\<lambda>(sha, bytes).
     \<lparr>tf_original_filename = dl_display_name d, tf_sha256 = sha, tf_file_size_bytes = bytes, tf_status = DISCOVERED,
      tf_filename_date = extract_filename_date (dl_display_name d), tf_duplicate_of = None, tf_summary = None,
      tf_identifiers = [], tf_file_days = [], tf_schema_version = None, tf_header_fingerprint = None,
      tf_schema_compatibility = None, tf_findings = [], tf_scores = [], tf_quarantine_reason = None,
      tf_failure_reason = None, tf_history = [DISCOVERED]\<rparr>)"

definition enter_file :: "nat option \<Rightarrow> file_state \<Rightarrow> file_state \<times> ingest_error option" where
  "enter_file canonical s =
     and_then (transition file_status.REGISTERED s) (\<lambda>(f, vs).
       case canonical of
         None \<Rightarrow> ((f, vs), None)
       | Some j \<Rightarrow> transition file_status.DUPLICATE (f\<lparr>tf_duplicate_of := Some j\<rparr>, vs))"

definition register :: "delivery \<Rightarrow> catalogue \<Rightarrow> catalogue \<times> (ingest_error + nat \<times> bool)" where
  "register d cat =
     (case dl_stored d of
        None \<Rightarrow> (cat, Inl (Failure Not_Stored))
      | Some (sha, bytes) \<Rightarrow>
          (case find_file (\<lambda>f. tf_sha256 f = sha \<and> tf_original_filename f = dl_display_name d) (cat_files cat) of
             Some i \<Rightarrow> (cat, Inr (i, False))
           | None \<Rightarrow>
               (case enter_file (find_file (\<lambda>f. tf_sha256 f = sha) (cat_files cat)) (new_file d (sha, bytes), cat_versions cat) of
                  ((f, vs), exc) \<Rightarrow>
                    (\<lparr>cat_files = cat_files cat @ [f], cat_versions = vs\<rparr>,
                     case exc of Some e \<Rightarrow> Inl e | None \<Rightarrow> Inr (length (cat_files cat), True)))))"

section \<open>Analysis\<close>

definition check_profile :: "ingest_settings \<Rightarrow> delivery \<Rightarrow> ingest_error + file_profile" where
  "check_profile limits d =
     (case dl_header d of
        Inl Unusable \<Rightarrow> Inl (Quarantine Header_Unreadable)
      | Inl Unexpected \<Rightarrow> Inl (Failure Crashed)
      | Inr h \<Rightarrow>
          if field_count h > max_column_count limits then Inl (Quarantine Too_Many_Columns)
          else (case dl_profile d of
                  Inl Unusable \<Rightarrow> Inl (Quarantine Not_Profilable)
                | Inl Unexpected \<Rightarrow> Inl (Failure Crashed)
                | Inr p \<Rightarrow>
                    if row_count p > max_row_count limits then Inl (Quarantine Too_Many_Rows)
                    else if \<not> is_within_tolerance (profile_timestamps p) (is_failure_tolerance limits)
                    then Inl (Quarantine Event_Time_Unparsed)
                    else Inr (p\<lparr>profile_header := h\<rparr>)))"

definition apply_profile :: "file_profile \<Rightarrow> file_summary" where
  "apply_profile p =
     (let a = profile_timestamps p; dups = duplicates p
      in \<lparr>sm_row_count = row_count p, sm_column_count = column_count p,
          sm_connector_count_detected = connector_count p, sm_smr_count_detected = smr_count p,
          sm_session_id_count = length (session_ids p), sm_event_time_min = event_time_min a,
          sm_event_time_max = event_time_max a, sm_event_time_format = chosen_format a,
          sm_unique_event_timestamp_count = unique_count a, sm_invalid_timestamp_count = failed_count a,
          sm_median_sampling_interval = map_option (py_round 3) (median_interval_seconds a),
          sm_business_date = dominant_business_date a,
          sm_distinct_business_date_count = length (business_dates a), sm_file_date_span = ta_date_span a,
          sm_exact_duplicate_row_count = da_exact_duplicate_rows dups,
          sm_duplicate_participating_row_count = rows_participating_in_duplicates dups,
          sm_logical_key_collision_groups = da_logical_collision_groups dups,
          sm_logical_key_conflicting_groups = conflicting_logical_groups dups,
          sm_max_occurrences_per_logical_key = max_rows_per_logical_key dups,
          sm_empty_field_count = length (empty_fields p), sm_constant_field_count = length (constant_fields p),
          sm_varying_field_count = length (varying_fields p),
          sm_duplicate_header_count = duplicate_header_count (profile_header p)\<rparr>)"

definition identifier_rows :: "file_profile \<Rightarrow> (identifier_type \<times> string \<times> nat) list" where
  "identifier_rows p =
     concat (map (\<lambda>(kind, counts). map (Pair kind) counts)
       [(identifier_type.CHARGER, charger_ids p), (OCPP, ocpp_ids p), (SESSION, session_ids p),
        (identifier_type.CONNECTOR, profile_connectors p), (identifier_type.SMR, profile_smrs p)])"

definition file_days_of :: "ingestion_service \<Rightarrow> file_profile \<Rightarrow> file_day list" where
  "file_days_of svc p =
     (case dominant_identifier (charger_ids p) of
        None \<Rightarrow> []
      | Some charger \<Rightarrow> build_file_days (ing_zones svc) p charger (ing_source_timezone svc))"

definition record_profile :: "ingestion_service \<Rightarrow> file_profile \<Rightarrow> telemetry_file \<Rightarrow> telemetry_file" where
  "record_profile svc p f =
     f\<lparr>tf_summary := Some (apply_profile p), tf_identifiers := identifier_rows p,
       tf_file_days := file_days_of svc p\<rparr>"

definition record_schema :: "file_profile \<Rightarrow> schema_resolution \<Rightarrow> telemetry_file \<Rightarrow> telemetry_file" where
  "record_schema p r f =
     f\<lparr>tf_schema_version := Some (ver_number (res_version r)),
       tf_header_fingerprint := Some (header_fingerprint (profile_header p)),
       tf_schema_compatibility := Some (sc_compatibility (res_comparison r))\<rparr>"

definition context_of ::
    "ingestion_service \<Rightarrow> telemetry_file \<Rightarrow> file_profile \<Rightarrow> schema_resolution \<Rightarrow> quality_context" where
  "context_of svc f p r =
     (let limits = ing_settings svc
      in \<lparr>profile = p, resolved_fields = res_fields r, ctx_registry = ing_dictionary svc,
          original_filename = tf_original_filename f, filename_date = tf_filename_date f,
          expected_connector_count = is_expected_connectors limits, expected_smr_count = is_expected_smrs limits,
          telemetry_gap_factor = is_gap_factor limits, timestamp_failure_tolerance = is_failure_tolerance limits,
          missing_schema_fields = missing_all (res_comparison r),
          additional_schema_fields = sc_additional (res_comparison r), schema_is_known = (\<not> res_created r)\<rparr>)"

text \<open>\<open>QualityService.analyse\<close>: the issues are stored only when the score could be computed.\<close>

definition quality_analyse ::
    "ingestion_service \<Rightarrow> quality_context \<Rightarrow> score_error + quality_finding list \<times> quality_score" where
  "quality_analyse svc c =
     (let findings = evaluate_rules (ing_digest svc) (ing_isoformat svc) (ing_rules svc) c
      in bind_err (compute_quality_score c findings (Some (ing_weights svc))) (\<lambda>q. Inr (findings, q)))"

definition judge_quality ::
    "ingestion_service \<Rightarrow> quality_context \<Rightarrow> file_state \<Rightarrow> file_state \<times> ingest_error option" where
  "judge_quality svc c = (\<lambda>(f, vs).
     (case quality_analyse svc c of
        Inl e \<Rightarrow> ((f, vs), Some (Failure (Unscored e)))
      | Inr (findings, q) \<Rightarrow>
          (let f = f\<lparr>tf_findings := findings, tf_scores := as_decimals q\<rparr>
           in if list_ex (\<lambda>x. severity x = quality_severity.CRITICAL) findings
              then ((f, vs), Some (Quarantine Critical_Findings))
              else transition READY_FOR_NORMALIZATION (f, vs))))"

definition validate_file ::
    "ingestion_service \<Rightarrow> file_profile \<Rightarrow> file_state \<Rightarrow> file_state \<times> ingest_error option" where
  "validate_file svc p s =
     and_then (transition SCHEMA_VALIDATION (record_profile svc p (fst s), snd s)) (\<lambda>(f, vs).
       let (r, vs) = resolve_schema (ing_dictionary svc) vs (profile_header p); f = record_schema p r f
       in and_then (transition QUALITY_VALIDATION (f, vs)) (judge_quality svc (context_of svc f p r)))"

definition analyse_file ::
    "ingestion_service \<Rightarrow> delivery \<Rightarrow> file_state \<Rightarrow> file_state \<times> ingest_error option" where
  "analyse_file svc d s =
     and_then (transition LANDING s) (\<lambda>s. and_then (transition PROFILING s) (\<lambda>s.
       case check_profile (ing_settings svc) d of
         Inl e \<Rightarrow> (s, Some e)
       | Inr p \<Rightarrow> validate_file svc p s))"

section \<open>One file\<close>

definition update_file :: "nat \<Rightarrow> (telemetry_file \<Rightarrow> telemetry_file) \<Rightarrow> catalogue \<Rightarrow> catalogue" where
  "update_file i g cat = cat\<lparr>cat_files := (cat_files cat)[i := g (cat_files cat ! i)]\<rparr>"

definition mark_quarantined :: "quarantine_reason \<Rightarrow> telemetry_file \<Rightarrow> telemetry_file" where
  "mark_quarantined reason f = set_status file_status.QUARANTINED (f\<lparr>tf_quarantine_reason := Some reason\<rparr>)"

definition mark_failed :: "file_failure \<Rightarrow> telemetry_file \<Rightarrow> telemetry_file" where
  "mark_failed reason f = set_status file_status.FAILED (f\<lparr>tf_failure_reason := Some reason\<rparr>)"

definition outcome_of :: "delivery \<Rightarrow> nat \<Rightarrow> bool \<Rightarrow> catalogue \<Rightarrow> file_outcome" where
  "outcome_of d i already cat =
     \<lparr>fo_telemetry_file = Some i, fo_filename = dl_display_name d, fo_status = tf_status (cat_files cat ! i),
      fo_quality_score = map_of (tf_scores (cat_files cat ! i)) ''quality_score'', fo_already_registered = already\<rparr>"

definition plain_outcome :: "delivery \<Rightarrow> nat option \<Rightarrow> file_status \<Rightarrow> file_outcome" where
  "plain_outcome d i s =
     \<lparr>fo_telemetry_file = i, fo_filename = dl_display_name d, fo_status = s, fo_quality_score = None,
      fo_already_registered = False\<rparr>"

definition acknowledge :: "delivery \<Rightarrow> acknowledge_outcome \<Rightarrow> file_outcome \<Rightarrow> ingest_error + file_outcome" where
  "acknowledge d a out = (if dl_refuses d a then Inl (Failure Not_Acknowledged) else Inr out)"

text \<open>The \<open>try\<close> block: the catalogue, the variable \<open>telemetry_file\<close>, and the outcome or exception.\<close>

definition ingest_attempt ::
    "ingestion_service \<Rightarrow> delivery \<Rightarrow> catalogue \<Rightarrow> catalogue \<times> nat option \<times> (ingest_error + file_outcome)" where
  "ingest_attempt svc d cat =
     (case check_admission (ing_settings svc) d of
        Some reason \<Rightarrow> (cat, None, Inl (Quarantine reason))
      | None \<Rightarrow>
          (case register d cat of
             (cat, Inl e) \<Rightarrow> (cat, None, Inl e)
           | (cat, Inr (i, created)) \<Rightarrow>
               if \<not> created then (cat, Some i, acknowledge d PROCESSED (outcome_of d i True cat))
               else if tf_status (cat_files cat ! i) = file_status.DUPLICATE
               then (cat, Some i, acknowledge d DUPLICATE (plain_outcome d (Some i) file_status.DUPLICATE))
               else (case analyse_file svc d (cat_files cat ! i, cat_versions cat) of
                       ((f, vs), exc) \<Rightarrow>
                         (let cat = \<lparr>cat_files = (cat_files cat)[i := f], cat_versions = vs\<rparr>
                          in (cat, Some i, case exc of Some e \<Rightarrow> Inl e
                                | None \<Rightarrow> acknowledge d PROCESSED (outcome_of d i False cat))))))"

definition update_current :: "nat option \<Rightarrow> (telemetry_file \<Rightarrow> telemetry_file) \<Rightarrow> catalogue \<Rightarrow> catalogue" where
  "update_current i g cat = (case i of None \<Rightarrow> cat | Some i \<Rightarrow> update_file i g cat)"

text \<open>With the handlers; \<open>None\<close> is an exception that leaves \<open>ingest_file\<close>.\<close>

definition ingest_file :: "ingestion_service \<Rightarrow> delivery \<Rightarrow> catalogue \<Rightarrow> catalogue \<times> file_outcome option" where
  "ingest_file svc d cat =
     (case ingest_attempt svc d cat of
        (cat, i, Inr out) \<Rightarrow> (cat, Some out)
      | (cat, i, Inl (Quarantine reason)) \<Rightarrow>
          (update_current i (mark_quarantined reason) cat,
           if dl_refuses d QUARANTINED then None else Some (plain_outcome d i file_status.QUARANTINED))
      | (cat, i, Inl (Failure e)) \<Rightarrow>
          (update_current i (mark_failed e) cat,
           if dl_refuses d FAILED then None else Some (plain_outcome d i file_status.FAILED)))"

section \<open>A run\<close>

record run_summary =
  rn_status :: ingestion_run_status
  files_discovered :: nat
  files_registered :: nat
  files_ready :: nat
  files_partial :: nat
  files_duplicate :: nat
  files_quarantined :: nat
  files_failed :: nat
  files_skipped :: nat
  rn_outcomes :: "file_outcome list"

definition tally_outcome :: "run_summary \<Rightarrow> file_outcome \<Rightarrow> run_summary" where
  "tally_outcome s out =
     (if fo_already_registered out then s\<lparr>files_skipped := files_skipped s + 1\<rparr>
      else case fo_status out of
             READY_FOR_NORMALIZATION \<Rightarrow> s\<lparr>files_ready := files_ready s + 1, files_registered := files_registered s + 1\<rparr>
           | file_status.COMPLETED \<Rightarrow> s\<lparr>files_ready := files_ready s + 1, files_registered := files_registered s + 1\<rparr>
           | file_status.PARTIAL \<Rightarrow> s\<lparr>files_partial := files_partial s + 1, files_registered := files_registered s + 1\<rparr>
           | file_status.DUPLICATE \<Rightarrow> s\<lparr>files_duplicate := files_duplicate s + 1\<rparr>
           | file_status.QUARANTINED \<Rightarrow> s\<lparr>files_quarantined := files_quarantined s + 1\<rparr>
           | file_status.FAILED \<Rightarrow> s\<lparr>files_failed := files_failed s + 1\<rparr>
           | _ \<Rightarrow> s\<lparr>files_registered := files_registered s + 1\<rparr>)"

definition final_status :: "run_summary \<Rightarrow> ingestion_run_status" where
  "final_status s =
     (if files_discovered s = 0 then ingestion_run_status.COMPLETED
      else if files_ready s = 0 \<and> (files_failed s \<noteq> 0 \<or> files_quarantined s \<noteq> 0) then ingestion_run_status.FAILED
      else if files_failed s \<noteq> 0 \<or> files_quarantined s \<noteq> 0 \<or> files_partial s \<noteq> 0 then ingestion_run_status.COMPLETED_WITH_WARNINGS
      else ingestion_run_status.COMPLETED)"

fun ingest_all ::
    "ingestion_service \<Rightarrow> delivery list \<Rightarrow> run_summary \<Rightarrow> catalogue \<Rightarrow> catalogue \<times> run_summary option" where
  "ingest_all svc [] s cat = (cat, Some s)"
| "ingest_all svc (d # ds) s cat =
     (case ingest_file svc d cat of
        (cat, None) \<Rightarrow> (cat, None)
      | (cat, Some out) \<Rightarrow> ingest_all svc ds (tally_outcome (s\<lparr>rn_outcomes := rn_outcomes s @ [out]\<rparr>) out) cat)"

definition start_summary :: "delivery list \<Rightarrow> run_summary" where
  "start_summary ds =
     \<lparr>rn_status = ingestion_run_status.PROCESSING, files_discovered = length ds, files_registered = 0, files_ready = 0,
      files_partial = 0, files_duplicate = 0, files_quarantined = 0, files_failed = 0, files_skipped = 0,
      rn_outcomes = []\<rparr>"

definition run_ingestion ::
    "ingestion_service \<Rightarrow> delivery list \<Rightarrow> catalogue \<Rightarrow> catalogue \<times> run_summary option" where
  "run_ingestion svc ds cat =
     (case ingest_all svc ds (start_summary ds) cat of
        (cat, s) \<Rightarrow> (cat, map_option (\<lambda>s. s\<lparr>rn_status := final_status s\<rparr>) s))"

text \<open>What the stored run row takes from the summary; it has no counter of skipped files.\<close>

record ingestion_run =
  ir_status :: ingestion_run_status
  ir_files_discovered :: nat
  ir_files_registered :: nat
  ir_files_ready :: nat
  ir_files_partial :: nat
  ir_files_duplicate :: nat
  ir_files_quarantined :: nat
  ir_files_failed :: nat

definition apply_counters :: "run_summary \<Rightarrow> ingestion_run \<Rightarrow> ingestion_run" where
  "apply_counters s run =
     run\<lparr>ir_files_registered := files_registered s, ir_files_ready := files_ready s, ir_files_partial := files_partial s,
         ir_files_duplicate := files_duplicate s, ir_files_quarantined := files_quarantined s,
         ir_files_failed := files_failed s\<rparr>"

definition finish_run :: "run_summary \<Rightarrow> ingestion_run \<Rightarrow> ingestion_run" where
  "finish_run s run =
     (apply_counters s (run\<lparr>ir_files_discovered := files_discovered s\<rparr>))\<lparr>ir_status := final_status s\<rparr>"

section \<open>Transitions\<close>

lemma set_status_fields [simp]:
  "tf_status (set_status t f) = t" "tf_history (set_status t f) = tf_history f @ [t]"
  "tf_sha256 (set_status t f) = tf_sha256 f" "tf_original_filename (set_status t f) = tf_original_filename f"
  "tf_duplicate_of (set_status t f) = tf_duplicate_of f" "tf_summary (set_status t f) = tf_summary f"
  "tf_schema_version (set_status t f) = tf_schema_version f" "tf_findings (set_status t f) = tf_findings f"
  "tf_scores (set_status t f) = tf_scores f"
  by (simp_all add: set_status_def)

lemma transition_legal:
  "can_transition (tf_status f) t \<Longrightarrow> transition t (f, vs) = ((set_status t f, vs), None)"
  by (simp add: transition_def assert_transition_allowed_def)

lemma and_then_simps [simp]: "and_then (s, None) k = k s" "and_then (s, Some e) k = (s, Some e)"
  by (simp_all add: and_then_def)

lemma recorded_fields [simp]:
  "tf_status (record_profile svc p f) = tf_status f" "tf_history (record_profile svc p f) = tf_history f"
  "tf_sha256 (record_profile svc p f) = tf_sha256 f" "tf_original_filename (record_profile svc p f) = tf_original_filename f"
  "tf_duplicate_of (record_profile svc p f) = tf_duplicate_of f" "tf_summary (record_profile svc p f) = Some (apply_profile p)"
  "tf_status (record_schema p r f) = tf_status f" "tf_history (record_schema p r f) = tf_history f"
  "tf_sha256 (record_schema p r f) = tf_sha256 f" "tf_original_filename (record_schema p r f) = tf_original_filename f"
  "tf_duplicate_of (record_schema p r f) = tf_duplicate_of f" "tf_summary (record_schema p r f) = tf_summary f"
  "tf_schema_version (record_schema p r f) = Some (ver_number (res_version r))"
  by (simp_all add: record_profile_def record_schema_def)

text \<open>A registered file is never refused a transition, so its analysis is this.\<close>

definition profiled :: "telemetry_file \<Rightarrow> telemetry_file" where
  "profiled f = set_status PROFILING (set_status LANDING f)"

definition validated :: "ingestion_service \<Rightarrow> file_profile \<Rightarrow> schema_resolution \<Rightarrow> telemetry_file \<Rightarrow> telemetry_file" where
  "validated svc p r f =
     set_status QUALITY_VALIDATION (record_schema p r (set_status SCHEMA_VALIDATION (record_profile svc p (profiled f))))"

definition context_for :: "ingestion_service \<Rightarrow> file_profile \<Rightarrow> schema_resolution \<Rightarrow> telemetry_file \<Rightarrow> quality_context" where
  "context_for svc p r f =
     context_of svc (record_schema p r (set_status SCHEMA_VALIDATION (record_profile svc p (profiled f)))) p r"

lemma analyse_registered:
  assumes "tf_status f = file_status.REGISTERED"
  shows "analyse_file svc d (f, vs) =
     (case check_profile (ing_settings svc) d of
        Inl e \<Rightarrow> ((profiled f, vs), Some e)
      | Inr p \<Rightarrow>
          (let (r, vs) = resolve_schema (ing_dictionary svc) vs (profile_header p)
           in judge_quality svc (context_for svc p r f) (validated svc p r f, vs)))"
proof -
  have "analyse_file svc d (f, vs) =
     (case check_profile (ing_settings svc) d of Inl e \<Rightarrow> ((profiled f, vs), Some e)
      | Inr p \<Rightarrow> validate_file svc p (profiled f, vs))"
    by (simp add: analyse_file_def transition_legal can_transition_def assms profiled_def cong: sum.case_cong)
  moreover have "validate_file svc p (profiled f, vs) =
      (let (r, vs) = resolve_schema (ing_dictionary svc) vs (profile_header p)
       in judge_quality svc (context_for svc p r f) (validated svc p r f, vs))" for p
    by (simp add: validate_file_def transition_legal can_transition_def profiled_def validated_def context_for_def
        Let_def split: prod.split)
  ultimately show ?thesis by (simp cong: sum.case_cong)
qed

lemma judge_quality_cases:
  assumes "judge_quality svc c (f, vs) = ((f', vs'), exc)" and "tf_status f = QUALITY_VALIDATION"
  obtains
    (unscored) e where "quality_analyse svc c = Inl e" "f' = f" "vs' = vs" "exc = Some (Failure (Unscored e))"
  | (critical) findings q where "quality_analyse svc c = Inr (findings, q)"
      "list_ex (\<lambda>x. severity x = quality_severity.CRITICAL) findings"
      "f' = f\<lparr>tf_findings := findings, tf_scores := as_decimals q\<rparr>" "vs' = vs" "exc = Some (Quarantine Critical_Findings)"
  | (ready) findings q where "quality_analyse svc c = Inr (findings, q)"
      "\<not> list_ex (\<lambda>x. severity x = quality_severity.CRITICAL) findings"
      "f' = set_status READY_FOR_NORMALIZATION (f\<lparr>tf_findings := findings, tf_scores := as_decimals q\<rparr>)" "vs' = vs" "exc = None"
proof (cases "quality_analyse svc c")
  case (Inl e)
  then show ?thesis using assms unscored by (simp add: judge_quality_def)
next
  case (Inr fq)
  obtain findings q where fq: "quality_analyse svc c = Inr (findings, q)" using Inr by (cases fq) auto
  show ?thesis
  proof (cases "list_ex (\<lambda>x. severity x = quality_severity.CRITICAL) findings")
    case True
    then show ?thesis using assms fq critical by (simp add: judge_quality_def)
  next
    case False
    then show ?thesis using assms fq ready by (simp add: judge_quality_def transition_legal can_transition_def)
  qed
qed

text \<open>The three ways an analysis ends.\<close>

lemma analyse_ends:
  assumes "tf_status f = file_status.REGISTERED" and "analyse_file svc d (f, vs) = ((f', vs'), exc)"
  obtains
    (unprofiled) e where "exc = Some e" "check_profile (ing_settings svc) d = Inl e" "f' = profiled f" "vs' = vs"
  | (rejected) e p r where "exc = Some e" "check_profile (ing_settings svc) d = Inr p"
      "resolve_schema (ing_dictionary svc) vs (profile_header p) = (r, vs')"
      "f' = validated svc p r f \<or> (\<exists>fs q. f' = (validated svc p r f)\<lparr>tf_findings := fs, tf_scores := q\<rparr>)"
  | (ready) p r findings q where "exc = None" "check_profile (ing_settings svc) d = Inr p"
      "resolve_schema (ing_dictionary svc) vs (profile_header p) = (r, vs')"
      "quality_analyse svc (context_for svc p r f) = Inr (findings, q)"
      "\<not> list_ex (\<lambda>x. severity x = quality_severity.CRITICAL) findings"
      "f' = set_status READY_FOR_NORMALIZATION ((validated svc p r f)\<lparr>tf_findings := findings, tf_scores := as_decimals q\<rparr>)"
proof (cases "check_profile (ing_settings svc) d")
  case (Inl e)
  then show ?thesis using assms unprofiled by (auto simp: analyse_registered)
next
  case (Inr p)
  obtain r ws where r: "resolve_schema (ing_dictionary svc) vs (profile_header p) = (r, ws)" by fastforce
  then have "judge_quality svc (context_for svc p r f) (validated svc p r f, ws) = ((f', vs'), exc)"
    using assms Inr by (simp add: analyse_registered)
  moreover have "tf_status (validated svc p r f) = QUALITY_VALIDATION" by (simp add: validated_def)
  ultimately show ?thesis
  proof (cases rule: judge_quality_cases)
    case (unscored e)
    show ?thesis by (rule rejected [OF unscored(4) Inr, of r]) (simp_all add: r unscored)
  next
    case (critical findings q)
    show ?thesis
      by (rule rejected [OF critical(5) Inr, of r], simp add: r critical(4), rule disjI2, intro exI, rule critical(3))
  next
    case (ready findings q)
    show ?thesis by (rule that(3) [OF ready(5) Inr _ ready(1,2)]) (simp_all add: r ready(3,4))
  qed
qed

section \<open>What a delivery does\<close>

text \<open>
  Delivering a file that the source does not refuse to have acknowledged, as a step from catalogue to
  catalogue.
\<close>

definition registered_file :: "delivery \<Rightarrow> string \<times> nat \<Rightarrow> telemetry_file" where
  "registered_file d sb = set_status file_status.REGISTERED (new_file d sb)"

definition duplicate_file :: "delivery \<Rightarrow> string \<times> nat \<Rightarrow> nat \<Rightarrow> telemetry_file" where
  "duplicate_file d sb j = set_status file_status.DUPLICATE ((registered_file d sb)\<lparr>tf_duplicate_of := Some j\<rparr>)"

definition same_file :: "string \<Rightarrow> string \<Rightarrow> telemetry_file \<Rightarrow> bool" where
  "same_file sha name f = (tf_sha256 f = sha \<and> tf_original_filename f = name)"

definition same_content :: "string \<Rightarrow> telemetry_file \<Rightarrow> bool" where
  "same_content sha f = (tf_sha256 f = sha)"

definition add_file :: "telemetry_file \<Rightarrow> schema_version list \<Rightarrow> catalogue \<Rightarrow> catalogue" where
  "add_file f vs cat = \<lparr>cat_files = cat_files cat @ [f], cat_versions = vs\<rparr>"

definition unseen :: "ingestion_service \<Rightarrow> delivery \<Rightarrow> string \<times> nat \<Rightarrow> catalogue \<Rightarrow> bool" where
  "unseen svc d sb cat \<longleftrightarrow>
     check_admission (ing_settings svc) d = None \<and> dl_stored d = Some sb
     \<and> find_file (same_file (fst sb) (dl_display_name d)) (cat_files cat) = None"

inductive delivered :: "ingestion_service \<Rightarrow> delivery \<Rightarrow> catalogue \<Rightarrow> catalogue \<Rightarrow> file_outcome \<Rightarrow> bool"
  for svc d cat where
  not_admitted: "check_admission (ing_settings svc) d = Some reason
    \<Longrightarrow> delivered svc d cat cat (plain_outcome d None file_status.QUARANTINED)"
| not_stored: "check_admission (ing_settings svc) d = None \<Longrightarrow> dl_stored d = None
    \<Longrightarrow> delivered svc d cat cat (plain_outcome d None file_status.FAILED)"
| known: "check_admission (ing_settings svc) d = None \<Longrightarrow> dl_stored d = Some sb
    \<Longrightarrow> find_file (same_file (fst sb) (dl_display_name d)) (cat_files cat) = Some i
    \<Longrightarrow> delivered svc d cat cat (outcome_of d i True cat)"
| copied: "unseen svc d sb cat \<Longrightarrow> find_file (same_content (fst sb)) (cat_files cat) = Some j
    \<Longrightarrow> delivered svc d cat (add_file (duplicate_file d sb j) (cat_versions cat) cat)
          (plain_outcome d (Some (length (cat_files cat))) file_status.DUPLICATE)"
| readied: "unseen svc d sb cat \<Longrightarrow> find_file (same_content (fst sb)) (cat_files cat) = None
    \<Longrightarrow> analyse_file svc d (registered_file d sb, cat_versions cat) = ((f, vs), None)
    \<Longrightarrow> delivered svc d cat (add_file f vs cat) (outcome_of d (length (cat_files cat)) False (add_file f vs cat))"
| set_aside: "unseen svc d sb cat \<Longrightarrow> find_file (same_content (fst sb)) (cat_files cat) = None
    \<Longrightarrow> analyse_file svc d (registered_file d sb, cat_versions cat) = ((f, vs), Some (Quarantine reason))
    \<Longrightarrow> delivered svc d cat (add_file (mark_quarantined reason f) vs cat)
          (plain_outcome d (Some (length (cat_files cat))) file_status.QUARANTINED)"
| broken: "unseen svc d sb cat \<Longrightarrow> find_file (same_content (fst sb)) (cat_files cat) = None
    \<Longrightarrow> analyse_file svc d (registered_file d sb, cat_versions cat) = ((f, vs), Some (Failure e))
    \<Longrightarrow> delivered svc d cat (add_file (mark_failed e f) vs cat)
          (plain_outcome d (Some (length (cat_files cat))) file_status.FAILED)"

lemma new_file_fields [simp]:
  "tf_status (new_file d sb) = DISCOVERED" "tf_history (new_file d sb) = [DISCOVERED]"
  "tf_sha256 (new_file d sb) = fst sb" "tf_original_filename (new_file d sb) = dl_display_name d"
  "tf_duplicate_of (new_file d sb) = None"
  by (cases sb; simp add: new_file_def)+

lemma registered_file_fields [simp]:
  "tf_status (registered_file d sb) = file_status.REGISTERED"
  "tf_history (registered_file d sb) = [DISCOVERED, file_status.REGISTERED]"
  "tf_sha256 (registered_file d sb) = fst sb" "tf_original_filename (registered_file d sb) = dl_display_name d"
  "tf_duplicate_of (registered_file d sb) = None"
  by (simp_all add: registered_file_def)

lemma enter_new:
  "enter_file canonical (new_file d sb, vs) =
     (case canonical of None \<Rightarrow> ((registered_file d sb, vs), None) | Some j \<Rightarrow> ((duplicate_file d sb j, vs), None))"
  by (simp add: enter_file_def transition_legal can_transition_def registered_file_def duplicate_file_def split: option.split)

lemma register_known:
  "dl_stored d = Some sb \<Longrightarrow> find_file (same_file (fst sb) (dl_display_name d)) (cat_files cat) = Some i
    \<Longrightarrow> register d cat = (cat, Inr (i, False))"
  by (cases sb) (simp add: register_def same_file_def [abs_def])

lemma register_new:
  "dl_stored d = Some sb \<Longrightarrow> find_file (same_file (fst sb) (dl_display_name d)) (cat_files cat) = None
    \<Longrightarrow> register d cat =
      (add_file (case find_file (same_content (fst sb)) (cat_files cat) of None \<Rightarrow> registered_file d sb | Some j \<Rightarrow> duplicate_file d sb j)
         (cat_versions cat) cat, Inr (length (cat_files cat), True))"
  by (cases sb) (simp add: register_def same_file_def [abs_def] same_content_def [abs_def] enter_new add_file_def split: option.split)

lemma update_added: "(xs @ [x])[length xs := y] = xs @ [y]"
  by simp

lemma add_file_fields [simp]:
  "cat_files (add_file f vs cat) = cat_files cat @ [f]" "cat_versions (add_file f vs cat) = vs"
  by (simp_all add: add_file_def)

lemma update_current_added:
  "update_current (Some (length (cat_files cat))) g (add_file f vs cat) = add_file (g f) vs cat"
  by (simp add: update_current_def update_file_def add_file_def)

lemma duplicate_file_fields [simp]:
  "tf_status (duplicate_file d sb j) = file_status.DUPLICATE"
  "tf_history (duplicate_file d sb j) = [DISCOVERED, file_status.REGISTERED, file_status.DUPLICATE]"
  "tf_sha256 (duplicate_file d sb j) = fst sb" "tf_original_filename (duplicate_file d sb j) = dl_display_name d"
  "tf_duplicate_of (duplicate_file d sb j) = Some j"
  by (simp_all add: duplicate_file_def)

text \<open>The \<open>try\<close> block on a known file, on a copy and on a new file.\<close>

lemma attempt_known:
  assumes "check_admission (ing_settings svc) d = None" and "dl_stored d = Some sb"
    and "find_file (same_file (fst sb) (dl_display_name d)) (cat_files cat) = Some i"
  shows "ingest_attempt svc d cat = (cat, Some i, acknowledge d PROCESSED (outcome_of d i True cat))"
  by (simp add: ingest_attempt_def assms(1) register_known [OF assms(2,3)])

lemma attempt_copy:
  assumes "unseen svc d sb cat" and "find_file (same_content (fst sb)) (cat_files cat) = Some j"
  shows "ingest_attempt svc d cat =
    (add_file (duplicate_file d sb j) (cat_versions cat) cat, Some (length (cat_files cat)),
     acknowledge d DUPLICATE (plain_outcome d (Some (length (cat_files cat))) file_status.DUPLICATE))"
  using assms by (simp add: ingest_attempt_def unseen_def register_new)

lemma attempt_new:
  assumes "unseen svc d sb cat" and "find_file (same_content (fst sb)) (cat_files cat) = None"
    and "analyse_file svc d (registered_file d sb, cat_versions cat) = ((f, vs), exc)"
  shows "ingest_attempt svc d cat =
    (add_file f vs cat, Some (length (cat_files cat)),
     case exc of Some e \<Rightarrow> Inl e
     | None \<Rightarrow> acknowledge d PROCESSED (outcome_of d (length (cat_files cat)) False (add_file f vs cat)))"
  using assms by (simp add: ingest_attempt_def unseen_def register_new Let_def add_file_def split: option.split)

lemma delivery_cases:
  obtains (not_admitted) reason where "check_admission (ing_settings svc) d = Some reason"
  | (not_stored) "check_admission (ing_settings svc) d = None" "dl_stored d = None"
  | (known) sb i where "check_admission (ing_settings svc) d = None" "dl_stored d = Some sb"
      "find_file (same_file (fst sb) (dl_display_name d)) (cat_files cat) = Some i"
  | (copied) sb j where "unseen svc d sb cat" "find_file (same_content (fst sb)) (cat_files cat) = Some j"
  | (analysed) sb f vs exc where "unseen svc d sb cat" "find_file (same_content (fst sb)) (cat_files cat) = None"
      "analyse_file svc d (registered_file d sb, cat_versions cat) = ((f, vs), exc)"
  by (metis not_Some_eq surj_pair unseen_def)

lemma ingest_file_delivered:
  assumes "\<forall>a. \<not> dl_refuses d a"
  shows "\<exists>cat' out. ingest_file svc d cat = (cat', Some out) \<and> delivered svc d cat cat' out"
proof (cases rule: delivery_cases [where svc = svc and d = d and cat = cat])
  case (not_admitted reason)
  then show ?thesis using assms delivered.not_admitted [OF not_admitted]
    by (simp add: ingest_file_def ingest_attempt_def update_current_def)
next
  case not_stored
  then show ?thesis using assms delivered.not_stored [OF not_stored]
    by (simp add: ingest_file_def ingest_attempt_def update_current_def register_def)
next
  case (known sb i)
  then show ?thesis using assms delivered.known [OF known] attempt_known [OF known]
    by (simp add: ingest_file_def acknowledge_def)
next
  case (copied sb j)
  then show ?thesis using assms delivered.copied [OF copied] attempt_copy [OF copied]
    by (simp add: ingest_file_def acknowledge_def)
next
  case (analysed sb f vs exc)
  note att = attempt_new [OF analysed]
  show ?thesis
  proof (cases exc)
    case None
    then show ?thesis using assms delivered.readied [OF analysed(1,2)] analysed(3) att
      by (simp add: ingest_file_def acknowledge_def)
  next
    case (Some e)
    then show ?thesis
      using assms delivered.set_aside [OF analysed(1,2)] delivered.broken [OF analysed(1,2)] analysed(3) att
      by (cases e) (simp_all add: ingest_file_def update_current_added)
  qed
qed

section \<open>Histories\<close>

definition recorded :: "telemetry_file \<Rightarrow> bool" where
  "recorded f = (life (tf_history f) \<and> last (tf_history f) = tf_status f)"

lemma pairs_snoc: "xs \<noteq> [] \<Longrightarrow> pairs (xs @ [x]) = pairs xs @ [(last xs, x)]"
  by (induction xs) (auto simp: pairs_def neq_Nil_conv)

lemma life_snoc: "life ss \<Longrightarrow> lifecycle_step (last ss) t \<Longrightarrow> life (ss @ [t])"
  by (simp add: life_def pairs_snoc)

lemma recorded_set_status: "recorded f \<Longrightarrow> can_transition (tf_status f) t \<Longrightarrow> recorded (set_status t f)"
  by (simp add: recorded_def life_snoc lifecycle_step_next can_transition_def)

lemma recorded_same:
  "tf_history g = tf_history f \<Longrightarrow> tf_status g = tf_status f \<Longrightarrow> recorded f \<Longrightarrow> recorded g"
  by (simp add: recorded_def)

lemma recorded_new: "recorded (new_file d sb)"
  by (simp add: recorded_def life_def)

lemma recorded_registered: "recorded (registered_file d sb)"
  unfolding registered_file_def by (rule recorded_set_status [OF recorded_new]) (simp add: can_transition_def)

lemma recorded_duplicate: "recorded (duplicate_file d sb j)"
  unfolding duplicate_file_def
  by (rule recorded_set_status [OF recorded_same [OF _ _ recorded_registered [of d sb]]]) (simp_all add: can_transition_def)

lemma recorded_profiled: "recorded f \<Longrightarrow> tf_status f = file_status.REGISTERED \<Longrightarrow> recorded (profiled f)"
  unfolding profiled_def by (intro recorded_set_status) (simp_all add: can_transition_def)

lemma recorded_validated:
  assumes "recorded f" and "tf_status f = file_status.REGISTERED"
  shows "recorded (validated svc p r f)"
proof -
  have "recorded (record_profile svc p (profiled f))"
    by (rule recorded_same [OF _ _ recorded_profiled [OF assms]]) simp_all
  then have "recorded (set_status SCHEMA_VALIDATION (record_profile svc p (profiled f)))"
    by (rule recorded_set_status) (simp add: can_transition_def profiled_def)
  then have "recorded (record_schema p r (set_status SCHEMA_VALIDATION (record_profile svc p (profiled f))))"
    by (rule recorded_same [rotated 2]) simp_all
  then show ?thesis unfolding validated_def by (rule recorded_set_status) (simp add: can_transition_def)
qed

lemma stage_fields [simp]:
  "tf_status (profiled f) = PROFILING" "tf_sha256 (profiled f) = tf_sha256 f"
  "tf_original_filename (profiled f) = tf_original_filename f" "tf_duplicate_of (profiled f) = tf_duplicate_of f"
  "tf_status (validated svc p r f) = QUALITY_VALIDATION" "tf_sha256 (validated svc p r f) = tf_sha256 f"
  "tf_original_filename (validated svc p r f) = tf_original_filename f"
  "tf_duplicate_of (validated svc p r f) = tf_duplicate_of f"
  by (simp_all add: profiled_def validated_def)

lemma analysed_file:
  assumes "tf_status f = file_status.REGISTERED" and "recorded f" and "analyse_file svc d (f, vs) = ((f', vs'), exc)"
  shows "recorded f'" "tf_sha256 f' = tf_sha256 f" "tf_original_filename f' = tf_original_filename f"
    "tf_duplicate_of f' = tf_duplicate_of f"
    "tf_status f' \<in> (if exc = None then {READY_FOR_NORMALIZATION} else {PROFILING, QUALITY_VALIDATION})"
proof -
  note v = recorded_validated [OF assms(2,1), of svc]
  have "recorded f' \<and> tf_sha256 f' = tf_sha256 f \<and> tf_original_filename f' = tf_original_filename f
    \<and> tf_duplicate_of f' = tf_duplicate_of f
    \<and> tf_status f' \<in> (if exc = None then {READY_FOR_NORMALIZATION} else {PROFILING, QUALITY_VALIDATION})"
    using assms(1,3)
  proof (cases rule: analyse_ends)
    case (unprofiled e)
    then show ?thesis using recorded_profiled [OF assms(2,1)] by simp
  next
    case (rejected e p r)
    then show ?thesis using v [of p r] recorded_same [OF _ _ v [of p r]] by auto
  next
    case (ready p r findings q)
    have "recorded ((validated svc p r f)\<lparr>tf_findings := findings, tf_scores := as_decimals q\<rparr>)"
      by (rule recorded_same [OF _ _ v [of p r]]) simp_all
    then have "recorded f'" unfolding ready(6) by (rule recorded_set_status) (simp add: can_transition_def)
    then show ?thesis using ready(1,6) by simp
  qed
  then show "recorded f'" "tf_sha256 f' = tf_sha256 f" "tf_original_filename f' = tf_original_filename f"
    "tf_duplicate_of f' = tf_duplicate_of f"
    "tf_status f' \<in> (if exc = None then {READY_FOR_NORMALIZATION} else {PROFILING, QUALITY_VALIDATION})" by blast+
qed

lemma mark_fields [simp]:
  "tf_sha256 (mark_quarantined reason f) = tf_sha256 f" "tf_sha256 (mark_failed e f) = tf_sha256 f"
  "tf_original_filename (mark_quarantined reason f) = tf_original_filename f"
  "tf_original_filename (mark_failed e f) = tf_original_filename f"
  "tf_duplicate_of (mark_quarantined reason f) = tf_duplicate_of f" "tf_duplicate_of (mark_failed e f) = tf_duplicate_of f"
  "tf_status (mark_quarantined reason f) = file_status.QUARANTINED" "tf_status (mark_failed e f) = file_status.FAILED"
  by (simp_all add: mark_quarantined_def mark_failed_def)

lemma recorded_marked:
  assumes "recorded f" and "tf_status f \<in> {PROFILING, QUALITY_VALIDATION}"
  shows "recorded (mark_quarantined reason f)" "recorded (mark_failed e f)"
  unfolding mark_quarantined_def mark_failed_def
  using assms(2)
  by (auto intro!: recorded_set_status [OF recorded_same [OF _ _ assms(1)]] simp: can_transition_def)

lemma find_file_None: "find_file P fs = None \<longleftrightarrow> (\<forall>f\<in>set fs. \<not> P f)"
  unfolding find_file_def find_None_iff by (metis atLeastLessThan_iff in_set_conv_nth le0 set_upt)

lemma find_file_Some: "find_file P fs = Some i \<Longrightarrow> i < length fs \<and> P (fs ! i)"
  by (auto simp: find_file_def find_Some_iff)

text \<open>A delivery has nothing left to do once it was refused at the door, or its file is known.\<close>

definition accepted :: "ingestion_service \<Rightarrow> delivery \<Rightarrow> bool" where
  "accepted svc d \<longleftrightarrow> check_admission (ing_settings svc) d = None \<and> dl_stored d \<noteq> None"

definition settled :: "ingestion_service \<Rightarrow> delivery \<Rightarrow> catalogue \<Rightarrow> bool" where
  "settled svc d cat \<longleftrightarrow> (accepted svc d \<longrightarrow>
     (\<exists>f\<in>set (cat_files cat). same_file (fst (the (dl_stored d))) (dl_display_name d) f))"

text \<open>Every delivery appends at most one file, whose fields of record say what it is.\<close>

lemma delivered_files:
  assumes "delivered svc d cat cat' out"
  obtains (same) "cat' = cat" "settled svc d cat"
  | (added) sb f where "unseen svc d sb cat" "cat_files cat' = cat_files cat @ [f]" "recorded f"
      "tf_sha256 f = fst sb" "tf_original_filename f = dl_display_name d"
      "tf_duplicate_of f = find_file (same_content (fst sb)) (cat_files cat)"
  using assms
proof (cases rule: delivered.cases)
  case (copied sb j)
  then show ?thesis using added [of sb "duplicate_file d sb j"] recorded_duplicate by simp
next
  case (readied sb f vs)
  note a = analysed_file [OF registered_file_fields(1) recorded_registered readied(5)]
  show ?thesis using added [of sb f] readied a by simp
next
  case (set_aside sb f vs reason)
  note a = analysed_file [OF registered_file_fields(1) recorded_registered set_aside(5)]
  show ?thesis using added [of sb "mark_quarantined reason f"] set_aside a recorded_marked [OF a(1)] by simp
next
  case (broken sb f vs e)
  note a = analysed_file [OF registered_file_fields(1) recorded_registered broken(5)]
  show ?thesis using added [of sb "mark_failed e f"] broken a recorded_marked [OF a(1)] by simp
next
  case (known sb i)
  then show ?thesis using same find_file_Some [OF known(5)] by (fastforce simp: settled_def)
qed (use same in \<open>simp_all add: settled_def accepted_def\<close>)

section \<open>Runs\<close>

lemma ingest_all_append:
  assumes "\<forall>d\<in>set ds. \<forall>a. \<not> dl_refuses d a" and "ingest_all svc ds s cat = (cat', s')"
    and "\<And>d cat cat' out. d \<in> set ds \<Longrightarrow> delivered svc d cat cat' out \<Longrightarrow> R cat cat'"
    and "\<And>cat. R cat cat" and "\<And>a b c. R a b \<Longrightarrow> R b c \<Longrightarrow> R a c"
  shows "s' \<noteq> None \<and> R cat cat'"
  using assms(1-3)
proof (induction ds arbitrary: s cat)
  case Nil
  then show ?case using assms(4) by auto
next
  case (Cons d ds)
  obtain c out where d: "ingest_file svc d cat = (c, Some out)" "delivered svc d cat c out"
    using ingest_file_delivered [of d svc cat] Cons.prems(1) by auto
  have "s' \<noteq> None \<and> R c cat'"
  proof (rule Cons.IH)
    show "ingest_all svc ds (tally_outcome (s\<lparr>rn_outcomes := rn_outcomes s @ [out]\<rparr>) out) c = (cat', s')"
      using Cons.prems(2) d(1) by simp
    show "\<forall>d\<in>set ds. \<forall>a. \<not> dl_refuses d a" using Cons.prems(1) by simp
    show "R b b'" if "e \<in> set ds" "delivered svc e b b' o'" for e b b' o'
      using Cons.prems(3) [OF _ that(2)] that(1) by simp
  qed
  then show ?case using assms(5) [OF Cons.prems(3) [OF _ d(2)]] by auto
qed

text \<open>
  C5: When the source accepts every acknowledgement, a run ends, only adds files, leaves every file registered
  before as it was, and the statuses each new file went through are transitions the state machine
  allows, from DISCOVERED to its status. Refused acknowledgements break both halves: see
  \<open>refusal_fails_known_file\<close> and \<open>refusal_aborts_run\<close>.
\<close>

theorem ingestion_lives:
  assumes "\<forall>d\<in>set ds. \<forall>a. \<not> dl_refuses d a" and "run_ingestion svc ds cat = (cat', s)"
  shows "s \<noteq> None \<and> (\<exists>fs. cat_files cat' = cat_files cat @ fs
    \<and> (\<forall>f\<in>set fs. life (tf_history f) \<and> last (tf_history f) = tf_status f))"
proof -
  obtain s' where run: "ingest_all svc ds (start_summary ds) cat = (cat', s')" "s = map_option (\<lambda>s. s\<lparr>rn_status := final_status s\<rparr>) s'"
    using assms(2) by (auto simp: run_ingestion_def split: prod.splits)
  define R where "R c c' = (\<exists>fs. cat_files c' = cat_files c @ fs \<and> (\<forall>f\<in>set fs. recorded f))" for c c' :: catalogue
  have "s' \<noteq> None \<and> R cat cat'"
  proof (rule ingest_all_append [OF assms(1) run(1)])
    show "R c c'" if "delivered svc d c c' out" for d c c' out
      using that by (cases rule: delivered_files) (auto simp: R_def)
    show "R a c" if "R a b" "R b c" for a b c using that by (fastforce simp: R_def)
  qed (simp add: R_def)
  then show ?thesis unfolding R_def recorded_def run(2) by auto
qed

section \<open>One logical file per content\<close>

definition catalogue_ok :: "catalogue \<Rightarrow> bool" where
  "catalogue_ok cat \<longleftrightarrow>
     distinct (map (\<lambda>f. (tf_sha256 f, tf_original_filename f)) (cat_files cat))
     \<and> (\<forall>i<length (cat_files cat). tf_duplicate_of (cat_files cat ! i) =
          find_file (same_content (tf_sha256 (cat_files cat ! i))) (take i (cat_files cat)))"

lemma catalogue_ok_delivered:
  assumes "delivered svc d cat cat' out" and "catalogue_ok cat"
  shows "catalogue_ok cat'"
  using assms(1)
proof (cases rule: delivered_files)
  case same
  then show ?thesis using assms(2) by simp
next
  case (added sb f)
  have fresh: "(tf_sha256 f, tf_original_filename f) \<notin> (\<lambda>f. (tf_sha256 f, tf_original_filename f)) ` set (cat_files cat)"
    using added(1,4,5) by (auto simp: unseen_def find_file_None same_file_def)
  have dup: "tf_duplicate_of f = find_file (same_content (tf_sha256 f)) (cat_files cat)"
    using added(4,6) by simp
  show ?thesis
    using assms(2) fresh dup by (auto simp: catalogue_ok_def added(2) less_Suc_eq nth_append)
qed

lemma settled_delivered: "delivered svc d cat cat' out \<Longrightarrow> settled svc e cat \<Longrightarrow> settled svc e cat'"
  by (erule delivered_files) (auto simp: settled_def)

lemma delivered_settles: "delivered svc d cat cat' out \<Longrightarrow> settled svc d cat'"
  by (erule delivered_files) (auto simp: settled_def unseen_def same_file_def)

lemma settled_noop:
  assumes "delivered svc d cat cat' out" and "settled svc d cat"
  shows "cat' = cat \<and> fo_already_registered out = accepted svc d
    \<and> (fo_already_registered out \<or> fo_status out \<in> {file_status.QUARANTINED, file_status.FAILED})"
proof -
  have not: "\<not> unseen svc d sb cat" for sb
    using assms(2) by (auto simp: unseen_def settled_def accepted_def find_file_None)
  show ?thesis using assms(1)
    by (cases rule: delivered.cases) (use not in \<open>auto simp: accepted_def plain_outcome_def outcome_of_def\<close>)
qed

section \<open>What a run reports\<close>

definition note_outcome :: "run_summary \<Rightarrow> file_outcome \<Rightarrow> run_summary" where
  "note_outcome s out = tally_outcome (s\<lparr>rn_outcomes := rn_outcomes s @ [out]\<rparr>) out"

definition count_status :: "file_status set \<Rightarrow> file_outcome list \<Rightarrow> nat" where
  "count_status S outs = length (filter (\<lambda>out. \<not> fo_already_registered out \<and> fo_status out \<in> S) outs)"

definition run_outcome :: "file_outcome \<Rightarrow> bool" where
  "run_outcome out \<longleftrightarrow> fo_already_registered out
     \<or> fo_status out \<in> {READY_FOR_NORMALIZATION, file_status.DUPLICATE, file_status.QUARANTINED, file_status.FAILED}"

lemma ingest_all_outcomes:
  assumes "ingest_all svc ds s cat = (cat', Some s')"
    and "\<And>d cat cat' out. d \<in> set ds \<Longrightarrow> ingest_file svc d cat = (cat', Some out) \<Longrightarrow> run_outcome out"
  shows "\<exists>outs. s' = foldl note_outcome s outs \<and> length outs = length ds \<and> list_all run_outcome outs"
  using assms
proof (induction ds arbitrary: s cat)
  case Nil
  then show ?case by (intro exI [of _ "[]"]) simp
next
  case (Cons d ds)
  obtain c out where d: "ingest_file svc d cat = (c, Some out)" "ingest_all svc ds (note_outcome s out) c = (cat', Some s')"
    using Cons.prems(1) by (auto simp: note_outcome_def split: prod.splits option.splits)
  obtain outs where "s' = foldl note_outcome (note_outcome s out) outs" "length outs = length ds" "list_all run_outcome outs"
    using Cons.IH [OF d(2)] Cons.prems(2) by (metis list.set_intros(2))
  then show ?case using Cons.prems(2) [OF _ d(1)] by (intro exI [of _ "out # outs"]) simp
qed

lemma note_outcome_fields:
  assumes "run_outcome out"
  shows "rn_outcomes (note_outcome s out) = rn_outcomes s @ [out]"
    "files_discovered (note_outcome s out) = files_discovered s"
    "files_partial (note_outcome s out) = files_partial s"
    "files_ready (note_outcome s out) = files_ready s + count_status {READY_FOR_NORMALIZATION} [out]"
    "files_registered (note_outcome s out) = files_registered s + count_status {READY_FOR_NORMALIZATION} [out]"
    "files_duplicate (note_outcome s out) = files_duplicate s + count_status {file_status.DUPLICATE} [out]"
    "files_quarantined (note_outcome s out) = files_quarantined s + count_status {file_status.QUARANTINED} [out]"
    "files_failed (note_outcome s out) = files_failed s + count_status {file_status.FAILED} [out]"
    "files_skipped (note_outcome s out) = files_skipped s + length (filter fo_already_registered [out])"
  using assms by (auto simp: note_outcome_def tally_outcome_def run_outcome_def count_status_def split: file_status.split)

lemma count_status_append: "count_status S (xs @ ys) = count_status S xs + count_status S ys"
  by (simp add: count_status_def)

lemma noted_fields:
  assumes "list_all run_outcome outs"
  shows "rn_outcomes (foldl note_outcome s outs) = rn_outcomes s @ outs"
    "files_discovered (foldl note_outcome s outs) = files_discovered s"
    "files_partial (foldl note_outcome s outs) = files_partial s"
    "files_ready (foldl note_outcome s outs) = files_ready s + count_status {READY_FOR_NORMALIZATION} outs"
    "files_registered (foldl note_outcome s outs) = files_registered s + count_status {READY_FOR_NORMALIZATION} outs"
    "files_duplicate (foldl note_outcome s outs) = files_duplicate s + count_status {file_status.DUPLICATE} outs"
    "files_quarantined (foldl note_outcome s outs) = files_quarantined s + count_status {file_status.QUARANTINED} outs"
    "files_failed (foldl note_outcome s outs) = files_failed s + count_status {file_status.FAILED} outs"
    "files_skipped (foldl note_outcome s outs) = files_skipped s + length (filter fo_already_registered outs)"
proof -
  have base: "count_status S [] = 0" for S by (simp add: count_status_def)
  show "rn_outcomes (foldl note_outcome s outs) = rn_outcomes s @ outs"
    "files_discovered (foldl note_outcome s outs) = files_discovered s"
    "files_partial (foldl note_outcome s outs) = files_partial s"
    "files_ready (foldl note_outcome s outs) = files_ready s + count_status {READY_FOR_NORMALIZATION} outs"
    "files_registered (foldl note_outcome s outs) = files_registered s + count_status {READY_FOR_NORMALIZATION} outs"
    "files_duplicate (foldl note_outcome s outs) = files_duplicate s + count_status {file_status.DUPLICATE} outs"
    "files_quarantined (foldl note_outcome s outs) = files_quarantined s + count_status {file_status.QUARANTINED} outs"
    "files_failed (foldl note_outcome s outs) = files_failed s + count_status {file_status.FAILED} outs"
    "files_skipped (foldl note_outcome s outs) = files_skipped s + length (filter fo_already_registered outs)"
    using assms
    by (induction outs rule: rev_induct) (simp_all add: base note_outcome_fields count_status_append)
qed

lemma outcomes_partition:
  assumes "list_all run_outcome outs"
  shows "length outs = count_status {READY_FOR_NORMALIZATION} outs + count_status {file_status.DUPLICATE} outs
    + count_status {file_status.QUARANTINED} outs + count_status {file_status.FAILED} outs
    + length (filter fo_already_registered outs)"
  using assms by (induction outs) (auto simp: count_status_def run_outcome_def)

lemma handled_outcome:
  assumes "ingest_file svc d cat = (cat', Some out)" and "ingest_attempt svc d cat = (c, i, r)"
    and "\<And>o'. r = Inr o' \<Longrightarrow> run_outcome o'"
  shows "run_outcome out"
  using assms by (auto simp: ingest_file_def run_outcome_def plain_outcome_def split: sum.splits ingest_error.splits if_splits)

lemma ingest_file_outcome:
  assumes "ingest_file svc d cat = (cat', Some out)"
  shows "run_outcome out"
proof (cases rule: delivery_cases [where svc = svc and d = d and cat = cat])
  case (not_admitted reason)
  then show ?thesis using handled_outcome [OF assms] by (simp add: ingest_attempt_def)
next
  case not_stored
  then show ?thesis using handled_outcome [OF assms] by (simp add: ingest_attempt_def register_def)
next
  case (known sb i)
  show ?thesis
    by (rule handled_outcome [OF assms attempt_known [OF known]])
      (auto simp: acknowledge_def run_outcome_def outcome_of_def split: if_splits)
next
  case (copied sb j)
  show ?thesis
    by (rule handled_outcome [OF assms attempt_copy [OF copied]])
      (auto simp: acknowledge_def run_outcome_def plain_outcome_def split: if_splits)
next
  case (analysed sb f vs exc)
  have "exc = None \<Longrightarrow> tf_status f = READY_FOR_NORMALIZATION"
    using analysed_file(5) [OF registered_file_fields(1) recorded_registered analysed(3)] by simp
  then show ?thesis
    by (intro handled_outcome [OF assms attempt_new [OF analysed]])
      (auto simp: acknowledge_def run_outcome_def outcome_of_def split: if_splits option.splits)
qed

text \<open>
  C32: The counters of a run partition its files, and when a run fails. Every discovered file is counted
  exactly once as ready, duplicate, quarantined, failed or skipped; no file is ever counted as partial
  and registered means ready. A run is reported failed exactly when some file was quarantined or failed
  and none became ready in it, files that were known already notwithstanding.
\<close>

theorem run_counters:
  assumes "run_ingestion svc ds cat = (cat', Some s)"
  shows "files_discovered s = length ds \<and> length (rn_outcomes s) = length ds
    \<and> length ds = files_ready s + files_duplicate s + files_quarantined s + files_failed s + files_skipped s
    \<and> files_registered s = files_ready s \<and> files_partial s = 0
    \<and> files_skipped s = length (filter fo_already_registered (rn_outcomes s))
    \<and> (rn_status s = ingestion_run_status.FAILED \<longleftrightarrow> files_ready s = 0 \<and> files_failed s + files_quarantined s > 0)
    \<and> (rn_status s = ingestion_run_status.COMPLETED \<longleftrightarrow> files_failed s + files_quarantined s = 0)"
proof -
  obtain t where run: "ingest_all svc ds (start_summary ds) cat = (cat', Some t)" "s = t\<lparr>rn_status := final_status t\<rparr>"
    using assms by (auto simp: run_ingestion_def split: prod.splits)
  obtain outs where outs: "t = foldl note_outcome (start_summary ds) outs" "length outs = length ds" "list_all run_outcome outs"
    using ingest_all_outcomes [OF run(1)] ingest_file_outcome by blast
  note fields = noted_fields [OF outs(3), of "start_summary ds", folded outs(1)] and partition = outcomes_partition [OF outs(3)]
  have start: "files_discovered (start_summary ds) = length ds" "rn_outcomes (start_summary ds) = []"
    "files_partial (start_summary ds) = 0" "files_ready (start_summary ds) = 0" "files_registered (start_summary ds) = 0"
    "files_duplicate (start_summary ds) = 0" "files_quarantined (start_summary ds) = 0" "files_failed (start_summary ds) = 0"
    "files_skipped (start_summary ds) = 0" by (simp_all add: start_summary_def)
  have sums: "length ds = files_ready t + files_duplicate t + files_quarantined t + files_failed t + files_skipped t"
    using fields start partition outs(2) by simp
  show ?thesis
    unfolding run(2) using fields(1-3,5) fields(4) [symmetric] fields(9) start outs(2) sums
    by (auto simp: final_status_def)
qed

lemma ingest_all_settles:
  assumes "ingest_all svc ds' s c = (c', s')" and "\<forall>d\<in>set ds'. \<forall>a. \<not> dl_refuses d a"
  shows "\<forall>d\<in>set ds'. settled svc d c'"
  using assms
proof (induction ds' arbitrary: s c)
  case (Cons d ds')
  obtain b out where d: "ingest_file svc d c = (b, Some out)" "delivered svc d c b out"
    using ingest_file_delivered [of d svc c] Cons.prems(2) by auto
  then have rest: "ingest_all svc ds' (note_outcome s out) b = (c', s')"
    using Cons.prems(1) by (simp add: note_outcome_def)
  have "\<forall>e\<in>set ds'. \<forall>a. \<not> dl_refuses e a" using Cons.prems(2) by simp
  moreover from this have "settled svc d b \<longrightarrow> settled svc d c'"
    using ingest_all_append [OF _ rest, where R = "\<lambda>x y. settled svc d x \<longrightarrow> settled svc d y"] settled_delivered by blast
  ultimately show ?case using Cons.IH [OF rest] delivered_settles [OF d(2)] by simp
qed simp

lemma ingest_all_noop:
  assumes "ingest_all svc ds' s c = (c', Some t')" and "\<forall>d\<in>set ds'. settled svc d c"
    and "\<forall>d\<in>set ds'. \<forall>a. \<not> dl_refuses d a"
  shows "c' = c \<and> (\<exists>outs. t' = foldl note_outcome s outs \<and> list_all run_outcome outs
    \<and> count_status {READY_FOR_NORMALIZATION} outs = 0 \<and> count_status {file_status.DUPLICATE} outs = 0
    \<and> length (filter fo_already_registered outs) = length (filter (accepted svc) ds'))"
  using assms
proof (induction ds' arbitrary: s)
  case Nil
  then show ?case by (intro conjI exI [of _ "[]"]) (simp_all add: count_status_def)
next
  case (Cons d ds')
  obtain b out where d: "ingest_file svc d c = (b, Some out)" "delivered svc d c b out"
    using ingest_file_delivered [of d svc c] Cons.prems(3) by auto
  have n: "b = c" "fo_already_registered out = accepted svc d"
    "fo_already_registered out \<or> fo_status out \<in> {file_status.QUARANTINED, file_status.FAILED}"
    using settled_noop [OF d(2)] Cons.prems(2) by auto
  have "ingest_all svc ds' (note_outcome s out) c = (c', Some t')"
    using Cons.prems(1) d(1) n(1) by (simp add: note_outcome_def)
  then obtain outs where outs: "c' = c" "t' = foldl note_outcome (note_outcome s out) outs" "list_all run_outcome outs"
    "count_status {READY_FOR_NORMALIZATION} outs = 0" "count_status {file_status.DUPLICATE} outs = 0"
    "length (filter fo_already_registered outs) = length (filter (accepted svc) ds')"
    using Cons.IH Cons.prems(2,3) by auto
  have zero: "count_status {READY_FOR_NORMALIZATION} [out] = 0" "count_status {file_status.DUPLICATE} [out] = 0"
    using n(3) by (auto simp: count_status_def)
  show ?case
    using outs n zero count_status_append [of _ "[out]" outs] ingest_file_outcome [OF d(1)]
    by (intro conjI exI [of _ "out # outs"]) simp_all
qed

text \<open>
  C6: When the source accepts every acknowledgement, delivering the same files again does nothing. After a
  run, a second run over the same deliveries leaves the catalogue as it is, registers and readies nothing, and skips exactly the files that were
  accepted; and among the registered files no two have the same content and name, each pointing to the
  first file with its content, when this was so before.
\<close>

theorem redelivery_is_noop:
  assumes "\<forall>d\<in>set ds. \<forall>a. \<not> dl_refuses d a" and "run_ingestion svc ds cat = (cat1, s1)"
    and "run_ingestion svc ds cat1 = (cat2, Some s2)" and "catalogue_ok cat"
  shows "cat2 = cat1 \<and> files_registered s2 = 0 \<and> files_duplicate s2 = 0
    \<and> files_skipped s2 = length (filter (accepted svc) ds) \<and> catalogue_ok cat1"
proof -
  obtain t1 where run1: "ingest_all svc ds (start_summary ds) cat = (cat1, t1)"
    using assms(2) by (auto simp: run_ingestion_def split: prod.splits)
  obtain t where run2: "ingest_all svc ds (start_summary ds) cat1 = (cat2, Some t)" "s2 = t\<lparr>rn_status := final_status t\<rparr>"
    using assms(3) by (auto simp: run_ingestion_def split: prod.splits)
  define R where "R c c' \<longleftrightarrow> (catalogue_ok c \<longrightarrow> catalogue_ok c')
    \<and> (\<forall>e. settled svc e c \<longrightarrow> settled svc e c')" for c c' :: catalogue
  have "t1 \<noteq> None \<and> R cat cat1"
    by (rule ingest_all_append [OF assms(1) run1])
      (auto simp: R_def intro: catalogue_ok_delivered settled_delivered)
  then have ok: "catalogue_ok cat1" using assms(4) by (simp add: R_def)
  from ingest_all_noop [OF run2(1) ingest_all_settles [OF run1 assms(1)] assms(1)] obtain outs where
    outs: "cat2 = cat1" "t = foldl note_outcome (start_summary ds) outs" "list_all run_outcome outs"
      "count_status {READY_FOR_NORMALIZATION} outs = 0" "count_status {file_status.DUPLICATE} outs = 0"
      "length (filter fo_already_registered outs) = length (filter (accepted svc) ds)" by blast
  show ?thesis
    using outs ok noted_fields(5,6,9) [OF outs(3), of "start_summary ds"] by (simp add: run2(2) start_summary_def)
qed

section \<open>Files that are ready\<close>

lemma resolve_schema_versions:
  assumes "resolve_schema reg vs h = (r, vs')"
  shows "set vs \<subseteq> set vs' \<and> res_version r \<in> set vs' \<and> ver_fingerprint (res_version r) = header_fingerprint h"
proof (cases "find (\<lambda>v. ver_fingerprint v = header_fingerprint h) vs")
  case None
  show ?thesis by (rule resolve_schema_new [OF None, of reg]) (use assms in auto)
next
  case (Some v)
  then have "v \<in> set vs" "ver_fingerprint v = header_fingerprint h" by (auto simp: find_Some_iff)
  then show ?thesis using assms resolve_schema_known [OF Some] by auto
qed

lemma missing_rule_evaluated:
  assumes "f \<in> set (missing_required_field_rule c)"
  shows "f \<in> set (evaluate_rules digest isoformat default_registry c)"
  unfolding evaluate_rules_mem
  by (rule bexI [of _ "plain_rule MISSING_REQUIRED_FIELD quality_rule_scope.FILE ''MissingRequiredFieldRule'' missing_required_field_rule"])
    (simp_all only: plain_rule_mem assms default_registry_def, simp)

lemma no_missing_field:
  assumes "\<not> list_ex (\<lambda>x. severity x = quality_severity.CRITICAL) (evaluate_rules digest isoformat default_registry c)"
  shows "missing_required (profile_roles (profile c)) = []"
    and "spec \<in> set (curated (ctx_registry c)) \<Longrightarrow> fs_required spec
      \<Longrightarrow> fs_source_name spec \<in> set (source_names (profile_header (profile c)))"
proof -
  have mild: "severity f \<noteq> quality_severity.CRITICAL" if "f \<in> set (missing_required_field_rule c)" for f
    using assms missing_rule_evaluated [OF that] by (auto simp: list_ex_iff)
  have crit: "severity f = quality_severity.CRITICAL" if "f \<in> set (missing_required_field_rule c)" for f
    using that by (auto simp: missing_required_field_rule_def file_finding_fields)
  have "missing_required_field_rule c = []" using mild crit by (meson all_not_in_conv set_empty)
  then have "missing_required (profile_roles (profile c)) = []"
    "filter (\<lambda>spec. fs_source_name spec \<notin> set (source_names (profile_header (profile c)))) (required_specs (ctx_registry c)) = []"
    by (simp_all add: missing_required_field_rule_def)
  then show "missing_required (profile_roles (profile c)) = []"
    and "spec \<in> set (curated (ctx_registry c)) \<Longrightarrow> fs_required spec
      \<Longrightarrow> fs_source_name spec \<in> set (source_names (profile_header (profile c)))"
    by (auto simp: filter_empty_conv required_specs_def)
qed

text \<open>What a file of one of the deliveries is known to be once it is ready.\<close>

definition within_limits :: "ingest_settings \<Rightarrow> delivery \<Rightarrow> file_profile \<Rightarrow> bool" where
  "within_limits limits d p \<longleftrightarrow>
     (\<exists>q. dl_header d = Inr (profile_header p) \<and> dl_profile d = Inr q \<and> p = q\<lparr>profile_header := profile_header p\<rparr>)
     \<and> field_count (profile_header p) \<le> max_column_count limits \<and> row_count p \<le> max_row_count limits
     \<and> is_within_tolerance (profile_timestamps p) (is_failure_tolerance limits)"

lemma check_profile_limits: "check_profile limits d = Inr p \<Longrightarrow> within_limits limits d p"
  by (auto simp: check_profile_def within_limits_def split: sum.splits read_error.splits if_splits)

definition sound_file :: "ingestion_service \<Rightarrow> delivery list \<Rightarrow> schema_version list \<Rightarrow> telemetry_file \<Rightarrow> bool" where
  "sound_file svc ds vs f \<longleftrightarrow>
     (\<exists>d\<in>set ds. \<exists>p. within_limits (ing_settings svc) d p \<and> tf_summary f = Some (apply_profile p)
       \<and> missing_required (profile_roles p) = []
       \<and> (\<forall>spec\<in>set (curated (ing_dictionary svc)). fs_required spec \<longrightarrow> fs_source_name spec \<in> set (source_names (profile_header p)))
       \<and> (\<exists>v\<in>set vs. tf_schema_version f = Some (ver_number v) \<and> ver_fingerprint v = header_fingerprint (profile_header p)))"

lemma analysed_sound:
  assumes "analyse_file svc d (registered_file d sb, vs) = ((f, vs'), exc)" and "ing_rules svc = default_registry"
  shows "set vs \<subseteq> set vs' \<and> (exc = None \<longrightarrow> d \<in> set ds \<longrightarrow> sound_file svc ds vs' f)"
  using registered_file_fields(1) assms(1)
proof (cases rule: analyse_ends)
  case (unprofiled e)
  then show ?thesis by simp
next
  case (rejected e p r)
  then show ?thesis using resolve_schema_versions [OF rejected(3)] by simp
next
  case (ready p r findings q)
  let ?c = "context_for svc p r (registered_file d sb)"
  have c: "profile ?c = p" "ctx_registry ?c = ing_dictionary svc"
    by (simp_all add: context_for_def context_of_def Let_def)
  have "findings = evaluate_rules (ing_digest svc) (ing_isoformat svc) default_registry ?c"
    using ready(4) assms(2) by (auto simp: quality_analyse_def Let_def bind_err_Inr)
  then have "\<not> list_ex (\<lambda>x. severity x = quality_severity.CRITICAL)
      (evaluate_rules (ing_digest svc) (ing_isoformat svc) default_registry ?c)" using ready(5) by simp
  note need = no_missing_field [OF this, unfolded c]
  have "tf_summary f = Some (apply_profile p)" "tf_schema_version f = Some (ver_number (res_version r))"
    unfolding ready(6) by (simp_all add: validated_def)
  then show ?thesis
    using resolve_schema_versions [OF ready(3)] check_profile_limits [OF ready(2)] need
    unfolding sound_file_def by blast
qed

lemma delivered_sound:
  assumes "delivered svc d cat cat' out" and "ing_rules svc = default_registry" and "d \<in> set ds"
  shows "set (cat_versions cat) \<subseteq> set (cat_versions cat') \<and> (\<exists>fs. cat_files cat' = cat_files cat @ fs
    \<and> (\<forall>f\<in>set fs. tf_status f = READY_FOR_NORMALIZATION \<longrightarrow> sound_file svc ds (cat_versions cat') f))"
  using assms(1)
proof (cases rule: delivered.cases)
  case (readied sb f vs)
  then show ?thesis using analysed_sound [OF readied(5) assms(2)] assms(3) by simp
next
  case (set_aside sb f vs reason)
  then show ?thesis using analysed_sound [OF set_aside(5) assms(2)] by simp
next
  case (broken sb f vs e)
  then show ?thesis using analysed_sound [OF broken(5) assms(2)] by simp
qed simp_all

text \<open>
  C4: A ready file is sound. With the default rules and a source that accepts every acknowledgement, a new
  file that a run leaves READY_FOR_NORMALIZATION comes from one of its deliveries, whose header and profile are within the column, row and event-time
  limits; its header has every curated field that the dictionary requires and every required role; and
  it points to a stored schema version with the fingerprint of its header.
\<close>

theorem ready_files_sound:
  assumes "\<forall>d\<in>set ds. \<forall>a. \<not> dl_refuses d a" and "run_ingestion svc ds cat = (cat', s)"
    and "ing_rules svc = default_registry"
    and "length (cat_files cat) \<le> i" and "i < length (cat_files cat')"
    and "tf_status (cat_files cat' ! i) = READY_FOR_NORMALIZATION"
  shows "sound_file svc ds (cat_versions cat') (cat_files cat' ! i)"
proof -
  obtain s' where run: "ingest_all svc ds (start_summary ds) cat = (cat', s')"
    using assms(2) by (auto simp: run_ingestion_def split: prod.splits)
  define R where "R c c' \<longleftrightarrow> set (cat_versions c) \<subseteq> set (cat_versions c') \<and> (\<exists>fs. cat_files c' = cat_files c @ fs
    \<and> (\<forall>f\<in>set fs. tf_status f = READY_FOR_NORMALIZATION \<longrightarrow> sound_file svc ds (cat_versions c') f))" for c c' :: catalogue
  have mono: "sound_file svc ds ws f" if "sound_file svc ds vs f" "set vs \<subseteq> set ws" for vs ws f
    using that unfolding sound_file_def by blast
  have "s' \<noteq> None \<and> R cat cat'"
  proof (rule ingest_all_append [OF assms(1) run])
    show "R c c'" if "d \<in> set ds" "delivered svc d c c' out" for d c c' out
      using delivered_sound [OF that(2) assms(3) that(1)] by (simp add: R_def)
    show "R a c" if ab: "R a b" and bc: "R b c" for a b c
    proof -
      obtain fs gs where "cat_files b = cat_files a @ fs" "cat_files c = cat_files b @ gs"
        and "\<forall>f\<in>set fs. tf_status f = READY_FOR_NORMALIZATION \<longrightarrow> sound_file svc ds (cat_versions b) f"
        and "\<forall>f\<in>set gs. tf_status f = READY_FOR_NORMALIZATION \<longrightarrow> sound_file svc ds (cat_versions c) f"
        and "set (cat_versions a) \<subseteq> set (cat_versions b)" "set (cat_versions b) \<subseteq> set (cat_versions c)"
        using ab bc unfolding R_def by blast
      then show ?thesis unfolding R_def using mono by (intro conjI exI [of _ "fs @ gs"]) auto
    qed
  qed (simp add: R_def)
  then obtain fs where "cat_files cat' = cat_files cat @ fs"
    "\<forall>f\<in>set fs. tf_status f = READY_FOR_NORMALIZATION \<longrightarrow> sound_file svc ds (cat_versions cat') f" unfolding R_def by blast
  then show ?thesis using assms(4-6) by (simp add: nth_append)
qed

section \<open>A concrete run\<close>

definition demo_service :: ingestion_service where
  "demo_service =
     \<lparr>ing_settings = \<lparr>max_file_size_bytes = 1000, max_column_count = 10, max_row_count = 100, allowed_extensions = [''.csv''],
        is_failure_tolerance = 1, is_expected_connectors = None, is_expected_smrs = None, is_gap_factor = 5\<rparr>,
      ing_dictionary = demo_empty_registry, ing_rules = default_registry, ing_weights = default_weights,
      ing_source_timezone = ''UTC'', ing_zones = (\<lambda>_. None), ing_digest = (\<lambda>s. s), ing_isoformat = (\<lambda>_. [])\<rparr>"

definition demo_delivery :: "string \<Rightarrow> delivery" where
  "demo_delivery name =
     \<lparr>dl_display_name = name, dl_size_bytes = 100, dl_stored = Some (''sha'', 100),
      dl_header = Inr (profile_header (profile demo_context)), dl_profile = Inr (profile demo_context),
      dl_refuses = (\<lambda>_. False)\<rparr>"

definition empty_catalogue :: catalogue where
  "empty_catalogue = \<lparr>cat_files = [], cat_versions = []\<rparr>"

definition demo_deliveries :: "delivery list" where
  "demo_deliveries = [demo_delivery ''a.CSV'', demo_delivery ''b.csv'', demo_delivery ''b.txt'']"

lemma take_digits_code [code]:
  "take_digits n s =
     (if n = 0 then Some ([], s)
      else case s of [] \<Rightarrow> None
           | c # r \<Rightarrow> if is_digit c then map_option (\<lambda>(ds, r). (c # ds, r)) (take_digits (n - 1) r) else None)"
  by (cases n; cases s) simp_all

lemma demo_run_statuses:
  "case run_ingestion demo_service demo_deliveries empty_catalogue of (cat, s) \<Rightarrow>
     map tf_status (cat_files cat) = [READY_FOR_NORMALIZATION, file_status.DUPLICATE]
     \<and> map_option rn_status s = Some ingestion_run_status.COMPLETED_WITH_WARNINGS"
  by code_simp

lemma demo_accepts: "\<forall>d\<in>set demo_deliveries. \<forall>a. \<not> dl_refuses d a"
  by (simp add: demo_deliveries_def demo_delivery_def)

lemma run_ends:
  assumes "\<forall>d\<in>set ds. \<forall>a. \<not> dl_refuses d a"
  obtains cat' s where "run_ingestion svc ds cat = (cat', Some s)"
proof -
  obtain cat' s' where "ingest_all svc ds (start_summary ds) cat = (cat', s')" by fastforce
  moreover from this have "s' \<noteq> None" using ingest_all_append [OF assms, where R = "\<lambda>a b. True"] by blast
  ultimately show ?thesis using that by (auto simp: run_ingestion_def)
qed

lemma demo_ingestion:
  obtains cat s where "run_ingestion demo_service demo_deliveries empty_catalogue = (cat, Some s)"
    and "map tf_status (cat_files cat) = [READY_FOR_NORMALIZATION, file_status.DUPLICATE]"
    and "rn_status s = ingestion_run_status.COMPLETED_WITH_WARNINGS"
  using demo_run_statuses by (auto split: prod.splits)

theorem ingestion_lives_witness:
  "\<exists>cat s. run_ingestion demo_service demo_deliveries empty_catalogue = (cat, s) \<and> s \<noteq> None
     \<and> life (tf_history (cat_files cat ! 0)) \<and> last (tf_history (cat_files cat ! 0)) = READY_FOR_NORMALIZATION"
proof -
  obtain cat s where run: "run_ingestion demo_service demo_deliveries empty_catalogue = (cat, Some s)"
    "map tf_status (cat_files cat) = [READY_FOR_NORMALIZATION, file_status.DUPLICATE]" by (rule demo_ingestion)
  then have "cat_files cat ! 0 \<in> set (cat_files cat)" "tf_status (cat_files cat ! 0) = READY_FOR_NORMALIZATION"
    by (auto simp: Cons_eq_map_conv map_eq_Cons_conv)
  then show ?thesis using ingestion_lives [OF demo_accepts run(1)] run(1) by (auto simp: empty_catalogue_def)
qed

theorem run_counters_witness:
  "\<exists>cat s. run_ingestion demo_service demo_deliveries empty_catalogue = (cat, Some s)
     \<and> files_ready s + files_duplicate s + files_quarantined s + files_failed s + files_skipped s = 3"
proof -
  obtain cat s where "run_ingestion demo_service demo_deliveries empty_catalogue = (cat, Some s)" by (rule demo_ingestion)
  then show ?thesis using run_counters by (fastforce simp: demo_deliveries_def)
qed

theorem redelivery_is_noop_witness:
  "\<exists>cat s s2. run_ingestion demo_service demo_deliveries empty_catalogue = (cat, s)
     \<and> run_ingestion demo_service demo_deliveries cat = (cat, Some s2) \<and> files_skipped s2 = 2"
proof -
  obtain cat s where run: "run_ingestion demo_service demo_deliveries empty_catalogue = (cat, Some s)" by (rule demo_ingestion)
  obtain cat2 s2 where run2: "run_ingestion demo_service demo_deliveries cat = (cat2, Some s2)"
    using run_ends [OF demo_accepts] by blast
  have "catalogue_ok empty_catalogue" by (simp add: catalogue_ok_def empty_catalogue_def)
  moreover have "length (filter (accepted demo_service) demo_deliveries) = 2" by code_simp
  ultimately show ?thesis using redelivery_is_noop [OF demo_accepts run run2] run run2 by auto
qed

theorem ready_files_sound_witness:
  "\<exists>cat s. run_ingestion demo_service demo_deliveries empty_catalogue = (cat, s)
     \<and> sound_file demo_service demo_deliveries (cat_versions cat) (cat_files cat ! 0)"
proof -
  obtain cat s where run: "run_ingestion demo_service demo_deliveries empty_catalogue = (cat, Some s)"
    "map tf_status (cat_files cat) = [READY_FOR_NORMALIZATION, file_status.DUPLICATE]" by (rule demo_ingestion)
  then have "0 < length (cat_files cat)" "tf_status (cat_files cat ! 0) = READY_FOR_NORMALIZATION"
    by (auto simp: Cons_eq_map_conv map_eq_Cons_conv)
  moreover have "ing_rules demo_service = default_registry" by (simp add: demo_service_def)
  ultimately show ?thesis using ready_files_sound [OF demo_accepts run(1)] run(1) by (auto simp: empty_catalogue_def)
qed

section \<open>Acknowledgements that fail\<close>

text \<open>A known file is never taken up again, whatever its status, FAILED included.\<close>

lemma known_unchanged:
  assumes "check_admission (ing_settings svc) d = None" and "dl_stored d = Some sb"
    and "find_file (same_file (fst sb) (dl_display_name d)) (cat_files cat) = Some i" and "\<not> dl_refuses d PROCESSED"
  shows "ingest_file svc d cat = (cat, Some (outcome_of d i True cat))"
  using assms(4) by (simp add: ingest_file_def attempt_known [OF assms(1-3)] acknowledge_def)

text \<open>When the source refuses to have it acknowledged, it is set to FAILED, past the state machine.\<close>

lemma refusal_fails_known_file:
  assumes "check_admission (ing_settings svc) d = None" and "dl_stored d = Some sb"
    and "find_file (same_file (fst sb) (dl_display_name d)) (cat_files cat) = Some i"
    and "dl_refuses d PROCESSED" and "\<not> dl_refuses d FAILED"
  shows "ingest_file svc d cat
    = (update_file i (mark_failed Not_Acknowledged) cat, Some (plain_outcome d (Some i) file_status.FAILED))"
  using assms(4,5) by (simp add: ingest_file_def attempt_known [OF assms(1-3)] acknowledge_def update_current_def)

text \<open>And when it refuses the acknowledgement of a failure too, the whole run ends there.\<close>

lemma refusal_aborts_run:
  assumes "check_admission (ing_settings svc) d = Some reason" and "dl_refuses d QUARANTINED"
  shows "run_ingestion svc (d # ds) cat = (cat, None)"
  using assms by (simp add: run_ingestion_def ingest_file_def ingest_attempt_def update_current_def)

end
