(* ===== verification/Coercion.thy ===== *)
theory Coercion
  imports FieldSpec EventTime "HOL-Library.Log_Nat"
begin

text \<open>
  Type coercion of raw telemetry cells, \<open>pipelines/normalization/coercion.py\<close>. Every caller passes
  the text of a CSV cell or nothing, so a value is a \<open>string option\<close>; the branches for values that
  are already numbers or datetimes are not reached. Integers go through \<open>float(text)\<close>, so this is the
  one place where the rounding of binary floats is modelled.
\<close>

section \<open>Binary floats\<close>

text \<open>
  The value of a Python float: a finite number, an infinity by its sign, or NaN. \<open>round64\<close> rounds an
  exact number to the nearest double, ties to even: 53 significant bits, the smallest exponent -1074
  and overflow from \<open>2 ^ 1024\<close> on. The sign of a zero is not kept.
\<close>

datatype fp_value = FNum rat | FInf bool | FNaN

definition ilog2 :: "rat \<Rightarrow> int" where
  "ilog2 x =
     (let (p, q) = quotient_of x; e = int (floorlog 2 (nat p)) - int (floorlog 2 (nat q))
      in if 2 powi e \<le> x then e else e - 1)"

definition round64 :: "rat \<Rightarrow> fp_value" where
  "round64 x =
     (if x = 0 then FNum 0
      else let u = max (ilog2 \<bar>x\<bar> - 52) (- 1074); y = of_int (round_half_even (x / 2 powi u)) * 2 powi u
           in if \<bar>y\<bar> \<ge> 2 ^ 1024 then FInf (x < 0) else FNum y)"

lemma ilog2_bounds:
  assumes "0 < x"
  shows "2 powi ilog2 x \<le> x" and "x < 2 powi (ilog2 x + 1)"
proof -
  obtain p q where pq: "quotient_of x = (p, q)" by (cases "quotient_of x")
  have q: "0 < q" using quotient_of_denom_pos [OF pq] .
  have x: "x = of_int p / of_int q" using quotient_of_div [OF pq] .
  have p: "0 < p" using assms q unfolding x by (simp add: zero_less_divide_iff)
  define a where "a = floorlog 2 (nat p)"
  define b where "b = floorlog 2 (nat q)"
  have ab: "2 ^ (a - 1) \<le> nat p" "nat p < 2 ^ a" "2 ^ (b - 1) \<le> nat q" "nat q < 2 ^ b" "0 < a" "0 < b"
    using floorlog_bounds [of "nat p" 2] floorlog_bounds [of "nat q" 2] p q
    by (auto simp: a_def b_def floorlog_def)
  have P: "2 powi (int a - 1) \<le> (of_int p :: rat)" "(of_int p :: rat) < 2 powi int a"
    and Q: "2 powi (int b - 1) \<le> (of_int q :: rat)" "(of_int q :: rat) < 2 powi int b"
  proof -
    have pow: "(2 :: rat) powi (int n - 1) = 2 ^ (n - 1)" if "0 < n" for n
      using that by (simp add: power_int_def nat_diff_distrib')
    have le: "(2 ^ k :: rat) \<le> of_int r" if "2 ^ k \<le> nat r" "0 < r" for k r
    proof -
      have "(2 :: int) ^ k \<le> r" using that by (simp add: le_nat_iff)
      then show ?thesis by (metis of_int_le_iff of_int_numeral of_int_power)
    qed
    have less: "(of_int r :: rat) < 2 ^ k" if "nat r < 2 ^ k" "0 < r" for k r
    proof -
      have "r < (2 :: int) ^ k" using that by (simp add: nat_less_iff)
      then show ?thesis by (metis of_int_less_iff of_int_numeral of_int_power)
    qed
    show "2 powi (int a - 1) \<le> (of_int p :: rat)" "2 powi (int b - 1) \<le> (of_int q :: rat)"
      using le ab p q by (simp_all add: pow)
    show "(of_int p :: rat) < 2 powi int a" "(of_int q :: rat) < 2 powi int b"
      using less ab p q by (simp_all add: power_int_def)
  qed
  have e: "ilog2 x = (if 2 powi (int a - int b) \<le> x then int a - int b else int a - int b - 1)"
    by (simp add: ilog2_def pq a_def b_def)
  have hi: "x < 2 powi (int a - int b + 1)"
  proof -
    have "x < 2 powi int a / of_int q" unfolding x using P(2) q by (simp add: divide_strict_right_mono)
    also have "\<dots> \<le> 2 powi int a / 2 powi (int b - 1)" using Q(1) q by (intro divide_left_mono) auto
    also have "\<dots> = 2 powi (int a - int b + 1)" by (simp add: power_int_diff power_int_add)
    finally show ?thesis .
  qed
  have lo: "2 powi (int a - int b - 1) < x"
  proof -
    have "2 powi (int a - int b - 1) = (2 :: rat) powi (int a - 1) / 2 powi int b" by (simp add: power_int_diff)
    also have "\<dots> \<le> of_int p / 2 powi int b" using P(1) by (simp add: divide_right_mono)
    also have "\<dots> < x" unfolding x using Q(2) p q by (intro divide_strict_left_mono) auto
    finally show ?thesis .
  qed
  show "2 powi ilog2 x \<le> x" using lo by (simp add: e)
  show "x < 2 powi (ilog2 x + 1)" using hi by (auto simp: e)
qed

text \<open>Integers of up to 53 bits are represented exactly.\<close>

lemma round64_int:
  assumes "\<bar>n\<bar> \<le> 2 ^ 53"
  shows "round64 (of_int n) = FNum (of_int n)"
proof (cases "n = 0")
  case False
  define u where "u = max (ilog2 \<bar>of_int n\<bar> - 52) (- 1074)"
  have pos: "0 < \<bar>of_int n :: rat\<bar>" using False by simp
  have "\<exists>k. (of_int n :: rat) = of_int k * 2 powi u"
  proof (cases "u \<le> 0")
    case True
    have "(of_int n :: rat) = of_int (n * 2 ^ nat (- u)) * 2 powi u"
      using True by (simp add: power_int_def power_inverse field_simps)
    then show ?thesis by blast
  next
    case u: False
    have log: "52 < ilog2 \<bar>of_int n\<bar>" using u by (simp add: u_def)
    have "(2 :: rat) powi 53 \<le> 2 powi ilog2 \<bar>of_int n\<bar>" using log by (intro power_int_increasing) auto
    also have "\<dots> \<le> \<bar>of_int n\<bar>" using ilog2_bounds(1) [OF pos] .
    finally have "(2 :: rat) ^ 53 \<le> \<bar>of_int n\<bar>" by (simp add: power_int_def)
    then have "of_int (2 ^ 53) \<le> (of_int \<bar>n\<bar> :: rat)" by simp
    then have abs: "\<bar>n\<bar> = 2 ^ 53" using assms by (simp only: of_int_le_iff)
    have "\<not> 54 \<le> ilog2 \<bar>of_int n\<bar>"
    proof
      assume "54 \<le> ilog2 \<bar>of_int n\<bar>"
      then have "(2 :: rat) powi 54 \<le> 2 powi ilog2 \<bar>of_int n\<bar>" by (intro power_int_increasing) auto
      also have "\<dots> \<le> \<bar>of_int n\<bar>" using ilog2_bounds(1) [OF pos] .
      also have "\<dots> = of_int \<bar>n\<bar>" by simp
      finally show False unfolding abs by (simp add: power_int_def)
    qed
    then have "u = 1" using log by (simp add: u_def)
    moreover have "n = (n div 2) * 2"
    proof -
      have "n = 9007199254740992 \<or> n = - 9007199254740992" using abs by (simp add: abs_if split: if_splits)
      then show ?thesis by auto
    qed
    ultimately show ?thesis by (metis of_int_mult of_int_numeral power_int_1_right)
  qed
  then obtain k where k: "(of_int n :: rat) = of_int k * 2 powi u" by blast
  have "(of_int n :: rat) / 2 powi u = of_int k" by (simp add: k)
  then have y: "of_int (round_half_even (of_int n / 2 powi u)) * 2 powi u = (of_int n :: rat)" using k by simp
  have "\<bar>of_int n :: rat\<bar> < 2 ^ 1024"
  proof -
    have "\<bar>of_int n :: rat\<bar> = of_int \<bar>n\<bar>" by simp
    also have "\<dots> \<le> of_int (2 ^ 53)" using assms by (simp only: of_int_le_iff)
    also have "\<dots> < 2 ^ 1024" by simp
    finally show ?thesis .
  qed
  then show ?thesis using False by (simp add: round64_def Let_def u_def [symmetric] y)
qed (simp add: round64_def)

lemma ilog2_eq:
  assumes "2 powi e \<le> x" and "x < 2 powi (e + 1)"
  shows "ilog2 x = e"
proof -
  have "(0 :: rat) < 2 powi e" by simp
  then have x: "0 < x" using assms(1) by linarith
  have "(2 :: rat) powi e < 2 powi (ilog2 x + 1)" "(2 :: rat) powi ilog2 x < 2 powi (e + 1)"
    using ilog2_bounds [OF x] assms by linarith+
  moreover have "(2 :: rat) powi b \<le> 2 powi a" if "b \<le> a" for a b :: int
    using that by (intro power_int_increasing) auto
  ultimately have "e < ilog2 x + 1" "ilog2 x < e + 1" by (meson not_le)+
  then show ?thesis by linarith
qed

lemma round_half_even_eq:
  assumes "\<bar>x - of_int k\<bar> < 1 / 2 \<or> \<bar>x - of_int k\<bar> = 1 / 2 \<and> even k"
  shows "round_half_even x = k"
proof -
  have "\<bar>x - of_int k\<bar> \<le> 1 / 2" using assms by auto
  then have "x < of_int k + 1" "of_int k - 1 \<le> x" by (simp_all add: abs_if split: if_splits)
  then have "\<lfloor>x\<rfloor> = k \<or> \<lfloor>x\<rfloor> = k - 1" by (cases "x < of_int k") (simp_all add: floor_eq_iff)
  then show ?thesis
  proof
    assume f: "\<lfloor>x\<rfloor> = k"
    then have "\<bar>x - of_int k\<bar> = x - of_int k" using of_int_floor_le [of x] by simp
    then show ?thesis using assms by (auto simp: round_half_even_def f Let_def)
  next
    assume f: "\<lfloor>x\<rfloor> = k - 1"
    then have "x < of_int k" using real_of_int_floor_add_one_gt floor_less_iff [of x k] by simp
    then have "\<bar>x - of_int k\<bar> = of_int k - x" by simp
    then show ?thesis using assms by (auto simp: round_half_even_def f Let_def)
  qed
qed

text \<open>Evaluating a rounding, given the exponent of the number.\<close>

lemma round64_eval:
  assumes "2 powi e \<le> \<bar>x\<bar>" and "\<bar>x\<bar> < 2 powi (e + 1)" and "u = max (e - 52) (- 1074)"
    and "\<bar>x / 2 powi u - of_int k\<bar> < 1 / 2 \<or> \<bar>x / 2 powi u - of_int k\<bar> = 1 / 2 \<and> even k"
    and "y = of_int k * 2 powi u" and "\<bar>y\<bar> < 2 ^ 1024"
  shows "round64 x = FNum y"
proof -
  have "(0 :: rat) < 2 powi e" by simp
  then have "x \<noteq> 0" using assms(1) by (metis abs_zero not_le)
  then show ?thesis using assms(6) round_half_even_eq [OF assms(4)]
    unfolding assms(3,5) round64_def ilog2_eq [OF assms(1,2)] Let_def by simp
qed

lemma milli: "round64 (1 / 1000) = FNum (1152921504606847 / 1152921504606846976)"
  by (rule round64_eval [where e = "- 10" and u = "- 62" and k = 4611686018427388])
    (simp_all add: power_int_def power_divide)

section \<open>Numbers in text\<close>

text \<open>\<open>float(text)\<close>: underscores only between digits, an infinity or NaN by name, a decimal numeral.\<close>

fun float_underscores :: "bool \<Rightarrow> string \<Rightarrow> bool" where
  "float_underscores after_digit [] = True"
| "float_underscores after_digit (c # s) =
     (if c = CHR ''_'' then after_digit \<and> s \<noteq> [] \<and> is_digit (hd s) \<and> float_underscores False s
      else float_underscores (is_digit c) s)"

definition float_number :: "string \<Rightarrow> rat option" where
  "float_number body =
     (let mant = takeWhile (\<lambda>c. \<not> is_exp_char c) body;
          whole = takeWhile (\<lambda>c. c \<noteq> CHR ''.'') mant;
          frac = drop 1 (dropWhile (\<lambda>c. c \<noteq> CHR ''.'') mant);
          ds = whole @ frac
      in if \<not> py_isdigit ds then None
         else map_option (\<lambda>x. of_nat (digits_value ds) * 10 powi (x - int (length frac)))
                (parse_exponent (dropWhile (\<lambda>c. \<not> is_exp_char c) body)))"

definition parse_float :: "string \<Rightarrow> fp_value option" where
  "parse_float text =
     (let s = py_strip text; (neg, body) = split_sign s; word = py_lower body
      in if word = ''inf'' \<or> word = ''infinity'' then Some (FInf neg)
         else if word = ''nan'' then Some FNaN
         else if \<not> float_underscores False s then None
         else map_option (\<lambda>x. round64 (if neg then - x else x)) (float_number (filter (\<lambda>c. c \<noteq> CHR ''_'') body)))"

section \<open>Coercions\<close>

definition NULL_TOKENS :: "string list" where
  "NULL_TOKENS = [''null'', ''none'', ''nan'', ''na'', ''-'']"

definition coerce_float :: "string option \<Rightarrow> fp_value option" where
  "coerce_float val =
     (case val of None \<Rightarrow> None
      | Some t \<Rightarrow> (let s = py_strip t
                   in if s = [] \<or> py_lower s \<in> set NULL_TOKENS then None else parse_float s))"

definition coerce_integer :: "string option \<Rightarrow> int option" where
  "coerce_integer val =
     (case val of None \<Rightarrow> None
      | Some t \<Rightarrow> (let s = py_strip t
                   in if s = [] \<or> py_lower s \<in> set NULL_TOKENS then None
                      else case parse_float s of
                             Some (FNum f) \<Rightarrow> (if f = of_int \<lfloor>f\<rfloor> then Some \<lfloor>f\<rfloor> else None)
                           | _ \<Rightarrow> None))"

definition coerce_boolean :: "string option \<Rightarrow> bool option" where
  "coerce_boolean val =
     (case val of None \<Rightarrow> None
      | Some t \<Rightarrow> (let s = py_lower (py_strip t)
                   in if s \<in> {''1'', ''true'', ''yes'', ''alarm'', ''trip'', ''active'', ''closed''} then Some True
                      else if s \<in> {''0'', ''false'', ''no'', ''not alarm'', ''normal'', ''inactive'', ''open''}
                      then Some False else None))"

definition coerce_string :: "string option \<Rightarrow> string option" where
  "coerce_string val =
     (case val of None \<Rightarrow> None
      | Some t \<Rightarrow> (let s = py_strip t
                   in if s = [] \<or> py_lower s \<in> {''null'', ''none'', ''nan'', ''na''} then None else Some s))"

text \<open>
  The date parsers of the standard library and the zone database are a parameter: \<open>strptime\<close> and
  \<open>fromisoformat\<close> give a wall clock in microseconds and the offset written in the text, if any.
\<close>

record time_library =
  strptime :: "string \<Rightarrow> string \<Rightarrow> (int \<times> int option) option"
  fromisoformat :: "string \<Rightarrow> (int \<times> int option) option"
  source_tz :: timezone

definition to_utc :: "time_library \<Rightarrow> int \<times> int option \<Rightarrow> datetime" where
  "to_utc lib = (\<lambda>(wall, off). case off of None \<Rightarrow> wall_to_utc (source_tz lib) wall | Some d \<Rightarrow> wall - d)"

definition datetime_formats :: "string list" where
  "datetime_formats =
     [''%d-%m-%Y %H:%M:%S'', ''%d/%m/%Y %H:%M:%S'', ''%Y-%m-%d %H:%M:%S'', ''%Y-%m-%dT%H:%M:%S'',
      ''%Y-%m-%dT%H:%M:%S%z'']"

definition coerce_datetime :: "time_library \<Rightarrow> string option \<Rightarrow> datetime option" where
  "coerce_datetime lib val =
     (case val of None \<Rightarrow> None
      | Some t \<Rightarrow> (let s = py_strip t
                   in if s = [] \<or> py_lower s \<in> set NULL_TOKENS then None
                      else case List.map_filter (strptime lib s) datetime_formats of
                             parsed # _ \<Rightarrow> Some (to_utc lib parsed)
                           | [] \<Rightarrow> map_option (to_utc lib) (fromisoformat lib s)))"

text \<open>\<open>abs(val - c) < 0.001\<close>: the difference is a float operation, and so is the literal.\<close>

definition near_sentinel :: "rat \<Rightarrow> fp_value option \<Rightarrow> bool" where
  "near_sentinel c val =
     (case val of
        Some (FNum x) \<Rightarrow>
          (case (round64 (x - c), round64 (1 / 1000)) of (FNum d, FNum eps) \<Rightarrow> \<bar>d\<bar> < eps | _ \<Rightarrow> False)
      | _ \<Rightarrow> False)"

definition is_gun_temp_sentinel :: "fp_value option \<Rightarrow> bool" where
  "is_gun_temp_sentinel val = near_sentinel 999 val"

definition is_rectifier_temp_sentinel :: "fp_value option \<Rightarrow> bool" where
  "is_rectifier_temp_sentinel val = near_sentinel (- 50) val"

definition is_smr_temp_sentinel :: "fp_value option \<Rightarrow> bool" where
  "is_smr_temp_sentinel val = near_sentinel (- 150) val"

section \<open>Integers survive up to 53 bits\<close>

lemma not_space_digit: "is_digit c \<Longrightarrow> \<not> is_space c"
  by (auto simp: is_digit_def is_space_def Let_def)

lemma strip_none: "\<forall>c\<in>set s. \<not> is_space c \<Longrightarrow> py_strip s = s"
proof -
  assume s: "\<forall>c\<in>set s. \<not> is_space c"
  have "dropWhile is_space xs = xs" if "set xs = set s" for xs using that s by (cases xs) auto
  then show "py_strip s = s" by (simp add: py_strip_def py_lstrip_def py_rstrip_def)
qed

lemma digit_chars:
  assumes "is_digit c"
  shows "\<not> is_exp_char c" and "c \<noteq> CHR ''.''" and "c \<noteq> CHR ''_''" and "c \<noteq> CHR ''-''" and "c \<noteq> CHR ''+''"
    and "lower_char c = c" and "c \<noteq> CHR ''i''" and "c \<noteq> CHR ''n''"
  using assms by (auto simp: is_digit_def is_exp_char_def lower_char_def Let_def)

lemma digits_no_underscore: "\<forall>c\<in>set s. is_digit c \<Longrightarrow> float_underscores b s"
  by (induction s arbitrary: b) (auto simp: digit_chars)

lemma float_number_digits:
  assumes ds: "\<forall>c\<in>set s. is_digit c" and "s \<noteq> []"
  shows "float_number (filter (\<lambda>c. c \<noteq> CHR ''_'') s) = Some (of_nat (digits_value s))"
proof -
  have f: "filter (\<lambda>c. c \<noteq> CHR ''_'') s = s" using ds by (intro filter_True) (auto dest: digit_chars(3))
  have t: "takeWhile (\<lambda>c. \<not> is_exp_char c) s = s" "takeWhile (\<lambda>c. c \<noteq> CHR ''.'') s = s"
    using ds by (auto simp: takeWhile_eq_all_conv digit_chars)
  have d: "dropWhile (\<lambda>c. \<not> is_exp_char c) s = []" "dropWhile (\<lambda>c. c \<noteq> CHR ''.'') s = []"
    using ds by (auto simp: dropWhile_eq_Nil_conv digit_chars)
  have "py_isdigit s" using ds \<open>s \<noteq> []\<close> by (simp add: py_isdigit_def list_all_iff)
  then show ?thesis by (simp add: float_number_def f t d parse_exponent_def)
qed

lemma int_str_shape:
  obtains ds c r where "int_str n = (if n < 0 then CHR ''-'' # ds else ds)" and "ds = c # r" and "is_digit c"
    and "\<forall>c\<in>set ds. is_digit c" and "digits_value ds = nat \<bar>n\<bar>" and "py_strip (int_str n) = int_str n"
proof -
  define ds where "ds = nat_str (nat \<bar>n\<bar>)"
  have ds: "\<forall>c\<in>set ds. is_digit c" "ds \<noteq> []" by (simp_all add: ds_def nat_str_digits)
  obtain c r where cr: "ds = c # r" using ds(2) by (cases ds) auto
  have form: "int_str n = (if n < 0 then CHR ''-'' # ds else ds)" by (simp add: int_str_def ds_def)
  have "\<not> is_space (CHR ''-'')" by (simp add: is_space_def)
  then have "py_strip (int_str n) = int_str n"
    using ds(1) not_space_digit by (intro strip_none) (auto simp: form)
  moreover have "digits_value ds = nat \<bar>n\<bar>" by (simp add: ds_def digits_value_nat_str)
  moreover have "is_digit c" using ds(1) cr by simp
  ultimately show ?thesis using that [OF form cr _ ds(1)] by simp
qed

lemma parse_float_int_str: "parse_float (int_str n) = Some (round64 (of_int n))"
proof (rule int_str_shape [of n])
  fix ds c r
  assume form: "int_str n = (if n < 0 then CHR ''-'' # ds else ds)" and cr: "ds = c # r" and c: "is_digit c"
    and ds: "\<forall>c\<in>set ds. is_digit c" and v: "digits_value ds = nat \<bar>n\<bar>" and st: "py_strip (int_str n) = int_str n"
  have sg: "split_sign (int_str n) = (n < 0, ds)" using digit_chars(4,5) [OF c] by (simp add: form cr)
  have lw: "py_lower ds = ds" using ds by (simp add: py_lower_def digit_chars(6) map_idI)
  have wd: "ds \<noteq> ''inf''" "ds \<noteq> ''infinity''" "ds \<noteq> ''nan''" using digit_chars(7,8) [OF c] by (simp_all add: cr)
  have us: "float_underscores False (int_str n)" using digits_no_underscore [OF ds] by (simp add: form)
  have "(if n < 0 then - of_nat (digits_value ds) else of_nat (digits_value ds)) = (of_int n :: rat)"
    by (simp add: v)
  moreover have "float_number (filter (\<lambda>c. c \<noteq> CHR ''_'') ds) = Some (of_nat (digits_value ds))"
    using float_number_digits [OF ds] cr by blast
  ultimately show ?thesis unfolding parse_float_def st sg Let_def prod.case lw by (simp add: wd us)
qed

lemma coerce_int_str:
  "coerce_integer (Some (int_str n)) =
     (case round64 (of_int n) of FNum f \<Rightarrow> (if f = of_int \<lfloor>f\<rfloor> then Some \<lfloor>f\<rfloor> else None) | _ \<Rightarrow> None)"
proof (rule int_str_shape [of n])
  fix ds c r
  assume form: "int_str n = (if n < 0 then CHR ''-'' # ds else ds)" and cr: "ds = c # r" and c: "is_digit c"
    and st: "py_strip (int_str n) = int_str n"
  have "py_lower (int_str n) \<notin> set NULL_TOKENS"
  proof (cases "n < 0")
    case True
    then show ?thesis by (simp add: NULL_TOKENS_def form cr py_lower_def lower_char_def)
  next
    case False
    then show ?thesis using digit_chars [OF c] by (simp add: NULL_TOKENS_def form cr py_lower_def)
  qed
  moreover have "int_str n \<noteq> []" by (simp add: form cr)
  ultimately show ?thesis by (simp add: coerce_integer_def st parse_float_int_str Let_def)
qed

text \<open>
  C36: Integers survive coercion up to 53 bits and not beyond. An integer of magnitude at most
  \<open>2 ^ 53\<close> written in decimal is read back exactly, because the text goes through a float; the
  next integer is read as its even neighbour.
\<close>

theorem coerce_integer_exact:
  "(\<bar>n\<bar> \<le> 2 ^ 53 \<longrightarrow> coerce_integer (Some (int_str n)) = Some n)
   \<and> coerce_integer (Some (int_str (2 ^ 53 + 1))) = Some (2 ^ 53)"
proof -
  have "round64 (of_int (2 ^ 53 + 1)) = FNum (2 ^ 53)"
    by (rule round64_eval [where e = 53 and u = 1 and k = 4503599627370496])
      (simp_all add: power_int_def power_divide)
  then have "coerce_integer (Some (int_str (2 ^ 53 + 1))) = Some (2 ^ 53)"
    unfolding coerce_int_str by (simp add: floor_numeral)
  moreover have "coerce_integer (Some (int_str n)) = Some n" if "\<bar>n\<bar> \<le> 2 ^ 53"
    unfolding coerce_int_str round64_int [OF that] by simp
  ultimately show ?thesis by blast
qed

theorem coerce_integer_exact_witness: "coerce_integer (Some (int_str 456)) = Some 456"
  using coerce_integer_exact [of 456] by simp
text \<open>An integral reading is taken for a sentinel exactly when it is its value.\<close>

lemma near_sentinel_int:
  assumes "\<bar>n - c\<bar> \<le> 2 ^ 53"
  shows "near_sentinel (of_int c) (Some (FNum (of_int n))) \<longleftrightarrow> n = c"
proof -
  have "round64 (of_int n - of_int c) = FNum (of_int (n - c))" using round64_int [OF assms] by simp
  moreover have "\<bar>of_int (n - c)\<bar> < (1152921504606847 / 1152921504606846976 :: rat) \<longleftrightarrow> n = c"
  proof
    assume "\<bar>of_int (n - c)\<bar> < (1152921504606847 / 1152921504606846976 :: rat)"
    then have "\<bar>of_int (n - c)\<bar> < (1 :: rat)" by simp
    then have "of_int \<bar>n - c\<bar> < (of_int 1 :: rat)" by simp
    then show "n = c" by (simp only: of_int_less_iff)
  qed simp
  ultimately show ?thesis by (simp add: near_sentinel_def milli)
qed

end
