(* ===== verification/Payload.thy ===== *)
theory Payload
  imports Coercion Dictionary
begin

text \<open>
  Resolution of the canonical frame payload, \<open>pipelines/normalization/payload_resolver.py\<close>: the rows that
  contributed to a frame are resolved field by field into the typed Silver sections. Cells are texts
  (the rows come from \<open>csv.reader\<close>), so \<open>str(v)\<close> is the cell itself. The keys a payload merely passes on
  (frame, charger, time, sequence and file identifiers) are left out; every dict of the code is an
  association list in insertion order.
\<close>

section \<open>Resolutions\<close>

datatype py_value = VFloat fp_value | VInt int | VBool bool | VTime datetime | VText string

record field_resolution =
  rs_canonical :: string
  rs_position :: nat
  rs_raw :: "string option"
  rs_value :: "py_value option"
  rs_transformation :: string
  rs_masked :: bool
  rs_conflict :: bool
  rs_conflict_values :: "string list"

type_synonym bronze_row = "(string, string) pydict"

definition GUN_TEMP_FIELDS :: "string list" where
  "GUN_TEMP_FIELDS = [''gun_temp_dc_positive'', ''gun_temp_dc_negative'']"

definition RECTIFIER_TEMP_FIELDS :: "string list" where
  "RECTIFIER_TEMP_FIELDS = [''rectifier_internal_temp'', ''rect_max_temperature'']"

definition SMR_TEMP_FIELDS :: "string list" where
  "SMR_TEMP_FIELDS =
     [''smr_dc_dc_temperature'', ''smr_pfc_temperature'', ''smr_rectifierinternal_temp'', ''smrdcdc_temperature'',
      ''smrpfc_temperature'']"

definition coerce_value :: "time_library \<Rightarrow> string \<Rightarrow> field_spec \<Rightarrow> py_value option \<times> bool \<times> string" where
  "coerce_value lib raw spec =
     (let cname = fs_canonical_name spec
      in case fs_data_type spec of
           FLOAT \<Rightarrow>
             (let val = coerce_float (Some raw)
              in if cname \<in> set GUN_TEMP_FIELDS \<and> is_gun_temp_sentinel val
                 then (None, True, ''SENTINEL_GUN_TEMP_DISCONNECTED'')
                 else if cname \<in> set RECTIFIER_TEMP_FIELDS \<and> is_rectifier_temp_sentinel val
                 then (None, True, ''SENTINEL_RECTIFIER_TEMP_UNINITIALIZED'')
                 else if cname \<in> set SMR_TEMP_FIELDS \<and> is_smr_temp_sentinel val
                 then (None, True, ''SENTINEL_SMR_TEMP_UNAVAILABLE'')
                 else (map_option VFloat val, False, ''COERCE_FLOAT''))
         | INTEGER \<Rightarrow> (map_option VInt (coerce_integer (Some raw)), False, ''COERCE_INT'')
         | BOOLEAN \<Rightarrow> (map_option VBool (coerce_boolean (Some raw)), False, ''COERCE_BOOL'')
         | DATETIME \<Rightarrow> (map_option VTime (coerce_datetime lib (Some raw)), False, ''COERCE_DATETIME'')
         | _ \<Rightarrow> (map_option VText (coerce_string (Some raw)), False, ''COERCE_STRING''))"

text \<open>The present values of a field: stripped, null words dropped.\<close>

definition cell :: "string \<Rightarrow> field_spec \<Rightarrow> bronze_row \<Rightarrow> string option" where
  "cell header spec row =
     (case map_of row header of Some v \<Rightarrow> Some v | None \<Rightarrow> map_of row (fs_canonical_name spec))"

definition present :: "string option \<Rightarrow> string option" where
  "present v =
     (case v of None \<Rightarrow> None
      | Some t \<Rightarrow> (let s = py_strip t
                   in if s \<noteq> [] \<and> py_lower s \<notin> {''null'', ''none'', ''nan'', ''na''} then Some s else None))"

definition raw_values :: "string \<Rightarrow> field_spec \<Rightarrow> bronze_row list \<Rightarrow> string list" where
  "raw_values header spec rows = List.map_filter (\<lambda>r. present (cell header spec r)) rows"

definition resolve_scalar ::
    "time_library \<Rightarrow> nat \<Rightarrow> string \<Rightarrow> field_spec \<Rightarrow> bronze_row list \<Rightarrow> field_resolution" where
  "resolve_scalar lib pos header spec rows =
     (let raw_vals = raw_values header spec rows;
          unique_vals = sort (remdups raw_vals)
      in if raw_vals = []
         then \<lparr>rs_canonical = fs_canonical_name spec, rs_position = pos, rs_raw = None, rs_value = None,
               rs_transformation = ''NULL'', rs_masked = False, rs_conflict = False, rs_conflict_values = []\<rparr>
         else if length unique_vals = 1
         then (let raw = hd unique_vals; (v, masked, trans) = coerce_value lib raw spec
               in \<lparr>rs_canonical = fs_canonical_name spec, rs_position = pos, rs_raw = Some raw, rs_value = v,
                   rs_transformation = trans, rs_masked = masked, rs_conflict = False, rs_conflict_values = []\<rparr>)
         else \<lparr>rs_canonical = fs_canonical_name spec, rs_position = pos, rs_raw = Some (hd unique_vals),
               rs_value = None, rs_transformation = ''CONFLICT_MASKED'', rs_masked = False, rs_conflict = True,
               rs_conflict_values = unique_vals\<rparr>)"

section \<open>The payload of a frame\<close>

datatype silver_section =
    SITE | CHARGER_SECTION | CONNECTOR_SECTION | RECTIFIER_SECTION | SMR_SECTION | CONTACTOR_SECTION
  | ALARM_SECTION | SESSION_SECTION | COUNTER_SECTION | COMMUNICATION_SECTION | CONFIGURATION_SECTION

definition section_of_origin :: "string \<Rightarrow> silver_section option" where
  "section_of_origin orig =
     map_of [(''identity.yaml'', SITE), (''charger.yaml'', CHARGER_SECTION), (''connector.yaml'', CONNECTOR_SECTION),
             (''rectifier.yaml'', RECTIFIER_SECTION), (''smr.yaml'', SMR_SECTION),
             (''contactor.yaml'', CONTACTOR_SECTION), (''alarm.yaml'', ALARM_SECTION),
             (''session.yaml'', SESSION_SECTION), (''counters.yaml'', COUNTER_SECTION),
             (''communication.yaml'', COMMUNICATION_SECTION), (''configuration.yaml'', CONFIGURATION_SECTION)] orig"

record conflict_entry =
  cf_field :: string
  cf_position :: nat
  cf_scope :: "(string \<times> int) option"
  cf_type :: string
  cf_values :: "string list"

record sentinel_entry =
  sm_field :: string
  sm_position :: nat
  sm_scope :: "string \<times> int"
  sm_raw :: "string option"

type_synonym section_data = "(string, field_resolution) pydict"

record resolved_frame_payload =
  site_metadata :: section_data
  charger_telemetry :: section_data
  connector_telemetry :: "(int, section_data) pydict"
  rectifier_telemetry :: "(int, section_data) pydict"
  smr_telemetry :: "(int, section_data) pydict"
  contactor_observation :: section_data
  alarm_observation :: section_data
  session_observation :: "(int, section_data) pydict"
  lifecycle_counters :: section_data
  communication_observation :: section_data
  configuration_snapshot :: section_data
  payload_conflicts :: "conflict_entry list"
  sentinels_masked :: "sentinel_entry list"

definition empty_payload :: resolved_frame_payload where
  "empty_payload =
     \<lparr>site_metadata = [], charger_telemetry = [], connector_telemetry = [], rectifier_telemetry = [],
      smr_telemetry = [], contactor_observation = [], alarm_observation = [], session_observation = [],
      lifecycle_counters = [], communication_observation = [], configuration_snapshot = [],
      payload_conflicts = [], sentinels_masked = []\<rparr>"

text \<open>\<open>row.get(a) or row.get(b)\<close>, and the unit number of a row: anything unreadable, and zero, is 1.\<close>

definition first_truthy :: "bronze_row \<Rightarrow> string \<Rightarrow> string \<Rightarrow> string option" where
  "first_truthy row a b =
     (case map_of row a of Some v \<Rightarrow> (if v \<noteq> [] then Some v else map_of row b) | None \<Rightarrow> map_of row b)"

definition unit_number :: "string \<Rightarrow> string \<Rightarrow> bronze_row \<Rightarrow> int" where
  "unit_number a b row =
     (case coerce_integer (first_truthy row a b) of None \<Rightarrow> 1 | Some n \<Rightarrow> if n = 0 then 1 else n)"

definition connector_of :: "bronze_row \<Rightarrow> int" where
  "connector_of = unit_number ''Connector No'' ''connector_no''"

definition rectifier_of :: "bronze_row \<Rightarrow> int" where
  "rectifier_of = unit_number ''Rectifier Number'' ''rectifier_number''"

definition smr_of :: "bronze_row \<Rightarrow> int" where
  "smr_of = unit_number ''Smr No.'' ''smr_no''"

text \<open>The definitions of the header positions, in order.\<close>

definition STOP_REASON_HEADER :: string where
  "STOP_REASON_HEADER = ''Last Charge Session Stop Reason''"

fun header_specs ::
    "dictionary_registry \<Rightarrow> (string, nat) pydict \<Rightarrow> nat \<Rightarrow> string list \<Rightarrow> (nat \<times> string \<times> field_spec) list" where
  "header_specs reg counts pos [] = []"
| "header_specs reg counts pos (h # hs) =
     (let n = dict_get counts h 0 + 1;
          occ = (if h = STOP_REASON_HEADER \<and> pos > 150 then 2 else int n)
      in (pos, h, dr_spec (resolve_field reg h occ pos h))
         # header_specs reg (AList.update h n counts) (pos + 1) hs)"

definition put_field :: "field_resolution \<Rightarrow> section_data \<Rightarrow> section_data" where
  "put_field res d = AList.update (rs_canonical res) res d"

definition put_unit :: "int \<Rightarrow> field_resolution \<Rightarrow> (int, section_data) pydict \<Rightarrow> (int, section_data) pydict" where
  "put_unit i res d = AList.update i (put_field res (dict_get d i [])) d"

definition conflict_of :: "string \<Rightarrow> (string \<times> int) option \<Rightarrow> field_resolution \<Rightarrow> conflict_entry list" where
  "conflict_of kind scope res =
     (if rs_conflict res
      then [\<lparr>cf_field = rs_canonical res, cf_position = rs_position res, cf_scope = scope, cf_type = kind,
             cf_values = rs_conflict_values res\<rparr>]
      else [])"

definition sentinel_of :: "string \<times> int \<Rightarrow> field_resolution \<Rightarrow> sentinel_entry list" where
  "sentinel_of scope res =
     (if rs_masked res
      then [\<lparr>sm_field = rs_canonical res, sm_position = rs_position res, sm_scope = scope, sm_raw = rs_raw res\<rparr>]
      else [])"

text \<open>The rows of a frame with their groups, in order of first appearance.\<close>

record frame_rows =
  all_rows :: "bronze_row list"
  rows_by_connector :: "(int, bronze_row list) pydict"
  rows_by_rectifier :: "(int, bronze_row list) pydict"
  rows_by_smr :: "(int, bronze_row list) pydict"

definition group_rows :: "bronze_row list \<Rightarrow> frame_rows" where
  "group_rows rows =
     \<lparr>all_rows = rows, rows_by_connector = group_on connector_of rows, rows_by_rectifier = group_on rectifier_of rows,
      rows_by_smr = group_on smr_of rows\<rparr>"

text \<open>Which connectors a session field is kept for.\<close>

definition session_field_applies :: "string \<Rightarrow> int \<Rightarrow> bool" where
  "session_field_applies cname i =
     (\<not> (cname = ''last_charge_session_stop_reason'' \<and> i \<noteq> 1)
      \<and> \<not> (cname = ''last_charge_session_stop_reason_secondary'' \<and> i \<noteq> 2))"

text \<open>The units a field is resolved for, each with its rows.\<close>

definition units_of :: "silver_section \<Rightarrow> string \<Rightarrow> frame_rows \<Rightarrow> (int, bronze_row list) pydict" where
  "units_of sec cname fr =
     (case sec of
        CONNECTOR_SECTION \<Rightarrow> rows_by_connector fr
      | RECTIFIER_SECTION \<Rightarrow> rows_by_rectifier fr
      | SMR_SECTION \<Rightarrow> rows_by_smr fr
      | SESSION_SECTION \<Rightarrow> filter (\<lambda>(i, rows). session_field_applies cname i) (rows_by_connector fr)
      | _ \<Rightarrow> [])"

definition put_units ::
    "(bronze_row list \<Rightarrow> field_resolution) \<Rightarrow> (int, bronze_row list) pydict \<Rightarrow> (int, section_data) pydict
     \<Rightarrow> (int, section_data) pydict" where
  "put_units resolve us d = foldl (\<lambda>d (i, rows). put_unit i (resolve rows) d) d us"

text \<open>One header position: what the loop body of \<open>resolve_frame\<close> does with it.\<close>

definition position_step ::
    "time_library \<Rightarrow> frame_rows \<Rightarrow> resolved_frame_payload \<Rightarrow> nat \<times> string \<times> field_spec \<Rightarrow> resolved_frame_payload" where
  "position_step lib fr p = (\<lambda>(pos, h, spec).
     (let resolve = resolve_scalar lib pos h spec; res = resolve (all_rows fr); cname = fs_canonical_name spec
      in case section_of_origin (fs_origin spec) of
           None \<Rightarrow> p
         | Some SITE \<Rightarrow>
             (if cname = ''charging_station'' then p\<lparr>site_metadata := put_field res (site_metadata p)\<rparr> else p)
         | Some CHARGER_SECTION \<Rightarrow>
             p\<lparr>charger_telemetry := put_field res (charger_telemetry p),
               payload_conflicts := payload_conflicts p @ conflict_of ''REPEATED_FIELD_CONFLICT'' None res\<rparr>
         | Some CONNECTOR_SECTION \<Rightarrow>
             (let us = units_of CONNECTOR_SECTION cname fr
              in p\<lparr>connector_telemetry := put_units resolve us (connector_telemetry p),
                   sentinels_masked := sentinels_masked p
                     @ concat (map (\<lambda>(i, rows). sentinel_of (''connector_id'', i) (resolve rows)) us),
                   payload_conflicts := payload_conflicts p
                     @ concat (map (\<lambda>(i, rows). conflict_of ''CONNECTOR_FIELD_CONFLICT'' (Some (''connector_id'', i))
                                                  (resolve rows)) us)\<rparr>)
         | Some RECTIFIER_SECTION \<Rightarrow>
             (let us = units_of RECTIFIER_SECTION cname fr
              in p\<lparr>rectifier_telemetry := put_units resolve us (rectifier_telemetry p),
                   sentinels_masked := sentinels_masked p
                     @ concat (map (\<lambda>(i, rows). sentinel_of (''rectifier_id'', i) (resolve rows)) us),
                   payload_conflicts := payload_conflicts p
                     @ concat (map (\<lambda>(i, rows). conflict_of ''RECTIFIER_FIELD_CONFLICT'' (Some (''rectifier_id'', i))
                                                  (resolve rows)) us)\<rparr>)
         | Some SMR_SECTION \<Rightarrow>
             (let us = units_of SMR_SECTION cname fr
              in p\<lparr>smr_telemetry := put_units resolve us (smr_telemetry p),
                   sentinels_masked := sentinels_masked p
                     @ concat (map (\<lambda>(i, rows). sentinel_of (''smr_id'', i) (resolve rows)) us),
                   payload_conflicts := payload_conflicts p
                     @ concat (map (\<lambda>(i, rows). conflict_of ''SMR_FIELD_CONFLICT'' (Some (''smr_id'', i))
                                                  (resolve rows)) us)\<rparr>)
         | Some CONTACTOR_SECTION \<Rightarrow>
             p\<lparr>contactor_observation := put_field res (contactor_observation p),
               payload_conflicts := payload_conflicts p @ conflict_of ''REPEATED_FIELD_CONFLICT'' None res\<rparr>
         | Some ALARM_SECTION \<Rightarrow>
             p\<lparr>alarm_observation := put_field res (alarm_observation p),
               payload_conflicts := payload_conflicts p @ conflict_of ''REPEATED_FIELD_CONFLICT'' None res\<rparr>
         | Some SESSION_SECTION \<Rightarrow>
             (let us = units_of SESSION_SECTION cname fr
              in p\<lparr>session_observation := put_units resolve us (session_observation p),
                   payload_conflicts := payload_conflicts p
                     @ concat (map (\<lambda>(i, rows). conflict_of ''CONNECTOR_FIELD_CONFLICT'' (Some (''connector_id'', i))
                                                  (resolve rows)) us)\<rparr>)
         | Some COUNTER_SECTION \<Rightarrow> p\<lparr>lifecycle_counters := put_field res (lifecycle_counters p)\<rparr>
         | Some COMMUNICATION_SECTION \<Rightarrow>
             p\<lparr>communication_observation := put_field res (communication_observation p),
               payload_conflicts := payload_conflicts p @ conflict_of ''REPEATED_FIELD_CONFLICT'' None res\<rparr>
         | Some CONFIGURATION_SECTION \<Rightarrow> p\<lparr>configuration_snapshot := put_field res (configuration_snapshot p)\<rparr>))"

definition resolve_frame ::
    "time_library \<Rightarrow> dictionary_registry \<Rightarrow> string list \<Rightarrow> bronze_row list \<Rightarrow> resolved_frame_payload" where
  "resolve_frame lib reg headers rows =
     (if rows = [] then empty_payload
      else foldl (position_step lib (group_rows rows)) empty_payload (header_specs reg [] 1 headers))"

section \<open>One field\<close>

lemma rs_canonical_resolve [simp]: "rs_canonical (resolve_scalar lib pos h spec rows) = fs_canonical_name spec"
  and rs_position_resolve [simp]: "rs_position (resolve_scalar lib pos h spec rows) = pos"
  by (simp_all add: resolve_scalar_def Let_def split: prod.split)

lemma sort_remdups: "sort (remdups xs) = sorted_list_of_set (set xs)"
  by (simp add: sorted_list_of_set_sort_remdups)

text \<open>The reference: a resolution is a function of the set of present values.\<close>

definition resolution_of_set :: "time_library \<Rightarrow> nat \<Rightarrow> field_spec \<Rightarrow> string set \<Rightarrow> field_resolution" where
  "resolution_of_set lib pos spec V =
     (let raw = (if V = {} then None else Some (Min V)); agreed = (card V = 1);
          (v, masked, trans) = (if agreed then coerce_value lib (Min V) spec
                                else (None, False, if V = {} then ''NULL'' else ''CONFLICT_MASKED''))
      in \<lparr>rs_canonical = fs_canonical_name spec, rs_position = pos, rs_raw = raw, rs_value = v,
          rs_transformation = trans, rs_masked = masked, rs_conflict = (card V > 1),
          rs_conflict_values = (if card V > 1 then sorted_list_of_set V else [])\<rparr>)"

lemma resolve_scalar_set:
  "resolve_scalar lib pos h spec rows = resolution_of_set lib pos spec (set (raw_values h spec rows))"
proof -
  define V where "V = set (raw_values h spec rows)"
  have fin: "finite V" by (simp add: V_def)
  have len: "length (sort (remdups (raw_values h spec rows))) = card V"
    by (simp add: V_def card_set)
  show ?thesis
  proof (cases "V = {}")
    case True
    then have "raw_values h spec rows = []" by (simp add: V_def)
    then show ?thesis by (simp add: resolve_scalar_def resolution_of_set_def)
  next
    case False
    then have ne: "raw_values h spec rows \<noteq> []" by (auto simp: V_def)
    have hd: "hd (sorted_list_of_set V) = Min V"
      using fin False by (simp add: sorted_list_of_set_nonempty)
    have pos': "0 < card V" using fin False by (simp add: card_gt_0_iff)
    show ?thesis
    proof (cases "card V = 1")
      case True
      then show ?thesis using False ne hd len
        by (simp add: resolve_scalar_def resolution_of_set_def V_def [symmetric] sort_remdups split: prod.split)
    next
      case neq: False
      then show ?thesis using False ne hd len pos'
        by (simp add: resolve_scalar_def resolution_of_set_def V_def [symmetric] sort_remdups)
    qed
  qed
qed

section \<open>The sections of a payload\<close>

definition routed :: "silver_section \<Rightarrow> field_spec \<Rightarrow> bool" where
  "routed sec spec =
     (section_of_origin (fs_origin spec) = Some sec \<and> (sec = SITE \<longrightarrow> fs_canonical_name spec = ''charging_station''))"

lemmas step_simps = position_step_def routed_def Let_def

lemma section_steps:
  fixes x :: "nat \<times> string \<times> field_spec"
  defines "pos \<equiv> fst x" and "h \<equiv> fst (snd x)" and "spec \<equiv> snd (snd x)"
  shows "site_metadata (position_step lib fr p x) =
      (if routed SITE spec then put_field (resolve_scalar lib pos h spec (all_rows fr)) (site_metadata p) else site_metadata p)"
    and "charger_telemetry (position_step lib fr p x) =
      (if routed CHARGER_SECTION spec then put_field (resolve_scalar lib pos h spec (all_rows fr)) (charger_telemetry p)
       else charger_telemetry p)"
    and "contactor_observation (position_step lib fr p x) =
      (if routed CONTACTOR_SECTION spec
       then put_field (resolve_scalar lib pos h spec (all_rows fr)) (contactor_observation p) else contactor_observation p)"
    and "alarm_observation (position_step lib fr p x) =
      (if routed ALARM_SECTION spec then put_field (resolve_scalar lib pos h spec (all_rows fr)) (alarm_observation p)
       else alarm_observation p)"
    and "lifecycle_counters (position_step lib fr p x) =
      (if routed COUNTER_SECTION spec then put_field (resolve_scalar lib pos h spec (all_rows fr)) (lifecycle_counters p)
       else lifecycle_counters p)"
    and "communication_observation (position_step lib fr p x) =
      (if routed COMMUNICATION_SECTION spec
       then put_field (resolve_scalar lib pos h spec (all_rows fr)) (communication_observation p)
       else communication_observation p)"
    and "configuration_snapshot (position_step lib fr p x) =
      (if routed CONFIGURATION_SECTION spec
       then put_field (resolve_scalar lib pos h spec (all_rows fr)) (configuration_snapshot p)
       else configuration_snapshot p)"
  unfolding assms by (cases x; simp add: step_simps split: option.split silver_section.split)+

lemma unit_steps:
  fixes x :: "nat \<times> string \<times> field_spec"
  defines "pos \<equiv> fst x" and "h \<equiv> fst (snd x)" and "spec \<equiv> snd (snd x)"
  shows "connector_telemetry (position_step lib fr p x) =
      (if routed CONNECTOR_SECTION spec
       then put_units (resolve_scalar lib pos h spec) (units_of CONNECTOR_SECTION (fs_canonical_name spec) fr) (connector_telemetry p)
       else connector_telemetry p)"
    and "rectifier_telemetry (position_step lib fr p x) =
      (if routed RECTIFIER_SECTION spec
       then put_units (resolve_scalar lib pos h spec) (units_of RECTIFIER_SECTION (fs_canonical_name spec) fr) (rectifier_telemetry p)
       else rectifier_telemetry p)"
    and "smr_telemetry (position_step lib fr p x) =
      (if routed SMR_SECTION spec
       then put_units (resolve_scalar lib pos h spec) (units_of SMR_SECTION (fs_canonical_name spec) fr) (smr_telemetry p)
       else smr_telemetry p)"
    and "session_observation (position_step lib fr p x) =
      (if routed SESSION_SECTION spec
       then put_units (resolve_scalar lib pos h spec) (units_of SESSION_SECTION (fs_canonical_name spec) fr) (session_observation p)
       else session_observation p)"
  unfolding assms by (cases x; simp add: step_simps split: option.split silver_section.split)+

definition section_of_payload :: "silver_section \<Rightarrow> resolved_frame_payload \<Rightarrow> section_data" where
  "section_of_payload sec p =
     (case sec of SITE \<Rightarrow> site_metadata p | CHARGER_SECTION \<Rightarrow> charger_telemetry p
      | CONTACTOR_SECTION \<Rightarrow> contactor_observation p | ALARM_SECTION \<Rightarrow> alarm_observation p
      | COUNTER_SECTION \<Rightarrow> lifecycle_counters p | COMMUNICATION_SECTION \<Rightarrow> communication_observation p
      | CONFIGURATION_SECTION \<Rightarrow> configuration_snapshot p | _ \<Rightarrow> [])"

definition units_of_payload :: "silver_section \<Rightarrow> resolved_frame_payload \<Rightarrow> (int, section_data) pydict" where
  "units_of_payload sec p =
     (case sec of CONNECTOR_SECTION \<Rightarrow> connector_telemetry p | RECTIFIER_SECTION \<Rightarrow> rectifier_telemetry p
      | SMR_SECTION \<Rightarrow> smr_telemetry p | SESSION_SECTION \<Rightarrow> session_observation p | _ \<Rightarrow> [])"

definition per_unit :: "silver_section \<Rightarrow> bool" where
  "per_unit sec = (sec \<in> {CONNECTOR_SECTION, RECTIFIER_SECTION, SMR_SECTION, SESSION_SECTION})"

lemma section_step:
  "section_of_payload sec (position_step lib fr p (pos, h, spec)) =
     (if routed sec spec \<and> \<not> per_unit sec then put_field (resolve_scalar lib pos h spec (all_rows fr)) (section_of_payload sec p)
      else section_of_payload sec p)"
  by (cases sec) (simp_all add: section_of_payload_def per_unit_def section_steps)

lemma units_step:
  "units_of_payload sec (position_step lib fr p (pos, h, spec)) =
     (if routed sec spec \<and> per_unit sec
      then put_units (resolve_scalar lib pos h spec) (units_of sec (fs_canonical_name spec) fr) (units_of_payload sec p)
      else units_of_payload sec p)"
  by (cases sec) (simp_all add: units_of_payload_def per_unit_def unit_steps)

lemma map_of_put_field: "map_of (put_field res d) c = (if c = rs_canonical res then Some res else map_of d c)"
  by (simp add: put_field_def update_conv')

definition unit_field :: "(int, section_data) pydict \<Rightarrow> int \<Rightarrow> string \<Rightarrow> field_resolution option" where
  "unit_field d i c = map_of (dict_get d i []) c"

lemma unit_field_put:
  "unit_field (put_unit j res d) i c = (if i = j \<and> c = rs_canonical res then Some res else unit_field d i c)"
  by (simp add: unit_field_def put_unit_def dict_get_update map_of_put_field)

lemma unit_field_put_units:
  assumes "distinct (dict_keys us)" and "\<And>rows. rs_canonical (resolve rows) = n"
  shows "unit_field (put_units resolve us d) i c =
    (if c = n then (case map_of us i of None \<Rightarrow> unit_field d i c | Some rows \<Rightarrow> Some (resolve rows)) else unit_field d i c)"
  using assms(1) unfolding put_units_def
proof (induction us arbitrary: d)
  case (Cons u us)
  obtain j rows where u: "u = (j, rows)" by (cases u)
  have "j \<notin> set (dict_keys us)" using Cons.prems by (simp add: u)
  then have "map_of us j = None" by (simp add: map_of_eq_None_iff)
  then show ?case using Cons.prems by (simp add: u Cons.IH unit_field_put assms(2) split: option.split)
qed simp

text \<open>The last position that is routed to a section under a name.\<close>

definition source_of ::
    "silver_section \<Rightarrow> string \<Rightarrow> (nat \<times> string \<times> field_spec) list \<Rightarrow> (nat \<times> string \<times> field_spec) option" where
  "source_of sec c specs = find (\<lambda>(pos, h, spec). routed sec spec \<and> fs_canonical_name spec = c) (rev specs)"

lemma find_append: "find P (xs @ ys) = (case find P xs of None \<Rightarrow> find P ys | Some x \<Rightarrow> Some x)"
  by (induction xs) auto

lemma source_of_snoc:
  "source_of sec c (specs @ [(pos, h, spec)]) =
     (if routed sec spec \<and> fs_canonical_name spec = c then Some (pos, h, spec) else source_of sec c specs)"
  by (simp add: source_of_def)

lemma section_lookup:
  assumes "\<not> per_unit sec"
  shows "map_of (section_of_payload sec (foldl (position_step lib fr) empty_payload specs)) c =
    map_option (\<lambda>(pos, h, spec). resolve_scalar lib pos h spec (all_rows fr)) (source_of sec c specs)"
proof (induction specs rule: rev_induct)
  case Nil
  show ?case by (cases sec) (simp_all add: section_of_payload_def empty_payload_def source_of_def)
next
  case (snoc x specs)
  obtain pos h spec where x: "x = (pos, h, spec)" by (cases x)
  show ?case using snoc assms by (simp add: x section_step source_of_snoc map_of_put_field)
qed

lemma units_distinct: "distinct (dict_keys (units_of sec c (group_rows rows)))"
proof -
  have f: "distinct (map fst (filter P d))" if "distinct (map fst d)" for P and d :: "(int, bronze_row list) pydict"
    using that by (induction d) auto
  show ?thesis by (cases sec) (simp_all add: units_of_def group_rows_def group_on_distinct f)
qed

text \<open>The rows a unit is resolved from.\<close>

definition unit_rows :: "silver_section \<Rightarrow> string \<Rightarrow> int \<Rightarrow> bronze_row list \<Rightarrow> bronze_row list" where
  "unit_rows sec c i rows =
     (case sec of CONNECTOR_SECTION \<Rightarrow> filter (\<lambda>r. connector_of r = i) rows
      | RECTIFIER_SECTION \<Rightarrow> filter (\<lambda>r. rectifier_of r = i) rows
      | SMR_SECTION \<Rightarrow> filter (\<lambda>r. smr_of r = i) rows
      | SESSION_SECTION \<Rightarrow> (if session_field_applies c i then filter (\<lambda>r. connector_of r = i) rows else [])
      | _ \<Rightarrow> [])"

lemma group_on_lookup: "map_of (group_on key xs) k =
    (if filter (\<lambda>x. key x = k) xs = [] then None else Some (filter (\<lambda>x. key x = k) xs))"
proof (cases "k \<in> key ` set xs")
  case True
  then have "k \<in> set (dict_keys (group_on key xs))" unfolding group_on_keys .
  then obtain v where "map_of (group_on key xs) k = Some v" by (metis list.set_map map_of_eq_None_iff not_None_eq)
  moreover have "dict_get (group_on key xs) k [] = filter (\<lambda>x. key x = k) xs" by (rule group_on_get)
  ultimately show ?thesis using True by (auto simp: dict_get_def filter_empty_conv)
next
  case False
  then have "k \<notin> set (dict_keys (group_on key xs))" unfolding group_on_keys .
  then have "map_of (group_on key xs) k = None" by (simp add: map_of_eq_None_iff)
  then show ?thesis using False by (auto simp: filter_empty_conv)
qed

lemma map_of_filter_fst: "map_of (filter (\<lambda>(i, v). P i) d) k = (if P k then map_of d k else None)"
  by (induction d) auto

lemma units_lookup:
  "map_of (units_of sec c (group_rows rows)) i =
     (if unit_rows sec c i rows = [] then None else Some (unit_rows sec c i rows))"
  by (cases sec) (simp_all add: units_of_def unit_rows_def group_rows_def group_on_lookup map_of_filter_fst)

lemma unit_lookup:
  assumes "per_unit sec"
  shows "unit_field (units_of_payload sec (foldl (position_step lib (group_rows rows)) empty_payload specs)) i c =
    (if unit_rows sec c i rows = [] then None
     else map_option (\<lambda>(pos, h, spec). resolve_scalar lib pos h spec (unit_rows sec c i rows)) (source_of sec c specs))"
proof (induction specs rule: rev_induct)
  case Nil
  show ?case
    by (cases sec) (simp_all add: units_of_payload_def empty_payload_def source_of_def unit_field_def dict_get_def)
next
  case (snoc x specs)
  obtain pos h spec where x: "x = (pos, h, spec)" by (cases x)
  have put: "unit_field (put_units (resolve_scalar lib pos h spec) (units_of sec (fs_canonical_name spec) (group_rows rows)) d) i c =
    (if c = fs_canonical_name spec
     then (if unit_rows sec c i rows = [] then unit_field d i c
           else Some (resolve_scalar lib pos h spec (unit_rows sec c i rows)))
     else unit_field d i c)" for d
    by (subst unit_field_put_units [OF units_distinct]) (auto simp: units_lookup)
  show ?case
  proof (cases "routed sec spec")
    case True
    then show ?thesis
      using snoc assms unfolding x foldl_append foldl.simps units_step source_of_snoc by (simp add: put) auto
  next
    case False
    then show ?thesis using snoc assms by (simp add: x units_step source_of_snoc)
  qed
qed

section \<open>Conflicts\<close>

definition conflict_kind :: "silver_section \<Rightarrow> string" where
  "conflict_kind sec =
     (case sec of CONNECTOR_SECTION \<Rightarrow> ''CONNECTOR_FIELD_CONFLICT'' | SESSION_SECTION \<Rightarrow> ''CONNECTOR_FIELD_CONFLICT''
      | RECTIFIER_SECTION \<Rightarrow> ''RECTIFIER_FIELD_CONFLICT'' | SMR_SECTION \<Rightarrow> ''SMR_FIELD_CONFLICT''
      | _ \<Rightarrow> ''REPEATED_FIELD_CONFLICT'')"

definition scope_name :: "silver_section \<Rightarrow> string" where
  "scope_name sec =
     (case sec of RECTIFIER_SECTION \<Rightarrow> ''rectifier_id'' | SMR_SECTION \<Rightarrow> ''smr_id'' | _ \<Rightarrow> ''connector_id'')"

text \<open>Sections whose conflicts are recorded; the others only null the value.\<close>

definition logs_conflicts :: "silver_section \<Rightarrow> bool" where
  "logs_conflicts sec = (sec \<notin> {SITE, COUNTER_SECTION, CONFIGURATION_SECTION})"

definition position_conflicts :: "time_library \<Rightarrow> frame_rows \<Rightarrow> nat \<times> string \<times> field_spec \<Rightarrow> conflict_entry list" where
  "position_conflicts lib fr = (\<lambda>(pos, h, spec).
     (case section_of_origin (fs_origin spec) of
        None \<Rightarrow> []
      | Some sec \<Rightarrow>
          (if \<not> logs_conflicts sec then []
           else if per_unit sec
           then concat (map (\<lambda>(i, rows). conflict_of (conflict_kind sec) (Some (scope_name sec, i))
                                           (resolve_scalar lib pos h spec rows)) (units_of sec (fs_canonical_name spec) fr))
           else conflict_of (conflict_kind sec) None (resolve_scalar lib pos h spec (all_rows fr)))))"

lemma conflicts_step:
  "payload_conflicts (position_step lib fr p x) = payload_conflicts p @ position_conflicts lib fr x"
  by (cases x)
    (simp add: position_step_def position_conflicts_def Let_def logs_conflicts_def per_unit_def conflict_kind_def
      scope_name_def split: option.split silver_section.split)

lemma conflicts_fold:
  "payload_conflicts (foldl (position_step lib fr) p xs) =
     payload_conflicts p @ concat (map (position_conflicts lib fr) xs)"
  by (induction xs arbitrary: p) (simp_all add: conflicts_step)

section \<open>What a payload holds\<close>

definition payload_field :: "silver_section \<Rightarrow> int \<Rightarrow> resolved_frame_payload \<Rightarrow> string \<Rightarrow> field_resolution option" where
  "payload_field sec i p c =
     (if per_unit sec then unit_field (units_of_payload sec p) i c else map_of (section_of_payload sec p) c)"

definition section_rows :: "silver_section \<Rightarrow> string \<Rightarrow> int \<Rightarrow> bronze_row list \<Rightarrow> bronze_row list" where
  "section_rows sec c i rows = (if per_unit sec then unit_rows sec c i rows else rows)"

lemma all_rows_group [simp]: "all_rows (group_rows rows) = rows"
  by (simp add: group_rows_def)

lemma empty_payload_field [simp]: "payload_field sec i empty_payload c = None"
  by (cases sec) (simp_all add: payload_field_def empty_payload_def unit_field_def units_of_payload_def
      section_of_payload_def dict_get_def)

lemma section_rows_Nil [simp]: "section_rows sec c i [] = []"
  by (cases sec) (simp_all add: section_rows_def unit_rows_def)

lemma payload_lookup:
  "payload_field sec i (resolve_frame lib reg headers rows) c =
     (if section_rows sec c i rows = [] then None
      else map_option (\<lambda>(pos, h, spec). resolve_scalar lib pos h spec (section_rows sec c i rows))
             (source_of sec c (header_specs reg [] 1 headers)))"
proof (cases "rows = []")
  case False
  then show ?thesis
    by (cases "per_unit sec")
      (simp_all add: payload_field_def resolve_frame_def section_rows_def unit_lookup section_lookup)
qed (simp add: resolve_frame_def)

lemma findD: "find P xs = Some x \<Longrightarrow> x \<in> set xs \<and> P x"
  by (induction xs) (auto split: if_splits)

lemma readings_mem: "x \<in> set (raw_values h spec rows) \<longleftrightarrow> (\<exists>r\<in>set rows. present (cell h spec r) = Some x)"
  by (induction rows) (auto simp: raw_values_def List.map_filter_simps split: option.splits)

lemma source_ofD:
  assumes "source_of sec c specs = Some (pos, h, spec)"
  shows "(pos, h, spec) \<in> set specs" and "routed sec spec" and "fs_canonical_name spec = c"
  using findD [OF assms [unfolded source_of_def]] by auto

text \<open>
  C11: The payload of a frame is exactly the routing of its header. A section of the payload holds under
  a name the resolution of the last header position whose definition belongs to that section and has
  that name, over the rows of the unit; a unit without rows holds nothing, and a position whose
  definition comes from no Silver dictionary is in no section.
\<close>

theorem payload_routing:
  "payload_field sec i (resolve_frame lib reg headers rows) c = Some res \<longleftrightarrow>
     section_rows sec c i rows \<noteq> []
     \<and> (\<exists>pos h spec. source_of sec c (header_specs reg [] 1 headers) = Some (pos, h, spec)
          \<and> res = resolve_scalar lib pos h spec (section_rows sec c i rows))"
  by (auto simp: payload_lookup)

text \<open>
  C3: Normalization fabricates nothing. A value anywhere in a payload is the coercion of one text that
  some contributing row of its unit carries, stripped, under the header or the canonical name, and that
  no other contributing row of the unit contradicts.
\<close>

theorem no_fabrication:
  assumes "payload_field sec i (resolve_frame lib reg headers rows) c = Some res" and "rs_value res = Some v"
  shows "\<exists>h spec raw. fs_canonical_name spec = c \<and> fst (coerce_value lib raw spec) = Some v \<and> rs_raw res = Some raw
    \<and> (\<exists>r\<in>set (section_rows sec c i rows). present (cell h spec r) = Some raw)
    \<and> (\<forall>r\<in>set (section_rows sec c i rows). present (cell h spec r) \<in> {None, Some raw})"
proof -
  let ?rows = "section_rows sec c i rows"
  obtain pos h spec where src: "source_of sec c (header_specs reg [] 1 headers) = Some (pos, h, spec)"
    and res: "res = resolve_scalar lib pos h spec ?rows"
    using assms(1) by (auto simp: payload_lookup split: if_splits)
  define V where "V = set (raw_values h spec ?rows)"
  have res: "res = resolution_of_set lib pos spec V" unfolding res V_def by (rule resolve_scalar_set)
  have "card V = 1" using assms(2) by (simp add: res resolution_of_set_def Let_def split: if_splits)
  then obtain raw where V: "V = {raw}" by (rule card_1_singletonE)
  have raw: "rs_raw res = Some raw" "fst (coerce_value lib raw spec) = Some v"
    using assms(2) by (auto simp: res resolution_of_set_def V split: prod.splits)
  have mem: "x \<in> V \<longleftrightarrow> (\<exists>r\<in>set ?rows. present (cell h spec r) = Some x)" for x
    by (simp add: V_def readings_mem)
  have one: "\<exists>r\<in>set ?rows. present (cell h spec r) = Some raw" using mem [of raw] by (simp add: V)
  have all: "present (cell h spec r) \<in> {None, Some raw}" if "r \<in> set ?rows" for r
    using mem that by (cases "present (cell h spec r)") (auto simp: V)
  show ?thesis using source_ofD(3) [OF src] raw one all by blast
qed

section \<open>Recorded conflicts\<close>

lemma conflict_iff_disagree:
  "rs_conflict (resolve_scalar lib pos h spec rs) \<longleftrightarrow>
     (\<exists>a b. a \<in> set (raw_values h spec rs) \<and> b \<in> set (raw_values h spec rs) \<and> a \<noteq> b)"
proof -
  have "rs_conflict (resolve_scalar lib pos h spec rs) \<longleftrightarrow> \<not> card (set (raw_values h spec rs)) \<le> Suc 0"
    by (simp add: resolve_scalar_set resolution_of_set_def Let_def not_le split: prod.split)
  then show ?thesis by (auto simp: card_le_Suc0_iff_eq)
qed

lemma units_mem:
  "(i, rs) \<in> set (units_of sec c (group_rows rows)) \<longleftrightarrow> unit_rows sec c i rows \<noteq> [] \<and> rs = unit_rows sec c i rows"
  using units_lookup [of sec c rows i] map_of_eq_Some_iff [OF units_distinct [of sec c rows], of i rs]
  by (simp split: if_splits) auto

lemma unit_conflicts_at:
  "(\<exists>cf\<in>set (concat (map (\<lambda>(i, rs). conflict_of k (Some (s, i)) (resolve_scalar lib q h spec rs))
                       (units_of sec c (group_rows rows)))). cf_position cf = pos)
   \<longleftrightarrow> q = pos \<and> (\<exists>i. rs_conflict (resolve_scalar lib q h spec (unit_rows sec c i rows)))"
proof -
  let ?us = "units_of sec c (group_rows rows)" and ?R = "\<lambda>i. unit_rows sec c i rows"
  have concat: "(\<exists>cf\<in>set (concat (map (\<lambda>(i, rs). conflict_of k (Some (s, i)) (f rs)) us)). cf_position cf = pos)
      \<longleftrightarrow> (\<exists>(i, rs)\<in>set us. rs_conflict (f rs) \<and> rs_position (f rs) = pos)" for f us
    by (auto simp: conflict_of_def split: if_splits) force
  have ex: "(\<exists>(i, rs)\<in>set ?us. G rs) \<longleftrightarrow> (\<exists>i. ?R i \<noteq> [] \<and> G (?R i))" for G
    unfolding Bex_def split_paired_Ex prod.case units_mem by (rule iffI; elim exE conjE; simp; blast)
  have "\<not> rs_conflict (resolve_scalar lib q h spec [])"
    by (simp add: resolve_scalar_def raw_values_def List.map_filter_def)
  then have ne: "?R i \<noteq> []" if "rs_conflict (resolve_scalar lib q h spec (?R i))" for i using that by auto
  show ?thesis unfolding concat rs_position_resolve ex using ne by blast
qed

lemma position_conflicts_at:
  "(\<exists>cf\<in>set (position_conflicts lib (group_rows rows) (q, h, spec)). cf_position cf = pos) \<longleftrightarrow>
     q = pos \<and> (\<exists>sec i. section_of_origin (fs_origin spec) = Some sec \<and> logs_conflicts sec
       \<and> rs_conflict (resolve_scalar lib q h spec (section_rows sec (fs_canonical_name spec) i rows)))"
proof (cases "section_of_origin (fs_origin spec)")
  case (Some sec)
  have one: "(\<exists>cf\<in>set (conflict_of k s res). cf_position cf = pos) \<longleftrightarrow> rs_conflict res \<and> rs_position res = pos"
    for k s res by (simp add: conflict_of_def)
  have "(\<exists>cf\<in>set (position_conflicts lib (group_rows rows) (q, h, spec)). cf_position cf = pos) \<longleftrightarrow>
      q = pos \<and> (\<exists>i. rs_conflict (resolve_scalar lib q h spec (unit_rows sec (fs_canonical_name spec) i rows)))"
    if "logs_conflicts sec" "per_unit sec"
    unfolding position_conflicts_def prod.case Some option.case if_P [OF that(2)]
    using that(1) by (simp only: simp_thms if_False unit_conflicts_at)
  then show ?thesis
    by (cases "logs_conflicts sec"; cases "per_unit sec")
      (auto simp: Some one section_rows_def position_conflicts_def)
qed (simp add: position_conflicts_def)

text \<open>
  C25: Which disagreements are recorded. A conflict is recorded exactly when two contributing rows of
  one unit carry different readings of a field routed to a section that records conflicts; conflicts of
  the site, the counters and the configuration only null the value.
\<close>

theorem conflicts_recorded:
  assumes "rows \<noteq> []"
  shows "(\<exists>cf\<in>set (payload_conflicts (resolve_frame lib reg headers rows)). cf_position cf = pos) \<longleftrightarrow>
    (\<exists>h spec sec i a b. (pos, h, spec) \<in> set (header_specs reg [] 1 headers)
       \<and> section_of_origin (fs_origin spec) = Some sec \<and> logs_conflicts sec
       \<and> a \<in> set (raw_values h spec (section_rows sec (fs_canonical_name spec) i rows))
       \<and> b \<in> set (raw_values h spec (section_rows sec (fs_canonical_name spec) i rows)) \<and> a \<noteq> b)"
proof -
  have "(\<exists>cf\<in>set (payload_conflicts (resolve_frame lib reg headers rows)). cf_position cf = pos) \<longleftrightarrow>
      (\<exists>(q, h, spec)\<in>set (header_specs reg [] 1 headers).
         \<exists>cf\<in>set (position_conflicts lib (group_rows rows) (q, h, spec)). cf_position cf = pos)"
    using assms by (force simp: resolve_frame_def conflicts_fold empty_payload_def)
  then show ?thesis unfolding position_conflicts_at conflict_iff_disagree by (auto simp: Bex_def)
qed

section \<open>A concrete frame\<close>

definition demo_library :: time_library where
  "demo_library =
     \<lparr>strptime = (\<lambda>_ _. None), fromisoformat = (\<lambda>_. None), source_tz = fixed_zone 19800000000\<rparr>"

definition gun_lock :: field_spec where
  "gun_lock = (classify_field None ''Gun Lock'' 1 ''gun_lock'')
     \<lparr>fs_canonical_name := ''gun_lock'', fs_data_type := BOOLEAN, fs_origin := ''connector.yaml''\<rparr>"

definition demo_dictionary :: dictionary_registry where
  "demo_dictionary =
     \<lparr>reg_name = [], reg_revision = [], reg_units = \<lparr>unit_symbols = [], unit_dimensions = []\<rparr>,
      reg_missing_values = \<lparr>missing_tokens = [], case_insensitive_tokens = [], explicit_states = []\<rparr>,
      specs_by_identity = [], specs_by_name = [(''Gun Lock'', gun_lock)], specs_by_norm = [], reg_patterns = []\<rparr>"

lemma demo_specs: "header_specs demo_dictionary [] 1 [''Gun Lock''] = [(1, ''Gun Lock'', gun_lock)]"
  by (simp add: demo_dictionary_def resolve_field_def named_spec_def dict_get_def STOP_REASON_HEADER_def)

lemma demo_rows: "section_rows CONNECTOR_SECTION c 1 [[(''Gun Lock'', a)], [(''Gun Lock'', b)]] =
    [[(''Gun Lock'', a)], [(''Gun Lock'', b)]]"
  by (simp add: section_rows_def per_unit_def unit_rows_def connector_of_def unit_number_def first_truthy_def
      coerce_integer_def)

lemma demo_readings:
  "raw_values ''Gun Lock'' gun_lock [[(''Gun Lock'', '' closed '')], [(''Gun Lock'', ''NULL'')]] = [''closed'']"
  "raw_values ''Gun Lock'' gun_lock [[(''Gun Lock'', ''closed'')], [(''Gun Lock'', ''open'')]] = [''closed'', ''open'']"
proof -
  have p: "present (Some '' closed '') = Some ''closed''" "present (Some ''NULL'') = None"
    "present (Some ''closed'') = Some ''closed''" "present (Some ''open'') = Some ''open''" by code_simp+
  show "raw_values ''Gun Lock'' gun_lock [[(''Gun Lock'', '' closed '')], [(''Gun Lock'', ''NULL'')]] = [''closed'']"
    and "raw_values ''Gun Lock'' gun_lock [[(''Gun Lock'', ''closed'')], [(''Gun Lock'', ''open'')]] = [''closed'', ''open'']"
    by (simp_all add: raw_values_def cell_def List.map_filter_simps p)
qed

lemma demo_source: "source_of CONNECTOR_SECTION ''gun_lock'' [(1, ''Gun Lock'', gun_lock)] = Some (1, ''Gun Lock'', gun_lock)"
  by (simp add: source_of_def routed_def section_of_origin_def gun_lock_def)

lemma gun_lock_value:
  "coerce_value lib raw gun_lock = (map_option VBool (coerce_boolean (Some raw)), False, ''COERCE_BOOL'')"
  by (simp add: coerce_value_def gun_lock_def)

theorem no_fabrication_witness:
  "\<exists>h spec raw. fs_canonical_name spec = ''gun_lock'' \<and> fst (coerce_value demo_library raw spec) = Some (VBool True)
     \<and> (\<exists>r\<in>set [[(''Gun Lock'', '' closed '')], [(''Gun Lock'', ''NULL'')]]. present (cell h spec r) = Some raw)"
proof -
  let ?rows = "[[(''Gun Lock'', '' closed '')], [(''Gun Lock'', ''NULL'')]]"
  define res where "res = resolve_scalar demo_library 1 ''Gun Lock'' gun_lock ?rows"
  have "payload_field CONNECTOR_SECTION 1 (resolve_frame demo_library demo_dictionary [''Gun Lock''] ?rows) ''gun_lock'' = Some res"
    by (simp add: payload_lookup demo_specs [simplified] demo_source [simplified] demo_rows res_def)
  moreover have "coerce_boolean (Some ''closed'') = Some True" by code_simp
  then have "rs_value res = Some (VBool True)"
    by (simp add: res_def resolve_scalar_def demo_readings gun_lock_value)
  ultimately show ?thesis using no_fabrication [of CONNECTOR_SECTION 1 demo_library demo_dictionary "[''Gun Lock'']" ?rows]
    unfolding demo_rows by blast
qed

theorem conflicts_recorded_witness:
  "\<exists>cf\<in>set (payload_conflicts (resolve_frame demo_library demo_dictionary [''Gun Lock'']
       [[(''Gun Lock'', ''closed'')], [(''Gun Lock'', ''open'')]])). cf_position cf = 1"
proof -
  let ?rows = "[[(''Gun Lock'', ''closed'')], [(''Gun Lock'', ''open'')]]"
  have name: "fs_canonical_name gun_lock = ''gun_lock''" by (simp add: gun_lock_def)
  have "section_of_origin (fs_origin gun_lock) = Some CONNECTOR_SECTION" "logs_conflicts CONNECTOR_SECTION"
    by (simp_all add: section_of_origin_def gun_lock_def logs_conflicts_def)
  moreover have "''closed'' \<in> set (raw_values ''Gun Lock'' gun_lock (section_rows CONNECTOR_SECTION (fs_canonical_name gun_lock) 1 ?rows))"
    "''open'' \<in> set (raw_values ''Gun Lock'' gun_lock (section_rows CONNECTOR_SECTION (fs_canonical_name gun_lock) 1 ?rows))"
    by (simp_all add: demo_rows demo_readings name)
  moreover have "(1, ''Gun Lock'', gun_lock) \<in> set (header_specs demo_dictionary [] 1 [''Gun Lock''])"
    unfolding demo_specs by simp
  moreover have "?rows \<noteq> []" "''closed'' \<noteq> ''open''" by simp_all
  ultimately show ?thesis by (subst conflicts_recorded) blast+
qed

end
