(* ===== verification/SilverModels.thy ===== *)
theory SilverModels
  imports Prelude
begin

text \<open>
  The declarative models of the Silver layer, \<open>backend/app/models/silver_telemetry.py\<close>: per class its
  table with columns (name, SQL type, nullable), foreign keys, unique constraint and indexes, in the order
  of the class body, each with the name the class gives it, if any. \<open>with_mixins\<close> adds what
  \<open>UUIDPrimaryKeyMixin\<close> and \<open>TimestampMixin\<close> of \<open>backend/app/db/base.py\<close> contribute, and \<open>named\<close> the
  names of its \<open>NAMING_CONVENTION\<close>. Of a Python-side default only the column is kept (every column of the
  mixins has one). The shortening of names beyond the length a database allows is left out.
\<close>

datatype sql_type = Sql_String nat | Sql_Text | Sql_Float | Sql_Integer | Sql_Boolean | Sql_Timestamp | Sql_Json | Sql_Uuid

datatype sql_column = Column (col_name: string) (col_type: sql_type) (col_nullable: bool)

text \<open>Name, column, referenced column (\<open>table.column\<close>) and \<open>ON DELETE\<close> action.\<close>

datatype sql_foreign_key =
  Foreign_Key (fk_name: "string option") (fk_column: string) (fk_target: string) (fk_ondelete: "string option")

datatype sql_index = Index (ix_name: "string option") (ix_columns: "string list") (ix_unique: bool)

record sql_table =
  table_name :: string
  table_columns :: "sql_column list"
  primary_key :: "string option \<times> string list"
  foreign_keys :: "sql_foreign_key list"
  unique_key :: "(string option \<times> string list) option"
  table_indexes :: "sql_index list"
  python_defaults :: "string list"

definition uuid_primary_key_mixin :: "sql_column list" where
  "uuid_primary_key_mixin = [Column ''id'' Sql_Uuid False]"

definition timestamp_mixin :: "sql_column list" where
  "timestamp_mixin = [Column ''created_at'' Sql_Timestamp False, Column ''updated_at'' Sql_Timestamp False]"

definition with_mixins :: "sql_column list \<Rightarrow> sql_table \<Rightarrow> sql_table" where
  "with_mixins extra t =
     t\<lparr>table_columns := table_columns t @ extra, primary_key := (None, map col_name uuid_primary_key_mixin),
      python_defaults := python_defaults t @ map col_name extra\<rparr>"

text \<open>\<open>NAMING_CONVENTION\<close>: a constraint or index without a name is named after its table and columns.\<close>

definition given :: "string option \<Rightarrow> string \<Rightarrow> string option" where
  "given name conventional = (case name of None \<Rightarrow> Some conventional | Some n \<Rightarrow> Some n)"

definition referred_table :: "string \<Rightarrow> string" where
  "referred_table target = takeWhile (\<lambda>c. c \<noteq> CHR ''.'') target"

fun joined_names :: "string list \<Rightarrow> string" where
  "joined_names [] = []"
| "joined_names (c # cs) = CHR ''_'' # c @ joined_names cs"

fun named_foreign_key :: "string \<Rightarrow> sql_foreign_key \<Rightarrow> sql_foreign_key" where
  "named_foreign_key t (Foreign_Key n c target d) =
     Foreign_Key (given n (''fk_'' @ t @ joined_names [c, referred_table target])) c target d"

fun named_index :: "string \<Rightarrow> sql_index \<Rightarrow> sql_index" where
  "named_index t (Index n cs u) = Index (given n (''ix_'' @ t @ joined_names cs)) cs u"

definition named :: "sql_table \<Rightarrow> sql_table" where
  "named t =
     t\<lparr>primary_key := (given (fst (primary_key t)) (''pk_'' @ table_name t), snd (primary_key t)),
       foreign_keys := map (named_foreign_key (table_name t)) (foreign_keys t),
       unique_key := map_option (\<lambda>(n, cs). (given n (''uq_'' @ table_name t @ joined_names cs), cs)) (unique_key t),
       table_indexes := map (named_index (table_name t)) (table_indexes t)\<rparr>"

section \<open>The tables of the domain\<close>

definition silver_site_metadata :: sql_table where
  "silver_site_metadata =
     \<lparr>table_name = ''silver_site_metadata'',
      table_columns =
       [Column ''charger_id'' (Sql_String 128) False, Column ''event_time'' Sql_Timestamp False,
        Column ''frame_sequence'' Sql_Integer False, Column ''frame_id'' Sql_Uuid False,
        Column ''charging_station'' (Sql_String 255) True, Column ''site_address'' (Sql_String 255) True,
        Column ''site_city'' (Sql_String 128) True, Column ''site_state'' (Sql_String 128) True,
        Column ''site_pin'' (Sql_String 32) True],
      primary_key = (None, []),
      foreign_keys =
       [Foreign_Key None ''frame_id'' ''telemetry_source_frame.id'' (Some ''CASCADE'')],
      unique_key = Some (Some ''uq_silver_site_metadata'', [''charger_id'', ''event_time'', ''frame_sequence'']),
      table_indexes =
       [Index None [''charger_id''] False, Index None [''event_time''] False, Index None [''frame_id''] False],
      python_defaults = []\<rparr>"

definition silver_charger_telemetry :: sql_table where
  "silver_charger_telemetry =
     \<lparr>table_name = ''silver_charger_telemetry'',
      table_columns =
       [Column ''charger_id'' (Sql_String 128) False, Column ''event_time'' Sql_Timestamp False,
        Column ''frame_sequence'' Sql_Integer False, Column ''frame_id'' Sql_Uuid False,
        Column ''ocpp_id'' (Sql_String 128) True, Column ''l1_n_voltage'' Sql_Float True,
        Column ''l2_n_voltage'' Sql_Float True, Column ''l3_n_voltage'' Sql_Float True,
        Column ''neutral_voltage'' Sql_Float True, Column ''line_1_input_current'' Sql_Float True,
        Column ''line_2_input_current'' Sql_Float True, Column ''line_3_input_current'' Sql_Float True,
        Column ''frequency'' Sql_Float True, Column ''power_factor'' Sql_Float True,
        Column ''active_power'' Sql_Float True, Column ''l1_l2_voltage'' Sql_Float True,
        Column ''l2_l3_voltage'' Sql_Float True, Column ''l3_l1_voltage'' Sql_Float True,
        Column ''reactive_power'' Sql_Float True, Column ''active_energy'' Sql_Float True,
        Column ''reactive_energy'' Sql_Float True, Column ''apparent_energy'' Sql_Float True,
        Column ''l1_n_voltage_meter'' Sql_Float True, Column ''l2_n_voltage_meter'' Sql_Float True,
        Column ''l3_n_voltage_meter'' Sql_Float True, Column ''grid_status'' (Sql_String 255) True,
        Column ''apparent_power'' Sql_Float True, Column ''pilot_upper_tcp_interface'' (Sql_String 255) True,
        Column ''rms_enable_modified_by'' (Sql_String 255) True,
        Column ''fan_run_status'' (Sql_String 255) True, Column ''fan_set_speed'' Sql_Float True,
        Column ''system_fan_speed'' Sql_Float True, Column ''cabinet_temperature'' Sql_Float True,
        Column ''cooling_temp_sensor_1'' Sql_Float True, Column ''cooling_temp_sensor_2'' Sql_Float True,
        Column ''fan_card_status'' (Sql_String 255) True, Column ''fan_1_status'' (Sql_String 255) True,
        Column ''fan_2_status'' (Sql_String 255) True, Column ''fan_3_status'' (Sql_String 255) True,
        Column ''fan_4_status'' (Sql_String 255) True, Column ''fan_5_status'' (Sql_String 255) True,
        Column ''fan_6_status'' (Sql_String 255) True, Column ''fan_7_status'' (Sql_String 255) True,
        Column ''fan_8_status'' (Sql_String 255) True, Column ''fan_9_status'' (Sql_String 255) True,
        Column ''fan_10_status'' (Sql_String 255) True, Column ''fan_11_status'' (Sql_String 255) True,
        Column ''fan_12_status'' (Sql_String 255) True, Column ''fan_13_status'' (Sql_String 255) True,
        Column ''fan_14_status'' (Sql_String 255) True, Column ''fan_15_status'' (Sql_String 255) True,
        Column ''fan_16_status'' (Sql_String 255) True, Column ''fan_17_status'' (Sql_String 255) True,
        Column ''fan_18_status'' (Sql_String 255) True, Column ''fan_19_status'' (Sql_String 255) True,
        Column ''fan_20_status'' (Sql_String 255) True, Column ''fan_21_status'' (Sql_String 255) True,
        Column ''fan_22_status'' (Sql_String 255) True, Column ''fan_23_status'' (Sql_String 255) True,
        Column ''dc_section_fan_status'' (Sql_String 255) True,
        Column ''line_1_over_voltage'' (Sql_String 255) True,
        Column ''line_2_over_voltage'' (Sql_String 255) True,
        Column ''line_3_over_voltage'' (Sql_String 255) True,
        Column ''line_1_under_voltage'' (Sql_String 255) True,
        Column ''line_2_under_voltage'' (Sql_String 255) True,
        Column ''line_3_under_voltage'' (Sql_String 255) True,
        Column ''system_over_temperature'' (Sql_String 255) True,
        Column ''system_tilted'' (Sql_String 255) True,
        Column ''temperature_sensor_disconnected'' (Sql_String 255) True,
        Column ''mains_high'' (Sql_String 255) True, Column ''mains_low'' (Sql_String 255) True,
        Column ''sd_card_not_present'' (Sql_String 255) True,
        Column ''temperature_sensor_1_fail'' (Sql_String 255) True,
        Column ''temperature_sensor_2_fail'' (Sql_String 255) True,
        Column ''dcem_sn_duplicate'' (Sql_String 255) True, Column ''grid_over_voltage'' (Sql_String 255) True,
        Column ''grid_under_voltage'' (Sql_String 255) True, Column ''ocpp_state'' (Sql_String 255) True,
        Column ''pilot_controller_state'' (Sql_String 255) True,
        Column ''ccu_main_state'' (Sql_String 255) True, Column ''cp_voltage'' Sql_Float True,
        Column ''set_voltage'' Sql_Float True, Column ''set_current'' Sql_Float True,
        Column ''output_voltage'' Sql_Float True, Column ''output_current'' Sql_Float True,
        Column ''available_max_current'' Sql_Float True, Column ''available_max_power'' Sql_Float True,
        Column ''dc_over_voltage'' (Sql_String 255) True, Column ''e_lock_failed'' (Sql_String 255) True,
        Column ''auxillary_power_fail'' (Sql_String 255) True,
        Column ''voltage_calibration_error'' (Sql_String 255) True,
        Column ''power_section_failed'' (Sql_String 255) True, Column ''ems_output_voltage'' Sql_Float True,
        Column ''ems_output_current'' Sql_Float True, Column ''ems_output_power'' Sql_Float True,
        Column ''ac_over_voltage'' (Sql_String 255) True, Column ''ac_under_voltage'' (Sql_String 255) True,
        Column ''charging_time'' Sql_Float True, Column ''ocpp_tx_send_status'' (Sql_String 255) True,
        Column ''ev_mac_id_info'' (Sql_String 255) True, Column ''slac_attenuation'' Sql_Float True,
        Column ''discharge_abnormal'' (Sql_String 255) True, Column ''dc_side_is_off'' (Sql_String 255) True,
        Column ''mdl_protect'' (Sql_String 255) True, Column ''over_temperature'' (Sql_String 255) True,
        Column ''output_over_voltage'' (Sql_String 255) True, Column ''walk_in_enabled'' (Sql_String 255) True,
        Column ''mdl_id_repetition'' (Sql_String 255) True, Column ''load_sharing'' (Sql_String 255) True,
        Column ''input_phase_loss'' (Sql_String 255) True, Column ''input_unbalance'' (Sql_String 255) True,
        Column ''input_under_voltage'' (Sql_String 255) True,
        Column ''input_over_voltage'' (Sql_String 255) True, Column ''fuse_burn_out'' (Sql_String 255) True,
        Column ''bus_unbalanced_voltage'' (Sql_String 255) True,
        Column ''bus_over_voltage'' (Sql_String 255) True,
        Column ''bus_voltage_abnormal'' (Sql_String 255) True,
        Column ''bus_under_voltage'' (Sql_String 255) True, Column ''fan_at_full_speed'' (Sql_String 255) True,
        Column ''output_derating_temp'' (Sql_String 255) True,
        Column ''output_derating_ac'' (Sql_String 255) True, Column ''back_up_battery_voltage'' Sql_Float True,
        Column ''run_since_power_on'' Sql_Float True,
        Column ''last_charger_reboot_reason'' (Sql_String 255) True],
      primary_key = (None, []),
      foreign_keys =
       [Foreign_Key None ''frame_id'' ''telemetry_source_frame.id'' (Some ''CASCADE'')],
      unique_key = Some (Some ''uq_silver_charger_telemetry'', [''charger_id'', ''event_time'', ''frame_sequence'']),
      table_indexes =
       [Index None [''charger_id''] False, Index None [''event_time''] False, Index None [''frame_id''] False,
        Index (Some ''ix_silver_charger_telemetry_lookup'') [''charger_id'', ''event_time'', ''frame_sequence''] False],
      python_defaults = []\<rparr>"

definition silver_connector_telemetry :: sql_table where
  "silver_connector_telemetry =
     \<lparr>table_name = ''silver_connector_telemetry'',
      table_columns =
       [Column ''charger_id'' (Sql_String 128) False, Column ''connector_id'' Sql_Integer False,
        Column ''event_time'' Sql_Timestamp False, Column ''frame_sequence'' Sql_Integer False,
        Column ''frame_id'' Sql_Uuid False, Column ''gun_temp_dc_positive_raw'' Sql_Float True,
        Column ''gun_temp_dc_positive_masked'' Sql_Boolean False,
        Column ''gun_temp_dc_negative_raw'' Sql_Float True,
        Column ''gun_temp_dc_negative_masked'' Sql_Boolean False,
        Column ''connector_type'' (Sql_String 255) True, Column ''connector_status'' (Sql_String 255) True,
        Column ''plug_status'' (Sql_String 255) True, Column ''ccs_main_state'' (Sql_String 255) True,
        Column ''ccs_sub_state'' (Sql_String 255) True, Column ''gun_temp_dc_positive'' Sql_Float True,
        Column ''gun_temp_dc_negative'' Sql_Float True, Column ''gun_insertion_cycle_count'' Sql_Float True,
        Column ''gun_voltage'' Sql_Float True, Column ''gun_over_temp_warning'' (Sql_String 255) True,
        Column ''gun_over_temp_cutoff'' (Sql_String 255) True,
        Column ''gun_over_temp_dc_positive_warning'' (Sql_String 255) True,
        Column ''gun_over_temp_dc_negative_warning'' (Sql_String 255) True,
        Column ''gun_ov_temp_derating_set'' (Sql_String 255) True,
        Column ''gun_locked_by_cms'' (Sql_String 255) True,
        Column ''gun_temperature_derating_status'' (Sql_String 255) True,
        Column ''gun_dc_positive_ultra_temp'' (Sql_String 255) True,
        Column ''gun_dc_negative_ultra_temp'' (Sql_String 255) True,
        Column ''gun_dc_positive_temp_sensor_disconnect'' (Sql_String 255) True,
        Column ''gun_dc_negative_temp_sensor_disconnect'' (Sql_String 255) True,
        Column ''gun_temperature_sensor_disconnect'' (Sql_String 255) True,
        Column ''gun_dc_positive_temp_sensor_loose'' (Sql_String 255) True,
        Column ''gun_dc_negative_temp_sensor_loose'' (Sql_String 255) True,
        Column ''gun_not_placed_back_alarm'' (Sql_String 255) True,
        Column ''ccs_secc_state'' (Sql_String 255) True, Column ''ccs_secc_error_code'' (Sql_String 255) True,
        Column ''ccs_ev_error_code'' (Sql_String 255) True, Column ''gun_output_voltage'' Sql_Float True,
        Column ''gun_ccs_main_state_at_session_stop'' (Sql_String 255) True,
        Column ''gun_ccs_sub_state_at_session_stop'' (Sql_String 255) True,
        Column ''gun_insert_counter_charger_socket'' Sql_Float True,
        Column ''gun_over_temperature_counter'' Sql_Float True,
        Column ''gun_placed_in_charger_holder'' (Sql_String 255) True],
      primary_key = (None, []),
      foreign_keys =
       [Foreign_Key None ''frame_id'' ''telemetry_source_frame.id'' (Some ''CASCADE'')],
      unique_key = Some (Some ''uq_silver_connector_telemetry'', [''charger_id'', ''connector_id'', ''event_time'', ''frame_sequence'']),
      table_indexes =
       [Index None [''charger_id''] False, Index None [''connector_id''] False,
        Index None [''event_time''] False, Index None [''frame_id''] False,
        Index (Some ''ix_silver_connector_telemetry_lookup'') [''charger_id'', ''connector_id'', ''event_time'', ''frame_sequence''] False],
      python_defaults = [''connector_id'', ''gun_temp_dc_positive_masked'', ''gun_temp_dc_negative_masked'']\<rparr>"

definition silver_rectifier_telemetry :: sql_table where
  "silver_rectifier_telemetry =
     \<lparr>table_name = ''silver_rectifier_telemetry'',
      table_columns =
       [Column ''charger_id'' (Sql_String 128) False, Column ''rectifier_id'' Sql_Integer False,
        Column ''event_time'' Sql_Timestamp False, Column ''frame_sequence'' Sql_Integer False,
        Column ''frame_id'' Sql_Uuid False, Column ''rect_max_temperature_raw'' Sql_Float True,
        Column ''rect_max_temperature_masked'' Sql_Boolean False,
        Column ''rectifier_internal_temp_raw'' Sql_Float True,
        Column ''rectifier_internal_temp_masked'' Sql_Boolean False,
        Column ''rect_max_temperature'' Sql_Float True, Column ''all_rectifier_fail'' (Sql_String 255) True,
        Column ''all_rectifier_communication_fail'' (Sql_String 255) True,
        Column ''any_rect_fail'' (Sql_String 255) True, Column ''any_rect_comm_fail'' (Sql_String 255) True,
        Column ''no_of_active_rectifiers'' Sql_Float True, Column ''group_rect_fail'' (Sql_String 255) True,
        Column ''group_rect_comm_fail'' (Sql_String 255) True, Column ''gun_rect_fail'' (Sql_String 255) True,
        Column ''gun_rect_comm_fail'' (Sql_String 255) True,
        Column ''rectifier_dc_status'' (Sql_String 255) True,
        Column ''rectifier_internal_temp'' Sql_Float True, Column ''rectifier_output_voltage'' Sql_Float True,
        Column ''rectifier_output_current'' Sql_Float True,
        Column ''rectifier_available_max_voltage'' Sql_Float True,
        Column ''rectifier_available_max_current'' Sql_Float True,
        Column ''rectifier_available_max_power'' Sql_Float True,
        Column ''rectifier_output_short'' (Sql_String 255) True],
      primary_key = (None, []),
      foreign_keys =
       [Foreign_Key None ''frame_id'' ''telemetry_source_frame.id'' (Some ''CASCADE'')],
      unique_key = Some (Some ''uq_silver_rectifier_telemetry'', [''charger_id'', ''rectifier_id'', ''event_time'', ''frame_sequence'']),
      table_indexes =
       [Index None [''charger_id''] False, Index None [''rectifier_id''] False,
        Index None [''event_time''] False, Index None [''frame_id''] False,
        Index (Some ''ix_silver_rectifier_telemetry_lookup'') [''charger_id'', ''rectifier_id'', ''event_time'', ''frame_sequence''] False],
      python_defaults = [''rectifier_id'', ''rect_max_temperature_masked'', ''rectifier_internal_temp_masked'']\<rparr>"

definition silver_smr_telemetry :: sql_table where
  "silver_smr_telemetry =
     \<lparr>table_name = ''silver_smr_telemetry'',
      table_columns =
       [Column ''charger_id'' (Sql_String 128) False, Column ''smr_id'' Sql_Integer False,
        Column ''event_time'' Sql_Timestamp False, Column ''frame_sequence'' Sql_Integer False,
        Column ''frame_id'' Sql_Uuid False, Column ''smr_dc_dc_temperature_raw'' Sql_Float True,
        Column ''smr_dc_dc_temperature_masked'' Sql_Boolean False,
        Column ''smr_pfc_temperature_raw'' Sql_Float True,
        Column ''smr_pfc_temperature_masked'' Sql_Boolean False,
        Column ''smr_rectifierinternal_temp_raw'' Sql_Float True,
        Column ''smr_rectifierinternal_temp_masked'' Sql_Boolean False,
        Column ''smrdcdc_temperature_raw'' Sql_Float True,
        Column ''smrdcdc_temperature_masked'' Sql_Boolean False,
        Column ''smrpfc_temperature_raw'' Sql_Float True,
        Column ''smrpfc_temperature_masked'' Sql_Boolean False, Column ''smr_set_voltage'' Sql_Float True,
        Column ''smr_set_current'' Sql_Float True, Column ''smr_available_current'' Sql_Float True,
        Column ''smr_max_power'' Sql_Float True, Column ''smr_dc_dc_temperature'' Sql_Float True,
        Column ''smr_pfc_temperature'' Sql_Float True, Column ''smr_hardware_version'' (Sql_String 255) True,
        Column ''smr_software_version'' (Sql_String 255) True,
        Column ''pfc_side_abnormal'' (Sql_String 255) True, Column ''pfc_side_is_off'' (Sql_String 255) True,
        Column ''pfc_dcdc_comm_fail'' (Sql_String 255) True,
        Column ''pfc_eeprom_faults'' (Sql_String 255) True, Column ''smr_mapped_gun'' Sql_Float True,
        Column ''smr_group_id'' (Sql_String 255) True, Column ''smr_output_voltage'' Sql_Float True,
        Column ''smr_output_current'' Sql_Float True, Column ''smr_output_power'' Sql_Float True,
        Column ''smr_available_max_current'' Sql_Float True, Column ''smr_available_max_power'' Sql_Float True,
        Column ''smr_rectifier_d_cstatus'' (Sql_String 255) True,
        Column ''smr_rectifierinternal_temp'' Sql_Float True, Column ''smrdcdc_temperature'' Sql_Float True,
        Column ''smrpfc_temperature'' Sql_Float True, Column ''smr_available_max_voltage'' Sql_Float True,
        Column ''smr_rated_maximum_current'' Sql_Float True, Column ''smr_rated_maximum_power'' Sql_Float True,
        Column ''smr_module_hardware_version'' Sql_Float True,
        Column ''smr_module_software_version'' (Sql_String 255) True, Column ''smrpfc_ver'' Sql_Float True,
        Column ''smr_line1_voltage'' Sql_Float True, Column ''smr_line2_voltage'' Sql_Float True,
        Column ''smr_line3_voltage'' Sql_Float True, Column ''smr_rated_minimum_voltage'' Sql_Float True,
        Column ''smr_rated_maximum_voltage'' Sql_Float True, Column ''smr_fan_speed'' Sql_Float True,
        Column ''smr_output_short'' (Sql_String 255) True,
        Column ''smr_inner_comm_interrupt'' (Sql_String 255) True,
        Column ''smr_pfc_side_abnormal'' (Sql_String 255) True,
        Column ''smr_discharge_abnormal'' (Sql_String 255) True,
        Column ''smr_dc_side_is_off'' (Sql_String 255) True, Column ''smr_mdl_fault'' (Sql_String 255) True,
        Column ''smr_mdl_protect'' (Sql_String 255) True, Column ''smr_fan_fault'' (Sql_String 255) True,
        Column ''smr_over_temperature'' (Sql_String 255) True,
        Column ''smr_output_over_voltage'' (Sql_String 255) True,
        Column ''smr_walk_in_enable'' (Sql_String 255) True,
        Column ''smr_can_communication_interrupt'' (Sql_String 255) True,
        Column ''smr_power_limit'' (Sql_String 255) True,
        Column ''smr_dl_id_repetition'' (Sql_String 255) True,
        Column ''smr_load_sharing'' (Sql_String 255) True,
        Column ''smr_input_phase_loss'' (Sql_String 255) True,
        Column ''smr_input_unbalance'' (Sql_String 255) True,
        Column ''smr_input_under_voltage'' (Sql_String 255) True,
        Column ''smr_input_over_voltage'' (Sql_String 255) True,
        Column ''smr_pfc_side_is_off'' (Sql_String 255) True,
        Column ''smr_fuse_burn_out'' (Sql_String 255) True,
        Column ''smr_pfc_dcdc_comm_fail'' (Sql_String 255) True,
        Column ''smr_bus_unbalanced_voltage'' (Sql_String 255) True,
        Column ''smr_bus_over_voltage'' (Sql_String 255) True,
        Column ''smr_bus_voltage_abnormal'' (Sql_String 255) True,
        Column ''smr_bus_under_voltage'' (Sql_String 255) True,
        Column ''smr_fan_at_full_speed'' (Sql_String 255) True,
        Column ''smr_output_derating_temp'' (Sql_String 255) True,
        Column ''smr_output_derating_ac'' (Sql_String 255) True,
        Column ''smr_dcdc_eeprom_faults'' (Sql_String 255) True,
        Column ''smr_pfc_eeprom_faults'' (Sql_String 255) True,
        Column ''smr_module_fail'' (Sql_String 255) True,
        Column ''smr_module_comm_fail'' (Sql_String 255) True, Column ''in_pfc_1'' (Sql_String 255) True,
        Column ''in_pfc_2'' (Sql_String 255) True, Column ''in_pfc_3'' (Sql_String 255) True,
        Column ''in_pfc_4'' (Sql_String 255) True, Column ''in_pfc_5'' (Sql_String 255) True,
        Column ''in_pfc_6'' (Sql_String 255) True, Column ''in_pfc_7'' (Sql_String 255) True,
        Column ''in_pfc_8'' (Sql_String 255) True, Column ''in_pfc_9'' (Sql_String 255) True,
        Column ''in_pfc_10'' (Sql_String 255) True, Column ''in_pfc_11'' (Sql_String 255) True,
        Column ''in_pfc_12'' (Sql_String 255) True, Column ''out_pfc_1'' (Sql_String 255) True,
        Column ''out_pfc_2'' (Sql_String 255) True, Column ''out_pfc_3'' (Sql_String 255) True,
        Column ''out_pfc_4'' (Sql_String 255) True, Column ''out_pfc_5'' (Sql_String 255) True,
        Column ''out_pfc_6'' (Sql_String 255) True, Column ''out_pfc_7'' (Sql_String 255) True,
        Column ''out_pfc_8'' (Sql_String 255) True, Column ''out_pfc_9'' (Sql_String 255) True,
        Column ''out_pfc_10'' (Sql_String 255) True, Column ''out_pfc_11'' (Sql_String 255) True,
        Column ''out_pfc_12'' (Sql_String 255) True, Column ''floating_smr1_fail'' (Sql_String 255) True,
        Column ''floating_smr1_group_fail'' (Sql_String 255) True,
        Column ''floating_smr1_comm_fail'' (Sql_String 255) True,
        Column ''floating_smr1_group_comm_fail'' (Sql_String 255) True,
        Column ''floating_smr2_fail'' (Sql_String 255) True,
        Column ''floating_smr2_group_fail'' (Sql_String 255) True,
        Column ''floating_smr2_comm_fail'' (Sql_String 255) True,
        Column ''floating_smr2_group_comm_fail'' (Sql_String 255) True,
        Column ''floating_smr3_fail'' (Sql_String 255) True,
        Column ''floating_smr3_group_fail'' (Sql_String 255) True,
        Column ''floating_smr3_comm_fail'' (Sql_String 255) True,
        Column ''floating_smr3_group_comm_fail'' (Sql_String 255) True,
        Column ''floating_smr4_fail'' (Sql_String 255) True,
        Column ''floating_smr4_group_fail'' (Sql_String 255) True,
        Column ''floating_smr4_comm_fail'' (Sql_String 255) True,
        Column ''floating_smr4_group_comm_fail'' (Sql_String 255) True,
        Column ''smr_fail_count'' Sql_Float True, Column ''smr_comm_fail_count'' Sql_Float True,
        Column ''guna_smr_fail_count'' Sql_Float True, Column ''guna_smr_comm_fail_count'' Sql_Float True,
        Column ''gunb_smr_fail_count'' Sql_Float True, Column ''gunb_smr_comm_fail_count'' Sql_Float True,
        Column ''fr1_smr_fail_count'' Sql_Float True, Column ''fr1_smr_comm_fail_count'' Sql_Float True,
        Column ''fr2_smr_fail_count'' Sql_Float True, Column ''fr2_smr_comm_fail_count'' Sql_Float True],
      primary_key = (None, []),
      foreign_keys =
       [Foreign_Key None ''frame_id'' ''telemetry_source_frame.id'' (Some ''CASCADE'')],
      unique_key = Some (Some ''uq_silver_smr_telemetry'', [''charger_id'', ''smr_id'', ''event_time'', ''frame_sequence'']),
      table_indexes =
       [Index None [''charger_id''] False, Index None [''smr_id''] False, Index None [''event_time''] False,
        Index None [''frame_id''] False,
        Index (Some ''ix_silver_smr_telemetry_lookup'') [''charger_id'', ''smr_id'', ''event_time'', ''frame_sequence''] False],
      python_defaults = [''smr_id'', ''smr_dc_dc_temperature_masked'', ''smr_pfc_temperature_masked'',
        ''smr_rectifierinternal_temp_masked'', ''smrdcdc_temperature_masked'', ''smrpfc_temperature_masked'']\<rparr>"

definition silver_contactor_observation :: sql_table where
  "silver_contactor_observation =
     \<lparr>table_name = ''silver_contactor_observation'',
      table_columns =
       [Column ''charger_id'' (Sql_String 128) False, Column ''event_time'' Sql_Timestamp False,
        Column ''frame_sequence'' Sql_Integer False, Column ''frame_id'' Sql_Uuid False,
        Column ''ac_contactor_status'' (Sql_String 255) True,
        Column ''input_contactor_fail'' (Sql_String 255) True,
        Column ''gun_dc_contactor_fail'' (Sql_String 255) True,
        Column ''ac_contactor_switching_cycle'' (Sql_String 255) True,
        Column ''ac_contactor_feedback_status'' (Sql_String 255) True,
        Column ''dc_contactor_switching_cycle'' Sql_Float True,
        Column ''ac1_contactor_status'' (Sql_String 255) True,
        Column ''ac2_contactor_status'' (Sql_String 255) True,
        Column ''ac3_contactor_status'' (Sql_String 255) True,
        Column ''ac4_contactor_status'' (Sql_String 255) True,
        Column ''ac5_contactor_status'' (Sql_String 255) True,
        Column ''ac6_contactor_status'' (Sql_String 255) True,
        Column ''ac1_contactor_cycle_count'' Sql_Float True,
        Column ''ac2_contactor_cycle_count'' Sql_Float True,
        Column ''ac3_contactor_cycle_count'' Sql_Float True,
        Column ''ac4_contactor_cycle_count'' Sql_Float True,
        Column ''ac5_contactor_cycle_count'' Sql_Float True,
        Column ''ac6_contactor_cycle_count'' Sql_Float True,
        Column ''ac1_contactor_fail_alarm'' (Sql_String 255) True,
        Column ''ac2_contactor_fail_alarm'' (Sql_String 255) True,
        Column ''ac3_contactor_fail_alarm'' (Sql_String 255) True,
        Column ''ac4_contactor_fail_alarm'' (Sql_String 255) True,
        Column ''ac5_contactor_fail_alarm'' (Sql_String 255) True,
        Column ''ac6_contactor_fail_alarm'' (Sql_String 255) True,
        Column ''ac1_contactor_welded_alarm'' (Sql_String 255) True,
        Column ''ac2_contactor_welded_alarm'' (Sql_String 255) True,
        Column ''ac3_contactor_welded_alarm'' (Sql_String 255) True,
        Column ''ac4_contactor_welded_alarm'' (Sql_String 255) True,
        Column ''ac5_contactor_welded_alarm'' (Sql_String 255) True,
        Column ''ac6_contactor_welded_alarm'' (Sql_String 255) True,
        Column ''dc_merger_contactor_c0_cycle_count'' Sql_Float True,
        Column ''dc_merger_contactor_c1_cycle_count'' Sql_Float True,
        Column ''dc_merger_contactor_c2_cycle_count'' Sql_Float True,
        Column ''dc_merger_contactor_c3_cycle_count'' Sql_Float True,
        Column ''dc_merger_contactor_c4_cycle_count'' Sql_Float True,
        Column ''external_contactor_cycle_count_ring'' Sql_Float True,
        Column ''merger_contactor_c0_fail_alarm'' (Sql_String 255) True,
        Column ''merger_contactor_c1_fail_alarm'' (Sql_String 255) True,
        Column ''merger_contactor_c2_fail_alarm'' (Sql_String 255) True,
        Column ''merger_contactor_c3_fail_alarm'' (Sql_String 255) True,
        Column ''merger_contactor_c4_fail_alarm'' (Sql_String 255) True,
        Column ''external_contactor_fail_alarm_ring'' (Sql_String 255) True,
        Column ''merger_contactor_c0_welded_alarm'' (Sql_String 255) True,
        Column ''merger_contactor_c1_welded_alarm'' (Sql_String 255) True,
        Column ''merger_contactor_c2_welded_alarm'' (Sql_String 255) True,
        Column ''merger_contactor_c3_welded_alarm'' (Sql_String 255) True,
        Column ''merger_contactor_c4_welded_alarm'' (Sql_String 255) True,
        Column ''c0_merger_contactor_status'' (Sql_String 255) True,
        Column ''c1_merger_contactor_status'' (Sql_String 255) True,
        Column ''c2_merger_contactor_status'' (Sql_String 255) True,
        Column ''c3_merger_contactor_status'' (Sql_String 255) True,
        Column ''c4_merger_contactor_status'' (Sql_String 255) True,
        Column ''external_contactor_status'' (Sql_String 255) True],
      primary_key = (None, []),
      foreign_keys =
       [Foreign_Key None ''frame_id'' ''telemetry_source_frame.id'' (Some ''CASCADE'')],
      unique_key = Some (Some ''uq_silver_contactor_observation'', [''charger_id'', ''event_time'', ''frame_sequence'']),
      table_indexes =
       [Index None [''charger_id''] False, Index None [''event_time''] False, Index None [''frame_id''] False,
        Index (Some ''ix_silver_contactor_observation_lookup'') [''charger_id'', ''event_time'', ''frame_sequence''] False],
      python_defaults = []\<rparr>"

definition silver_alarm_observation :: sql_table where
  "silver_alarm_observation =
     \<lparr>table_name = ''silver_alarm_observation'',
      table_columns =
       [Column ''charger_id'' (Sql_String 128) False, Column ''event_time'' Sql_Timestamp False,
        Column ''frame_sequence'' Sql_Integer False, Column ''frame_id'' Sql_Uuid False,
        Column ''active_alarms_count'' Sql_Integer False, Column ''active_alarm_codes'' Sql_Json True,
        Column ''ground_resistance_value'' Sql_Float True,
        Column ''rtc_clock_drift_warning'' (Sql_String 255) True,
        Column ''rms_disabled_alarm'' (Sql_String 255) True, Column ''grid_fail'' (Sql_String 255) True,
        Column ''class_c_spd_fail'' (Sql_String 255) True,
        Column ''ne_voltage_high_alarm'' (Sql_String 255) True, Column ''line_1_fail'' (Sql_String 255) True,
        Column ''line_2_fail'' (Sql_String 255) True, Column ''line_3_fail'' (Sql_String 255) True,
        Column ''door_open'' (Sql_String 255) True, Column ''smoke_alarm'' (Sql_String 255) True,
        Column ''emergency_stop_active'' (Sql_String 255) True,
        Column ''system_fan_fail'' (Sql_String 255) True,
        Column ''filter_maintenance_warning'' (Sql_String 255) True,
        Column ''grid_abnormal'' (Sql_String 255) True, Column ''sd_card_fail'' (Sql_String 255) True,
        Column ''sd_card_crc_fail'' (Sql_String 255) True, Column ''input_rcbo_tripped'' (Sql_String 255) True,
        Column ''mccb_tripped'' (Sql_String 255) True, Column ''class_d_spd_fail_alarm'' (Sql_String 255) True,
        Column ''ground_fault_alarm'' (Sql_String 255) True,
        Column ''hvlv_cut_off_alarm'' (Sql_String 255) True,
        Column ''auxillary_mcb_trip_alarm'' (Sql_String 255) True,
        Column ''backup_battery_low'' (Sql_String 255) True,
        Column ''earth_leakage_sensed_alarm'' (Sql_String 255) True,
        Column ''short_circuit'' (Sql_String 255) True,
        Column ''last_insulation_test_fail'' (Sql_String 255) True,
        Column ''fuse_fail_alarm'' (Sql_String 255) True, Column ''ac_fail_alarm'' (Sql_String 255) True,
        Column ''dc_positive_insulation_resistance'' Sql_Float True,
        Column ''dc_negative_insulation_resistance'' Sql_Float True,
        Column ''last_insulation_test_status'' (Sql_String 255) True,
        Column ''calculated_insulation_resistance'' Sql_Float True, Column ''mdl_fault'' (Sql_String 255) True,
        Column ''fan_fault'' (Sql_String 255) True, Column ''dcdc_eeprom_faults'' (Sql_String 255) True,
        Column ''fan_1_fail'' (Sql_String 255) True, Column ''fan_2_fail'' (Sql_String 255) True,
        Column ''fan_3_fail'' (Sql_String 255) True, Column ''fan_4_fail'' (Sql_String 255) True,
        Column ''fan_5_fail'' (Sql_String 255) True, Column ''fan_6_fail'' (Sql_String 255) True,
        Column ''fan_7_fail'' (Sql_String 255) True, Column ''fan_8_fail'' (Sql_String 255) True,
        Column ''fan_9_fail'' (Sql_String 255) True, Column ''fan_10_fail'' (Sql_String 255) True,
        Column ''fan_11_fail'' (Sql_String 255) True, Column ''fan_12_fail'' (Sql_String 255) True,
        Column ''fan_13_fail'' (Sql_String 255) True, Column ''fan_14_fail'' (Sql_String 255) True,
        Column ''fan_15_fail'' (Sql_String 255) True, Column ''fan_16_fail'' (Sql_String 255) True,
        Column ''fan_17_fail'' (Sql_String 255) True, Column ''fan_18_fail'' (Sql_String 255) True,
        Column ''fan_19_fail'' (Sql_String 255) True, Column ''fan_20_fail'' (Sql_String 255) True,
        Column ''fan_21_fail'' (Sql_String 255) True, Column ''fan_22_fail'' (Sql_String 255) True,
        Column ''fan_23_fail'' (Sql_String 255) True, Column ''dc_section_fan_fail'' (Sql_String 255) True],
      primary_key = (None, []),
      foreign_keys =
       [Foreign_Key None ''frame_id'' ''telemetry_source_frame.id'' (Some ''CASCADE'')],
      unique_key = Some (Some ''uq_silver_alarm_observation'', [''charger_id'', ''event_time'', ''frame_sequence'']),
      table_indexes =
       [Index None [''charger_id''] False, Index None [''event_time''] False, Index None [''frame_id''] False,
        Index (Some ''ix_silver_alarm_observation_lookup'') [''charger_id'', ''event_time'', ''frame_sequence''] False],
      python_defaults = [''active_alarms_count'']\<rparr>"

definition silver_session_observation :: sql_table where
  "silver_session_observation =
     \<lparr>table_name = ''silver_session_observation'',
      table_columns =
       [Column ''charger_id'' (Sql_String 128) False, Column ''connector_id'' Sql_Integer False,
        Column ''event_time'' Sql_Timestamp False, Column ''frame_sequence'' Sql_Integer False,
        Column ''frame_id'' Sql_Uuid False, Column ''stop_reason'' (Sql_String 255) True,
        Column ''last_charge_session_stop_reason'' (Sql_String 255) True,
        Column ''session_type'' (Sql_String 255) True, Column ''session_id'' Sql_Float True,
        Column ''session_output_voltage'' Sql_Float True, Column ''session_output_current'' Sql_Float True,
        Column ''session_demand_voltage'' Sql_Float True, Column ''session_demand_current'' Sql_Float True,
        Column ''session_start_energy'' Sql_Float True, Column ''session_consumed_energy'' Sql_Float True,
        Column ''start_soc'' Sql_Float True, Column ''stop_soc'' Sql_Float True,
        Column ''begin_time'' Sql_Timestamp True,
        Column ''last_charge_session_stop_reason_secondary'' (Sql_String 255) True],
      primary_key = (None, []),
      foreign_keys =
       [Foreign_Key None ''frame_id'' ''telemetry_source_frame.id'' (Some ''CASCADE'')],
      unique_key = Some (Some ''uq_silver_session_observation'', [''charger_id'', ''connector_id'', ''event_time'', ''frame_sequence'']),
      table_indexes =
       [Index None [''charger_id''] False, Index None [''connector_id''] False,
        Index None [''event_time''] False, Index None [''frame_id''] False,
        Index (Some ''ix_silver_session_observation_lookup'') [''charger_id'', ''connector_id'', ''event_time'', ''frame_sequence''] False],
      python_defaults = [''connector_id'']\<rparr>"

definition silver_lifecycle_counter_observation :: sql_table where
  "silver_lifecycle_counter_observation =
     \<lparr>table_name = ''silver_lifecycle_counter_observation'',
      table_columns =
       [Column ''charger_id'' (Sql_String 128) False, Column ''event_time'' Sql_Timestamp False,
        Column ''frame_sequence'' Sql_Integer False, Column ''frame_id'' Sql_Uuid False,
        Column ''ems_cumulative_energy'' Sql_Float True, Column ''charging_cycle_count'' Sql_Float True],
      primary_key = (None, []),
      foreign_keys =
       [Foreign_Key None ''frame_id'' ''telemetry_source_frame.id'' (Some ''CASCADE'')],
      unique_key = Some (Some ''uq_silver_lifecycle_counter_observation'', [''charger_id'', ''event_time'', ''frame_sequence'']),
      table_indexes =
       [Index None [''charger_id''] False, Index None [''event_time''] False, Index None [''frame_id''] False,
        Index (Some ''ix_silver_lifecycle_counter_observation_lookup'') [''charger_id'', ''event_time'', ''frame_sequence''] False],
      python_defaults = []\<rparr>"

definition silver_communication_observation :: sql_table where
  "silver_communication_observation =
     \<lparr>table_name = ''silver_communication_observation'',
      table_columns =
       [Column ''charger_id'' (Sql_String 128) False, Column ''event_time'' Sql_Timestamp False,
        Column ''frame_sequence'' Sql_Integer False, Column ''frame_id'' Sql_Uuid False,
        Column ''ccu_comm_fail'' (Sql_String 255) True,
        Column ''led_strip_card_comm_fail'' (Sql_String 255) True,
        Column ''dcsi_card_comm_fail'' (Sql_String 255) True,
        Column ''ac_sense_card_comm_fail'' (Sql_String 255) True,
        Column ''led_board_comm_fail'' (Sql_String 255) True,
        Column ''rfid_reader_comm_fail'' (Sql_String 255) True,
        Column ''modem_comm_fail'' (Sql_String 255) True, Column ''modem_sim_present'' (Sql_String 255) True,
        Column ''display_comm_fail'' (Sql_String 255) True, Column ''cms_comm_fail'' (Sql_String 255) True,
        Column ''fan_card_comm_fail'' (Sql_String 255) True,
        Column ''i_o_card_comm_fail'' (Sql_String 255) True,
        Column ''input_acem_comm_fail'' (Sql_String 255) True,
        Column ''led_card2_comm_fail'' (Sql_String 255) True, Column ''rsrp'' Sql_Float True,
        Column ''rsrq'' Sql_Float True, Column ''gmd_comm_fail_alarm'' (Sql_String 255) True,
        Column ''ring_communication_break'' (Sql_String 255) True,
        Column ''sim_not_inserted_alarm'' (Sql_String 255) True,
        Column ''insulation_comm_fail'' (Sql_String 255) True, Column ''plc_comm_fail'' (Sql_String 255) True,
        Column ''energy_meter_comm_fail'' (Sql_String 255) True,
        Column ''ac_energy_meter_comm_fail'' (Sql_String 255) True,
        Column ''inner_comm_interrupt'' (Sql_String 255) True,
        Column ''can_communication_interrupt'' (Sql_String 255) True],
      primary_key = (None, []),
      foreign_keys =
       [Foreign_Key None ''frame_id'' ''telemetry_source_frame.id'' (Some ''CASCADE'')],
      unique_key = Some (Some ''uq_silver_communication_observation'', [''charger_id'', ''event_time'', ''frame_sequence'']),
      table_indexes =
       [Index None [''charger_id''] False, Index None [''event_time''] False, Index None [''frame_id''] False,
        Index (Some ''ix_silver_communication_observation_lookup'') [''charger_id'', ''event_time'', ''frame_sequence''] False],
      python_defaults = []\<rparr>"

definition silver_configuration_snapshot :: sql_table where
  "silver_configuration_snapshot =
     \<lparr>table_name = ''silver_configuration_snapshot'',
      table_columns =
       [Column ''charger_id'' (Sql_String 128) False, Column ''event_time'' Sql_Timestamp False,
        Column ''frame_sequence'' Sql_Integer False, Column ''frame_id'' Sql_Uuid False,
        Column ''config_hash'' (Sql_String 64) False, Column ''raw_config_json'' Sql_Json True,
        Column ''modem_signal_intensity'' Sql_Float True,
        Column ''charge_selected_mode'' (Sql_String 255) True,
        Column ''charging_start_method'' (Sql_String 255) True, Column ''charging_mode'' (Sql_String 255) True,
        Column ''ev_max_voltage_limit'' Sql_Float True, Column ''ev_max_current_limit'' Sql_Float True,
        Column ''power_limit'' (Sql_String 255) True,
        Column ''ring_current_operating_mode'' (Sql_String 255) True],
      primary_key = (None, []),
      foreign_keys =
       [Foreign_Key None ''frame_id'' ''telemetry_source_frame.id'' (Some ''CASCADE'')],
      unique_key = Some (Some ''uq_silver_configuration_snapshot'', [''charger_id'', ''event_time'', ''frame_sequence'']),
      table_indexes =
       [Index None [''charger_id''] False, Index None [''event_time''] False, Index None [''frame_id''] False,
        Index None [''config_hash''] False,
        Index (Some ''ix_silver_configuration_snapshot_lookup'') [''charger_id'', ''event_time'', ''frame_sequence''] False],
      python_defaults = []\<rparr>"

definition silver_observation_provenance :: sql_table where
  "silver_observation_provenance =
     \<lparr>table_name = ''silver_observation_provenance'',
      table_columns =
       [Column ''silver_table_name'' (Sql_String 64) False, Column ''silver_record_id'' Sql_Uuid False,
        Column ''frame_id'' Sql_Uuid False, Column ''bronze_row_id'' Sql_Uuid True,
        Column ''source_file_id'' Sql_Uuid False, Column ''source_position'' Sql_Integer False,
        Column ''canonical_name'' (Sql_String 128) False, Column ''raw_value'' Sql_Text True,
        Column ''normalized_value'' Sql_Text True, Column ''transformation_applied'' (Sql_String 128) True,
        Column ''masked_sentinel'' Sql_Boolean False, Column ''created_at'' Sql_Timestamp False],
      primary_key = (None, []),
      foreign_keys =
       [Foreign_Key None ''frame_id'' ''telemetry_source_frame.id'' (Some ''CASCADE''),
        Foreign_Key None ''source_file_id'' ''telemetry_file.id'' (Some ''CASCADE'')],
      unique_key = None,
      table_indexes =
       [Index None [''silver_table_name''] False, Index None [''silver_record_id''] False,
        Index None [''frame_id''] False, Index None [''bronze_row_id''] False,
        Index None [''source_file_id''] False,
        Index (Some ''ix_silver_provenance_record'') [''silver_table_name'', ''silver_record_id''] False,
        Index (Some ''ix_silver_provenance_frame'') [''frame_id''] False],
      python_defaults = [''masked_sentinel'', ''created_at'']\<rparr>"

definition silver_normalization_run :: sql_table where
  "silver_normalization_run =
     \<lparr>table_name = ''silver_normalization_run'',
      table_columns =
       [Column ''file_id'' Sql_Uuid False, Column ''started_at'' Sql_Timestamp False,
        Column ''completed_at'' Sql_Timestamp True, Column ''status'' (Sql_String 32) False,
        Column ''frames_input'' Sql_Integer False, Column ''frames_normalized'' Sql_Integer False,
        Column ''frames_with_warnings'' Sql_Integer False, Column ''frames_failed'' Sql_Integer False,
        Column ''records_created_by_table'' Sql_Json False,
        Column ''sentinels_masked_count'' Sql_Integer False,
        Column ''conflicts_detected_count'' Sql_Integer False, Column ''error_message'' Sql_Text True],
      primary_key = (None, []),
      foreign_keys =
       [Foreign_Key None ''file_id'' ''telemetry_file.id'' (Some ''CASCADE'')],
      unique_key = None,
      table_indexes =
       [Index None [''file_id''] False],
      python_defaults = [''started_at'', ''status'', ''frames_input'', ''frames_normalized'', ''frames_with_warnings'',
        ''frames_failed'', ''records_created_by_table'', ''sentinels_masked_count'',
        ''conflicts_detected_count'']\<rparr>"

definition silver_models :: "sql_table list" where
  "silver_models =
     map (named \<circ> with_mixins (uuid_primary_key_mixin @ timestamp_mixin))
       [silver_site_metadata, silver_charger_telemetry, silver_connector_telemetry, silver_rectifier_telemetry,
        silver_smr_telemetry, silver_contactor_observation, silver_alarm_observation,
        silver_session_observation, silver_lifecycle_counter_observation, silver_communication_observation,
        silver_configuration_snapshot, silver_normalization_run]
     @ [named (with_mixins uuid_primary_key_mixin silver_observation_provenance)]"

end
