(* ===== verification/Silver.thy ===== *)
theory Silver
  imports Payload SilverModels Lifecycle
begin

text \<open>
  The Silver layer of a file. \<open>create_silver_records\<close> is
  \<open>pipelines/normalization/normalizers.py\<close>: one record per table and unit with the columns the model
  declares, and one provenance item per resolved field. \<open>normalize_file\<close> is the service of the same name in
  \<open>backend/app/services/normalization_service.py\<close> over an abstract store: what the repositories hold of
  records and provenance, each under its frame. Record identifiers (\<open>uuid4\<close>) are represented by table and
  unit, which identify a record within its frame; reading the stored file is I/O and left out.
\<close>

section \<open>Records\<close>

text \<open>
  What normalizing a file can raise: \<open>float\<close> rejecting a reading, the constructor of a model given a
  keyword that is no attribute of it, and a transition the file lifecycle forbids.
\<close>

datatype normalization_error = RawValueError | UnknownAttribute string | IllegalStatus illegal_transition

record silver_record =
  sv_table :: string
  sv_unit :: "int option"
  sv_values :: "(string, py_value option) pydict"
  sv_alarm_codes :: "string list option"
  sv_config_hash :: "string option"
  sv_config :: "(string, py_value option) pydict option"

record provenance_item =
  pv_table :: string
  pv_unit :: "int option"
  pv_position :: nat
  pv_canonical :: string
  pv_raw :: "string option"
  pv_value :: "string option"
  pv_transformation :: string
  pv_masked :: bool

text \<open>
  \<open>hasattr(record, name)\<close> for the names the dictionary uses: the columns of the class and of its mixins.
\<close>

definition has_attr :: "sql_table \<Rightarrow> string \<Rightarrow> bool" where
  "has_attr t c =
     (c \<in> col_name ` set (table_columns (with_mixins (uuid_primary_key_mixin @ timestamp_mixin) t)))"

text \<open>\<open>str(value)\<close>; how a float or a datetime prints is a parameter.\<close>

definition py_str :: "(py_value \<Rightarrow> string) \<Rightarrow> py_value \<Rightarrow> string" where
  "py_str repr v =
     (case v of VText t \<Rightarrow> t | VInt n \<Rightarrow> int_str n | VBool b \<Rightarrow> (if b then ''True'' else ''False'') | _ \<Rightarrow> repr v)"

fun py_truthy :: "py_value \<Rightarrow> bool" where
  "py_truthy (VText t) = (t \<noteq> [])"
| "py_truthy (VInt n) = (n \<noteq> 0)"
| "py_truthy (VBool b) = b"
| "py_truthy (VFloat f) = (f \<noteq> FNum 0)"
| "py_truthy (VTime t) = True"

definition compute_configuration_hash ::
    "(py_value \<Rightarrow> string) \<Rightarrow> ((string \<times> string) list \<Rightarrow> string) \<Rightarrow> (string, py_value option) pydict \<Rightarrow> string" where
  "compute_configuration_hash repr digest config =
     digest (sort (List.map_filter (\<lambda>(k, v). map_option (\<lambda>x. (k, py_str repr x)) v) config))"

definition make_provenance ::
    "(py_value \<Rightarrow> string) \<Rightarrow> sql_table \<Rightarrow> int option \<Rightarrow> string \<times> field_resolution \<Rightarrow> provenance_item" where
  "make_provenance repr t u = (\<lambda>(cname, res).
     \<lparr>pv_table = table_name t, pv_unit = u, pv_position = rs_position res, pv_canonical = cname, pv_raw = rs_raw res,
      pv_value = map_option (py_str repr) (rs_value res), pv_transformation = rs_transformation res,
      pv_masked = rs_masked res\<rparr>)"

text \<open>The columns a field sets: its own, and for a temperature with a sentinel its raw float and its mask.\<close>

definition masked_columns ::
    "string list \<Rightarrow> string \<times> field_resolution \<Rightarrow> normalization_error + (string \<times> py_value option) list" where
  "masked_columns temps = (\<lambda>(cname, res).
     (if cname \<notin> set temps then Inr []
      else let put = (\<lambda>raw. [(cname @ ''_raw'', raw), (cname @ ''_masked'', Some (VBool (rs_masked res)))])
           in case rs_raw res of
                None \<Rightarrow> Inr (put None)
              | Some t \<Rightarrow>
                  (if t = [] then Inr (put None)
                   else case parse_float t of
                          None \<Rightarrow> Inl RawValueError
                        | Some f \<Rightarrow> Inr (put (Some (VFloat f))))))"

definition set_field ::
    "sql_table \<Rightarrow> string list \<Rightarrow> (string, py_value option) pydict \<Rightarrow> string \<times> field_resolution
     \<Rightarrow> normalization_error + (string, py_value option) pydict" where
  "set_field t temps d f =
     (let d = (if has_attr t (fst f) then AList.update (fst f) (rs_value (snd f)) d else d)
      in bind_err (masked_columns temps f) (\<lambda>kvs. Inr (foldl (\<lambda>d (k, v). AList.update k v d) d kvs)))"

definition plain_silver :: "sql_table \<Rightarrow> int option \<Rightarrow> (string, py_value option) pydict \<Rightarrow> silver_record" where
  "plain_silver t u vs =
     \<lparr>sv_table = table_name t, sv_unit = u, sv_values = vs, sv_alarm_codes = None, sv_config_hash = None,
      sv_config = None\<rparr>"

definition fill :: "sql_table \<Rightarrow> string list \<Rightarrow> section_data \<Rightarrow> normalization_error + (string, py_value option) pydict" where
  "fill t temps data = fold_err (set_field t temps) [] data"

text \<open>The records of a section that has no units, and those of one that has.\<close>

definition plain_record :: "sql_table \<Rightarrow> section_data \<Rightarrow> normalization_error + silver_record list" where
  "plain_record t data = bind_err (fill t [] data) (\<lambda>vs. Inr [plain_silver t None vs])"

definition unit_records ::
    "sql_table \<Rightarrow> string list \<Rightarrow> (int, section_data) pydict \<Rightarrow> normalization_error + silver_record list" where
  "unit_records t temps us =
     traverse (\<lambda>(i, data). bind_err (fill t temps data) (\<lambda>vs. Inr (plain_silver t (Some i) vs))) us"

definition active_alarms :: "section_data \<Rightarrow> string list" where
  "active_alarms data =
     map fst (filter (\<lambda>(cname, res). case rs_raw res of None \<Rightarrow> False
        | Some t \<Rightarrow> t \<noteq> [] \<and> py_lower t \<in> {''alarm'', ''trip'', ''active'', ''1'', ''true''}) data)"

definition alarm_record :: "section_data \<Rightarrow> normalization_error + silver_record list" where
  "alarm_record data =
     bind_err (fill silver_alarm_observation [] data) (\<lambda>vs.
       Inr [(plain_silver silver_alarm_observation None
              (AList.update ''active_alarms_count'' (Some (VInt (int (length (active_alarms data))))) vs))
            \<lparr>sv_alarm_codes := (if active_alarms data = [] then None else Some (active_alarms data))\<rparr>])"

definition STOP_REASON_FIELDS :: "string list" where
  "STOP_REASON_FIELDS = [''last_charge_session_stop_reason'', ''last_charge_session_stop_reason_secondary'']"

definition set_session_field ::
    "(py_value \<Rightarrow> string) \<Rightarrow> (string, py_value option) pydict \<Rightarrow> string \<times> field_resolution
     \<Rightarrow> (string, py_value option) pydict" where
  "set_session_field repr d = (\<lambda>(cname, res).
     (let d = (if has_attr silver_session_observation cname then AList.update cname (rs_value res) d else d)
      in if cname \<in> set STOP_REASON_FIELDS
         then AList.update ''stop_reason''
                (case rs_value res of
                   None \<Rightarrow> None
                 | Some v \<Rightarrow> if py_truthy v then Some (VText (py_str repr v)) else None) d
         else d))"

definition session_records :: "(py_value \<Rightarrow> string) \<Rightarrow> (int, section_data) pydict \<Rightarrow> silver_record list" where
  "session_records repr us =
     map (\<lambda>(i, data). plain_silver silver_session_observation (Some i) (foldl (set_session_field repr) [] data)) us"

definition configuration_record ::
    "(py_value \<Rightarrow> string) \<Rightarrow> ((string \<times> string) list \<Rightarrow> string) \<Rightarrow> section_data
     \<Rightarrow> normalization_error + silver_record list" where
  "configuration_record repr digest data =
     (let config = map (\<lambda>(cname, res). (cname, rs_value res)) data
      in bind_err (fill silver_configuration_snapshot [] data) (\<lambda>vs.
           Inr [(plain_silver silver_configuration_snapshot None vs)
                \<lparr>sv_config_hash := Some (compute_configuration_hash repr digest config),
                 sv_config := (if config = [] then None else Some config)\<rparr>]))"

definition unit_provenance ::
    "(py_value \<Rightarrow> string) \<Rightarrow> sql_table \<Rightarrow> (int, section_data) pydict \<Rightarrow> provenance_item list" where
  "unit_provenance repr t us = concat (map (\<lambda>(i, data). map (make_provenance repr t (Some i)) data) us)"

definition payload_provenance :: "(py_value \<Rightarrow> string) \<Rightarrow> resolved_frame_payload \<Rightarrow> provenance_item list" where
  "payload_provenance repr p =
     map (make_provenance repr silver_site_metadata None) (site_metadata p)
     @ map (make_provenance repr silver_charger_telemetry None) (charger_telemetry p)
     @ unit_provenance repr silver_connector_telemetry (connector_telemetry p)
     @ unit_provenance repr silver_rectifier_telemetry (rectifier_telemetry p)
     @ unit_provenance repr silver_smr_telemetry (smr_telemetry p)
     @ map (make_provenance repr silver_contactor_observation None) (contactor_observation p)
     @ map (make_provenance repr silver_alarm_observation None) (alarm_observation p)
     @ unit_provenance repr silver_session_observation (session_observation p)
     @ map (make_provenance repr silver_lifecycle_counter_observation None) (lifecycle_counters p)
     @ map (make_provenance repr silver_communication_observation None) (communication_observation p)
     @ map (make_provenance repr silver_configuration_snapshot None) (configuration_snapshot p)"

definition create_silver_records ::
    "(py_value \<Rightarrow> string) \<Rightarrow> ((string \<times> string) list \<Rightarrow> string) \<Rightarrow> resolved_frame_payload
     \<Rightarrow> normalization_error + silver_record list \<times> provenance_item list" where
  "create_silver_records repr digest p =
     bind_err (traverse (\<lambda>r. r)
       [plain_record silver_site_metadata (site_metadata p),
        plain_record silver_charger_telemetry (charger_telemetry p),
        unit_records silver_connector_telemetry GUN_TEMP_FIELDS (connector_telemetry p),
        unit_records silver_rectifier_telemetry RECTIFIER_TEMP_FIELDS (rectifier_telemetry p),
        unit_records silver_smr_telemetry SMR_TEMP_FIELDS (smr_telemetry p),
        plain_record silver_contactor_observation (contactor_observation p),
        alarm_record (alarm_observation p),
        Inr (session_records repr (session_observation p)),
        plain_record silver_lifecycle_counter_observation (lifecycle_counters p),
        plain_record silver_communication_observation (communication_observation p),
        configuration_record repr digest (configuration_snapshot p)])
       (\<lambda>rss. Inr (concat rss, payload_provenance repr p))"

section \<open>A file\<close>

text \<open>A canonical frame of the file with the rows that contributed to it.\<close>

record canonical_frame =
  cfr_id :: nat
  cfr_row_numbers :: "nat list"
  cfr_order_min :: "nat option"
  cfr_order_max :: "nat option"

definition contributing_row_numbers :: "canonical_frame \<Rightarrow> nat list" where
  "contributing_row_numbers f =
     (case (cfr_row_numbers f, cfr_order_min f, cfr_order_max f) of
        ([], Some a, Some b) \<Rightarrow> (if a \<noteq> 0 \<and> b \<noteq> 0 then [a..<b + 1] else [])
      | (ns, _, _) \<Rightarrow> ns)"

text \<open>\<open>row_dict[headers[col_idx]] = val\<close>: a repeated header keeps its last column.\<close>

definition row_dict :: "string list \<Rightarrow> string list \<Rightarrow> bronze_row" where
  "row_dict headers row = foldl (\<lambda>d (h, v). AList.update h v d) [] (zip headers row)"

definition contributing_rows :: "string list \<Rightarrow> string list list \<Rightarrow> canonical_frame \<Rightarrow> bronze_row list" where
  "contributing_rows headers lines f =
     List.map_filter (\<lambda>n. if 1 \<le> n \<and> n \<le> length lines then Some (row_dict headers (lines ! (n - 1))) else None)
       (contributing_row_numbers f)"

record silver_store =
  st_records :: "(nat \<times> silver_record) list"
  st_provenance :: "(nat \<times> provenance_item) list"

definition delete_for_frames :: "nat list \<Rightarrow> silver_store \<Rightarrow> silver_store" where
  "delete_for_frames ids st =
     \<lparr>st_records = filter (\<lambda>(i, r). i \<notin> set ids) (st_records st),
      st_provenance = filter (\<lambda>(i, v). i \<notin> set ids) (st_provenance st)\<rparr>"

record normalization_run =
  nr_status :: string
  nr_frames_input :: nat
  nr_frames_normalized :: nat
  nr_frames_with_warnings :: nat
  nr_conflicts_detected :: nat
  nr_sentinels_masked :: nat
  nr_records_by_table :: "(string, nat) pydict"

record normalization_outcome =
  no_status :: file_status
  no_store :: silver_store
  no_run :: "normalization_run option"
  no_records_created :: nat
  no_issues :: "(quality_issue_type \<times> conflict_entry) list"
  no_skipped :: bool

text \<open>
  What the class \<open>DataQualityIssue\<close> of \<open>backend/app/models/data_quality_issue.py\<close> declares, its mixins included. The
  constructor SQLAlchemy gives a model raises \<open>TypeError\<close> for the first keyword that is no attribute of the class.
\<close>

definition quality_issue_attributes :: "string list" where
  "quality_issue_attributes =
     [''telemetry_file_id'', ''charger_day_coverage_id'', ''ingestion_run_id'', ''field_definition_id'', ''rule_code'',
      ''scope'', ''severity'', ''entity'', ''field_name'', ''field_occurrence'', ''source_row_number'', ''event_time'',
      ''entity_reference'', ''charger_id'', ''business_date'', ''raw_value'', ''message'', ''details'',
      ''occurrence_count'', ''issue_hash'', ''detected_at'', ''telemetry_file'', ''ingestion_run'',
      ''id'', ''created_at'', ''updated_at'']"

definition construct_issue :: "string list \<Rightarrow> normalization_error + unit" where
  "construct_issue keywords =
     (case find (\<lambda>k. k \<notin> set quality_issue_attributes) keywords of
        None \<Rightarrow> Inr ()
      | Some k \<Rightarrow> Inl (UnknownAttribute k))"

definition issue_of_conflict :: "conflict_entry \<Rightarrow> normalization_error + quality_issue_type \<times> conflict_entry" where
  "issue_of_conflict cf =
     bind_err (construct_issue
         [''telemetry_file_id'', ''scope'', ''rule_code'', ''dimension'', ''severity'', ''message'', ''details''])
       (\<lambda>u. Inr (if contains ''CONNECTOR'' (cf_type cf) then CONNECTOR_FIELD_CONFLICT else REPEATED_FIELD_CONFLICT, cf))"

definition advance_to :: "bool \<Rightarrow> file_status \<Rightarrow> file_status \<Rightarrow> normalization_error + file_status" where
  "advance_to advance current target =
     (if \<not> advance then Inr current
      else case assert_transition_allowed current target of
             Inl e \<Rightarrow> Inl (IllegalStatus e)
           | Inr u \<Rightarrow> Inr target)"

record normalizer =
  nz_library :: time_library
  nz_dictionary :: dictionary_registry
  nz_repr :: "py_value \<Rightarrow> string"
  nz_digest :: "(string \<times> string) list \<Rightarrow> string"

definition frame_payload_of :: "normalizer \<Rightarrow> string list \<Rightarrow> string list list \<Rightarrow> canonical_frame \<Rightarrow> resolved_frame_payload" where
  "frame_payload_of nz headers lines f =
     resolve_frame (nz_library nz) (nz_dictionary nz) headers (contributing_rows headers lines f)"

text \<open>One pass of the frame loop: the issues of the conflicts first, then the records.\<close>

type_synonym built_frame =
  "(quality_issue_type \<times> conflict_entry) list \<times> nat \<times> silver_record list \<times> provenance_item list"

definition normalize_frame ::
    "normalizer \<Rightarrow> string list \<Rightarrow> string list list \<Rightarrow> canonical_frame \<Rightarrow> normalization_error + built_frame" where
  "normalize_frame nz headers lines f =
     (let p = frame_payload_of nz headers lines f
      in bind_err (traverse issue_of_conflict (payload_conflicts p)) (\<lambda>issues.
           bind_err (create_silver_records (nz_repr nz) (nz_digest nz) p) (\<lambda>(rs, ps).
             Inr (issues, cfr_id f, rs, ps))))"

definition normalize_frames ::
    "normalizer \<Rightarrow> string list \<Rightarrow> string list list \<Rightarrow> canonical_frame list \<Rightarrow> normalization_error + built_frame list" where
  "normalize_frames nz headers lines frames = traverse (normalize_frame nz headers lines) frames"

definition normalize_file ::
    "normalizer \<Rightarrow> bool \<Rightarrow> bool \<Rightarrow> file_status \<Rightarrow> string list \<Rightarrow> string list list \<Rightarrow> canonical_frame list
     \<Rightarrow> silver_store \<Rightarrow> normalization_error + normalization_outcome" where
  "normalize_file nz advance has_object status headers lines frames st =
     (if \<not> has_object
      then Inr \<lparr>no_status = status, no_store = st, no_run = None, no_records_created = 0, no_issues = [],
                no_skipped = True\<rparr>
      else bind_err (advance_to advance status NORMALIZING) (\<lambda>status.
        if frames = []
        then bind_err (advance_to advance status NORMALIZED) (\<lambda>status.
          Inr \<lparr>no_status = status, no_store = st,
               no_run = Some \<lparr>nr_status = ''COMPLETED'', nr_frames_input = 0, nr_frames_normalized = 0,
                              nr_frames_with_warnings = 0, nr_conflicts_detected = 0, nr_sentinels_masked = 0,
                              nr_records_by_table = []\<rparr>,
               no_records_created = 0, no_issues = [], no_skipped = False\<rparr>)
        else bind_err (normalize_frames nz headers lines frames) (\<lambda>built.
          let payloads = map (frame_payload_of nz headers lines) frames;
              conflicts = concat (map payload_conflicts payloads);
              warned = length (filter (\<lambda>p. payload_conflicts p \<noteq> []) payloads);
              records = concat (map (\<lambda>(iss, i, rs, ps). map (Pair i) rs) built);
              provenance = concat (map (\<lambda>(iss, i, rs, ps). map (Pair i) ps) built);
              kept = delete_for_frames (map cfr_id frames) st
          in bind_err (advance_to advance status (if warned > 0 then NORMALIZED_WITH_WARNINGS else NORMALIZED)) (\<lambda>status.
            Inr \<lparr>no_status = status,
                 no_store = \<lparr>st_records = st_records kept @ records, st_provenance = st_provenance kept @ provenance\<rparr>,
                 no_run = Some \<lparr>nr_status = ''COMPLETED'', nr_frames_input = length frames,
                                nr_frames_normalized = length frames, nr_frames_with_warnings = warned,
                                nr_conflicts_detected = length conflicts,
                                nr_sentinels_masked = sum_list (map (length \<circ> sentinels_masked) payloads),
                                nr_records_by_table = tally (map (sv_table \<circ> snd) records)\<rparr>,
                 no_records_created = length records, no_issues = concat (map fst built),
                 no_skipped = False\<rparr>))))"

section \<open>Raw columns\<close>

definition unreadable :: "string list \<Rightarrow> section_data \<Rightarrow> bool" where
  "unreadable temps data =
     (\<exists>(c, res)\<in>set data. c \<in> set temps \<and> (case rs_raw res of None \<Rightarrow> False | Some t \<Rightarrow> t \<noteq> [] \<and> parse_float t = None))"

lemma set_field_Inl:
  "set_field t temps d f = Inl e \<longleftrightarrow> e = RawValueError \<and> fst f \<in> set temps
     \<and> (case rs_raw (snd f) of None \<Rightarrow> False | Some x \<Rightarrow> x \<noteq> [] \<and> parse_float x = None)"
  by (cases f) (auto simp: set_field_def masked_columns_def Let_def split: option.split)

lemma fill_Inl: "fill t temps data = Inl e \<longleftrightarrow> e = RawValueError \<and> unreadable temps data"
proof -
  have "fold_err (set_field t temps) d data = Inl e \<longleftrightarrow> e = RawValueError \<and> unreadable temps data" for d
  proof (induction data arbitrary: d)
    case (Cons f data)
    show ?case
    proof (cases "set_field t temps d f")
      case (Inl e')
      then show ?thesis using set_field_Inl [of t temps d f e'] by (cases f) (auto simp: unreadable_def)
    next
      case (Inr d')
      then have "\<not> (fst f \<in> set temps \<and> (case rs_raw (snd f) of None \<Rightarrow> False | Some x \<Rightarrow> x \<noteq> [] \<and> parse_float x = None))"
        using set_field_Inl [of t temps d f RawValueError] by auto
      then show ?thesis using Inr by (cases f) (auto simp: Cons.IH unreadable_def)
    qed
  qed (simp add: unreadable_def)
  then show ?thesis by (simp add: fill_def)
qed

lemma unreadable_Nil [simp]: "\<not> unreadable [] data"
  by (auto simp: unreadable_def)

lemma fill_plain: "\<exists>vs. fill t [] data = Inr vs"
  using fill_Inl [of t "[]" data] by (cases "fill t [] data") auto

lemma traverse_error:
  assumes "\<And>x e. x \<in> set xs \<Longrightarrow> f x = Inl e \<longleftrightarrow> e = e0 \<and> bad x"
  shows "traverse f xs = Inl e \<longleftrightarrow> e = e0 \<and> (\<exists>x\<in>set xs. bad x)"
  using assms
proof (induction xs arbitrary: e)
  case (Cons x xs)
  have x: "f x = Inl e' \<longleftrightarrow> e' = e0 \<and> bad x" for e' using Cons.prems by simp
  have IH: "traverse f xs = Inl e' \<longleftrightarrow> e' = e0 \<and> (\<exists>x\<in>set xs. bad x)" for e'
    using Cons.IH [of e'] Cons.prems by simp
  show ?case
  proof (cases "f x")
    case (Inl e')
    then show ?thesis using x [of e'] by auto
  next
    case (Inr y)
    then have "\<not> bad x" using x [of e0] by auto
    then show ?thesis using Inr IH [of e] by (cases "traverse f xs") auto
  qed
qed simp

lemma bind_err_Inl: "bind_err m (\<lambda>x. Inr (g x)) = Inl e \<longleftrightarrow> m = Inl e"
  by (cases m) auto

lemma unit_records_Inl:
  "unit_records t temps us = Inl e \<longleftrightarrow> e = RawValueError \<and> (\<exists>(i, data)\<in>set us. unreadable temps data)"
proof -
  have "(case x of (i, data) \<Rightarrow> bind_err (fill t temps data) (\<lambda>vs. Inr (plain_silver t (Some i) vs))) = Inl e'
      \<longleftrightarrow> e' = RawValueError \<and> (case x of (i, data) \<Rightarrow> unreadable temps data)" for x e'
    by (cases x) (simp add: bind_err_Inl fill_Inl)
  then show ?thesis unfolding unit_records_def by (rule traverse_error)
qed

definition payload_unreadable :: "resolved_frame_payload \<Rightarrow> bool" where
  "payload_unreadable p =
     ((\<exists>(i, data)\<in>set (connector_telemetry p). unreadable GUN_TEMP_FIELDS data)
      \<or> (\<exists>(i, data)\<in>set (rectifier_telemetry p). unreadable RECTIFIER_TEMP_FIELDS data)
      \<or> (\<exists>(i, data)\<in>set (smr_telemetry p). unreadable SMR_TEMP_FIELDS data))"

lemma unit_isl: "isl (unit_records t temps us) \<longleftrightarrow> (\<exists>(i, data)\<in>set us. unreadable temps data)"
  using unit_records_Inl [of t temps us] by (cases "unit_records t temps us") auto

lemma plain_results [simp]:
  "\<not> isl (plain_record t data)" "\<not> isl (alarm_record data)" "\<not> isl (configuration_record repr digest data)"
  using fill_plain [of t data] fill_plain [of silver_alarm_observation data]
    fill_plain [of silver_configuration_snapshot data]
  by (auto simp: plain_record_def alarm_record_def configuration_record_def Let_def)

lemma isl_RawValueError:
  "plain_record t data = Inl e \<Longrightarrow> e = RawValueError" "alarm_record data = Inl e \<Longrightarrow> e = RawValueError"
  "configuration_record repr digest data = Inl e \<Longrightarrow> e = RawValueError"
  "unit_records t temps us = Inl e \<Longrightarrow> e = RawValueError"
proof -
  show "plain_record t data = Inl e \<Longrightarrow> e = RawValueError" using plain_results(1) [of t data] by simp
  show "alarm_record data = Inl e \<Longrightarrow> e = RawValueError" using plain_results(2) [of data] by simp
  show "configuration_record repr digest data = Inl e \<Longrightarrow> e = RawValueError"
    using plain_results(3) [of repr digest data] by simp
  show "unit_records t temps us = Inl e \<Longrightarrow> e = RawValueError" by (simp add: unit_records_Inl)
qed

lemma create_records_Inl:
  "create_silver_records repr digest p = Inl e \<longleftrightarrow> e = RawValueError \<and> payload_unreadable p"
proof -
  let ?L = "[plain_record silver_site_metadata (site_metadata p),
        plain_record silver_charger_telemetry (charger_telemetry p),
        unit_records silver_connector_telemetry GUN_TEMP_FIELDS (connector_telemetry p),
        unit_records silver_rectifier_telemetry RECTIFIER_TEMP_FIELDS (rectifier_telemetry p),
        unit_records silver_smr_telemetry SMR_TEMP_FIELDS (smr_telemetry p),
        plain_record silver_contactor_observation (contactor_observation p),
        alarm_record (alarm_observation p),
        Inr (session_records repr (session_observation p)),
        plain_record silver_lifecycle_counter_observation (lifecycle_counters p),
        plain_record silver_communication_observation (communication_observation p),
        configuration_record repr digest (configuration_snapshot p)]"
  have tr: "traverse (\<lambda>r. r) ?L = Inl e \<longleftrightarrow> e = RawValueError \<and> (\<exists>r\<in>set ?L. isl r)"
  proof (rule traverse_error)
    fix r e' assume "r \<in> set ?L"
    then have "\<And>e. r = Inl e \<Longrightarrow> e = RawValueError" by (auto dest: isl_RawValueError isl_RawValueError [OF sym])
    then show "r = Inl e' \<longleftrightarrow> e' = RawValueError \<and> isl r" by (cases r) auto
  qed
  have "(\<exists>r\<in>set ?L. isl r) \<longleftrightarrow> payload_unreadable p"
    by (simp add: plain_results unit_isl payload_unreadable_def)
  then show ?thesis using tr by (cases "traverse (\<lambda>r. r) ?L") (auto simp: create_silver_records_def)
qed

section \<open>Files\<close>

lemma create_records_isl: "isl (create_silver_records repr digest p) \<longleftrightarrow> payload_unreadable p"
  using create_records_Inl [of repr digest p] by (cases "create_silver_records repr digest p") auto

lemma traverse_isl: "isl (traverse f xs) \<longleftrightarrow> (\<exists>x\<in>set xs. isl (f x))"
proof (induction xs)
  case (Cons x xs)
  then show ?case by (cases "f x"; cases "traverse f xs") auto
qed simp

text \<open>The keyword \<open>dimension\<close> is no attribute of the class, so no issue of a conflict can be built.\<close>

lemma conflict_issue_raises: "issue_of_conflict cf = Inl (UnknownAttribute ''dimension'')"
  by (simp add: issue_of_conflict_def construct_issue_def quality_issue_attributes_def)

lemma traverse_issues: "traverse issue_of_conflict cs = (if cs = [] then Inr [] else Inl (UnknownAttribute ''dimension''))"
  by (cases cs) (simp_all add: conflict_issue_raises)

lemma normalize_frame_isl:
  "isl (normalize_frame nz headers lines f) \<longleftrightarrow>
     payload_conflicts (frame_payload_of nz headers lines f) \<noteq> [] \<or> payload_unreadable (frame_payload_of nz headers lines f)"
  using create_records_isl [of "nz_repr nz" "nz_digest nz" "frame_payload_of nz headers lines f"]
  by (cases "create_silver_records (nz_repr nz) (nz_digest nz) (frame_payload_of nz headers lines f)")
     (auto simp: normalize_frame_def traverse_issues Let_def)

lemma normalize_frame_Inr:
  assumes "normalize_frame nz headers lines f = Inr (iss, i, rs, ps)"
  shows "iss = []" and "i = cfr_id f"
  using assms by (auto simp: normalize_frame_def traverse_issues Let_def bind_err_Inr split: if_splits)

lemma normalize_frames_isl:
  "isl (normalize_frames nz headers lines frames) \<longleftrightarrow>
     (\<exists>f\<in>set frames. payload_conflicts (frame_payload_of nz headers lines f) \<noteq> []
        \<or> payload_unreadable (frame_payload_of nz headers lines f))"
  by (simp only: normalize_frames_def traverse_isl normalize_frame_isl)

lemma normalize_frames_Inr:
  assumes "normalize_frames nz headers lines frames = Inr bs"
  shows "map (\<lambda>(iss, i, rs, ps). i) bs = map cfr_id frames" and "concat (map fst bs) = []"
proof -
  note tr = assms [unfolded normalize_frames_def]
  have len: "length bs = length frames" using traverse_length [OF tr] .
  have at: "(case bs ! k of (iss, i, rs, ps) \<Rightarrow> iss = [] \<and> i = cfr_id (frames ! k))" if "k < length frames" for k
    using traverse_nth [OF tr that] normalize_frame_Inr by (cases "bs ! k") fastforce
  show "map (\<lambda>(iss, i, rs, ps). i) bs = map cfr_id frames"
  proof (rule nth_equalityI)
    fix k assume "k < length (map (\<lambda>(iss, i, rs, ps). i) bs)"
    then show "map (\<lambda>(iss, i, rs, ps). i) bs ! k = map cfr_id frames ! k"
      using at [of k] len by (simp add: split_beta)
  qed (simp add: len)
  have "fst x = []" if "x \<in> set bs" for x
  proof -
    obtain k where "k < length bs" "x = bs ! k" using \<open>x \<in> set bs\<close> by (auto simp: in_set_conv_nth)
    then show ?thesis using at [of k] len by (simp add: split_beta)
  qed
  then show "concat (map fst bs) = []" by simp
qed

lemma unit_field_mem:
  assumes "unit_field d i c = Some res"
  shows "\<exists>data. (i, data) \<in> set d \<and> (c, res) \<in> set data"
proof (cases "map_of d i")
  case (Some data)
  then show ?thesis using assms map_of_SomeD [OF Some] by (auto simp: unit_field_def dict_get_def dest: map_of_SomeD)
qed (use assms in \<open>simp add: unit_field_def dict_get_def\<close>)

text \<open>
  C40: A temperature that is no number aborts the whole file. When a frame of the file has, for a
  connector, a present reading of a gun temperature that \<open>float\<close> rejects (the dash, which coercion takes
  for a missing value, is one), normalizing the file raises: no frame of it is stored.
\<close>

theorem unreadable_temperature_aborts:
  assumes "f \<in> set frames" and "c \<in> set GUN_TEMP_FIELDS"
    and "payload_field CONNECTOR_SECTION i (frame_payload_of nz headers lines f) c = Some res"
    and "rs_raw res = Some t" and "t \<noteq> []" and "parse_float t = None"
  shows "\<exists>e. normalize_file nz advance True status headers lines frames st = Inl e"
proof -
  have "unit_field (connector_telemetry (frame_payload_of nz headers lines f)) i c = Some res"
    using assms(3) by (simp add: payload_field_def per_unit_def units_of_payload_def)
  from unit_field_mem [OF this] have "payload_unreadable (frame_payload_of nz headers lines f)"
    unfolding payload_unreadable_def unreadable_def using assms(2,4-6) by fastforce
  then have "isl (normalize_frames nz headers lines frames)"
    unfolding normalize_frames_isl using assms(1) by blast
  then obtain e where "normalize_frames nz headers lines frames = Inl e" by (auto simp: isl_def)
  moreover have "frames \<noteq> []" using assms(1) by auto
  ultimately show ?thesis by (cases "advance_to advance status NORMALIZING") (simp_all add: normalize_file_def)
qed

section \<open>Rows\<close>

lemma foldl_update_last:
  "map_of (foldl (\<lambda>d (k, v). AList.update k v d) d kvs) h =
     (case find (\<lambda>(k, v). k = h) (rev kvs) of None \<Rightarrow> map_of d h | Some (k, v) \<Rightarrow> Some v)"
  by (induction kvs rule: rev_induct) (auto simp: update_conv')

text \<open>
  A repeated header is read from its last column only. In the rows normalization works on, a header
  carries the value of the last column with that text, so two header positions of the same text resolve
  to the same readings, and the earlier columns are never read.
\<close>

theorem repeated_header_last_column:
  assumes "j < length row" and "length row \<le> length headers"
    and "headers ! j = h" and "\<And>k. j < k \<Longrightarrow> k < length row \<Longrightarrow> headers ! k \<noteq> h"
  shows "cell h spec (row_dict headers row) = Some (row ! j)"
proof -
  let ?kvs = "zip headers row"
  have len: "length ?kvs = length row" using assms(2) by simp
  have split: "?kvs = take j ?kvs @ (h, row ! j) # drop (Suc j) ?kvs"
    using id_take_nth_drop [of j ?kvs] assms(1-3) by simp
  have "k \<noteq> h" if m: "(k, v) \<in> set (drop (Suc j) ?kvs)" for k v
  proof -
    obtain i where i: "i < length (drop (Suc j) ?kvs) \<and> drop (Suc j) ?kvs ! i = (k, v)"
      using in_set_conv_nth [THEN iffD1, OF m] ..
    then have "i < length row - Suc j" using len by simp
    then have less: "Suc j + i < length row" by linarith
    have "drop (Suc j) ?kvs ! i = ?kvs ! (Suc j + i)" using less len by (intro nth_drop) simp
    then have "k = headers ! (Suc j + i)" using i less assms(2) by simp
    then show ?thesis using assms(4) [OF _ less] by simp
  qed
  then have "find (\<lambda>(k, v). k = h) (rev (drop (Suc j) ?kvs)) = None"
    by (auto simp: find_None_iff)
  then have "find (\<lambda>(k, v). k = h) (rev ?kvs) = Some (h, row ! j)"
    by (subst split) (simp add: find_append)
  then show ?thesis by (simp add: cell_def row_dict_def foldl_update_last)
qed

section \<open>Storage\<close>

lemma advance_to_cases:
  assumes "advance_to advance s t = Inr u"
  shows "u = (if advance then t else s)" and "advance \<Longrightarrow> can_transition s t"
  using assms by (auto simp: advance_to_def assert_transition_allowed_def split: if_splits sum.splits)

lemma normalizing_legal: "can_transition NORMALIZING NORMALIZED"
  by (simp add: can_transition_def next_states_def allowed_transitions_def dict_get_def)

lemma not_isl_iff: "\<not> isl m \<longleftrightarrow> (\<exists>y. m = Inr y)"
  by (cases m) auto

text \<open>
  C12: Normalizing a file again changes nothing. When two runs over the same frames return (neither raises),
  the second replaces exactly the records and the provenance the first one stored, and no run touches the
  records stored for other frames.
\<close>

theorem normalize_idempotent:
  assumes "normalize_file nz advance True s headers lines frames st = Inr out"
    and "normalize_file nz advance' True s' headers lines frames (no_store out) = Inr out'"
  shows "no_store out' = no_store out
    \<and> (\<forall>i r. i \<notin> cfr_id ` set frames \<longrightarrow> ((i, r) \<in> set (st_records (no_store out)) \<longleftrightarrow> (i, r) \<in> set (st_records st)))"
proof (cases "frames = []")
  case True
  then show ?thesis using assms by (auto simp: normalize_file_def bind_err_Inr)
next
  case False
  obtain built where b: "normalize_frames nz headers lines frames = Inr built"
    using assms(1) False by (auto simp: normalize_file_def bind_err_Inr)
  define R where "R = concat (map (\<lambda>(iss, i, rs, ps). map (Pair i) rs) built)"
  define P where "P = concat (map (\<lambda>(iss, i, rs, ps). map (Pair i) ps) built)"
  define ids where "ids = map cfr_id frames"
  have store: "no_store o' = \<lparr>st_records = st_records (delete_for_frames ids s0) @ R,
        st_provenance = st_provenance (delete_for_frames ids s0) @ P\<rparr>"
    if "normalize_file nz a True q headers lines frames s0 = Inr o'" for a q s0 o'
    using that False by (auto simp: normalize_file_def bind_err_Inr b R_def P_def ids_def Let_def)
  have fst_built: "map (\<lambda>(iss, i, rs, ps). i) built = ids"
    using normalize_frames_Inr(1) [OF b] by (simp only: ids_def)
  have mem: "i \<in> set ids" if "(i, x) \<in> set R" for i x
    using that by (force simp: R_def fst_built [symmetric])
  have memP: "i \<in> set ids" if "(i, x) \<in> set P" for i x
    using that by (force simp: P_def fst_built [symmetric])
  have gone: "filter (\<lambda>(i, r). i \<notin> set ids) R = []" "filter (\<lambda>(i, r). i \<notin> set ids) P = []"
    using mem memP by (auto simp: filter_empty_conv)
  have "no_store out' = no_store out"
    unfolding store [OF assms(1)] store [OF assms(2)] by (simp add: delete_for_frames_def gone)
  moreover have "(i, r) \<in> set (st_records (no_store out)) \<longleftrightarrow> (i, r) \<in> set (st_records st)"
    if "i \<notin> cfr_id ` set frames" for i r
    using that mem unfolding store [OF assms(1)] by (auto simp: delete_for_frames_def ids_def)
  ultimately show ?thesis by blast
qed

text \<open>
  C31: Normalization and the file lifecycle. A run that advances the lifecycle returns exactly when the file
  may be normalized, no frame of it has a recorded conflict and no temperature of a frame is unreadable; it
  then ends, by transitions of the state machine, in NORMALIZED and has stored no issue. A conflict never
  becomes an issue and a file never becomes NORMALIZED_WITH_WARNINGS: the keyword the code passes for the
  dimension of the issue makes its constructor raise, which aborts the file.
\<close>

theorem normalize_lifecycle:
  "case normalize_file nz True True s headers lines frames st of
     Inr out \<Rightarrow>
       can_transition s NORMALIZING \<and> no_status out = NORMALIZED \<and> can_transition NORMALIZING (no_status out)
       \<and> no_issues out = []
       \<and> (\<forall>f\<in>set frames. payload_conflicts (frame_payload_of nz headers lines f) = []
            \<and> \<not> payload_unreadable (frame_payload_of nz headers lines f))
   | Inl e \<Rightarrow>
       \<not> can_transition s NORMALIZING
       \<or> (\<exists>f\<in>set frames. payload_conflicts (frame_payload_of nz headers lines f) \<noteq> []
            \<or> payload_unreadable (frame_payload_of nz headers lines f))"
proof (cases "can_transition s NORMALIZING \<and> \<not> isl (normalize_frames nz headers lines frames)")
  case True
  then obtain built where built: "normalize_frames nz headers lines frames = Inr built"
    by (auto simp: not_isl_iff)
  have warned: "filter (\<lambda>p. payload_conflicts p \<noteq> []) (map (frame_payload_of nz headers lines) frames) = []"
    using True normalize_frames_isl [of nz headers lines frames] by (auto simp: filter_empty_conv)
  have advance: "advance_to True s NORMALIZING = Inr NORMALIZING" "advance_to True NORMALIZING NORMALIZED = Inr NORMALIZED"
    using True by (simp_all add: advance_to_def assert_transition_allowed_def normalizing_legal)
  show ?thesis
  proof (cases "normalize_file nz True True s headers lines frames st")
    case (Inr out)
    have "no_status out = NORMALIZED \<and> no_issues out = []"
      using Inr advance built warned normalize_frames_Inr(2) [OF built]
      by (auto simp: normalize_file_def Let_def split: if_splits)
    then show ?thesis using Inr True normalize_frames_isl [of nz headers lines frames] normalizing_legal by auto
  qed (use advance built warned in \<open>auto simp: normalize_file_def Let_def split: if_splits\<close>)
next
  case False
  have "isl (normalize_file nz True True s headers lines frames st)" if "\<not> can_transition s NORMALIZING"
    using that by (simp add: normalize_file_def advance_to_def assert_transition_allowed_def)
  moreover have "isl (normalize_file nz True True s headers lines frames st)" if "isl (normalize_frames nz headers lines frames)"
  proof -
    have "frames \<noteq> []" using that by (auto simp: normalize_frames_def)
    then show ?thesis using that
      by (cases "advance_to True s NORMALIZING"; cases "normalize_frames nz headers lines frames")
         (simp_all add: normalize_file_def)
  qed
  ultimately have "isl (normalize_file nz True True s headers lines frames st)" using False by blast
  then show ?thesis using False normalize_frames_isl [of nz headers lines frames]
    by (cases "normalize_file nz True True s headers lines frames st") auto
qed

section \<open>Record accounting\<close>

lemma plain_record_Inr: "plain_record t data = Inr rs \<Longrightarrow> map (\<lambda>r. (sv_table r, sv_unit r)) rs = [(table_name t, None)]"
  by (auto simp: plain_record_def plain_silver_def bind_err_Inr)

lemma special_record_Inr:
  "alarm_record data = Inr rs \<Longrightarrow> map (\<lambda>r. (sv_table r, sv_unit r)) rs = [(table_name silver_alarm_observation, None)]"
  "configuration_record repr digest data = Inr rs \<Longrightarrow>
     map (\<lambda>r. (sv_table r, sv_unit r)) rs = [(table_name silver_configuration_snapshot, None)]"
  by (auto simp: alarm_record_def configuration_record_def plain_silver_def bind_err_Inr Let_def)

lemma unit_records_Inr:
  "unit_records t temps us = Inr rs \<Longrightarrow>
     map (\<lambda>r. (sv_table r, sv_unit r)) rs = map (\<lambda>i. (table_name t, Some i)) (dict_keys us)"
  unfolding unit_records_def
  by (induction us arbitrary: rs) (auto simp: bind_err_Inr plain_silver_def)

definition record_keys :: "resolved_frame_payload \<Rightarrow> (string \<times> int option) list" where
  "record_keys p =
     [(table_name silver_site_metadata, None), (table_name silver_charger_telemetry, None)]
     @ map (\<lambda>i. (table_name silver_connector_telemetry, Some i)) (dict_keys (connector_telemetry p))
     @ map (\<lambda>i. (table_name silver_rectifier_telemetry, Some i)) (dict_keys (rectifier_telemetry p))
     @ map (\<lambda>i. (table_name silver_smr_telemetry, Some i)) (dict_keys (smr_telemetry p))
     @ [(table_name silver_contactor_observation, None), (table_name silver_alarm_observation, None)]
     @ map (\<lambda>i. (table_name silver_session_observation, Some i)) (dict_keys (session_observation p))
     @ [(table_name silver_lifecycle_counter_observation, None), (table_name silver_communication_observation, None),
        (table_name silver_configuration_snapshot, None)]"

lemma create_records_keys:
  assumes "create_silver_records repr digest p = Inr (rs, ps)"
  shows "map (\<lambda>r. (sv_table r, sv_unit r)) rs = record_keys p" and "ps = payload_provenance repr p"
proof -
  have "map (\<lambda>r. (sv_table r, sv_unit r)) (session_records repr us) =
      map (\<lambda>i. (table_name silver_session_observation, Some i)) (dict_keys us)" for us
    by (induction us) (auto simp: session_records_def plain_silver_def)
  then show "map (\<lambda>r. (sv_table r, sv_unit r)) rs = record_keys p" and "ps = payload_provenance repr p"
    using assms by (auto simp: create_silver_records_def bind_err_Inr record_keys_def
        dest!: plain_record_Inr special_record_Inr unit_records_Inr)
qed

section \<open>Keys and provenance of the records\<close>

lemma put_units_distinct: "distinct (dict_keys d) \<Longrightarrow> distinct (dict_keys (put_units resolve us d))"
  unfolding put_units_def put_unit_def by (induction us arbitrary: d) (auto simp: distinct_update)

lemma units_of_payload_distinct: "distinct (dict_keys (units_of_payload sec (resolve_frame lib reg headers rows)))"
proof -
  have empty: "units_of_payload sec empty_payload = []"
    by (cases sec) (simp_all add: units_of_payload_def empty_payload_def)
  have "distinct (dict_keys (units_of_payload sec (foldl (position_step lib fr) p xs)))"
    if "distinct (dict_keys (units_of_payload sec p))" for fr p xs
    using that
  proof (induction xs arbitrary: p)
    case (Cons x xs)
    have "distinct (dict_keys (units_of_payload sec (position_step lib fr p x)))"
      using Cons.prems by (cases x) (simp add: units_step put_units_distinct)
    then show ?case using Cons.IH by simp
  qed simp
  then show ?thesis by (simp add: resolve_frame_def empty)
qed

lemmas table_name_defs =
  silver_site_metadata_def silver_charger_telemetry_def silver_connector_telemetry_def
  silver_rectifier_telemetry_def silver_smr_telemetry_def silver_contactor_observation_def
  silver_alarm_observation_def silver_session_observation_def silver_lifecycle_counter_observation_def
  silver_communication_observation_def silver_configuration_snapshot_def

lemma table_names [simp]:
  "table_name silver_site_metadata = ''silver_site_metadata''"
  "table_name silver_charger_telemetry = ''silver_charger_telemetry''"
  "table_name silver_connector_telemetry = ''silver_connector_telemetry''"
  "table_name silver_rectifier_telemetry = ''silver_rectifier_telemetry''"
  "table_name silver_smr_telemetry = ''silver_smr_telemetry''"
  "table_name silver_contactor_observation = ''silver_contactor_observation''"
  "table_name silver_alarm_observation = ''silver_alarm_observation''"
  "table_name silver_session_observation = ''silver_session_observation''"
  "table_name silver_lifecycle_counter_observation = ''silver_lifecycle_counter_observation''"
  "table_name silver_communication_observation = ''silver_communication_observation''"
  "table_name silver_configuration_snapshot = ''silver_configuration_snapshot''"
  by (simp_all only: table_name_defs sql_table.select_convs)

lemma record_keys_distinct: "distinct (record_keys (resolve_frame lib reg headers rows))"
proof -
  have inj: "distinct (map ((\<lambda>i. (n, Some i)) \<circ> fst) us) \<longleftrightarrow> distinct (dict_keys us)"
    for n :: string and us :: "(int, section_data) pydict"
    by (induction us) (auto simp: image_iff)
  have "distinct (dict_keys (connector_telemetry p))" "distinct (dict_keys (rectifier_telemetry p))"
    "distinct (dict_keys (smr_telemetry p))" "distinct (dict_keys (session_observation p))"
    if "p = resolve_frame lib reg headers rows" for p
    using units_of_payload_distinct [of CONNECTOR_SECTION lib reg headers rows]
      units_of_payload_distinct [of RECTIFIER_SECTION lib reg headers rows]
      units_of_payload_distinct [of SMR_SECTION lib reg headers rows]
      units_of_payload_distinct [of SESSION_SECTION lib reg headers rows] that
    by (simp_all add: units_of_payload_def)
  then show ?thesis by (auto simp: record_keys_def inj)
qed

lemma update_mem: "(a, b) \<in> set (AList.update k v d) \<Longrightarrow> (a, b) = (k, v) \<or> (a, b) \<in> set d"
  by (induction d) (auto split: if_splits)

text \<open>
  What a provenance item accounts for: the value of its own field, of a temperature the raw float and the
  mask beside it, and of a stop reason the text stored as \<open>stop_reason\<close>, which is empty for a value that
  counts as false.
\<close>

definition stated_by :: "(py_value \<Rightarrow> string) \<Rightarrow> provenance_item \<Rightarrow> string \<Rightarrow> py_value option \<Rightarrow> bool" where
  "stated_by repr pv c v =
     (pv_canonical pv = c \<and> pv_value pv = map_option (py_str repr) v
      \<or> c = pv_canonical pv @ ''_raw'' \<and> v = map_option VFloat (Option.bind (pv_raw pv) parse_float)
      \<or> c = pv_canonical pv @ ''_masked'' \<and> v = Some (VBool (pv_masked pv))
      \<or> c = ''stop_reason'' \<and> pv_canonical pv \<in> set STOP_REASON_FIELDS
        \<and> (v = None \<or> v = map_option VText (pv_value pv)))"

definition reads_active :: "provenance_item \<Rightarrow> bool" where
  "reads_active pv =
     (case pv_raw pv of None \<Rightarrow> False
      | Some t \<Rightarrow> t \<noteq> [] \<and> py_lower t \<in> {''alarm'', ''trip'', ''active'', ''1'', ''true''})"

text \<open>
  A record is accounted for by provenance items when they state every column it sets, its number of active
  alarms is the number of items whose reading is active, its alarm codes are their fields, its
  configuration lists the items in order and its hash is the digest of their values.
\<close>

definition accounted ::
    "(py_value \<Rightarrow> string) \<Rightarrow> ((string \<times> string) list \<Rightarrow> string) \<Rightarrow> provenance_item list \<Rightarrow> silver_record \<Rightarrow> bool" where
  "accounted repr digest items r =
     ((\<forall>(c, v)\<in>set (sv_values r).
         (\<exists>pv\<in>set items. stated_by repr pv c v)
         \<or> c = ''active_alarms_count'' \<and> v = Some (VInt (int (length (filter reads_active items)))))
      \<and> (case sv_alarm_codes r of None \<Rightarrow> True
         | Some codes \<Rightarrow> codes = map pv_canonical (filter reads_active items))
      \<and> (case sv_config r of None \<Rightarrow> True
         | Some config \<Rightarrow>
             map (\<lambda>(c, v). (c, map_option (py_str repr) v)) config = map (\<lambda>pv. (pv_canonical pv, pv_value pv)) items)
      \<and> (case sv_config_hash r of None \<Rightarrow> True
         | Some h \<Rightarrow> h = digest (sort (List.map_filter (\<lambda>pv. map_option (Pair (pv_canonical pv)) (pv_value pv)) items))))"

definition own_provenance :: "silver_record \<Rightarrow> provenance_item list \<Rightarrow> provenance_item list" where
  "own_provenance r ps = filter (\<lambda>pv. pv_table pv = sv_table r \<and> pv_unit pv = sv_unit r) ps"

definition traced ::
    "(py_value \<Rightarrow> string) \<Rightarrow> ((string \<times> string) list \<Rightarrow> string) \<Rightarrow> provenance_item list \<Rightarrow> silver_record \<Rightarrow> bool" where
  "traced repr digest ps r = accounted repr digest (own_provenance r ps) r"

text \<open>The columns a section sets, each stated by the item of one of its fields.\<close>

definition columns_stated ::
    "(py_value \<Rightarrow> string) \<Rightarrow> sql_table \<Rightarrow> int option \<Rightarrow> section_data \<Rightarrow> (string, py_value option) pydict \<Rightarrow> bool" where
  "columns_stated repr t u data vs =
     (\<forall>(c, v)\<in>set vs. \<exists>f\<in>set data. stated_by repr (make_provenance repr t u f) c v)"

lemma columns_stated_update:
  assumes "columns_stated repr t u data d" and "f \<in> set data" and "stated_by repr (make_provenance repr t u f) k v"
  shows "columns_stated repr t u data (AList.update k v d)"
  using assms unfolding columns_stated_def by (auto dest!: update_mem)

lemma parse_float_empty: "parse_float [] = None"
  by code_simp

lemma stated_value: "stated_by repr (make_provenance repr t u (c, res)) c (rs_value res)"
  by (simp add: stated_by_def make_provenance_def)

lemma stated_raw:
  assumes "masked_columns temps (c, res) = Inr kvs" and "(k, v) \<in> set kvs"
  shows "stated_by repr (make_provenance repr t u (c, res)) k v"
  using assms
  by (auto simp: masked_columns_def stated_by_def make_provenance_def Let_def parse_float_empty
      split: if_splits option.splits)

lemma foldl_update_stated:
  assumes "columns_stated repr t u data d" and "f \<in> set data"
    and "\<And>k v. (k, v) \<in> set kvs \<Longrightarrow> stated_by repr (make_provenance repr t u f) k v"
  shows "columns_stated repr t u data (foldl (\<lambda>d (k, v). AList.update k v d) d kvs)"
  using assms
proof (induction kvs arbitrary: d)
  case (Cons kv kvs)
  obtain k v where kv: "kv = (k, v)" by (cases kv)
  have "columns_stated repr t u data (AList.update k v d)"
    using Cons.prems(3) [of k v] by (intro columns_stated_update [OF Cons.prems(1,2)]) (simp add: kv)
  then show ?case using Cons.IH [OF _ Cons.prems(2)] Cons.prems(3) by (simp add: kv)
qed simp

lemma fill_stated:
  assumes "fill t' temps data = Inr vs"
  shows "columns_stated repr t u data vs"
proof -
  have "columns_stated repr t u data vs"
    if "fold_err (set_field t' temps) d fs = Inr vs" "columns_stated repr t u data d" "set fs \<subseteq> set data" for d fs
    using that
  proof (induction fs arbitrary: d)
    case (Cons f fs)
    obtain c res where f: "f = (c, res)" by (cases f)
    obtain d' where d': "set_field t' temps d f = Inr d'" and rest: "fold_err (set_field t' temps) d' fs = Inr vs"
      using Cons.prems(1) by (auto simp: bind_err_Inr)
    have mem: "(c, res) \<in> set data" using Cons.prems(3) f by simp
    have own: "columns_stated repr t u data (if has_attr t' c then AList.update c (rs_value res) d else d)"
      using columns_stated_update [OF Cons.prems(2) mem stated_value] Cons.prems(2) by simp
    obtain kvs where kvs: "masked_columns temps (c, res) = Inr kvs"
      and d'': "d' = foldl (\<lambda>d (k, v). AList.update k v d) (if has_attr t' c then AList.update c (rs_value res) d else d) kvs"
      using d' by (auto simp: set_field_def f bind_err_Inr Let_def)
    have "columns_stated repr t u data d'"
      unfolding d'' by (rule foldl_update_stated [OF own mem stated_raw [OF kvs]])
    then show ?case using Cons.IH [OF rest] Cons.prems(3) by simp
  qed simp
  from this [of "[]" data] show ?thesis using assms by (simp add: fill_def columns_stated_def)
qed

lemma session_stated:
  "columns_stated repr t u data (foldl (set_session_field repr) [] data)"
proof -
  have "columns_stated repr t u data (foldl (set_session_field repr) d fs)"
    if "columns_stated repr t u data d" "set fs \<subseteq> set data" for d fs
    using that
  proof (induction fs arbitrary: d)
    case (Cons f fs)
    obtain c res where f: "f = (c, res)" by (cases f)
    have mem: "(c, res) \<in> set data" using Cons.prems(2) f by simp
    have own: "columns_stated repr t u data (AList.update c (rs_value res) d)"
      by (rule columns_stated_update [OF Cons.prems(1) mem stated_value])
    have stop: "stated_by repr (make_provenance repr t u (c, res)) ''stop_reason''
          (case rs_value res of None \<Rightarrow> None | Some v \<Rightarrow> if py_truthy v then Some (VText (py_str repr v)) else None)"
      if "c \<in> set STOP_REASON_FIELDS"
      using that by (auto simp: stated_by_def make_provenance_def split: option.split)
    have "columns_stated repr t u data (set_session_field repr d f)"
      using own Cons.prems(1) stop by (auto simp: f set_session_field_def Let_def intro!: columns_stated_update [OF _ mem])
    then show ?case using Cons by simp
  qed simp
  from this [of "[]" data] show ?thesis by (simp add: columns_stated_def)
qed

section \<open>Records and their own provenance\<close>

lemma accounted_plain:
  assumes "columns_stated repr t u data vs"
  shows "accounted repr digest (map (make_provenance repr t u) data) (plain_silver t u' vs)"
  using assms by (fastforce simp: accounted_def columns_stated_def plain_silver_def)

lemma reads_active_items:
  "map pv_canonical (filter reads_active (map (make_provenance repr t u) data)) = active_alarms data"
  "length (filter reads_active (map (make_provenance repr t u) data)) = length (active_alarms data)"
proof -
  have item: "reads_active (make_provenance repr t u f) = (case f of (cname, res) \<Rightarrow> case rs_raw res of None \<Rightarrow> False
        | Some t \<Rightarrow> t \<noteq> [] \<and> py_lower t \<in> {''alarm'', ''trip'', ''active'', ''1'', ''true''})"
    "pv_canonical (make_provenance repr t u f) = fst f" for f
    by (simp_all add: reads_active_def make_provenance_def split: prod.split)
  show "map pv_canonical (filter reads_active (map (make_provenance repr t u) data)) = active_alarms data"
    by (simp only: active_alarms_def filter_map map_map comp_def item)
  then show "length (filter reads_active (map (make_provenance repr t u) data)) = length (active_alarms data)"
    by (metis length_map)
qed

lemma accounted_alarm:
  assumes "alarm_record data = Inr rs" and "r \<in> set rs"
  shows "accounted repr digest (map (make_provenance repr t u) data) r"
proof -
  obtain vs where vs: "fill silver_alarm_observation [] data = Inr vs"
    and r: "sv_values r = AList.update ''active_alarms_count'' (Some (VInt (int (length (active_alarms data))))) vs"
      "sv_alarm_codes r = (if active_alarms data = [] then None else Some (active_alarms data))"
      "sv_config r = None" "sv_config_hash r = None"
    using assms by (auto simp: alarm_record_def bind_err_Inr plain_silver_def)
  define items where "items = map (make_provenance repr t u) data"
  have active: "map pv_canonical (filter reads_active items) = active_alarms data"
    "length (filter reads_active items) = length (active_alarms data)"
    unfolding items_def by (rule reads_active_items)+
  have "\<exists>pv\<in>set items. stated_by repr pv c v" if "(c, v) \<in> set vs" for c v
    using that fill_stated [OF vs, of repr t u] by (fastforce simp: columns_stated_def items_def)
  then show ?thesis
    unfolding items_def [symmetric] by (auto simp: accounted_def r active dest!: update_mem)
qed

lemma configuration_items:
  "List.map_filter (\<lambda>pv. map_option (Pair (pv_canonical pv)) (pv_value pv)) (map (make_provenance repr t u) data) =
     List.map_filter (\<lambda>(k, v). map_option (\<lambda>x. (k, py_str repr x)) v) (map (\<lambda>(cname, res). (cname, rs_value res)) data)"
proof (induction data)
  case (Cons f data)
  then show ?case
    by (cases f; cases "rs_value (snd f)") (simp_all add: make_provenance_def)
qed (simp add: List.map_filter_def)

lemma accounted_configuration:
  assumes "configuration_record repr digest data = Inr rs" and "r \<in> set rs"
  shows "accounted repr digest (map (make_provenance repr t u) data) r"
proof -
  let ?config = "map (\<lambda>(cname, res). (cname, rs_value res)) data"
  obtain vs where vs: "fill silver_configuration_snapshot [] data = Inr vs"
    and r: "sv_values r = vs" "sv_alarm_codes r = None" "sv_config r = (if ?config = [] then None else Some ?config)"
      "sv_config_hash r = Some (compute_configuration_hash repr digest ?config)"
    using assms by (auto simp: configuration_record_def bind_err_Inr plain_silver_def Let_def)
  have "columns_stated repr t u data vs" by (rule fill_stated [OF vs])
  then have "\<forall>(c, v)\<in>set vs. \<exists>pv\<in>set (map (make_provenance repr t u) data). stated_by repr pv c v"
    by (fastforce simp: columns_stated_def)
  moreover have "map (\<lambda>(c, v). (c, map_option (py_str repr) v)) ?config =
      map (\<lambda>pv. (pv_canonical pv, pv_value pv)) (map (make_provenance repr t u) data)"
    by (simp add: make_provenance_def split_beta)
  ultimately show ?thesis
    by (simp add: accounted_def r compute_configuration_hash_def configuration_items [of repr t u data] split_beta)
qed

text \<open>The items of a record among those of its frame: tables have distinct names, units distinct numbers.\<close>

lemma own_of_section:
  "filter (\<lambda>pv. pv_table pv = n \<and> pv_unit pv = u) (map (make_provenance repr t u') data) =
     (if table_name t = n \<and> u' = u then map (make_provenance repr t u') data else [])"
  by (induction data) (auto simp: make_provenance_def)

lemma own_of_units:
  assumes "distinct (dict_keys us)"
  shows "filter (\<lambda>pv. pv_table pv = n \<and> pv_unit pv = u) (unit_provenance repr t us) =
     (if table_name t \<noteq> n then []
      else case u of None \<Rightarrow> []
        | Some i \<Rightarrow> (case map_of us i of None \<Rightarrow> [] | Some data \<Rightarrow> map (make_provenance repr t (Some i)) data))"
  using assms
proof (induction us)
  case (Cons iu us)
  obtain i data where iu: "iu = (i, data)" by (cases iu)
  have "map_of us i = None" using Cons.prems by (simp add: iu map_of_eq_None_iff)
  then show ?case using Cons by (auto simp: unit_provenance_def iu own_of_section split: option.splits)
qed (simp add: unit_provenance_def split: option.split)

lemma payload_units_distinct:
  "distinct (dict_keys (connector_telemetry (resolve_frame lib reg headers rows)))"
  "distinct (dict_keys (rectifier_telemetry (resolve_frame lib reg headers rows)))"
  "distinct (dict_keys (smr_telemetry (resolve_frame lib reg headers rows)))"
  "distinct (dict_keys (session_observation (resolve_frame lib reg headers rows)))"
  using units_of_payload_distinct [of CONNECTOR_SECTION lib reg headers rows]
    units_of_payload_distinct [of RECTIFIER_SECTION lib reg headers rows]
    units_of_payload_distinct [of SMR_SECTION lib reg headers rows]
    units_of_payload_distinct [of SESSION_SECTION lib reg headers rows]
  by (simp_all add: units_of_payload_def)

lemmas own_of_units_resolved =
  own_of_units [OF payload_units_distinct(1)] own_of_units [OF payload_units_distinct(2)]
  own_of_units [OF payload_units_distinct(3)] own_of_units [OF payload_units_distinct(4)]

lemma own_plain:
  assumes "(t, data) \<in> set
      [(silver_site_metadata, site_metadata p), (silver_charger_telemetry, charger_telemetry p),
       (silver_contactor_observation, contactor_observation p), (silver_alarm_observation, alarm_observation p),
       (silver_lifecycle_counter_observation, lifecycle_counters p),
       (silver_communication_observation, communication_observation p),
       (silver_configuration_snapshot, configuration_snapshot p)]"
    and "p = resolve_frame lib reg headers rows" and "sv_table r = table_name t" "sv_unit r = None"
  shows "own_provenance r (payload_provenance repr p) = map (make_provenance repr t None) data"
proof -
  have own: "own_provenance r (payload_provenance repr p) =
      filter (\<lambda>pv. pv_table pv = table_name t \<and> pv_unit pv = None) (payload_provenance repr p)"
    by (simp only: own_provenance_def assms(3,4))
  have "t = silver_site_metadata \<and> data = site_metadata p \<or> t = silver_charger_telemetry \<and> data = charger_telemetry p
      \<or> t = silver_contactor_observation \<and> data = contactor_observation p
      \<or> t = silver_alarm_observation \<and> data = alarm_observation p
      \<or> t = silver_lifecycle_counter_observation \<and> data = lifecycle_counters p
      \<or> t = silver_communication_observation \<and> data = communication_observation p
      \<or> t = silver_configuration_snapshot \<and> data = configuration_snapshot p"
    using assms(1) by simp
  then show ?thesis unfolding own
    by (elim disjE conjE) (simp_all add: assms(2) payload_provenance_def own_of_section own_of_units_resolved)
qed

lemma own_unit:
  assumes "(t, us) \<in> set
      [(silver_connector_telemetry, connector_telemetry p), (silver_rectifier_telemetry, rectifier_telemetry p),
       (silver_smr_telemetry, smr_telemetry p), (silver_session_observation, session_observation p)]"
    and "p = resolve_frame lib reg headers rows" and "(i, data) \<in> set us"
    and "sv_table r = table_name t" "sv_unit r = Some i"
  shows "own_provenance r (payload_provenance repr p) = map (make_provenance repr t (Some i)) data"
proof -
  have "us \<in> {connector_telemetry p, rectifier_telemetry p, smr_telemetry p, session_observation p}"
    using assms(1) by auto
  then have "distinct (dict_keys us)" using payload_units_distinct [of lib reg headers rows] unfolding assms(2) by blast
  then have of: "map_of us i = Some data" using assms(3) by simp
  have own: "own_provenance r (payload_provenance repr p) =
      filter (\<lambda>pv. pv_table pv = table_name t \<and> pv_unit pv = Some i) (payload_provenance repr p)"
    by (simp only: own_provenance_def assms(4,5))
  have "t = silver_connector_telemetry \<and> us = connector_telemetry p
      \<or> t = silver_rectifier_telemetry \<and> us = rectifier_telemetry p
      \<or> t = silver_smr_telemetry \<and> us = smr_telemetry p \<or> t = silver_session_observation \<and> us = session_observation p"
    using assms(1) by simp
  then show ?thesis unfolding own using of
    by (elim disjE conjE) (simp_all add: assms(2) payload_provenance_def own_of_section own_of_units_resolved)
qed

text \<open>What the builders of a frame return, table by table.\<close>

lemma create_records_parts:
  assumes "create_silver_records repr digest p = Inr (rs, ps)" and "r \<in> set rs"
  obtains (plain) t data rs' where
      "(t, data) \<in> set [(silver_site_metadata, site_metadata p), (silver_charger_telemetry, charger_telemetry p),
         (silver_contactor_observation, contactor_observation p),
         (silver_lifecycle_counter_observation, lifecycle_counters p),
         (silver_communication_observation, communication_observation p)]"
      "plain_record t data = Inr rs'" "r \<in> set rs'"
  | (unit) t temps us rs' where
      "(t, temps, us) \<in> set [(silver_connector_telemetry, GUN_TEMP_FIELDS, connector_telemetry p),
         (silver_rectifier_telemetry, RECTIFIER_TEMP_FIELDS, rectifier_telemetry p),
         (silver_smr_telemetry, SMR_TEMP_FIELDS, smr_telemetry p)]"
      "unit_records t temps us = Inr rs'" "r \<in> set rs'"
  | (alarm) rs' where "alarm_record (alarm_observation p) = Inr rs'" "r \<in> set rs'"
  | (session) "r \<in> set (session_records repr (session_observation p))"
  | (configuration) rs' where "configuration_record repr digest (configuration_snapshot p) = Inr rs'" "r \<in> set rs'"
proof -
  obtain a b c d e f g k l m where R: "plain_record silver_site_metadata (site_metadata p) = Inr a"
      "plain_record silver_charger_telemetry (charger_telemetry p) = Inr b"
      "plain_record silver_contactor_observation (contactor_observation p) = Inr f"
      "plain_record silver_lifecycle_counter_observation (lifecycle_counters p) = Inr k"
      "plain_record silver_communication_observation (communication_observation p) = Inr l"
    and A: "alarm_record (alarm_observation p) = Inr g"
    and C: "configuration_record repr digest (configuration_snapshot p) = Inr m"
    and U: "unit_records silver_connector_telemetry GUN_TEMP_FIELDS (connector_telemetry p) = Inr c"
      "unit_records silver_rectifier_telemetry RECTIFIER_TEMP_FIELDS (rectifier_telemetry p) = Inr d"
      "unit_records silver_smr_telemetry SMR_TEMP_FIELDS (smr_telemetry p) = Inr e"
    and rs: "rs = a @ b @ c @ d @ e @ f @ g @ session_records repr (session_observation p) @ k @ l @ m"
    using assms(1) by (auto simp: create_silver_records_def bind_err_Inr)
  consider "r \<in> set a" | "r \<in> set b" | "r \<in> set c" | "r \<in> set d" | "r \<in> set e" | "r \<in> set f" | "r \<in> set g"
    | "r \<in> set (session_records repr (session_observation p))" | "r \<in> set k" | "r \<in> set l" | "r \<in> set m"
    using assms(2) unfolding rs by auto
  then show thesis
  proof cases
    case 1 show thesis by (rule plain [OF _ R(1) 1]) simp
  next
    case 2 show thesis by (rule plain [OF _ R(2) 2]) simp
  next
    case 3 show thesis by (rule unit [OF _ U(1) 3]) simp
  next
    case 4 show thesis by (rule unit [OF _ U(2) 4]) simp
  next
    case 5 show thesis by (rule unit [OF _ U(3) 5]) simp
  next
    case 6 show thesis by (rule plain [OF _ R(3) 6]) simp
  next
    case 7 show thesis by (rule alarm [OF A 7])
  next
    case 8 then show thesis by (rule session)
  next
    case 9 show thesis by (rule plain [OF _ R(4) 9]) simp
  next
    case 10 show thesis by (rule plain [OF _ R(5) 10]) simp
  next
    case 11 show thesis by (rule configuration [OF C 11])
  qed
qed

lemma unit_records_mem:
  assumes "unit_records t temps us = Inr rs" and "r \<in> set rs"
  obtains i data vs where "(i, data) \<in> set us" "fill t temps data = Inr vs" "r = plain_silver t (Some i) vs"
proof -
  obtain k where k: "k < length rs" "r = rs ! k" using assms(2) by (auto simp: in_set_conv_nth)
  note tr = assms(1) [unfolded unit_records_def]
  have len: "length rs = length us" using traverse_length [OF tr] .
  then have "(case us ! k of (i, data) \<Rightarrow> bind_err (fill t temps data) (\<lambda>vs. Inr (plain_silver t (Some i) vs))) = Inr r"
    using traverse_nth [OF tr, of k] k by simp
  moreover have "us ! k \<in> set us" using k len by simp
  ultimately show thesis by (cases "us ! k") (auto simp: bind_err_Inr intro: that)
qed

text \<open>
  C21: The records of a frame are keyed and traceable. No two records of a frame share table and unit, so
  the unique constraints of the Silver tables cannot be violated within a frame. Everything a record stores
  is accounted for by the provenance items of its own table and unit: a column by the item of its field, a
  raw float and a mask by the raw reading and the mask of the item of the temperature, the stop reason by the
  item of a stop-reason field, the number and the codes of the active alarms by the items whose reading is
  active, the stored configuration by the items in order and the configuration hash by their values.
\<close>

theorem records_traceable:
  assumes "create_silver_records repr digest (resolve_frame lib reg headers rows) = Inr (rs, ps)"
  shows "distinct (map (\<lambda>r. (sv_table r, sv_unit r)) rs) \<and> (\<forall>r\<in>set rs. traced repr digest ps r)"
proof (intro conjI ballI)
  show "distinct (map (\<lambda>r. (sv_table r, sv_unit r)) rs)"
    using create_records_keys(1) [OF assms] record_keys_distinct by simp
next
  fix r assume "r \<in> set rs"
  define p where p: "p = resolve_frame lib reg headers rows"
  have ps: "ps = payload_provenance repr p" using create_records_keys(2) [OF assms] by (simp add: p)
  from assms \<open>r \<in> set rs\<close> show "traced repr digest ps r" unfolding p [symmetric]
  proof (cases rule: create_records_parts)
    case (plain t data rs')
    then obtain vs where vs: "fill t [] data = Inr vs" "r = plain_silver t None vs"
      by (auto simp: plain_record_def bind_err_Inr)
    have "own_provenance r ps = map (make_provenance repr t None) data"
      unfolding ps using plain(1) by (intro own_plain [OF _ p]) (auto simp: vs(2) plain_silver_def)
    then show ?thesis using accounted_plain [OF fill_stated [OF vs(1)]] by (simp add: traced_def vs(2))
  next
    case (unit t temps us rs')
    obtain i data vs where vs: "(i, data) \<in> set us" "fill t temps data = Inr vs" "r = plain_silver t (Some i) vs"
      using unit_records_mem [OF unit(2,3)] .
    have "own_provenance r ps = map (make_provenance repr t (Some i)) data"
      unfolding ps using unit(1) by (intro own_unit [OF _ p vs(1)]) (auto simp: vs(3) plain_silver_def)
    then show ?thesis using accounted_plain [OF fill_stated [OF vs(2)]] by (simp add: traced_def vs(3))
  next
    case (alarm rs')
    have "own_provenance r ps = map (make_provenance repr silver_alarm_observation None) (alarm_observation p)"
      unfolding ps using special_record_Inr(1) [OF alarm(1)] alarm(2) by (intro own_plain [OF _ p]) auto
    then show ?thesis using accounted_alarm [OF alarm] by (simp add: traced_def)
  next
    case session
    then obtain i data where i: "(i, data) \<in> set (session_observation p)"
      "r = plain_silver silver_session_observation (Some i) (foldl (set_session_field repr) [] data)"
      by (auto simp: session_records_def)
    have "own_provenance r ps = map (make_provenance repr silver_session_observation (Some i)) data"
      unfolding ps by (intro own_unit [OF _ p i(1)]) (simp_all add: i(2) plain_silver_def)
    then show ?thesis using accounted_plain [OF session_stated] by (simp add: traced_def i(2))
  next
    case (configuration rs')
    have "own_provenance r ps = map (make_provenance repr silver_configuration_snapshot None) (configuration_snapshot p)"
      unfolding ps using special_record_Inr(2) [OF configuration(1)] configuration(2) by (intro own_plain [OF _ p]) auto
    then show ?thesis using accounted_configuration [OF configuration] by (simp add: traced_def)
  qed
qed

section \<open>Alarms and configuration\<close>

text \<open>An alarm the rows disagree on is counted or not by the alphabetical order of its readings.\<close>

lemma alarm_conflict_alphabetical:
  "active_alarms [(c, resolution_of_set lib pos spec {''Alarm'', ''Normal''})] = [c]"
  "active_alarms [(c, resolution_of_set lib pos spec {''Normal'', ''Trip''})] = []"
proof -
  have "min ''Alarm'' ''Normal'' = ''Alarm''" "min ''Normal'' ''Trip'' = ''Normal''" by code_simp+
  then have "Min {''Alarm'', ''Normal''} = ''Alarm''" "Min {''Normal'', ''Trip''} = ''Normal''" by simp_all
  moreover have "py_lower ''Alarm'' = ''alarm''" "py_lower ''Normal'' = ''normal''" by code_simp+
  ultimately show "active_alarms [(c, resolution_of_set lib pos spec {''Alarm'', ''Normal''})] = [c]"
    and "active_alarms [(c, resolution_of_set lib pos spec {''Normal'', ''Trip''})] = []"
    by (simp_all add: active_alarms_def resolution_of_set_def)
qed

text \<open>The configuration hash does not depend on the order in which fields were resolved.\<close>

lemma configuration_hash_order:
  assumes "mset config = mset config'"
  shows "compute_configuration_hash repr digest config = compute_configuration_hash repr digest config'"
proof -
  have "mset (List.map_filter f config) = mset (List.map_filter f config')" for f :: "_ \<Rightarrow> (string \<times> string) option"
    using assms by (simp only: List.map_filter_def mset_map mset_filter)
  then have "sort (List.map_filter f config) = sort (List.map_filter f config')" for f :: "_ \<Rightarrow> (string \<times> string) option"
    by (intro properties_for_sort) simp_all
  then show ?thesis by (simp only: compute_configuration_hash_def)
qed

section \<open>Concrete files\<close>

definition demo_normalizer :: normalizer where
  "demo_normalizer =
     \<lparr>nz_library = demo_library, nz_dictionary = demo_dictionary, nz_repr = (\<lambda>_. []), nz_digest = (\<lambda>kvs. concat (map snd kvs))\<rparr>"

definition demo_canonical_frame :: canonical_frame where
  "demo_canonical_frame = \<lparr>cfr_id = 7, cfr_row_numbers = [1, 2], cfr_order_min = None, cfr_order_max = None\<rparr>"

text \<open>A frame whose two rows agree on the gun lock, and one whose rows contradict each other.\<close>

abbreviation demo_agreeing :: "string list list" where
  "demo_agreeing \<equiv> [[''closed''], [''closed'']]"

abbreviation demo_contradicting :: "string list list" where
  "demo_contradicting \<equiv> [[''closed''], [''open'']]"

lemma demo_payload:
  "payload_conflicts (frame_payload_of demo_normalizer [''Gun Lock''] demo_agreeing demo_canonical_frame) = []"
  "payload_unreadable (frame_payload_of demo_normalizer [''Gun Lock''] demo_agreeing demo_canonical_frame) = False"
  "map cf_values (payload_conflicts (frame_payload_of demo_normalizer [''Gun Lock''] demo_contradicting demo_canonical_frame))
     = [[''closed'', ''open'']]"
  by code_simp+

lemma demo_frames_ok:
  "\<exists>bs. normalize_frames demo_normalizer [''Gun Lock''] demo_agreeing [demo_canonical_frame] = Inr bs"
  unfolding not_isl_iff [symmetric] normalize_frames_isl using demo_payload(1,2) by simp

lemma demo_run:
  "\<exists>out. normalize_file demo_normalizer False True NORMALIZED [''Gun Lock''] demo_agreeing [demo_canonical_frame] st = Inr out"
  using demo_frames_ok by (auto simp: normalize_file_def Let_def advance_to_def)

theorem normalize_idempotent_witness:
  "\<exists>out out'. normalize_file demo_normalizer False True NORMALIZED [''Gun Lock''] demo_agreeing [demo_canonical_frame]
       \<lparr>st_records = [], st_provenance = []\<rparr> = Inr out
     \<and> normalize_file demo_normalizer False True NORMALIZED [''Gun Lock''] demo_agreeing [demo_canonical_frame]
       (no_store out) = Inr out' \<and> no_store out' = no_store out"
  using demo_run normalize_idempotent by meson

text \<open>The agreeing frame ends NORMALIZED; the contradicting one, in the same state, makes the run raise.\<close>

theorem normalize_lifecycle_witness:
  "(\<exists>out. normalize_file demo_normalizer True True FRAMES_RECONSTRUCTED [''Gun Lock''] demo_agreeing [demo_canonical_frame]
       \<lparr>st_records = [], st_provenance = []\<rparr> = Inr out \<and> no_status out = NORMALIZED)
   \<and> (\<exists>e. normalize_file demo_normalizer True True FRAMES_RECONSTRUCTED [''Gun Lock''] demo_contradicting [demo_canonical_frame]
       \<lparr>st_records = [], st_provenance = []\<rparr> = Inl e)"
proof -
  let ?run = "\<lambda>lines. normalize_file demo_normalizer True True FRAMES_RECONSTRUCTED [''Gun Lock''] lines [demo_canonical_frame]
       \<lparr>st_records = [], st_provenance = []\<rparr>"
  note life = normalize_lifecycle [where nz = demo_normalizer and s = FRAMES_RECONSTRUCTED
      and headers = "[''Gun Lock'']" and frames = "[demo_canonical_frame]" and st = "\<lparr>st_records = [], st_provenance = []\<rparr>"]
  have legal: "can_transition FRAMES_RECONSTRUCTED NORMALIZING"
    by (simp add: can_transition_def next_states_def allowed_transitions_def dict_get_def)
  have "payload_conflicts (frame_payload_of demo_normalizer [''Gun Lock''] demo_contradicting demo_canonical_frame) \<noteq> []"
    using demo_payload(3) by auto
  then have "isl (?run demo_contradicting)"
    using life [where lines = demo_contradicting] by (cases "?run demo_contradicting") auto
  moreover have "\<exists>out. ?run demo_agreeing = Inr out \<and> no_status out = NORMALIZED"
    using life [where lines = demo_agreeing] legal demo_payload(1,2) by (cases "?run demo_agreeing") auto
  ultimately show ?thesis by (auto simp: isl_def)
qed

theorem records_traceable_witness:
  "\<exists>rs ps. create_silver_records (\<lambda>_. []) (\<lambda>kvs. concat (map snd kvs))
       (resolve_frame demo_library demo_dictionary [''Gun Lock''] [[(''Gun Lock'', ''closed'')]]) = Inr (rs, ps)
     \<and> distinct (map (\<lambda>r. (sv_table r, sv_unit r)) rs)"
proof -
  let ?p = "resolve_frame demo_library demo_dictionary [''Gun Lock''] [[(''Gun Lock'', ''closed'')]]"
  have "\<not> payload_unreadable ?p" by code_simp
  then obtain x where "create_silver_records (\<lambda>_. []) (\<lambda>kvs. concat (map snd kvs)) ?p = Inr x"
    using create_records_Inl [of "\<lambda>_. []" "\<lambda>kvs. concat (map snd kvs)" ?p]
    by (cases "create_silver_records (\<lambda>_. []) (\<lambda>kvs. concat (map snd kvs)) ?p") auto
  then obtain rs ps where "create_silver_records (\<lambda>_. []) (\<lambda>kvs. concat (map snd kvs)) ?p = Inr (rs, ps)"
    by (cases x) auto
  then show ?thesis using records_traceable by blast
qed

theorem repeated_header_last_column_witness:
  "cell ''Stop'' gun_lock (row_dict [''Stop'', ''Time'', ''Stop''] [''User'', ''12'', ''Fault'']) = Some ''Fault''"
  using repeated_header_last_column [of 2 "[''User'', ''12'', ''Fault'']" "[''Stop'', ''Time'', ''Stop'']" "''Stop''" gun_lock]
  by simp

text \<open>A file whose only gun temperature is a dash.\<close>

definition gun_temp :: field_spec where
  "gun_temp = (classify_field None ''Gun Temp'' 1 ''gun_temp'')
     \<lparr>fs_canonical_name := ''gun_temp_dc_positive'', fs_data_type := FLOAT, fs_origin := ''connector.yaml''\<rparr>"

definition temperature_normalizer :: normalizer where
  "temperature_normalizer =
     demo_normalizer\<lparr>nz_dictionary := demo_dictionary\<lparr>specs_by_name := [(''Gun Temp'', gun_temp)]\<rparr>\<rparr>"

theorem unreadable_temperature_aborts_witness:
  "\<exists>e. normalize_file temperature_normalizer False True NORMALIZED [''Gun Temp''] [[''-'']]
     [demo_canonical_frame\<lparr>cfr_row_numbers := [1]\<rparr>] \<lparr>st_records = [], st_provenance = []\<rparr> = Inl e"
proof -
  let ?p = "frame_payload_of temperature_normalizer [''Gun Temp''] [[''-'']] (demo_canonical_frame\<lparr>cfr_row_numbers := [1]\<rparr>)"
  have "map_option rs_raw (payload_field CONNECTOR_SECTION 1 ?p ''gun_temp_dc_positive'') = Some (Some ''-'')" by code_simp
  then obtain res where "payload_field CONNECTOR_SECTION 1 ?p ''gun_temp_dc_positive'' = Some res" "rs_raw res = Some ''-''"
    by auto
  moreover have "parse_float ''-'' = None" by code_simp
  moreover have "''gun_temp_dc_positive'' \<in> set GUN_TEMP_FIELDS" by (simp add: GUN_TEMP_FIELDS_def)
  ultimately show ?thesis by (intro unreadable_temperature_aborts) simp_all
qed

end
