(* ===== verification/Migration.thy ===== *)
theory Migration
  imports SilverModels
begin

text \<open>
  The Alembic revision that creates the Silver layer, \<open>upgrade\<close> of
  \<open>alembic/versions/84fce8cc3d03_add_silver_telemetry_tables.py\<close>: every \<open>create_table\<close> with its columns,
  keys, constraints and the \<open>create_index\<close> calls that follow it, with their names, in the order of the
  script. \<open>migration_matches_models\<close> compares it with the models; \<open>Silver\<close> shows that the records
  normalization builds fit the tables it creates.
\<close>

definition create_silver_alarm_observation :: sql_table where
  "create_silver_alarm_observation =
     \<lparr>table_name = ''silver_alarm_observation'',
      table_columns =
       [Column ''charger_id'' (Sql_String 128) False, Column ''event_time'' Sql_Timestamp False,
        Column ''frame_sequence'' Sql_Integer False, Column ''frame_id'' Sql_Uuid False,
        Column ''active_alarms_count'' Sql_Integer False, Column ''active_alarm_codes'' Sql_Json True,
        Column ''ground_resistance_value'' Sql_Float True,
        Column ''rtc_clock_drift_warning'' (Sql_String 255) True,
        Column ''rms_disabled_alarm'' (Sql_String 255) True, Column ''grid_fail'' (Sql_String 255) True,
        Column ''class_c_spd_fail'' (Sql_String 255) True,
        Column ''ne_voltage_high_alarm'' (Sql_String 255) True, Column ''line_1_fail'' (Sql_String 255) True,
        Column ''line_2_fail'' (Sql_String 255) True, Column ''line_3_fail'' (Sql_String 255) True,
        Column ''door_open'' (Sql_String 255) True, Column ''smoke_alarm'' (Sql_String 255) True,
        Column ''emergency_stop_active'' (Sql_String 255) True,
        Column ''system_fan_fail'' (Sql_String 255) True,
        Column ''filter_maintenance_warning'' (Sql_String 255) True,
        Column ''grid_abnormal'' (Sql_String 255) True, Column ''sd_card_fail'' (Sql_String 255) True,
        Column ''sd_card_crc_fail'' (Sql_String 255) True, Column ''input_rcbo_tripped'' (Sql_String 255) True,
        Column ''mccb_tripped'' (Sql_String 255) True, Column ''class_d_spd_fail_alarm'' (Sql_String 255) True,
        Column ''ground_fault_alarm'' (Sql_String 255) True,
        Column ''hvlv_cut_off_alarm'' (Sql_String 255) True,
        Column ''auxillary_mcb_trip_alarm'' (Sql_String 255) True,
        Column ''backup_battery_low'' (Sql_String 255) True,
        Column ''earth_leakage_sensed_alarm'' (Sql_String 255) True,
        Column ''short_circuit'' (Sql_String 255) True,
        Column ''last_insulation_test_fail'' (Sql_String 255) True,
        Column ''fuse_fail_alarm'' (Sql_String 255) True, Column ''ac_fail_alarm'' (Sql_String 255) True,
        Column ''dc_positive_insulation_resistance'' Sql_Float True,
        Column ''dc_negative_insulation_resistance'' Sql_Float True,
        Column ''last_insulation_test_status'' (Sql_String 255) True,
        Column ''calculated_insulation_resistance'' Sql_Float True, Column ''mdl_fault'' (Sql_String 255) True,
        Column ''fan_fault'' (Sql_String 255) True, Column ''dcdc_eeprom_faults'' (Sql_String 255) True,
        Column ''fan_1_fail'' (Sql_String 255) True, Column ''fan_2_fail'' (Sql_String 255) True,
        Column ''fan_3_fail'' (Sql_String 255) True, Column ''fan_4_fail'' (Sql_String 255) True,
        Column ''fan_5_fail'' (Sql_String 255) True, Column ''fan_6_fail'' (Sql_String 255) True,
        Column ''fan_7_fail'' (Sql_String 255) True, Column ''fan_8_fail'' (Sql_String 255) True,
        Column ''fan_9_fail'' (Sql_String 255) True, Column ''fan_10_fail'' (Sql_String 255) True,
        Column ''fan_11_fail'' (Sql_String 255) True, Column ''fan_12_fail'' (Sql_String 255) True,
        Column ''fan_13_fail'' (Sql_String 255) True, Column ''fan_14_fail'' (Sql_String 255) True,
        Column ''fan_15_fail'' (Sql_String 255) True, Column ''fan_16_fail'' (Sql_String 255) True,
        Column ''fan_17_fail'' (Sql_String 255) True, Column ''fan_18_fail'' (Sql_String 255) True,
        Column ''fan_19_fail'' (Sql_String 255) True, Column ''fan_20_fail'' (Sql_String 255) True,
        Column ''fan_21_fail'' (Sql_String 255) True, Column ''fan_22_fail'' (Sql_String 255) True,
        Column ''fan_23_fail'' (Sql_String 255) True, Column ''dc_section_fan_fail'' (Sql_String 255) True,
        Column ''id'' Sql_Uuid False, Column ''created_at'' Sql_Timestamp False,
        Column ''updated_at'' Sql_Timestamp False],
      primary_key = (Some ''pk_silver_alarm_observation'', [''id'']),
      foreign_keys =
       [Foreign_Key (Some ''fk_silver_alarm_observation_frame_id_telemetry_source_frame'') ''frame_id'' ''telemetry_source_frame.id'' (Some ''CASCADE'')],
      unique_key = Some (Some ''uq_silver_alarm_observation'', [''charger_id'', ''event_time'', ''frame_sequence'']),
      table_indexes =
       [Index (Some ''ix_silver_alarm_observation_charger_id'') [''charger_id''] False,
        Index (Some ''ix_silver_alarm_observation_event_time'') [''event_time''] False,
        Index (Some ''ix_silver_alarm_observation_frame_id'') [''frame_id''] False,
        Index (Some ''ix_silver_alarm_observation_lookup'') [''charger_id'', ''event_time'', ''frame_sequence''] False],
      python_defaults = []\<rparr>"

definition create_silver_charger_telemetry :: sql_table where
  "create_silver_charger_telemetry =
     \<lparr>table_name = ''silver_charger_telemetry'',
      table_columns =
       [Column ''charger_id'' (Sql_String 128) False, Column ''event_time'' Sql_Timestamp False,
        Column ''frame_sequence'' Sql_Integer False, Column ''frame_id'' Sql_Uuid False,
        Column ''ocpp_id'' (Sql_String 128) True, Column ''l1_n_voltage'' Sql_Float True,
        Column ''l2_n_voltage'' Sql_Float True, Column ''l3_n_voltage'' Sql_Float True,
        Column ''neutral_voltage'' Sql_Float True, Column ''line_1_input_current'' Sql_Float True,
        Column ''line_2_input_current'' Sql_Float True, Column ''line_3_input_current'' Sql_Float True,
        Column ''frequency'' Sql_Float True, Column ''power_factor'' Sql_Float True,
        Column ''active_power'' Sql_Float True, Column ''l1_l2_voltage'' Sql_Float True,
        Column ''l2_l3_voltage'' Sql_Float True, Column ''l3_l1_voltage'' Sql_Float True,
        Column ''reactive_power'' Sql_Float True, Column ''active_energy'' Sql_Float True,
        Column ''reactive_energy'' Sql_Float True, Column ''apparent_energy'' Sql_Float True,
        Column ''l1_n_voltage_meter'' Sql_Float True, Column ''l2_n_voltage_meter'' Sql_Float True,
        Column ''l3_n_voltage_meter'' Sql_Float True, Column ''grid_status'' (Sql_String 255) True,
        Column ''apparent_power'' Sql_Float True, Column ''pilot_upper_tcp_interface'' (Sql_String 255) True,
        Column ''rms_enable_modified_by'' (Sql_String 255) True,
        Column ''fan_run_status'' (Sql_String 255) True, Column ''fan_set_speed'' Sql_Float True,
        Column ''system_fan_speed'' Sql_Float True, Column ''cabinet_temperature'' Sql_Float True,
        Column ''cooling_temp_sensor_1'' Sql_Float True, Column ''cooling_temp_sensor_2'' Sql_Float True,
        Column ''fan_card_status'' (Sql_String 255) True, Column ''fan_1_status'' (Sql_String 255) True,
        Column ''fan_2_status'' (Sql_String 255) True, Column ''fan_3_status'' (Sql_String 255) True,
        Column ''fan_4_status'' (Sql_String 255) True, Column ''fan_5_status'' (Sql_String 255) True,
        Column ''fan_6_status'' (Sql_String 255) True, Column ''fan_7_status'' (Sql_String 255) True,
        Column ''fan_8_status'' (Sql_String 255) True, Column ''fan_9_status'' (Sql_String 255) True,
        Column ''fan_10_status'' (Sql_String 255) True, Column ''fan_11_status'' (Sql_String 255) True,
        Column ''fan_12_status'' (Sql_String 255) True, Column ''fan_13_status'' (Sql_String 255) True,
        Column ''fan_14_status'' (Sql_String 255) True, Column ''fan_15_status'' (Sql_String 255) True,
        Column ''fan_16_status'' (Sql_String 255) True, Column ''fan_17_status'' (Sql_String 255) True,
        Column ''fan_18_status'' (Sql_String 255) True, Column ''fan_19_status'' (Sql_String 255) True,
        Column ''fan_20_status'' (Sql_String 255) True, Column ''fan_21_status'' (Sql_String 255) True,
        Column ''fan_22_status'' (Sql_String 255) True, Column ''fan_23_status'' (Sql_String 255) True,
        Column ''dc_section_fan_status'' (Sql_String 255) True,
        Column ''line_1_over_voltage'' (Sql_String 255) True,
        Column ''line_2_over_voltage'' (Sql_String 255) True,
        Column ''line_3_over_voltage'' (Sql_String 255) True,
        Column ''line_1_under_voltage'' (Sql_String 255) True,
        Column ''line_2_under_voltage'' (Sql_String 255) True,
        Column ''line_3_under_voltage'' (Sql_String 255) True,
        Column ''system_over_temperature'' (Sql_String 255) True,
        Column ''system_tilted'' (Sql_String 255) True,
        Column ''temperature_sensor_disconnected'' (Sql_String 255) True,
        Column ''mains_high'' (Sql_String 255) True, Column ''mains_low'' (Sql_String 255) True,
        Column ''sd_card_not_present'' (Sql_String 255) True,
        Column ''temperature_sensor_1_fail'' (Sql_String 255) True,
        Column ''temperature_sensor_2_fail'' (Sql_String 255) True,
        Column ''dcem_sn_duplicate'' (Sql_String 255) True, Column ''grid_over_voltage'' (Sql_String 255) True,
        Column ''grid_under_voltage'' (Sql_String 255) True, Column ''ocpp_state'' (Sql_String 255) True,
        Column ''pilot_controller_state'' (Sql_String 255) True,
        Column ''ccu_main_state'' (Sql_String 255) True, Column ''cp_voltage'' Sql_Float True,
        Column ''set_voltage'' Sql_Float True, Column ''set_current'' Sql_Float True,
        Column ''output_voltage'' Sql_Float True, Column ''output_current'' Sql_Float True,
        Column ''available_max_current'' Sql_Float True, Column ''available_max_power'' Sql_Float True,
        Column ''dc_over_voltage'' (Sql_String 255) True, Column ''e_lock_failed'' (Sql_String 255) True,
        Column ''auxillary_power_fail'' (Sql_String 255) True,
        Column ''voltage_calibration_error'' (Sql_String 255) True,
        Column ''power_section_failed'' (Sql_String 255) True, Column ''ems_output_voltage'' Sql_Float True,
        Column ''ems_output_current'' Sql_Float True, Column ''ems_output_power'' Sql_Float True,
        Column ''ac_over_voltage'' (Sql_String 255) True, Column ''ac_under_voltage'' (Sql_String 255) True,
        Column ''charging_time'' Sql_Float True, Column ''ocpp_tx_send_status'' (Sql_String 255) True,
        Column ''ev_mac_id_info'' (Sql_String 255) True, Column ''slac_attenuation'' Sql_Float True,
        Column ''discharge_abnormal'' (Sql_String 255) True, Column ''dc_side_is_off'' (Sql_String 255) True,
        Column ''mdl_protect'' (Sql_String 255) True, Column ''over_temperature'' (Sql_String 255) True,
        Column ''output_over_voltage'' (Sql_String 255) True, Column ''walk_in_enabled'' (Sql_String 255) True,
        Column ''mdl_id_repetition'' (Sql_String 255) True, Column ''load_sharing'' (Sql_String 255) True,
        Column ''input_phase_loss'' (Sql_String 255) True, Column ''input_unbalance'' (Sql_String 255) True,
        Column ''input_under_voltage'' (Sql_String 255) True,
        Column ''input_over_voltage'' (Sql_String 255) True, Column ''fuse_burn_out'' (Sql_String 255) True,
        Column ''bus_unbalanced_voltage'' (Sql_String 255) True,
        Column ''bus_over_voltage'' (Sql_String 255) True,
        Column ''bus_voltage_abnormal'' (Sql_String 255) True,
        Column ''bus_under_voltage'' (Sql_String 255) True, Column ''fan_at_full_speed'' (Sql_String 255) True,
        Column ''output_derating_temp'' (Sql_String 255) True,
        Column ''output_derating_ac'' (Sql_String 255) True, Column ''back_up_battery_voltage'' Sql_Float True,
        Column ''run_since_power_on'' Sql_Float True,
        Column ''last_charger_reboot_reason'' (Sql_String 255) True, Column ''id'' Sql_Uuid False,
        Column ''created_at'' Sql_Timestamp False, Column ''updated_at'' Sql_Timestamp False],
      primary_key = (Some ''pk_silver_charger_telemetry'', [''id'']),
      foreign_keys =
       [Foreign_Key (Some ''fk_silver_charger_telemetry_frame_id_telemetry_source_frame'') ''frame_id'' ''telemetry_source_frame.id'' (Some ''CASCADE'')],
      unique_key = Some (Some ''uq_silver_charger_telemetry'', [''charger_id'', ''event_time'', ''frame_sequence'']),
      table_indexes =
       [Index (Some ''ix_silver_charger_telemetry_charger_id'') [''charger_id''] False,
        Index (Some ''ix_silver_charger_telemetry_event_time'') [''event_time''] False,
        Index (Some ''ix_silver_charger_telemetry_frame_id'') [''frame_id''] False,
        Index (Some ''ix_silver_charger_telemetry_lookup'') [''charger_id'', ''event_time'', ''frame_sequence''] False],
      python_defaults = []\<rparr>"

definition create_silver_communication_observation :: sql_table where
  "create_silver_communication_observation =
     \<lparr>table_name = ''silver_communication_observation'',
      table_columns =
       [Column ''charger_id'' (Sql_String 128) False, Column ''event_time'' Sql_Timestamp False,
        Column ''frame_sequence'' Sql_Integer False, Column ''frame_id'' Sql_Uuid False,
        Column ''ccu_comm_fail'' (Sql_String 255) True,
        Column ''led_strip_card_comm_fail'' (Sql_String 255) True,
        Column ''dcsi_card_comm_fail'' (Sql_String 255) True,
        Column ''ac_sense_card_comm_fail'' (Sql_String 255) True,
        Column ''led_board_comm_fail'' (Sql_String 255) True,
        Column ''rfid_reader_comm_fail'' (Sql_String 255) True,
        Column ''modem_comm_fail'' (Sql_String 255) True, Column ''modem_sim_present'' (Sql_String 255) True,
        Column ''display_comm_fail'' (Sql_String 255) True, Column ''cms_comm_fail'' (Sql_String 255) True,
        Column ''fan_card_comm_fail'' (Sql_String 255) True,
        Column ''i_o_card_comm_fail'' (Sql_String 255) True,
        Column ''input_acem_comm_fail'' (Sql_String 255) True,
        Column ''led_card2_comm_fail'' (Sql_String 255) True, Column ''rsrp'' Sql_Float True,
        Column ''rsrq'' Sql_Float True, Column ''gmd_comm_fail_alarm'' (Sql_String 255) True,
        Column ''ring_communication_break'' (Sql_String 255) True,
        Column ''sim_not_inserted_alarm'' (Sql_String 255) True,
        Column ''insulation_comm_fail'' (Sql_String 255) True, Column ''plc_comm_fail'' (Sql_String 255) True,
        Column ''energy_meter_comm_fail'' (Sql_String 255) True,
        Column ''ac_energy_meter_comm_fail'' (Sql_String 255) True,
        Column ''inner_comm_interrupt'' (Sql_String 255) True,
        Column ''can_communication_interrupt'' (Sql_String 255) True, Column ''id'' Sql_Uuid False,
        Column ''created_at'' Sql_Timestamp False, Column ''updated_at'' Sql_Timestamp False],
      primary_key = (Some ''pk_silver_communication_observation'', [''id'']),
      foreign_keys =
       [Foreign_Key (Some ''fk_silver_communication_observation_frame_id_telemetry_source_frame'') ''frame_id'' ''telemetry_source_frame.id'' (Some ''CASCADE'')],
      unique_key = Some (Some ''uq_silver_communication_observation'', [''charger_id'', ''event_time'', ''frame_sequence'']),
      table_indexes =
       [Index (Some ''ix_silver_communication_observation_charger_id'') [''charger_id''] False,
        Index (Some ''ix_silver_communication_observation_event_time'') [''event_time''] False,
        Index (Some ''ix_silver_communication_observation_frame_id'') [''frame_id''] False,
        Index (Some ''ix_silver_communication_observation_lookup'') [''charger_id'', ''event_time'', ''frame_sequence''] False],
      python_defaults = []\<rparr>"

definition create_silver_configuration_snapshot :: sql_table where
  "create_silver_configuration_snapshot =
     \<lparr>table_name = ''silver_configuration_snapshot'',
      table_columns =
       [Column ''charger_id'' (Sql_String 128) False, Column ''event_time'' Sql_Timestamp False,
        Column ''frame_sequence'' Sql_Integer False, Column ''frame_id'' Sql_Uuid False,
        Column ''config_hash'' (Sql_String 64) False, Column ''raw_config_json'' Sql_Json True,
        Column ''modem_signal_intensity'' Sql_Float True,
        Column ''charge_selected_mode'' (Sql_String 255) True,
        Column ''charging_start_method'' (Sql_String 255) True, Column ''charging_mode'' (Sql_String 255) True,
        Column ''ev_max_voltage_limit'' Sql_Float True, Column ''ev_max_current_limit'' Sql_Float True,
        Column ''power_limit'' (Sql_String 255) True,
        Column ''ring_current_operating_mode'' (Sql_String 255) True, Column ''id'' Sql_Uuid False,
        Column ''created_at'' Sql_Timestamp False, Column ''updated_at'' Sql_Timestamp False],
      primary_key = (Some ''pk_silver_configuration_snapshot'', [''id'']),
      foreign_keys =
       [Foreign_Key (Some ''fk_silver_configuration_snapshot_frame_id_telemetry_source_frame'') ''frame_id'' ''telemetry_source_frame.id'' (Some ''CASCADE'')],
      unique_key = Some (Some ''uq_silver_configuration_snapshot'', [''charger_id'', ''event_time'', ''frame_sequence'']),
      table_indexes =
       [Index (Some ''ix_silver_configuration_snapshot_charger_id'') [''charger_id''] False,
        Index (Some ''ix_silver_configuration_snapshot_config_hash'') [''config_hash''] False,
        Index (Some ''ix_silver_configuration_snapshot_event_time'') [''event_time''] False,
        Index (Some ''ix_silver_configuration_snapshot_frame_id'') [''frame_id''] False,
        Index (Some ''ix_silver_configuration_snapshot_lookup'') [''charger_id'', ''event_time'', ''frame_sequence''] False],
      python_defaults = []\<rparr>"

definition create_silver_connector_telemetry :: sql_table where
  "create_silver_connector_telemetry =
     \<lparr>table_name = ''silver_connector_telemetry'',
      table_columns =
       [Column ''charger_id'' (Sql_String 128) False, Column ''connector_id'' Sql_Integer False,
        Column ''event_time'' Sql_Timestamp False, Column ''frame_sequence'' Sql_Integer False,
        Column ''frame_id'' Sql_Uuid False, Column ''gun_temp_dc_positive_raw'' Sql_Float True,
        Column ''gun_temp_dc_positive_masked'' Sql_Boolean False,
        Column ''gun_temp_dc_negative_raw'' Sql_Float True,
        Column ''gun_temp_dc_negative_masked'' Sql_Boolean False,
        Column ''connector_type'' (Sql_String 255) True, Column ''connector_status'' (Sql_String 255) True,
        Column ''plug_status'' (Sql_String 255) True, Column ''ccs_main_state'' (Sql_String 255) True,
        Column ''ccs_sub_state'' (Sql_String 255) True, Column ''gun_temp_dc_positive'' Sql_Float True,
        Column ''gun_temp_dc_negative'' Sql_Float True, Column ''gun_insertion_cycle_count'' Sql_Float True,
        Column ''gun_voltage'' Sql_Float True, Column ''gun_over_temp_warning'' (Sql_String 255) True,
        Column ''gun_over_temp_cutoff'' (Sql_String 255) True,
        Column ''gun_over_temp_dc_positive_warning'' (Sql_String 255) True,
        Column ''gun_over_temp_dc_negative_warning'' (Sql_String 255) True,
        Column ''gun_ov_temp_derating_set'' (Sql_String 255) True,
        Column ''gun_locked_by_cms'' (Sql_String 255) True,
        Column ''gun_temperature_derating_status'' (Sql_String 255) True,
        Column ''gun_dc_positive_ultra_temp'' (Sql_String 255) True,
        Column ''gun_dc_negative_ultra_temp'' (Sql_String 255) True,
        Column ''gun_dc_positive_temp_sensor_disconnect'' (Sql_String 255) True,
        Column ''gun_dc_negative_temp_sensor_disconnect'' (Sql_String 255) True,
        Column ''gun_temperature_sensor_disconnect'' (Sql_String 255) True,
        Column ''gun_dc_positive_temp_sensor_loose'' (Sql_String 255) True,
        Column ''gun_dc_negative_temp_sensor_loose'' (Sql_String 255) True,
        Column ''gun_not_placed_back_alarm'' (Sql_String 255) True,
        Column ''ccs_secc_state'' (Sql_String 255) True, Column ''ccs_secc_error_code'' (Sql_String 255) True,
        Column ''ccs_ev_error_code'' (Sql_String 255) True, Column ''gun_output_voltage'' Sql_Float True,
        Column ''gun_ccs_main_state_at_session_stop'' (Sql_String 255) True,
        Column ''gun_ccs_sub_state_at_session_stop'' (Sql_String 255) True,
        Column ''gun_insert_counter_charger_socket'' Sql_Float True,
        Column ''gun_over_temperature_counter'' Sql_Float True,
        Column ''gun_placed_in_charger_holder'' (Sql_String 255) True, Column ''id'' Sql_Uuid False,
        Column ''created_at'' Sql_Timestamp False, Column ''updated_at'' Sql_Timestamp False],
      primary_key = (Some ''pk_silver_connector_telemetry'', [''id'']),
      foreign_keys =
       [Foreign_Key (Some ''fk_silver_connector_telemetry_frame_id_telemetry_source_frame'') ''frame_id'' ''telemetry_source_frame.id'' (Some ''CASCADE'')],
      unique_key = Some (Some ''uq_silver_connector_telemetry'', [''charger_id'', ''connector_id'', ''event_time'', ''frame_sequence'']),
      table_indexes =
       [Index (Some ''ix_silver_connector_telemetry_charger_id'') [''charger_id''] False,
        Index (Some ''ix_silver_connector_telemetry_connector_id'') [''connector_id''] False,
        Index (Some ''ix_silver_connector_telemetry_event_time'') [''event_time''] False,
        Index (Some ''ix_silver_connector_telemetry_frame_id'') [''frame_id''] False,
        Index (Some ''ix_silver_connector_telemetry_lookup'') [''charger_id'', ''connector_id'', ''event_time'', ''frame_sequence''] False],
      python_defaults = []\<rparr>"

definition create_silver_contactor_observation :: sql_table where
  "create_silver_contactor_observation =
     \<lparr>table_name = ''silver_contactor_observation'',
      table_columns =
       [Column ''charger_id'' (Sql_String 128) False, Column ''event_time'' Sql_Timestamp False,
        Column ''frame_sequence'' Sql_Integer False, Column ''frame_id'' Sql_Uuid False,
        Column ''ac_contactor_status'' (Sql_String 255) True,
        Column ''input_contactor_fail'' (Sql_String 255) True,
        Column ''gun_dc_contactor_fail'' (Sql_String 255) True,
        Column ''ac_contactor_switching_cycle'' (Sql_String 255) True,
        Column ''ac_contactor_feedback_status'' (Sql_String 255) True,
        Column ''dc_contactor_switching_cycle'' Sql_Float True,
        Column ''ac1_contactor_status'' (Sql_String 255) True,
        Column ''ac2_contactor_status'' (Sql_String 255) True,
        Column ''ac3_contactor_status'' (Sql_String 255) True,
        Column ''ac4_contactor_status'' (Sql_String 255) True,
        Column ''ac5_contactor_status'' (Sql_String 255) True,
        Column ''ac6_contactor_status'' (Sql_String 255) True,
        Column ''ac1_contactor_cycle_count'' Sql_Float True,
        Column ''ac2_contactor_cycle_count'' Sql_Float True,
        Column ''ac3_contactor_cycle_count'' Sql_Float True,
        Column ''ac4_contactor_cycle_count'' Sql_Float True,
        Column ''ac5_contactor_cycle_count'' Sql_Float True,
        Column ''ac6_contactor_cycle_count'' Sql_Float True,
        Column ''ac1_contactor_fail_alarm'' (Sql_String 255) True,
        Column ''ac2_contactor_fail_alarm'' (Sql_String 255) True,
        Column ''ac3_contactor_fail_alarm'' (Sql_String 255) True,
        Column ''ac4_contactor_fail_alarm'' (Sql_String 255) True,
        Column ''ac5_contactor_fail_alarm'' (Sql_String 255) True,
        Column ''ac6_contactor_fail_alarm'' (Sql_String 255) True,
        Column ''ac1_contactor_welded_alarm'' (Sql_String 255) True,
        Column ''ac2_contactor_welded_alarm'' (Sql_String 255) True,
        Column ''ac3_contactor_welded_alarm'' (Sql_String 255) True,
        Column ''ac4_contactor_welded_alarm'' (Sql_String 255) True,
        Column ''ac5_contactor_welded_alarm'' (Sql_String 255) True,
        Column ''ac6_contactor_welded_alarm'' (Sql_String 255) True,
        Column ''dc_merger_contactor_c0_cycle_count'' Sql_Float True,
        Column ''dc_merger_contactor_c1_cycle_count'' Sql_Float True,
        Column ''dc_merger_contactor_c2_cycle_count'' Sql_Float True,
        Column ''dc_merger_contactor_c3_cycle_count'' Sql_Float True,
        Column ''dc_merger_contactor_c4_cycle_count'' Sql_Float True,
        Column ''external_contactor_cycle_count_ring'' Sql_Float True,
        Column ''merger_contactor_c0_fail_alarm'' (Sql_String 255) True,
        Column ''merger_contactor_c1_fail_alarm'' (Sql_String 255) True,
        Column ''merger_contactor_c2_fail_alarm'' (Sql_String 255) True,
        Column ''merger_contactor_c3_fail_alarm'' (Sql_String 255) True,
        Column ''merger_contactor_c4_fail_alarm'' (Sql_String 255) True,
        Column ''external_contactor_fail_alarm_ring'' (Sql_String 255) True,
        Column ''merger_contactor_c0_welded_alarm'' (Sql_String 255) True,
        Column ''merger_contactor_c1_welded_alarm'' (Sql_String 255) True,
        Column ''merger_contactor_c2_welded_alarm'' (Sql_String 255) True,
        Column ''merger_contactor_c3_welded_alarm'' (Sql_String 255) True,
        Column ''merger_contactor_c4_welded_alarm'' (Sql_String 255) True,
        Column ''c0_merger_contactor_status'' (Sql_String 255) True,
        Column ''c1_merger_contactor_status'' (Sql_String 255) True,
        Column ''c2_merger_contactor_status'' (Sql_String 255) True,
        Column ''c3_merger_contactor_status'' (Sql_String 255) True,
        Column ''c4_merger_contactor_status'' (Sql_String 255) True,
        Column ''external_contactor_status'' (Sql_String 255) True, Column ''id'' Sql_Uuid False,
        Column ''created_at'' Sql_Timestamp False, Column ''updated_at'' Sql_Timestamp False],
      primary_key = (Some ''pk_silver_contactor_observation'', [''id'']),
      foreign_keys =
       [Foreign_Key (Some ''fk_silver_contactor_observation_frame_id_telemetry_source_frame'') ''frame_id'' ''telemetry_source_frame.id'' (Some ''CASCADE'')],
      unique_key = Some (Some ''uq_silver_contactor_observation'', [''charger_id'', ''event_time'', ''frame_sequence'']),
      table_indexes =
       [Index (Some ''ix_silver_contactor_observation_charger_id'') [''charger_id''] False,
        Index (Some ''ix_silver_contactor_observation_event_time'') [''event_time''] False,
        Index (Some ''ix_silver_contactor_observation_frame_id'') [''frame_id''] False,
        Index (Some ''ix_silver_contactor_observation_lookup'') [''charger_id'', ''event_time'', ''frame_sequence''] False],
      python_defaults = []\<rparr>"

definition create_silver_lifecycle_counter_observation :: sql_table where
  "create_silver_lifecycle_counter_observation =
     \<lparr>table_name = ''silver_lifecycle_counter_observation'',
      table_columns =
       [Column ''charger_id'' (Sql_String 128) False, Column ''event_time'' Sql_Timestamp False,
        Column ''frame_sequence'' Sql_Integer False, Column ''frame_id'' Sql_Uuid False,
        Column ''ems_cumulative_energy'' Sql_Float True, Column ''charging_cycle_count'' Sql_Float True,
        Column ''id'' Sql_Uuid False, Column ''created_at'' Sql_Timestamp False,
        Column ''updated_at'' Sql_Timestamp False],
      primary_key = (Some ''pk_silver_lifecycle_counter_observation'', [''id'']),
      foreign_keys =
       [Foreign_Key (Some ''fk_silver_lifecycle_counter_observation_frame_id_telemetry_source_frame'') ''frame_id'' ''telemetry_source_frame.id'' (Some ''CASCADE'')],
      unique_key = Some (Some ''uq_silver_lifecycle_counter_observation'', [''charger_id'', ''event_time'', ''frame_sequence'']),
      table_indexes =
       [Index (Some ''ix_silver_lifecycle_counter_observation_charger_id'') [''charger_id''] False,
        Index (Some ''ix_silver_lifecycle_counter_observation_event_time'') [''event_time''] False,
        Index (Some ''ix_silver_lifecycle_counter_observation_frame_id'') [''frame_id''] False,
        Index (Some ''ix_silver_lifecycle_counter_observation_lookup'') [''charger_id'', ''event_time'', ''frame_sequence''] False],
      python_defaults = []\<rparr>"

definition create_silver_normalization_run :: sql_table where
  "create_silver_normalization_run =
     \<lparr>table_name = ''silver_normalization_run'',
      table_columns =
       [Column ''file_id'' Sql_Uuid False, Column ''started_at'' Sql_Timestamp False,
        Column ''completed_at'' Sql_Timestamp True, Column ''status'' (Sql_String 32) False,
        Column ''frames_input'' Sql_Integer False, Column ''frames_normalized'' Sql_Integer False,
        Column ''frames_with_warnings'' Sql_Integer False, Column ''frames_failed'' Sql_Integer False,
        Column ''records_created_by_table'' Sql_Json False,
        Column ''sentinels_masked_count'' Sql_Integer False,
        Column ''conflicts_detected_count'' Sql_Integer False, Column ''error_message'' Sql_Text True,
        Column ''id'' Sql_Uuid False, Column ''created_at'' Sql_Timestamp False,
        Column ''updated_at'' Sql_Timestamp False],
      primary_key = (Some ''pk_silver_normalization_run'', [''id'']),
      foreign_keys =
       [Foreign_Key (Some ''fk_silver_normalization_run_file_id_telemetry_file'') ''file_id'' ''telemetry_file.id'' (Some ''CASCADE'')],
      unique_key = None,
      table_indexes =
       [Index (Some ''ix_silver_normalization_run_file_id'') [''file_id''] False],
      python_defaults = []\<rparr>"

definition create_silver_observation_provenance :: sql_table where
  "create_silver_observation_provenance =
     \<lparr>table_name = ''silver_observation_provenance'',
      table_columns =
       [Column ''silver_table_name'' (Sql_String 64) False, Column ''silver_record_id'' Sql_Uuid False,
        Column ''frame_id'' Sql_Uuid False, Column ''bronze_row_id'' Sql_Uuid True,
        Column ''source_file_id'' Sql_Uuid False, Column ''source_position'' Sql_Integer False,
        Column ''canonical_name'' (Sql_String 128) False, Column ''raw_value'' Sql_Text True,
        Column ''normalized_value'' Sql_Text True, Column ''transformation_applied'' (Sql_String 128) True,
        Column ''masked_sentinel'' Sql_Boolean False, Column ''created_at'' Sql_Timestamp False,
        Column ''id'' Sql_Uuid False],
      primary_key = (Some ''pk_silver_observation_provenance'', [''id'']),
      foreign_keys =
       [Foreign_Key (Some ''fk_silver_observation_provenance_frame_id_telemetry_source_frame'') ''frame_id'' ''telemetry_source_frame.id'' (Some ''CASCADE''),
        Foreign_Key (Some ''fk_silver_observation_provenance_source_file_id_telemetry_file'') ''source_file_id'' ''telemetry_file.id'' (Some ''CASCADE'')],
      unique_key = None,
      table_indexes =
       [Index (Some ''ix_silver_observation_provenance_bronze_row_id'') [''bronze_row_id''] False,
        Index (Some ''ix_silver_observation_provenance_frame_id'') [''frame_id''] False,
        Index (Some ''ix_silver_observation_provenance_silver_record_id'') [''silver_record_id''] False,
        Index (Some ''ix_silver_observation_provenance_silver_table_name'') [''silver_table_name''] False,
        Index (Some ''ix_silver_observation_provenance_source_file_id'') [''source_file_id''] False,
        Index (Some ''ix_silver_provenance_frame'') [''frame_id''] False,
        Index (Some ''ix_silver_provenance_record'') [''silver_table_name'', ''silver_record_id''] False],
      python_defaults = []\<rparr>"

definition create_silver_rectifier_telemetry :: sql_table where
  "create_silver_rectifier_telemetry =
     \<lparr>table_name = ''silver_rectifier_telemetry'',
      table_columns =
       [Column ''charger_id'' (Sql_String 128) False, Column ''rectifier_id'' Sql_Integer False,
        Column ''event_time'' Sql_Timestamp False, Column ''frame_sequence'' Sql_Integer False,
        Column ''frame_id'' Sql_Uuid False, Column ''rect_max_temperature_raw'' Sql_Float True,
        Column ''rect_max_temperature_masked'' Sql_Boolean False,
        Column ''rectifier_internal_temp_raw'' Sql_Float True,
        Column ''rectifier_internal_temp_masked'' Sql_Boolean False,
        Column ''rect_max_temperature'' Sql_Float True, Column ''all_rectifier_fail'' (Sql_String 255) True,
        Column ''all_rectifier_communication_fail'' (Sql_String 255) True,
        Column ''any_rect_fail'' (Sql_String 255) True, Column ''any_rect_comm_fail'' (Sql_String 255) True,
        Column ''no_of_active_rectifiers'' Sql_Float True, Column ''group_rect_fail'' (Sql_String 255) True,
        Column ''group_rect_comm_fail'' (Sql_String 255) True, Column ''gun_rect_fail'' (Sql_String 255) True,
        Column ''gun_rect_comm_fail'' (Sql_String 255) True,
        Column ''rectifier_dc_status'' (Sql_String 255) True,
        Column ''rectifier_internal_temp'' Sql_Float True, Column ''rectifier_output_voltage'' Sql_Float True,
        Column ''rectifier_output_current'' Sql_Float True,
        Column ''rectifier_available_max_voltage'' Sql_Float True,
        Column ''rectifier_available_max_current'' Sql_Float True,
        Column ''rectifier_available_max_power'' Sql_Float True,
        Column ''rectifier_output_short'' (Sql_String 255) True, Column ''id'' Sql_Uuid False,
        Column ''created_at'' Sql_Timestamp False, Column ''updated_at'' Sql_Timestamp False],
      primary_key = (Some ''pk_silver_rectifier_telemetry'', [''id'']),
      foreign_keys =
       [Foreign_Key (Some ''fk_silver_rectifier_telemetry_frame_id_telemetry_source_frame'') ''frame_id'' ''telemetry_source_frame.id'' (Some ''CASCADE'')],
      unique_key = Some (Some ''uq_silver_rectifier_telemetry'', [''charger_id'', ''rectifier_id'', ''event_time'', ''frame_sequence'']),
      table_indexes =
       [Index (Some ''ix_silver_rectifier_telemetry_charger_id'') [''charger_id''] False,
        Index (Some ''ix_silver_rectifier_telemetry_event_time'') [''event_time''] False,
        Index (Some ''ix_silver_rectifier_telemetry_frame_id'') [''frame_id''] False,
        Index (Some ''ix_silver_rectifier_telemetry_lookup'') [''charger_id'', ''rectifier_id'', ''event_time'', ''frame_sequence''] False,
        Index (Some ''ix_silver_rectifier_telemetry_rectifier_id'') [''rectifier_id''] False],
      python_defaults = []\<rparr>"

definition create_silver_session_observation :: sql_table where
  "create_silver_session_observation =
     \<lparr>table_name = ''silver_session_observation'',
      table_columns =
       [Column ''charger_id'' (Sql_String 128) False, Column ''connector_id'' Sql_Integer False,
        Column ''event_time'' Sql_Timestamp False, Column ''frame_sequence'' Sql_Integer False,
        Column ''frame_id'' Sql_Uuid False, Column ''stop_reason'' (Sql_String 255) True,
        Column ''last_charge_session_stop_reason'' (Sql_String 255) True,
        Column ''session_type'' (Sql_String 255) True, Column ''session_id'' Sql_Float True,
        Column ''session_output_voltage'' Sql_Float True, Column ''session_output_current'' Sql_Float True,
        Column ''session_demand_voltage'' Sql_Float True, Column ''session_demand_current'' Sql_Float True,
        Column ''session_start_energy'' Sql_Float True, Column ''session_consumed_energy'' Sql_Float True,
        Column ''start_soc'' Sql_Float True, Column ''stop_soc'' Sql_Float True,
        Column ''begin_time'' Sql_Timestamp True,
        Column ''last_charge_session_stop_reason_secondary'' (Sql_String 255) True,
        Column ''id'' Sql_Uuid False, Column ''created_at'' Sql_Timestamp False,
        Column ''updated_at'' Sql_Timestamp False],
      primary_key = (Some ''pk_silver_session_observation'', [''id'']),
      foreign_keys =
       [Foreign_Key (Some ''fk_silver_session_observation_frame_id_telemetry_source_frame'') ''frame_id'' ''telemetry_source_frame.id'' (Some ''CASCADE'')],
      unique_key = Some (Some ''uq_silver_session_observation'', [''charger_id'', ''connector_id'', ''event_time'', ''frame_sequence'']),
      table_indexes =
       [Index (Some ''ix_silver_session_observation_charger_id'') [''charger_id''] False,
        Index (Some ''ix_silver_session_observation_connector_id'') [''connector_id''] False,
        Index (Some ''ix_silver_session_observation_event_time'') [''event_time''] False,
        Index (Some ''ix_silver_session_observation_frame_id'') [''frame_id''] False,
        Index (Some ''ix_silver_session_observation_lookup'') [''charger_id'', ''connector_id'', ''event_time'', ''frame_sequence''] False],
      python_defaults = []\<rparr>"

definition create_silver_site_metadata :: sql_table where
  "create_silver_site_metadata =
     \<lparr>table_name = ''silver_site_metadata'',
      table_columns =
       [Column ''charger_id'' (Sql_String 128) False, Column ''event_time'' Sql_Timestamp False,
        Column ''frame_sequence'' Sql_Integer False, Column ''frame_id'' Sql_Uuid False,
        Column ''charging_station'' (Sql_String 255) True, Column ''site_address'' (Sql_String 255) True,
        Column ''site_city'' (Sql_String 128) True, Column ''site_state'' (Sql_String 128) True,
        Column ''site_pin'' (Sql_String 32) True, Column ''id'' Sql_Uuid False,
        Column ''created_at'' Sql_Timestamp False, Column ''updated_at'' Sql_Timestamp False],
      primary_key = (Some ''pk_silver_site_metadata'', [''id'']),
      foreign_keys =
       [Foreign_Key (Some ''fk_silver_site_metadata_frame_id_telemetry_source_frame'') ''frame_id'' ''telemetry_source_frame.id'' (Some ''CASCADE'')],
      unique_key = Some (Some ''uq_silver_site_metadata'', [''charger_id'', ''event_time'', ''frame_sequence'']),
      table_indexes =
       [Index (Some ''ix_silver_site_metadata_charger_id'') [''charger_id''] False,
        Index (Some ''ix_silver_site_metadata_event_time'') [''event_time''] False,
        Index (Some ''ix_silver_site_metadata_frame_id'') [''frame_id''] False],
      python_defaults = []\<rparr>"

definition create_silver_smr_telemetry :: sql_table where
  "create_silver_smr_telemetry =
     \<lparr>table_name = ''silver_smr_telemetry'',
      table_columns =
       [Column ''charger_id'' (Sql_String 128) False, Column ''smr_id'' Sql_Integer False,
        Column ''event_time'' Sql_Timestamp False, Column ''frame_sequence'' Sql_Integer False,
        Column ''frame_id'' Sql_Uuid False, Column ''smr_dc_dc_temperature_raw'' Sql_Float True,
        Column ''smr_dc_dc_temperature_masked'' Sql_Boolean False,
        Column ''smr_pfc_temperature_raw'' Sql_Float True,
        Column ''smr_pfc_temperature_masked'' Sql_Boolean False,
        Column ''smr_rectifierinternal_temp_raw'' Sql_Float True,
        Column ''smr_rectifierinternal_temp_masked'' Sql_Boolean False,
        Column ''smrdcdc_temperature_raw'' Sql_Float True,
        Column ''smrdcdc_temperature_masked'' Sql_Boolean False,
        Column ''smrpfc_temperature_raw'' Sql_Float True,
        Column ''smrpfc_temperature_masked'' Sql_Boolean False, Column ''smr_set_voltage'' Sql_Float True,
        Column ''smr_set_current'' Sql_Float True, Column ''smr_available_current'' Sql_Float True,
        Column ''smr_max_power'' Sql_Float True, Column ''smr_dc_dc_temperature'' Sql_Float True,
        Column ''smr_pfc_temperature'' Sql_Float True, Column ''smr_hardware_version'' (Sql_String 255) True,
        Column ''smr_software_version'' (Sql_String 255) True,
        Column ''pfc_side_abnormal'' (Sql_String 255) True, Column ''pfc_side_is_off'' (Sql_String 255) True,
        Column ''pfc_dcdc_comm_fail'' (Sql_String 255) True,
        Column ''pfc_eeprom_faults'' (Sql_String 255) True, Column ''smr_mapped_gun'' Sql_Float True,
        Column ''smr_group_id'' (Sql_String 255) True, Column ''smr_output_voltage'' Sql_Float True,
        Column ''smr_output_current'' Sql_Float True, Column ''smr_output_power'' Sql_Float True,
        Column ''smr_available_max_current'' Sql_Float True, Column ''smr_available_max_power'' Sql_Float True,
        Column ''smr_rectifier_d_cstatus'' (Sql_String 255) True,
        Column ''smr_rectifierinternal_temp'' Sql_Float True, Column ''smrdcdc_temperature'' Sql_Float True,
        Column ''smrpfc_temperature'' Sql_Float True, Column ''smr_available_max_voltage'' Sql_Float True,
        Column ''smr_rated_maximum_current'' Sql_Float True, Column ''smr_rated_maximum_power'' Sql_Float True,
        Column ''smr_module_hardware_version'' Sql_Float True,
        Column ''smr_module_software_version'' (Sql_String 255) True, Column ''smrpfc_ver'' Sql_Float True,
        Column ''smr_line1_voltage'' Sql_Float True, Column ''smr_line2_voltage'' Sql_Float True,
        Column ''smr_line3_voltage'' Sql_Float True, Column ''smr_rated_minimum_voltage'' Sql_Float True,
        Column ''smr_rated_maximum_voltage'' Sql_Float True, Column ''smr_fan_speed'' Sql_Float True,
        Column ''smr_output_short'' (Sql_String 255) True,
        Column ''smr_inner_comm_interrupt'' (Sql_String 255) True,
        Column ''smr_pfc_side_abnormal'' (Sql_String 255) True,
        Column ''smr_discharge_abnormal'' (Sql_String 255) True,
        Column ''smr_dc_side_is_off'' (Sql_String 255) True, Column ''smr_mdl_fault'' (Sql_String 255) True,
        Column ''smr_mdl_protect'' (Sql_String 255) True, Column ''smr_fan_fault'' (Sql_String 255) True,
        Column ''smr_over_temperature'' (Sql_String 255) True,
        Column ''smr_output_over_voltage'' (Sql_String 255) True,
        Column ''smr_walk_in_enable'' (Sql_String 255) True,
        Column ''smr_can_communication_interrupt'' (Sql_String 255) True,
        Column ''smr_power_limit'' (Sql_String 255) True,
        Column ''smr_dl_id_repetition'' (Sql_String 255) True,
        Column ''smr_load_sharing'' (Sql_String 255) True,
        Column ''smr_input_phase_loss'' (Sql_String 255) True,
        Column ''smr_input_unbalance'' (Sql_String 255) True,
        Column ''smr_input_under_voltage'' (Sql_String 255) True,
        Column ''smr_input_over_voltage'' (Sql_String 255) True,
        Column ''smr_pfc_side_is_off'' (Sql_String 255) True,
        Column ''smr_fuse_burn_out'' (Sql_String 255) True,
        Column ''smr_pfc_dcdc_comm_fail'' (Sql_String 255) True,
        Column ''smr_bus_unbalanced_voltage'' (Sql_String 255) True,
        Column ''smr_bus_over_voltage'' (Sql_String 255) True,
        Column ''smr_bus_voltage_abnormal'' (Sql_String 255) True,
        Column ''smr_bus_under_voltage'' (Sql_String 255) True,
        Column ''smr_fan_at_full_speed'' (Sql_String 255) True,
        Column ''smr_output_derating_temp'' (Sql_String 255) True,
        Column ''smr_output_derating_ac'' (Sql_String 255) True,
        Column ''smr_dcdc_eeprom_faults'' (Sql_String 255) True,
        Column ''smr_pfc_eeprom_faults'' (Sql_String 255) True,
        Column ''smr_module_fail'' (Sql_String 255) True,
        Column ''smr_module_comm_fail'' (Sql_String 255) True, Column ''in_pfc_1'' (Sql_String 255) True,
        Column ''in_pfc_2'' (Sql_String 255) True, Column ''in_pfc_3'' (Sql_String 255) True,
        Column ''in_pfc_4'' (Sql_String 255) True, Column ''in_pfc_5'' (Sql_String 255) True,
        Column ''in_pfc_6'' (Sql_String 255) True, Column ''in_pfc_7'' (Sql_String 255) True,
        Column ''in_pfc_8'' (Sql_String 255) True, Column ''in_pfc_9'' (Sql_String 255) True,
        Column ''in_pfc_10'' (Sql_String 255) True, Column ''in_pfc_11'' (Sql_String 255) True,
        Column ''in_pfc_12'' (Sql_String 255) True, Column ''out_pfc_1'' (Sql_String 255) True,
        Column ''out_pfc_2'' (Sql_String 255) True, Column ''out_pfc_3'' (Sql_String 255) True,
        Column ''out_pfc_4'' (Sql_String 255) True, Column ''out_pfc_5'' (Sql_String 255) True,
        Column ''out_pfc_6'' (Sql_String 255) True, Column ''out_pfc_7'' (Sql_String 255) True,
        Column ''out_pfc_8'' (Sql_String 255) True, Column ''out_pfc_9'' (Sql_String 255) True,
        Column ''out_pfc_10'' (Sql_String 255) True, Column ''out_pfc_11'' (Sql_String 255) True,
        Column ''out_pfc_12'' (Sql_String 255) True, Column ''floating_smr1_fail'' (Sql_String 255) True,
        Column ''floating_smr1_group_fail'' (Sql_String 255) True,
        Column ''floating_smr1_comm_fail'' (Sql_String 255) True,
        Column ''floating_smr1_group_comm_fail'' (Sql_String 255) True,
        Column ''floating_smr2_fail'' (Sql_String 255) True,
        Column ''floating_smr2_group_fail'' (Sql_String 255) True,
        Column ''floating_smr2_comm_fail'' (Sql_String 255) True,
        Column ''floating_smr2_group_comm_fail'' (Sql_String 255) True,
        Column ''floating_smr3_fail'' (Sql_String 255) True,
        Column ''floating_smr3_group_fail'' (Sql_String 255) True,
        Column ''floating_smr3_comm_fail'' (Sql_String 255) True,
        Column ''floating_smr3_group_comm_fail'' (Sql_String 255) True,
        Column ''floating_smr4_fail'' (Sql_String 255) True,
        Column ''floating_smr4_group_fail'' (Sql_String 255) True,
        Column ''floating_smr4_comm_fail'' (Sql_String 255) True,
        Column ''floating_smr4_group_comm_fail'' (Sql_String 255) True,
        Column ''smr_fail_count'' Sql_Float True, Column ''smr_comm_fail_count'' Sql_Float True,
        Column ''guna_smr_fail_count'' Sql_Float True, Column ''guna_smr_comm_fail_count'' Sql_Float True,
        Column ''gunb_smr_fail_count'' Sql_Float True, Column ''gunb_smr_comm_fail_count'' Sql_Float True,
        Column ''fr1_smr_fail_count'' Sql_Float True, Column ''fr1_smr_comm_fail_count'' Sql_Float True,
        Column ''fr2_smr_fail_count'' Sql_Float True, Column ''fr2_smr_comm_fail_count'' Sql_Float True,
        Column ''id'' Sql_Uuid False, Column ''created_at'' Sql_Timestamp False,
        Column ''updated_at'' Sql_Timestamp False],
      primary_key = (Some ''pk_silver_smr_telemetry'', [''id'']),
      foreign_keys =
       [Foreign_Key (Some ''fk_silver_smr_telemetry_frame_id_telemetry_source_frame'') ''frame_id'' ''telemetry_source_frame.id'' (Some ''CASCADE'')],
      unique_key = Some (Some ''uq_silver_smr_telemetry'', [''charger_id'', ''smr_id'', ''event_time'', ''frame_sequence'']),
      table_indexes =
       [Index (Some ''ix_silver_smr_telemetry_charger_id'') [''charger_id''] False,
        Index (Some ''ix_silver_smr_telemetry_event_time'') [''event_time''] False,
        Index (Some ''ix_silver_smr_telemetry_frame_id'') [''frame_id''] False,
        Index (Some ''ix_silver_smr_telemetry_lookup'') [''charger_id'', ''smr_id'', ''event_time'', ''frame_sequence''] False,
        Index (Some ''ix_silver_smr_telemetry_smr_id'') [''smr_id''] False],
      python_defaults = []\<rparr>"

definition silver_upgrade :: "sql_table list" where
  "silver_upgrade =
     [create_silver_alarm_observation, create_silver_charger_telemetry,
      create_silver_communication_observation, create_silver_configuration_snapshot,
      create_silver_connector_telemetry, create_silver_contactor_observation,
      create_silver_lifecycle_counter_observation, create_silver_normalization_run,
      create_silver_observation_provenance, create_silver_rectifier_telemetry,
      create_silver_session_observation, create_silver_site_metadata, create_silver_smr_telemetry]"

section \<open>The migration creates what the models declare\<close>

text \<open>What the database sees of a table: its indexes and foreign keys have no order.\<close>

definition table_schema ::
    "sql_table \<Rightarrow> string \<times> sql_column list \<times> (string option \<times> string list) \<times> sql_foreign_key set
     \<times> (string option \<times> string list) option \<times> sql_index set" where
  "table_schema t =
     (table_name t, table_columns t, primary_key t, set (foreign_keys t), unique_key t, set (table_indexes t))"

lemma schema_eqI:
  assumes "table_name t = table_name u" and "table_columns t = table_columns u" and "primary_key t = primary_key u"
    and "set (foreign_keys t) = set (foreign_keys u)" and "unique_key t = unique_key u"
    and "set (table_indexes t) = set (table_indexes u)"
  shows "table_schema t = table_schema u"
  using assms by (simp add: table_schema_def)

text \<open>The parts of a model with its mixins and names, for unfolding one part at a time.\<close>

lemma named_select:
  "table_name (named t) = table_name t" "table_columns (named t) = table_columns t"
  "primary_key (named t) = (given (fst (primary_key t)) (''pk_'' @ table_name t), snd (primary_key t))"
  "foreign_keys (named t) = map (named_foreign_key (table_name t)) (foreign_keys t)"
  "unique_key (named t) = map_option (\<lambda>(n, cs). (given n (''uq_'' @ table_name t @ joined_names cs), cs)) (unique_key t)"
  "table_indexes (named t) = map (named_index (table_name t)) (table_indexes t)"
  "python_defaults (named t) = python_defaults t"
  by (simp_all add: named_def)

lemma with_mixins_select:
  "table_name (with_mixins extra t) = table_name t" "table_columns (with_mixins extra t) = table_columns t @ extra"
  "primary_key (with_mixins extra t) = (None, [''id''])" "foreign_keys (with_mixins extra t) = foreign_keys t"
  "unique_key (with_mixins extra t) = unique_key t" "table_indexes (with_mixins extra t) = table_indexes t"
  "python_defaults (with_mixins extra t) = python_defaults t @ map col_name extra"
  by (simp_all add: with_mixins_def uuid_primary_key_mixin_def)

lemmas schema_select =
  named_select with_mixins_select sql_table.select_convs append.simps uuid_primary_key_mixin_def timestamp_mixin_def

lemma schema_silver_alarm_observation:
  "table_schema create_silver_alarm_observation = table_schema (named (with_mixins (uuid_primary_key_mixin @ timestamp_mixin) silver_alarm_observation))"
  by (rule schema_eqI; unfold create_silver_alarm_observation_def silver_alarm_observation_def schema_select;
      (rule refl | simp add: insert_commute given_def referred_table_def))

lemma schema_silver_charger_telemetry:
  "table_schema create_silver_charger_telemetry = table_schema (named (with_mixins (uuid_primary_key_mixin @ timestamp_mixin) silver_charger_telemetry))"
  by (rule schema_eqI; unfold create_silver_charger_telemetry_def silver_charger_telemetry_def schema_select;
      (rule refl | simp add: insert_commute given_def referred_table_def))

lemma schema_silver_communication_observation:
  "table_schema create_silver_communication_observation = table_schema (named (with_mixins (uuid_primary_key_mixin @ timestamp_mixin) silver_communication_observation))"
  by (rule schema_eqI; unfold create_silver_communication_observation_def silver_communication_observation_def schema_select;
      (rule refl | simp add: insert_commute given_def referred_table_def))

lemma schema_silver_configuration_snapshot:
  "table_schema create_silver_configuration_snapshot = table_schema (named (with_mixins (uuid_primary_key_mixin @ timestamp_mixin) silver_configuration_snapshot))"
  by (rule schema_eqI; unfold create_silver_configuration_snapshot_def silver_configuration_snapshot_def schema_select;
      (rule refl | simp add: insert_commute given_def referred_table_def))

lemma schema_silver_connector_telemetry:
  "table_schema create_silver_connector_telemetry = table_schema (named (with_mixins (uuid_primary_key_mixin @ timestamp_mixin) silver_connector_telemetry))"
  by (rule schema_eqI; unfold create_silver_connector_telemetry_def silver_connector_telemetry_def schema_select;
      (rule refl | simp add: insert_commute given_def referred_table_def))

lemma schema_silver_contactor_observation:
  "table_schema create_silver_contactor_observation = table_schema (named (with_mixins (uuid_primary_key_mixin @ timestamp_mixin) silver_contactor_observation))"
  by (rule schema_eqI; unfold create_silver_contactor_observation_def silver_contactor_observation_def schema_select;
      (rule refl | simp add: insert_commute given_def referred_table_def))

lemma schema_silver_lifecycle_counter_observation:
  "table_schema create_silver_lifecycle_counter_observation = table_schema (named (with_mixins (uuid_primary_key_mixin @ timestamp_mixin) silver_lifecycle_counter_observation))"
  by (rule schema_eqI; unfold create_silver_lifecycle_counter_observation_def silver_lifecycle_counter_observation_def schema_select;
      (rule refl | simp add: insert_commute given_def referred_table_def))

lemma schema_silver_normalization_run:
  "table_schema create_silver_normalization_run = table_schema (named (with_mixins (uuid_primary_key_mixin @ timestamp_mixin) silver_normalization_run))"
  by (rule schema_eqI; unfold create_silver_normalization_run_def silver_normalization_run_def schema_select;
      (rule refl | simp add: insert_commute given_def referred_table_def))

lemma schema_silver_observation_provenance:
  "table_schema create_silver_observation_provenance = table_schema (named (with_mixins uuid_primary_key_mixin silver_observation_provenance))"
  by (rule schema_eqI; unfold create_silver_observation_provenance_def silver_observation_provenance_def schema_select;
      (rule refl | simp add: insert_commute given_def referred_table_def))

lemma schema_silver_rectifier_telemetry:
  "table_schema create_silver_rectifier_telemetry = table_schema (named (with_mixins (uuid_primary_key_mixin @ timestamp_mixin) silver_rectifier_telemetry))"
  by (rule schema_eqI; unfold create_silver_rectifier_telemetry_def silver_rectifier_telemetry_def schema_select;
      (rule refl | simp add: insert_commute given_def referred_table_def))

lemma schema_silver_session_observation:
  "table_schema create_silver_session_observation = table_schema (named (with_mixins (uuid_primary_key_mixin @ timestamp_mixin) silver_session_observation))"
  by (rule schema_eqI; unfold create_silver_session_observation_def silver_session_observation_def schema_select;
      (rule refl | simp add: insert_commute given_def referred_table_def))

lemma schema_silver_site_metadata:
  "table_schema create_silver_site_metadata = table_schema (named (with_mixins (uuid_primary_key_mixin @ timestamp_mixin) silver_site_metadata))"
  by (rule schema_eqI; unfold create_silver_site_metadata_def silver_site_metadata_def schema_select;
      (rule refl | simp add: insert_commute given_def referred_table_def))

lemma schema_silver_smr_telemetry:
  "table_schema create_silver_smr_telemetry = table_schema (named (with_mixins (uuid_primary_key_mixin @ timestamp_mixin) silver_smr_telemetry))"
  by (rule schema_eqI; unfold create_silver_smr_telemetry_def silver_smr_telemetry_def schema_select;
      (rule refl | simp add: insert_commute given_def referred_table_def))

lemmas schemas =
  schema_silver_alarm_observation
  schema_silver_charger_telemetry
  schema_silver_communication_observation
  schema_silver_configuration_snapshot
  schema_silver_connector_telemetry
  schema_silver_contactor_observation
  schema_silver_lifecycle_counter_observation
  schema_silver_normalization_run
  schema_silver_observation_provenance
  schema_silver_rectifier_telemetry
  schema_silver_session_observation
  schema_silver_site_metadata
  schema_silver_smr_telemetry

text \<open>
  The migration of the Silver layer creates exactly what the models declare: the same thirteen tables
  with the same columns in order, types and nullability, the same keys and constraints with their
  names, referenced columns and \<open>ON DELETE\<close> actions, and the same named indexes.
\<close>

lemma migration_matches_models:
  "mset (map table_schema silver_upgrade) = mset (map table_schema silver_models)"
  by (simp add: silver_upgrade_def silver_models_def schemas)

end
