(* ===== verification/SilverTables.thy ===== *)
theory SilverTables
  imports Silver Migration
begin

text \<open>
  The records normalization builds against the tables the migration creates: what of a record of
  \<open>pipelines/normalization/normalizers.py\<close> reaches the database is what
  \<open>alembic/versions/84fce8cc3d03_add_silver_telemetry_tables.py\<close> has a column for. The builders set the key of
  the frame and the number of the unit by keyword, every other column by \<open>setattr\<close>.
\<close>

section \<open>Columns of a record\<close>

text \<open>The column in which a table keeps the number of its unit.\<close>

definition unit_column :: "string \<Rightarrow> string" where
  "unit_column n =
     (if n = ''silver_rectifier_telemetry'' then ''rectifier_id''
      else if n = ''silver_smr_telemetry'' then ''smr_id'' else ''connector_id'')"

definition unit_key :: "silver_record \<Rightarrow> string list" where
  "unit_key r = (case sv_unit r of None \<Rightarrow> [] | Some i \<Rightarrow> [unit_column (sv_table r)])"

definition aggregate_columns :: "silver_record \<Rightarrow> string list" where
  "aggregate_columns r =
     (if sv_alarm_codes r = None then [] else [''active_alarm_codes''])
     @ (if sv_config_hash r = None then [] else [''config_hash''])
     @ (if sv_config r = None then [] else [''raw_config_json''])"

definition stored_columns :: "silver_record \<Rightarrow> string list" where
  "stored_columns r =
     [''id'', ''charger_id''] @ unit_key r @ [''event_time'', ''frame_sequence'', ''frame_id'']
     @ dict_keys (sv_values r) @ aggregate_columns r"

text \<open>
  A record fits a table: the table has a column for everything the record stores, every column that may not
  be null is stored or has a default, the unique constraint is over the key that tells records apart, and
  a deleted frame takes its records with it.
\<close>

definition fits :: "sql_table \<Rightarrow> string list \<Rightarrow> silver_record \<Rightarrow> bool" where
  "fits t defaults r =
     (table_name t = sv_table r
      \<and> set (stored_columns r) \<subseteq> col_name ` set (table_columns t)
      \<and> (\<forall>c\<in>set (table_columns t). col_nullable c \<or> col_name c \<in> set (stored_columns r @ defaults))
      \<and> unique_key t = Some (Some (''uq_'' @ sv_table r), [''charger_id''] @ unit_key r @ [''event_time'', ''frame_sequence''])
      \<and> (\<exists>f\<in>set (foreign_keys t). fk_column f = ''frame_id'' \<and> fk_target f = ''telemetry_source_frame.id''
           \<and> fk_ondelete f = Some ''CASCADE''))"

lemma fits_schema: "table_schema t = table_schema t' \<Longrightarrow> fits t defaults r = fits t' defaults r"
  by (simp add: table_schema_def fits_def)

section \<open>Columns the builders set\<close>

lemma update_columns:
  assumes "P k" and "\<forall>x\<in>set d. P (fst x)"
  shows "\<forall>x\<in>set (AList.update k v d). P (fst x)"
  using assms by (auto dest!: update_mem)

lemma foldl_update_columns:
  assumes "\<forall>x\<in>set kvs. P (fst x)" and "\<forall>x\<in>set d. P (fst x)"
  shows "\<forall>x\<in>set (foldl (\<lambda>d (k, v). AList.update k v d) d kvs). P (fst x)"
  using assms
proof (induction kvs arbitrary: d)
  case (Cons kv kvs)
  obtain k v where kv: "kv = (k, v)" by (cases kv)
  have "P k" using Cons.prems(1) by (simp add: kv)
  then have "\<forall>x\<in>set (AList.update k v d). P (fst x)" by (rule update_columns [OF _ Cons.prems(2)])
  from Cons.IH [OF _ this] Cons.prems(1) show ?case by (simp add: kv)
qed simp

lemma masked_columns_names:
  assumes "masked_columns temps f = Inr kvs" and "x \<in> set kvs"
  shows "fst f \<in> set temps \<and> (fst x = fst f @ ''_raw'' \<or> fst x = fst f @ ''_masked'')"
proof -
  obtain c res where f: "f = (c, res)" by (cases f)
  have "c \<in> set temps \<and> (\<exists>a b. kvs = [(c @ ''_raw'', a), (c @ ''_masked'', b)])"
    using assms by (auto simp: f masked_columns_def Let_def split: if_splits option.splits)
  then show ?thesis using assms(2) by (auto simp: f)
qed

definition section_column :: "sql_table \<Rightarrow> string list \<Rightarrow> string \<Rightarrow> bool" where
  "section_column t temps c = (has_attr t c \<or> (\<exists>f\<in>set temps. c = f @ ''_raw'' \<or> c = f @ ''_masked''))"

lemma fill_columns:
  assumes "fill t temps data = Inr vs"
  shows "\<forall>x\<in>set vs. section_column t temps (fst x)"
proof -
  have "\<forall>x\<in>set vs. section_column t temps (fst x)"
    if "fold_err (set_field t temps) d fs = Inr vs" "\<forall>x\<in>set d. section_column t temps (fst x)" for d fs
    using that
  proof (induction fs arbitrary: d)
    case (Cons f fs)
    obtain d' where d': "set_field t temps d f = Inr d'" and rest: "fold_err (set_field t temps) d' fs = Inr vs"
      using Cons.prems(1) by (auto simp: bind_err_Inr)
    define own where "own = (if has_attr t (fst f) then AList.update (fst f) (rs_value (snd f)) d else d)"
    obtain kvs where kvs: "masked_columns temps f = Inr kvs"
      and d'': "d' = foldl (\<lambda>d (k, v). AList.update k v d) own kvs"
      using d' by (auto simp: set_field_def own_def bind_err_Inr Let_def)
    have own: "\<forall>x\<in>set own. section_column t temps (fst x)"
      using Cons.prems(2) update_columns [of "section_column t temps" "fst f" d]
      by (simp add: own_def) (simp add: section_column_def)
    have "\<forall>x\<in>set kvs. section_column t temps (fst x)"
      using masked_columns_names [OF kvs] by (auto simp: section_column_def)
    then show ?case using Cons.IH [OF rest] foldl_update_columns [OF _ own] unfolding d'' by blast
  qed simp
  from this [of "[]" data] show ?thesis using assms by (simp add: fill_def)
qed

lemma session_columns:
  "\<forall>x\<in>set (foldl (set_session_field repr) [] data). has_attr silver_session_observation (fst x) \<or> fst x = ''stop_reason''"
proof -
  let ?P = "\<lambda>c. has_attr silver_session_observation c \<or> c = ''stop_reason''"
  have "\<forall>x\<in>set (foldl (set_session_field repr) d data). ?P (fst x)" if "\<forall>x\<in>set d. ?P (fst x)" for d
    using that
  proof (induction data arbitrary: d)
    case (Cons f data)
    obtain c res where f: "f = (c, res)" by (cases f)
    define own where "own = (if has_attr silver_session_observation c then AList.update c (rs_value res) d else d)"
    have own: "\<forall>x\<in>set own. ?P (fst x)"
      using Cons.prems update_columns [of ?P c d] by (simp add: own_def)
    have "\<forall>x\<in>set (set_session_field repr d f). ?P (fst x)"
      using own update_columns [of ?P "''stop_reason''" own] by (simp add: f set_session_field_def own_def Let_def)
    then show ?case using Cons.IH by simp
  qed simp
  from this [of "[]"] show ?thesis by simp
qed

section \<open>Tables\<close>

abbreviation declared :: "sql_table \<Rightarrow> sql_table" where
  "declared m \<equiv> with_mixins (uuid_primary_key_mixin @ timestamp_mixin) m"

text \<open>
  What a model must declare for records with the unit key \<open>u\<close> that always store \<open>always\<close> and may store
  \<open>sometimes\<close> besides their fields.
\<close>

definition serves :: "sql_table \<Rightarrow> string list \<Rightarrow> string list \<Rightarrow> string list \<Rightarrow> bool" where
  "serves m u always sometimes =
     (list_all (has_attr m) ([''id'', ''charger_id''] @ u @ [''event_time'', ''frame_sequence'', ''frame_id''] @ always @ sometimes)
      \<and> list_all (\<lambda>c. col_nullable c \<or> col_name c \<in> set ([''id'', ''charger_id''] @ u
            @ [''event_time'', ''frame_sequence'', ''frame_id''] @ always @ python_defaults (declared m)))
          (table_columns (declared m))
      \<and> unique_key m = Some (Some (''uq_'' @ table_name m), [''charger_id''] @ u @ [''event_time'', ''frame_sequence''])
      \<and> list_ex (\<lambda>f. fk_column f = ''frame_id'' \<and> fk_target f = ''telemetry_source_frame.id''
            \<and> fk_ondelete f = Some ''CASCADE'') (foreign_keys m))"

lemma plain_models_serve:
  "serves silver_site_metadata [] [] []" "serves silver_charger_telemetry [] [] []"
  "serves silver_contactor_observation [] [] []" "serves silver_lifecycle_counter_observation [] [] []"
  "serves silver_communication_observation [] [] []"
  by code_simp+

lemma special_models_serve:
  "serves silver_alarm_observation [] [] [''active_alarms_count'', ''active_alarm_codes'']"
  "serves silver_configuration_snapshot [] [''config_hash''] [''raw_config_json'']"
  "serves silver_session_observation [''connector_id''] [] [''stop_reason'']"
  by code_simp+

lemma unit_models_serve:
  "serves silver_connector_telemetry [''connector_id''] [] (concat (map (\<lambda>f. [f @ ''_raw'', f @ ''_masked'']) GUN_TEMP_FIELDS))"
  "serves silver_rectifier_telemetry [''rectifier_id''] [] (concat (map (\<lambda>f. [f @ ''_raw'', f @ ''_masked'']) RECTIFIER_TEMP_FIELDS))"
  "serves silver_smr_telemetry [''smr_id''] [] (concat (map (\<lambda>f. [f @ ''_raw'', f @ ''_masked'']) SMR_TEMP_FIELDS))"
  by code_simp+

lemma serves_fits:
  assumes "serves m u always sometimes" and "sv_table r = table_name m" and "unit_key r = u"
    and "\<forall>x\<in>set (sv_values r). has_attr m (fst x) \<or> fst x \<in> set sometimes"
    and "set (aggregate_columns r) \<subseteq> set (always @ sometimes)" and "set always \<subseteq> set (aggregate_columns r)"
  shows "fits (named (declared m)) (python_defaults (declared m)) r"
proof -
  have attr: "has_attr m c \<longleftrightarrow> c \<in> col_name ` set (table_columns (named (declared m)))" for c
    by (simp add: has_attr_def named_select)
  have "has_attr m c" if "c \<in> set (stored_columns r)" for c
    using that assms by (auto simp: stored_columns_def serves_def list_all_iff)
  then have "set (stored_columns r) \<subseteq> col_name ` set (table_columns (named (declared m)))"
    using attr by blast
  moreover have "col_nullable c \<or> col_name c \<in> set (stored_columns r @ python_defaults (declared m))"
    if "c \<in> set (table_columns (named (declared m)))" for c
    using that assms(1,3,6) by (auto simp: serves_def list_all_iff stored_columns_def named_select)
  moreover have "\<exists>f\<in>set (foreign_keys (named (declared m))). fk_column f = ''frame_id''
      \<and> fk_target f = ''telemetry_source_frame.id'' \<and> fk_ondelete f = Some ''CASCADE''"
  proof -
    obtain f where f: "f \<in> set (foreign_keys m)" "fk_column f = ''frame_id'' \<and> fk_target f = ''telemetry_source_frame.id''
        \<and> fk_ondelete f = Some ''CASCADE''"
      using assms(1) by (auto simp: serves_def list_ex_iff)
    have "named_foreign_key (table_name m) f \<in> set (foreign_keys (named (declared m)))"
      using f(1) by (simp add: schema_select)
    then show ?thesis using f(2) by (cases f) (auto intro!: bexI)
  qed
  moreover have "unique_key (named (declared m)) =
      Some (Some (''uq_'' @ sv_table r), [''charger_id''] @ unit_key r @ [''event_time'', ''frame_sequence''])"
    using assms(1-3) by (simp add: serves_def schema_select given_def)
  ultimately show ?thesis using assms(2) by (simp add: fits_def schema_select)
qed

text \<open>The tables of the builders are among those the migration creates.\<close>

definition record_models :: "sql_table list" where
  "record_models =
     [silver_site_metadata, silver_charger_telemetry, silver_connector_telemetry, silver_rectifier_telemetry,
      silver_smr_telemetry, silver_contactor_observation, silver_alarm_observation, silver_session_observation,
      silver_lifecycle_counter_observation, silver_communication_observation, silver_configuration_snapshot]"

lemma migrated:
  assumes "m \<in> set record_models"
  shows "\<exists>t\<in>set silver_upgrade. table_schema t = table_schema (named (declared m))"
proof -
  have "named (declared m) \<in> set silver_models" using assms by (auto simp: record_models_def silver_models_def)
  then have "table_schema (named (declared m)) \<in># mset (map table_schema silver_upgrade)"
    unfolding migration_matches_models by simp
  then show ?thesis by auto
qed

lemma declared_models: "m \<in> set record_models \<Longrightarrow> named (declared m) \<in> set silver_models"
  by (auto simp: record_models_def silver_models_def)

lemma fits_migrated:
  assumes "m \<in> set record_models" and "fits (named (declared m)) (python_defaults (declared m)) r"
  shows "\<exists>t\<in>set silver_upgrade. \<exists>m\<in>set silver_models. table_name m = table_name t \<and> fits t (python_defaults m) r"
proof -
  obtain t where t: "t \<in> set silver_upgrade" "table_schema t = table_schema (named (declared m))"
    using migrated [OF assms(1)] by blast
  have "fits t (python_defaults (named (declared m))) r"
    using assms(2) fits_schema [OF t(2)] by (simp add: named_select)
  moreover have "table_name (named (declared m)) = table_name t" using t(2) by (simp add: table_schema_def)
  ultimately show ?thesis using t(1) declared_models [OF assms(1)] by blast
qed

section \<open>Every record fits its table\<close>

text \<open>
  C37: Every record built for a frame fits the table the migration creates for it. The table exists and has
  a column for everything the record stores, raw floats, masks, aggregates and the unit number included;
  every column of it that may not be null is stored by the record or has a default in its model; its unique
  constraint is over charger, unit, event time and frame sequence; and deleting the frame deletes the record.
  It holds for every payload, whatever fields the dictionary resolves.
\<close>

theorem records_fit_tables:
  assumes "create_silver_records repr digest p = Inr (rs, ps)" and "r \<in> set rs"
  shows "\<exists>t\<in>set silver_upgrade. \<exists>m\<in>set silver_models. table_name m = table_name t \<and> fits t (python_defaults m) r"
  using assms
proof (cases rule: create_records_parts)
  case (plain t data rs')
  then obtain vs where vs: "fill t [] data = Inr vs" "r = plain_silver t None vs"
    by (auto simp: plain_record_def bind_err_Inr)
  have "serves t [] [] []" "t \<in> set record_models"
    using plain(1) plain_models_serve by (auto simp: record_models_def)
  then show ?thesis using fill_columns [OF vs(1)]
    by (intro fits_migrated [OF _ serves_fits])
      (auto simp: vs(2) plain_silver_def unit_key_def aggregate_columns_def section_column_def)
next
  case (unit t temps us rs')
  obtain i data vs where vs: "fill t temps data = Inr vs" "r = plain_silver t (Some i) vs"
    using unit_records_mem [OF unit(2,3)] by metis
  have m: "t \<in> set record_models"
    and s: "serves t [unit_column (table_name t)] [] (concat (map (\<lambda>f. [f @ ''_raw'', f @ ''_masked'']) temps))"
    using unit(1) unit_models_serve by (auto simp: record_models_def unit_column_def)
  show ?thesis using fill_columns [OF vs(1)]
    by (intro fits_migrated [OF m serves_fits [OF s]])
      (auto simp: vs(2) plain_silver_def unit_key_def aggregate_columns_def section_column_def)
next
  case (alarm rs')
  then obtain vs where vs: "fill silver_alarm_observation [] (alarm_observation p) = Inr vs"
    and r: "sv_table r = table_name silver_alarm_observation" "sv_unit r = None"
      "sv_values r = AList.update ''active_alarms_count''
          (Some (VInt (int (length (active_alarms (alarm_observation p)))))) vs"
      "sv_config r = None" "sv_config_hash r = None"
    by (auto simp: alarm_record_def bind_err_Inr plain_silver_def)
  have m: "silver_alarm_observation \<in> set record_models" by (simp add: record_models_def)
  have "\<forall>x\<in>set (sv_values r). has_attr silver_alarm_observation (fst x) \<or> fst x = ''active_alarms_count''"
    using fill_columns [OF vs] unfolding r(3) by (intro update_columns) (auto simp: section_column_def)
  then show ?thesis
    by (intro fits_migrated [OF m serves_fits [OF special_models_serve(1)]])
      (auto simp: r(1,2,4,5) unit_key_def aggregate_columns_def)
next
  case session
  then obtain i data where r: "r = plain_silver silver_session_observation (Some i) (foldl (set_session_field repr) [] data)"
    by (auto simp: session_records_def)
  have m: "silver_session_observation \<in> set record_models" by (simp add: record_models_def)
  show ?thesis using session_columns [of repr data]
    by (intro fits_migrated [OF m serves_fits [OF special_models_serve(3)]])
      (simp_all add: r plain_silver_def unit_key_def unit_column_def aggregate_columns_def)
next
  case (configuration rs')
  then obtain vs where vs: "fill silver_configuration_snapshot [] (configuration_snapshot p) = Inr vs"
    and r: "sv_table r = table_name silver_configuration_snapshot" "sv_unit r = None" "sv_values r = vs"
      "sv_alarm_codes r = None" "sv_config_hash r \<noteq> None"
    by (auto simp: configuration_record_def bind_err_Inr plain_silver_def Let_def)
  have m: "silver_configuration_snapshot \<in> set record_models" by (simp add: record_models_def)
  show ?thesis using fill_columns [OF vs] r(5)
    by (intro fits_migrated [OF m serves_fits [OF special_models_serve(2)]])
      (auto simp: r(1-4) unit_key_def aggregate_columns_def section_column_def)
qed

theorem records_fit_tables_witness:
  "\<exists>rs ps. create_silver_records (\<lambda>_. []) (\<lambda>kvs. concat (map snd kvs))
       (resolve_frame demo_library demo_dictionary [''Gun Lock''] [[(''Gun Lock'', ''closed'')]]) = Inr (rs, ps)
     \<and> rs \<noteq> [] \<and> (\<exists>t\<in>set silver_upgrade. \<exists>m\<in>set silver_models. table_name m = table_name t \<and> fits t (python_defaults m) (hd rs))"
proof -
  let ?p = "resolve_frame demo_library demo_dictionary [''Gun Lock''] [[(''Gun Lock'', ''closed'')]]"
  have "\<not> isl (create_silver_records (\<lambda>_. []) (\<lambda>kvs. concat (map snd kvs)) ?p)"
    unfolding create_records_isl by code_simp
  then obtain rs ps where rs: "create_silver_records (\<lambda>_. []) (\<lambda>kvs. concat (map snd kvs)) ?p = Inr (rs, ps)"
    by (auto simp: not_isl_iff)
  have "rs \<noteq> []" using create_records_keys(1) [OF rs] by (auto simp: record_keys_def)
  then show ?thesis using rs records_fit_tables [OF rs, of "hd rs"] by auto
qed

end
