(* ===== verification/LogicalKeys.thy ===== *)
theory LogicalKeys
  imports Serializer ColumnRoles
begin

text \<open>
  Logical keys, \<open>pipelines/frame_reconstruction/logical_keys.py\<close>: one pass over the rows of a
  file attaches charger, event time, logical position and occurrence index to every row.

  The DataFrame is a list of column names and a list of rows. \<open>build_keys\<close> first fingerprints
  the rows (the only part of the loop body that can raise; an exception abandons the whole
  call) and then runs the loop body \<open>key_step\<close> row by row.
\<close>

record data_frame =
  df_columns :: "string list"
  df_rows :: "raw_value list list"

type_synonym group_key = "string \<times> datetime"

record keyed_rows =
  by_timestamp :: "(group_key, raw_row_ref list) pydict"
  unassigned_by_timestamp :: "(group_key, raw_row_ref list) pydict"
  undatable_rows :: "raw_row_ref list"
  position_group_counts :: "(logical_position, nat) pydict"
  group_total :: nat
  observed_connectors :: "string list"
  observed_smrs :: "string list"
  exact_duplicate_row_count :: nat

definition assigned_row_count :: "keyed_rows \<Rightarrow> nat" where
  "assigned_row_count k = sum_list (map length (dict_values (by_timestamp k)))"

definition unassigned_row_count :: "keyed_rows \<Rightarrow> nat" where
  "unassigned_row_count k =
     sum_list (map length (dict_values (unassigned_by_timestamp k))) + length (undatable_rows k)"

text \<open>\<open>_clean\<close>: identity text without a decimal tail.\<close>

definition clean_identity :: "raw_value \<Rightarrow> string" where
  "clean_identity raw =
     (if raw = RNone then []
      else let text = py_strip (value_str raw); n = length text
           in if text = [] then []
              else if 2 \<le> n \<and> drop (n - 2) text = ''.0''
                      \<and> py_isdigit (py_lstrip (\<lambda>c. c = CHR ''-'') (take (n - 2) text))
              then take (n - 2) text
              else text)"

text \<open>The cell of a row in an optional column: no column, no identity.\<close>

definition identity_cell :: "data_frame \<Rightarrow> string option \<Rightarrow> raw_value list \<Rightarrow> string" where
  "identity_cell df col row =
     (case col of
        None \<Rightarrow> []
      | Some name \<Rightarrow>
          (case map_of (zip (df_columns df) row) name of
             None \<Rightarrow> []
           | Some raw \<Rightarrow> clean_identity raw))"

record key_state =
  ks_by_timestamp :: "(group_key, raw_row_ref list) pydict"
  ks_unassigned :: "(group_key, raw_row_ref list) pydict"
  ks_undatable :: "raw_row_ref list"
  ks_occurrence :: "(string \<times> datetime \<times> logical_position, nat) pydict"
  ks_positions :: "(group_key, logical_position list) pydict"
  ks_seen :: "string set"
  ks_exact_duplicates :: nat
  ks_connectors :: "string set"
  ks_smrs :: "string set"

definition key_start :: key_state where
  "key_start =
     \<lparr>ks_by_timestamp = [], ks_unassigned = [], ks_undatable = [], ks_occurrence = [],
      ks_positions = [], ks_seen = {}, ks_exact_duplicates = 0, ks_connectors = {}, ks_smrs = {}\<rparr>"

record key_builder =
  kb_roles :: role_resolution
  kb_serializer :: serializer
  kb_charger_fallback :: "string option"

text \<open>The identity of one row: charger, connector and SMR text.\<close>

definition row_charger :: "key_builder \<Rightarrow> data_frame \<Rightarrow> raw_value list \<Rightarrow> string" where
  "row_charger kb df row =
     (let c = identity_cell df (role_canonical (kb_roles kb) CHARGER_ID) row
      in if c = [] then (case kb_charger_fallback kb of None \<Rightarrow> [] | Some f \<Rightarrow> f) else c)"

definition row_connector :: "key_builder \<Rightarrow> data_frame \<Rightarrow> raw_value list \<Rightarrow> string" where
  "row_connector kb df row = identity_cell df (role_canonical (kb_roles kb) CONNECTOR) row"

definition row_smr :: "key_builder \<Rightarrow> data_frame \<Rightarrow> raw_value list \<Rightarrow> string" where
  "row_smr kb df row = identity_cell df (role_canonical (kb_roles kb) SMR) row"

definition row_position :: "key_builder \<Rightarrow> data_frame \<Rightarrow> raw_value list \<Rightarrow> logical_position" where
  "row_position kb df row =
     (if row_connector kb df row \<noteq> [] \<and> row_smr kb df row \<noteq> []
      then LogicalPosition (row_connector kb df row) (row_smr kb df row)
      else UNASSIGNED_POSITION)"

definition add_if :: "string \<Rightarrow> string set \<Rightarrow> string set" where
  "add_if x xs = (if x = [] then xs else insert x xs)"

text \<open>The loop body, for row number \<open>index\<close> with its fingerprint.\<close>

definition key_step ::
    "key_builder \<Rightarrow> data_frame \<Rightarrow> uuid option \<Rightarrow> datetime option list
     \<Rightarrow> key_state \<Rightarrow> nat \<times> raw_value list \<times> string \<Rightarrow> key_state" where
  "key_step kb df file_id event_times s irf =
     (let (index, row, fingerprint) = irf;
          charger = row_charger kb df row;
          pos = row_position kb df row;
          is_assigned = (position_is_assigned pos \<and> charger \<noteq> []);
          event_time = (if index < length event_times then event_times ! index else None);
          ref = (\<lambda>occ un. \<lparr>telemetry_file_id = file_id, source_row_number = index, position = pos,
                          occurrence_index = occ, row_fingerprint = fingerprint, unassigned = un\<rparr>);
          s = s\<lparr>ks_exact_duplicates :=
                   ks_exact_duplicates s + (if fingerprint \<in> ks_seen s then 1 else 0),
                ks_seen := insert fingerprint (ks_seen s),
                ks_connectors := add_if (row_connector kb df row) (ks_connectors s),
                ks_smrs := add_if (row_smr kb df row) (ks_smrs s)\<rparr>
      in case event_time of
           None \<Rightarrow> s\<lparr>ks_undatable := ks_undatable s @ [ref 0 True]\<rparr>
         | Some t \<Rightarrow>
             if \<not> is_assigned
             then s\<lparr>ks_unassigned := append_at (ks_unassigned s) (charger, t) (ref 0 True)\<rparr>
             else let occ = dict_get (ks_occurrence s) (charger, t, pos) 0;
                      here = dict_get (ks_positions s) (charger, t) []
                  in s\<lparr>ks_occurrence := AList.update (charger, t, pos) (occ + 1) (ks_occurrence s),
                       ks_by_timestamp := append_at (ks_by_timestamp s) (charger, t) (ref occ False),
                       ks_positions :=
                         AList.update (charger, t) (if pos \<in> set here then here else here @ [pos])
                           (ks_positions s)\<rparr>)"

definition finish_keys :: "key_state \<Rightarrow> keyed_rows" where
  "finish_keys s =
     \<lparr>by_timestamp = ks_by_timestamp s,
      unassigned_by_timestamp = ks_unassigned s,
      undatable_rows = ks_undatable s,
      position_group_counts = tally (concat (dict_values (ks_positions s))),
      group_total = length (ks_positions s),
      observed_connectors = sorted_list_of_set (ks_connectors s),
      observed_smrs = sorted_list_of_set (ks_smrs s),
      exact_duplicate_row_count = ks_exact_duplicates s\<rparr>"

definition run_keys ::
    "key_builder \<Rightarrow> data_frame \<Rightarrow> uuid option \<Rightarrow> datetime option list \<Rightarrow> string list \<Rightarrow> key_state" where
  "run_keys kb df file_id event_times fps =
     foldl (key_step kb df file_id event_times) key_start
       (zip [0..<length (df_rows df)] (zip (df_rows df) fps))"

definition build_keys ::
    "(string \<Rightarrow> string) \<Rightarrow> key_builder \<Rightarrow> data_frame \<Rightarrow> uuid option \<Rightarrow> datetime option list
     \<Rightarrow> decimal_error + keyed_rows" where
  "build_keys digest kb df file_id event_times =
     bind_err (traverse (row_fingerprint_of digest (kb_serializer kb) (df_columns df)) (df_rows df))
       (\<lambda>fps. Inr (finish_keys (run_keys kb df file_id event_times fps)))"

section \<open>Every row is kept, in source order\<close>

definition keyed_refs :: "key_state \<Rightarrow> raw_row_ref list" where
  "keyed_refs s =
     concat (dict_values (ks_by_timestamp s)) @ concat (dict_values (ks_unassigned s)) @ ks_undatable s"

text \<open>
  What the loop keeps after \<open>n\<close> rows: well-formed groups, and the occurrence counter and the
  position sets beside them in step with the groups.
\<close>

definition groups_inv ::
    "nat \<Rightarrow> (group_key, raw_row_ref list) pydict
     \<Rightarrow> (string \<times> datetime \<times> logical_position, nat) pydict
     \<Rightarrow> (group_key, logical_position list) pydict \<Rightarrow> bool" where
  "groups_inv n d occ pos =
     (distinct (dict_keys d) \<and> dict_keys pos = dict_keys d
      \<and> (\<forall>k. rows_wf (dict_get d k []))
      \<and> (\<forall>k. \<forall>r\<in>set (dict_get d k []). source_row_number r < n)
      \<and> (\<forall>c t p. dict_get occ (c, t, p) 0 =
            length (filter (\<lambda>r. position r = p) (dict_get d (c, t) [])))
      \<and> (\<forall>k. distinct (dict_get pos k [])
            \<and> set (dict_get pos k []) = position ` set (dict_get d k [])))"

lemma update_keys_eq:
  "map fst a = map fst b \<Longrightarrow> map fst (AList.update k v a) = map fst (AList.update k w b)"
  by (simp add: update_keys)

lemma groups_inv_Suc: "groups_inv n d occ pos \<Longrightarrow> groups_inv (Suc n) d occ pos"
  unfolding groups_inv_def by (intro conjI; (elim conjE)?) (auto intro: less_SucI)

lemma groups_inv_add:
  assumes inv: "groups_inv n d occ pos"
    and r: "source_row_number r = n" "position_is_assigned (position r)" "\<not> unassigned r"
      "occurrence_index r = dict_get occ (c, t, position r) 0"
    and h: "h = dict_get pos (c, t) []"
  shows "groups_inv (Suc n) (append_at d (c, t) r)
           (AList.update (c, t, position r) (dict_get occ (c, t, position r) 0 + 1) occ)
           (AList.update (c, t) (if position r \<in> set h then h else h @ [position r]) pos)"
    (is "groups_inv _ ?d ?o ?p")
proof -
  have keys: "dict_keys ?p = dict_keys ?d"
    unfolding append_at_def by (rule update_keys_eq) (use inv in \<open>simp add: groups_inv_def\<close>)
  have wf: "rows_wf (dict_get ?d k [])" for k
    using inv r unfolding groups_inv_def
    by (cases k) (auto simp: append_at_get rows_wf_snoc earlier_same_def)
  have rows: "\<forall>x\<in>set (dict_get ?d k []). source_row_number x < Suc n" for k
    using inv r unfolding groups_inv_def by (cases k) (auto simp: append_at_get intro: less_SucI)
  have occs: "dict_get ?o (c', t', p) 0 =
      length (filter (\<lambda>x. position x = p) (dict_get ?d (c', t') []))" for c' t' p
    using inv unfolding groups_inv_def by (auto simp: append_at_get dict_simps)
  have ps: "distinct (dict_get ?p k []) \<and> set (dict_get ?p k []) = position ` set (dict_get ?d k [])"
    for k
    using inv h unfolding groups_inv_def by (cases k) (auto simp: append_at_get dict_simps)
  have "distinct (dict_keys ?d)"
    using inv by (simp add: groups_inv_def append_at_distinct)
  then show ?thesis
    unfolding groups_inv_def using keys wf rows occs ps by (simp only: ) blast
qed

text \<open>Each reference repeats what the code read from its row.\<close>

definition ref_matches ::
    "key_builder \<Rightarrow> data_frame \<Rightarrow> uuid option \<Rightarrow> datetime option list
     \<Rightarrow> (nat \<times> raw_value list \<times> string) list \<Rightarrow> group_key \<Rightarrow> raw_row_ref \<Rightarrow> bool" where
  "ref_matches kb df file_id ets es k r =
     (case es ! source_row_number r of (i, row, fp) \<Rightarrow>
        fst k = row_charger kb df row \<and> fst k \<noteq> []
        \<and> source_row_number r < length ets \<and> ets ! source_row_number r = Some (snd k)
        \<and> position r = row_position kb df row \<and> row_fingerprint r = fp
        \<and> telemetry_file_id r = file_id)"

definition keys_inv ::
    "key_builder \<Rightarrow> data_frame \<Rightarrow> uuid option \<Rightarrow> datetime option list
     \<Rightarrow> (nat \<times> raw_value list \<times> string) list \<Rightarrow> key_state \<Rightarrow> bool" where
  "keys_inv kb df file_id ets es s =
     (mset (map source_row_number (keyed_refs s)) = mset (map fst es)
      \<and> groups_inv (length es) (ks_by_timestamp s) (ks_occurrence s) (ks_positions s)
      \<and> (\<forall>k. \<forall>r\<in>set (dict_get (ks_by_timestamp s) k []). ref_matches kb df file_id ets es k r)
      \<and> ks_seen s = (snd \<circ> snd) ` set es \<and> ks_exact_duplicates s + card (ks_seen s) = length es)"

lemma ref_matches_snoc:
  "source_row_number r < length es \<Longrightarrow>
   ref_matches kb df fid ets (es @ [e]) k r = ref_matches kb df fid ets es k r"
  by (simp add: ref_matches_def nth_append)

lemma keys_step:
  assumes adm: "map fst (es @ [e]) = [0..<length (es @ [e])]" and inv: "keys_inv kb df fid ets es s"
  shows "keys_inv kb df fid ets (es @ [e]) (key_step kb df fid ets s e)"
proof -
  obtain i row fp where e: "e = (i, row, fp)" by (cases e) auto
  have i: "i = length es" using adm e by simp
  let ?G = "\<lambda>k. dict_get (ks_by_timestamp s) k []"
  have g: "groups_inv (length es) (ks_by_timestamp s) (ks_occurrence s) (ks_positions s)"
    and m: "mset (map source_row_number (keyed_refs s)) = mset (map fst es)"
    and seen: "ks_seen s = (snd \<circ> snd) ` set es"
    and dup: "ks_exact_duplicates s + card (ks_seen s) = length es"
    using inv unfolding keys_inv_def by blast+
  note gs = groups_inv_Suc [OF g]
  have rm: "\<forall>k. \<forall>r\<in>set (?G k). ref_matches kb df fid ets (es @ [e]) k r"
    using inv g by (auto simp: keys_inv_def groups_inv_def ref_matches_snoc)
  have seen': "insert fp (ks_seen s) = (snd \<circ> snd) ` set (es @ [e])" using seen e by auto
  have dup': "ks_exact_duplicates s + (if fp \<in> ks_seen s then 1 else 0) +
      card (insert fp (ks_seen s)) = length (es @ [e])"
    using dup by (simp add: card_insert_if seen)
  note kept = rm seen' dup'
  let ?c = "row_charger kb df row" and ?p = "row_position kb df row"
  let ?et = "if i < length ets then ets ! i else None"
  let ?ref = "\<lambda>occ un. \<lparr>telemetry_file_id = fid, source_row_number = i, position = ?p,
                          occurrence_index = occ, row_fingerprint = fp, unassigned = un\<rparr>"
  consider "?et = None"
    | t where "?et = Some t" "\<not> (position_is_assigned ?p \<and> ?c \<noteq> [])"
    | t where "?et = Some t" "position_is_assigned ?p" "?c \<noteq> []"
    by (cases ?et) auto
  then show ?thesis
  proof cases
    case 1
    show ?thesis unfolding key_step_def e prod.case 1 Let_def using m gs kept i e
      by (simp add: keys_inv_def keyed_refs_def)
  next
    case 2
    show ?thesis unfolding key_step_def e prod.case 2 Let_def using m gs kept i e 2(2)
      by (simp add: keys_inv_def keyed_refs_def append_at_values)
  next
    case 3
    let ?o = "dict_get (ks_occurrence s) (?c, t, ?p) 0"
    let ?h = "dict_get (ks_positions s) (?c, t) []"
    let ?d = "append_at (ks_by_timestamp s) (?c, t) (?ref ?o False)"
    have "groups_inv (Suc (length es)) ?d
       (AList.update (?c, t, ?p) (?o + 1) (ks_occurrence s))
       (AList.update (?c, t) (if ?p \<in> set ?h then ?h else ?h @ [?p]) (ks_positions s))"
      by (rule groups_inv_add [OF g, of "?ref ?o False" ?c t, unfolded raw_row_ref.select_convs])
        (use i 3(2) in simp_all)
    moreover have "ref_matches kb df fid ets (es @ [e]) (?c, t) (?ref ?o False)"
      using 3 i e by (auto simp: ref_matches_def split: if_splits)
    then have "\<forall>k. \<forall>r\<in>set (dict_get ?d k []). ref_matches kb df fid ets (es @ [e]) k r"
      using rm by (simp add: append_at_get)
    ultimately show ?thesis unfolding key_step_def e prod.case 3 Let_def
      using m seen' dup' i e 3(2,3)
      by (cases "?p \<in> set ?h") (simp_all add: keys_inv_def keyed_refs_def append_at_values)
  qed
qed

interpretation key_fold: history_fold "key_step kb df fid ets" key_start
  "\<lambda>es. map fst es = [0..<length es]" "keys_inv kb df fid ets" for kb df fid ets
proof unfold_locales
  show "keys_inv kb df fid ets [] key_start"
    by (simp add: keys_inv_def key_start_def keyed_refs_def groups_inv_def dict_simps)
qed (simp_all add: keys_step)

section \<open>What the caller gets\<close>

definition kept_refs :: "keyed_rows \<Rightarrow> raw_row_ref list" where
  "kept_refs k =
     concat (dict_values (by_timestamp k)) @ concat (dict_values (unassigned_by_timestamp k))
     @ undatable_rows k"

lemma build_keys_inv:
  assumes "build_keys digest kb df fid ets = Inr k"
  obtains fps s where
    "traverse (row_fingerprint_of digest (kb_serializer kb) (df_columns df)) (df_rows df) = Inr fps"
    "k = finish_keys s"
    "keys_inv kb df fid ets (zip [0..<length (df_rows df)] (zip (df_rows df) fps)) s"
proof -
  from assms obtain fps where fps:
      "traverse (row_fingerprint_of digest (kb_serializer kb) (df_columns df)) (df_rows df) = Inr fps"
      "k = finish_keys (run_keys kb df fid ets fps)"
    by (auto simp: build_keys_def bind_err_Inr)
  have "length fps = length (df_rows df)" using fps(1) by (rule traverse_length)
  then have "keys_inv kb df fid ets (zip [0..<length (df_rows df)] (zip (df_rows df) fps))
      (run_keys kb df fid ets fps)"
    unfolding run_keys_def by (intro key_fold.fold_inv) simp
  with fps show ?thesis by (rule that)
qed

text \<open>The number of timestamp groups that contain a position.\<close>

definition groups_with :: "logical_position \<Rightarrow> (group_key, raw_row_ref list) pydict \<Rightarrow> nat" where
  "groups_with p d = length (filter (\<lambda>(k, rs). p \<in> position ` set rs) d)"

lemma groups_inv_counts:
  assumes "groups_inv n d occ pos"
  shows "count_list (concat (dict_values pos)) p = groups_with p d"
proof -
  let ?ks = "dict_keys d"
  have d: "d = map (\<lambda>k. (k, dict_get d k [])) ?ks" and p: "pos = map (\<lambda>k. (k, dict_get pos k [])) ?ks"
    using assms dict_as_map [of d] dict_as_map [of pos] by (simp_all add: groups_inv_def)
  have ps: "distinct (dict_get pos k [])" "set (dict_get pos k []) = position ` set (dict_get d k [])" for k
    using assms by (cases k; simp add: groups_inv_def)+
  have "count_list (concat (dict_values pos)) p =
      sum_list (map (\<lambda>k. if p \<in> position ` set (dict_get d k []) then 1 else 0) ?ks)"
    by (subst p) (simp add: count_list_concat comp_def count_list_distinct ps)
  also have "\<dots> = groups_with p d"
    by (subst (3) d) (simp add: groups_with_def comp_def filter_map sum_if_length)
  finally show ?thesis .
qed


section \<open>A small file\<close>

text \<open>
  Five rows of one charger: two positions, a replayed row, a row without a connector and a row
  without a usable time. The witnesses below and in the later theories run on it.
\<close>

definition demo_roles :: role_resolution where
  "demo_roles =
     \<lparr>resolved =
        [(CONNECTOR, \<lparr>rc_role = CONNECTOR, rc_canonical_name = ''connector_id'',
            rc_source_name = ''connector_id'', rc_position = 0, matched_by = ''name''\<rparr>),
         (SMR, \<lparr>rc_role = SMR, rc_canonical_name = ''smr_id'', rc_source_name = ''smr_id'',
            rc_position = 1, matched_by = ''name''\<rparr>)],
      missing_required = []\<rparr>"

definition demo_serializer :: serializer where
  "demo_serializer =
     \<lparr>field_types = [(''volt'', canonical_data_type.FLOAT)], null_literals = {''null''},
      excluded_fields = {}\<rparr>"

definition demo_builder :: key_builder where
  "demo_builder =
     \<lparr>kb_roles = demo_roles, kb_serializer = demo_serializer, kb_charger_fallback = Some ''CH1''\<rparr>"

definition demo_frame :: data_frame where
  "demo_frame =
     \<lparr>df_columns = [''connector_id'', ''smr_id'', ''volt''],
      df_rows =
        [[RText ''1'', RText ''1'', RText ''10''], [RText ''1'', RText ''2'', RText ''20''],
         [RText ''1.0'', RText ''1'', RText ''10.0''], [RNone, RText ''1'', RText ''5''],
         [RText ''1'', RText ''1'', RText ''7'']]\<rparr>"

definition demo_times :: "datetime option list" where
  "demo_times = [Some 0, Some 0, Some 0, Some 0, None]"

lemma demo_keys:
  obtains k rs where "build_keys (\<lambda>s. s) demo_builder demo_frame None demo_times = Inr k"
    and "by_timestamp k = [((''CH1'', 0), rs)]" and "map source_row_number rs = [0, 1, 2]"
    and "map occurrence_index rs = [0, 0, 1]"
proof -
  let ?b = "build_keys (\<lambda>s. s) demo_builder demo_frame None demo_times"
  have "case ?b of
      Inl _ \<Rightarrow> False
    | Inr k \<Rightarrow> length (by_timestamp k) = 1 \<and> fst (hd (by_timestamp k)) = (''CH1'', 0)
        \<and> map source_row_number (snd (hd (by_timestamp k))) = [0, 1, 2]
        \<and> map occurrence_index (snd (hd (by_timestamp k))) = [0, 0, 1]"
    by code_simp
  then obtain k where k: "?b = Inr k" "length (by_timestamp k) = 1"
      "fst (hd (by_timestamp k)) = (''CH1'', 0)"
      "map source_row_number (snd (hd (by_timestamp k))) = [0, 1, 2]"
      "map occurrence_index (snd (hd (by_timestamp k))) = [0, 0, 1]"
    by (cases ?b) simp_all
  from k(2) obtain g rs where "by_timestamp k = [(g, rs)]"
    by (metis One_nat_def length_0_conv length_Suc_conv surj_pair)
  then show thesis using that [of k rs] k by simp
qed

lemma build_keys_rows:
  assumes "build_keys digest kb df fid ets = Inr k"
  shows "mset (map source_row_number (kept_refs k)) = mset [0..<length (df_rows df)]
    \<and> assigned_row_count k + unassigned_row_count k = length (df_rows df)"
proof -
  from assms obtain fps s where "k = finish_keys s" 
    "traverse (row_fingerprint_of digest (kb_serializer kb) (df_columns df)) (df_rows df) = Inr fps"
    "keys_inv kb df fid ets (zip [0..<length (df_rows df)] (zip (df_rows df) fps)) s"
    by (rule build_keys_inv)
  then have m: "mset (map source_row_number (kept_refs k)) = mset [0..<length (df_rows df)]"
    by (simp add: keys_inv_def kept_refs_def keyed_refs_def finish_keys_def traverse_length flip: mset_map)
  moreover have "length (kept_refs k) = assigned_row_count k + unassigned_row_count k"
    by (simp add: kept_refs_def assigned_row_count_def unassigned_row_count_def length_concat)
  ultimately show ?thesis
    by (metis length_map length_upt minus_nat.diff_0 size_mset)
qed

text \<open>
  C7: every row of the file ends up in exactly one of the three bins of the result (timestamp groups,
  unassigned rows, undatable rows), under its own source row number, and the two counters the
  result reports add up to the number of rows.
\<close>

lemma build_keys_conserves_rows:
  assumes "build_keys digest kb df fid ets = Inr k"
  shows "mset (map source_row_number (kept_refs k)) = mset [0..<length (df_rows df)]
    \<and> assigned_row_count k + unassigned_row_count k = length (df_rows df)"
  using assms by (rule build_keys_rows)

lemma build_keys_conserves_rows_witness:
  "\<exists>k. build_keys (\<lambda>s. s) demo_builder demo_frame None demo_times = Inr k
     \<and> mset (map source_row_number (kept_refs k)) = mset [0..<5]
     \<and> assigned_row_count k = 3 \<and> unassigned_row_count k = 2"
proof (rule demo_keys)
  fix k rs
  assume k: "build_keys (\<lambda>s. s) demo_builder demo_frame None demo_times = Inr k"
    and "by_timestamp k = [((''CH1'', 0), rs)]" and "map source_row_number rs = [0, 1, 2]"
  then have "assigned_row_count k = 3"
    using length_map [of source_row_number rs] by (simp add: assigned_row_count_def)
  moreover have "length (df_rows demo_frame) = 5" by (simp add: demo_frame_def)
  ultimately show ?thesis using build_keys_conserves_rows [OF k] k by auto
qed

lemma build_keys_group:
  assumes "build_keys digest kb df fid ets = Inr k" and "((c, t), rs) \<in> set (by_timestamp k)"
  shows "rows_wf rs \<and> 
     (\<forall>r\<in>set rs. let n = source_row_number r in n < length (df_rows df) \<and> n < length ets \<and>
         ets ! n = Some t \<and> row_charger kb df (df_rows df ! n) = c \<and>
         position r = row_position kb df (df_rows df ! n) \<and> telemetry_file_id r = fid)"
proof -
  from assms(1) obtain fps s where k: "k = finish_keys s" and
    tr: "traverse (row_fingerprint_of digest (kb_serializer kb) (df_columns df)) (df_rows df) = Inr fps" and
    inv: "keys_inv kb df fid ets (zip [0..<length (df_rows df)] (zip (df_rows df) fps)) s"
    by (rule build_keys_inv)
  have len: "length fps = length (df_rows df)" using tr by (rule traverse_length)
  have g: "groups_inv (length (df_rows df)) (ks_by_timestamp s) (ks_occurrence s) (ks_positions s)"
    and rm: "\<And>c t r. r\<in>set (dict_get (ks_by_timestamp s) (c, t) []) \<Longrightarrow> ref_matches kb df fid ets (zip [0..<length (df_rows df)] (zip (df_rows df) fps)) (c, t) r"
    using inv len unfolding keys_inv_def by auto
  have rs: "rs = dict_get (ks_by_timestamp s) (c, t) []"
    using assms(2) k g by (simp add: finish_keys_def groups_inv_def dict_get_mem)
  show ?thesis
    using g rm len unfolding rs by (auto simp: groups_inv_def ref_matches_def Let_def)
qed

text \<open>
  the rows of a timestamp group are in source order, the occurrence index of each counts the
  earlier rows of the same logical position, and every reference repeats the charger, the
  event time and the position that its row in the file carries.
\<close>

lemma build_keys_groups:
  assumes "build_keys digest kb df fid ets = Inr k" and "((c, t), rs) \<in> set (by_timestamp k)"
  shows "rows_wf rs \<and> 
     (\<forall>r\<in>set rs. let n = source_row_number r in n < length (df_rows df) \<and> n < length ets \<and>
         ets ! n = Some t \<and> row_charger kb df (df_rows df ! n) = c \<and>
         position r = row_position kb df (df_rows df ! n) \<and> telemetry_file_id r = fid)"
  using assms by (rule build_keys_group)

lemma build_keys_groups_witness:
  "\<exists>k rs. build_keys (\<lambda>s. s) demo_builder demo_frame None demo_times = Inr k
     \<and> ((''CH1'', 0), rs) \<in> set (by_timestamp k) \<and> length rs = 3 \<and> rows_wf rs"
proof (rule demo_keys)
  fix k rs
  assume k: "build_keys (\<lambda>s. s) demo_builder demo_frame None demo_times = Inr k"
    and "by_timestamp k = [((''CH1'', 0), rs)]" and "map source_row_number rs = [0, 1, 2]"
  then have "((''CH1'', 0), rs) \<in> set (by_timestamp k)" and "length rs = 3"
    using length_map [of source_row_number rs] by auto
  then show ?thesis using build_keys_groups [OF k] k by blast
qed

text \<open>
  The position counts handed to the topology resolver count timestamp groups, not rows.
\<close>

lemma build_keys_position_counts:
  assumes "build_keys digest kb df fid ets = Inr k"
  shows "dict_get (position_group_counts k) p 0 = groups_with p (by_timestamp k)
    \<and> group_total k = length (by_timestamp k)
    \<and> distinct (dict_keys (position_group_counts k))"
proof -
  from assms obtain fps s where k: "k = finish_keys s" and
    "traverse (row_fingerprint_of digest (kb_serializer kb) (df_columns df)) (df_rows df) = Inr fps" and
    inv: "keys_inv kb df fid ets (zip [0..<length (df_rows df)] (zip (df_rows df) fps)) s"
    by (rule build_keys_inv)
  have g: "\<exists>n. groups_inv n (ks_by_timestamp s) (ks_occurrence s) (ks_positions s)"
    using inv unfolding keys_inv_def by blast
  then have "length (dict_keys (ks_positions s)) = length (dict_keys (ks_by_timestamp s))"
    unfolding groups_inv_def by metis
  with g show ?thesis
    using groups_inv_counts by (auto simp: k finish_keys_def dict_simps)
qed

end
