(* ===== verification/Topology.thy ===== *)
theory Topology
  imports LogicalKeys
begin

text \<open>
  The expected frame topology, \<open>pipelines/frame_reconstruction/topology.py\<close>: declared counts
  (charger configuration, then configured default), then the stable observation, then a verdict
  of its own. Counts are Python ints and may be negative; the f-strings of \<open>note\<close> are the
  values of \<open>topology_note\<close> they are built from, an empty list standing for \<open>None\<close>.
\<close>

datatype topology_basis =
  CHARGER_CONFIGURATION | CONFIGURED_DEFAULT | OBSERVED_STABLE | UNRESOLVED

datatype topology_note =
    FewerObserved string nat int
  | SurplusObserved string nat int "string list" "string list"
  | SparseMatrix
  | NothingUsable

record frame_topology =
  tp_positions :: "logical_position set"
  tp_connectors :: "string list"
  tp_smrs :: "string list"
  tp_basis :: topology_basis
  is_full_matrix :: bool
  tp_notes :: "topology_note list"

definition tp_position_count :: "frame_topology \<Rightarrow> nat" where
  "tp_position_count t = card (tp_positions t)"

definition is_resolved :: "frame_topology \<Rightarrow> bool" where
  "is_resolved t = (tp_positions t \<noteq> {})"

fun basis_value :: "topology_basis \<Rightarrow> string" where
  "basis_value CHARGER_CONFIGURATION = ''CHARGER_CONFIGURATION''"
| "basis_value CONFIGURED_DEFAULT = ''CONFIGURED_DEFAULT''"
| "basis_value OBSERVED_STABLE = ''OBSERVED_STABLE''"
| "basis_value UNRESOLVED = ''UNRESOLVED''"

definition describe :: "frame_topology \<Rightarrow> string" where
  "describe t =
     nat_str (length (tp_connectors t)) @ '' connectors x '' @ nat_str (length (tp_smrs t))
     @ '' SMRs = '' @ nat_str (tp_position_count t) @ '' positions ('' @ basis_value (tp_basis t) @ '')''"

section \<open>Labels and declared expectations\<close>

definition cross :: "string list \<Rightarrow> string list \<Rightarrow> logical_position set" where
  "cross connectors smrs = set (concat (map (\<lambda>c. map (LogicalPosition c) smrs) connectors))"

definition sorted_identities :: "string list \<Rightarrow> string list" where
  "sorted_identities vals =
     (let items = sorted_list_of_set (set (filter (\<lambda>v. v \<noteq> []) vals))
      in if list_all py_isdigit items then sort_key digits_value items else items)"

text \<open>
  The padding loop of \<open>_labels\<close>: ordinals are tried in turn until enough labels exist. It ends
  because each round either adds a label or passes one of the finitely many ordinals in use.
\<close>

function pad_labels :: "int \<Rightarrow> nat \<Rightarrow> string list \<Rightarrow> string list" where
  "pad_labels declared ordinal padded =
     (if int (length padded) < declared
      then let candidate = nat_str ordinal
           in if candidate \<in> set padded then pad_labels declared (ordinal + 1) padded
              else pad_labels declared (ordinal + 1) (padded @ [candidate])
      else padded)"
  by pat_completeness auto

definition taken_from :: "nat \<Rightarrow> string list \<Rightarrow> string set" where
  "taken_from k xs = {x \<in> set xs. \<exists>j\<ge>k. x = nat_str j}"

lemma taken_from_Suc: "nat_str k \<in> set xs \<Longrightarrow> card (taken_from (Suc k) xs) < card (taken_from k xs)"
proof (rule psubset_card_mono)
  assume "nat_str k \<in> set xs"
  then have "nat_str k \<in> taken_from k xs" by (auto simp: taken_from_def)
  moreover have "nat_str k \<notin> taken_from (Suc k) xs"
    by (auto simp: taken_from_def nat_str_inj)
  moreover have "taken_from (Suc k) xs \<subseteq> taken_from k xs" by (auto simp: taken_from_def intro: Suc_leD)
  ultimately show "taken_from (Suc k) xs \<subset> taken_from k xs" by blast
qed (simp add: taken_from_def)

termination pad_labels
  by (relation "measures [\<lambda>(d, k, xs). nat (d - int (length xs)), \<lambda>(d, k, xs). card (taken_from k xs)]")
    (auto simp: taken_from_Suc)

declare pad_labels.simps [simp del]

definition labels :: "int \<Rightarrow> string list \<Rightarrow> string \<Rightarrow> string list \<times> topology_note list" where
  "labels declared observed kind =
     (let identities = sorted_identities observed; n = length identities
      in if int n = declared then (identities, [])
         else if identities = [] then (map (nat_str \<circ> nat) [1..declared], [])
         else if int n < declared
         then (sorted_identities (pad_labels declared 1 identities), [FewerObserved kind n declared])
         else (slice_to identities declared,
               [SurplusObserved kind n declared (slice_to identities declared)
                  (slice_from identities declared)]))"

text \<open>\<open>FrameTopologyResolver\<close> and its three tiers.\<close>

record topology_resolver =
  default_connectors :: "int option"
  default_smrs :: "int option"
  stability :: pyfloat

definition from_configuration ::
    "int option \<Rightarrow> int option \<Rightarrow> string list \<Rightarrow> string list \<Rightarrow> topology_basis \<Rightarrow> frame_topology option" where
  "from_configuration connector_count smr_count obs_connectors obs_smrs basis =
     (case (connector_count, smr_count) of
        (Some c, Some s) \<Rightarrow>
          if c = 0 \<or> s = 0 then None
          else let (connectors, connector_note) = labels c obs_connectors ''connector'';
                   (smrs, smr_note) = labels s obs_smrs ''SMR''
               in Some \<lparr>tp_positions = cross connectors smrs, tp_connectors = connectors,
                        tp_smrs = smrs, tp_basis = basis, is_full_matrix = True,
                        tp_notes = connector_note @ smr_note\<rparr>
      | _ \<Rightarrow> None)"

definition from_observation ::
    "topology_resolver \<Rightarrow> (logical_position, nat) pydict \<Rightarrow> nat \<Rightarrow> frame_topology option" where
  "from_observation r counts groups =
     (if groups \<le> 0 \<or> counts = [] then None
      else let least = max 1 (py_int (stability r * of_nat groups));
               stable = map fst (filter (\<lambda>(p, n). least \<le> int n \<and> position_is_assigned p) counts)
           in if stable = [] then None
              else let connectors = sorted_identities (map connector_id stable);
                       smrs = sorted_identities (map smr_id stable);
                       is_full = (set stable = cross connectors smrs)
                   in Some \<lparr>tp_positions = set stable, tp_connectors = connectors, tp_smrs = smrs,
                            tp_basis = OBSERVED_STABLE, is_full_matrix = is_full,
                            tp_notes = (if is_full then [] else [SparseMatrix])\<rparr>)"

definition unresolved_topology :: frame_topology where
  "unresolved_topology =
     \<lparr>tp_positions = {}, tp_connectors = [], tp_smrs = [], tp_basis = UNRESOLVED,
      is_full_matrix = False, tp_notes = [NothingUsable]\<rparr>"

fun first_some :: "'a option list \<Rightarrow> 'a \<Rightarrow> 'a" where
  "first_some [] d = d"
| "first_some (None # xs) d = first_some xs d"
| "first_some (Some x # xs) d = x"

definition resolve ::
    "topology_resolver \<Rightarrow> int option \<Rightarrow> int option \<Rightarrow> string list \<Rightarrow> string list
     \<Rightarrow> (logical_position, nat) pydict \<Rightarrow> nat \<Rightarrow> frame_topology" where
  "resolve r charger_connectors charger_smrs obs_connectors obs_smrs counts groups =
     first_some
       [from_configuration charger_connectors charger_smrs obs_connectors obs_smrs
          CHARGER_CONFIGURATION,
        from_configuration (default_connectors r) (default_smrs r) obs_connectors obs_smrs
          CONFIGURED_DEFAULT,
        if counts = [] then None else from_observation r counts groups]
       unresolved_topology"

text \<open>The resolver with no configured default, for the witnesses.\<close>

definition demo_resolver :: topology_resolver where
  "demo_resolver = \<lparr>default_connectors = None, default_smrs = None, stability = 1 / 2\<rparr>"

section \<open>Facts about labels\<close>

lemma sorted_identities_set: "set (sorted_identities xs) = set xs - {[]}"
  by (auto simp: sorted_identities_def Let_def)

lemma sorted_identities_distinct: "distinct (sorted_identities xs)"
  by (simp add: sorted_identities_def Let_def)

lemma sorted_identities_length:
  "length (sorted_identities xs) = card (set xs - {[]})"
  by (metis sorted_identities_set sorted_identities_distinct distinct_card)

lemma pad_labels_ok:
  "distinct xs \<Longrightarrow> [] \<notin> set xs \<Longrightarrow> int (length xs) \<le> d \<Longrightarrow>
   distinct (pad_labels d k xs) \<and> [] \<notin> set (pad_labels d k xs)
   \<and> set xs \<subseteq> set (pad_labels d k xs) \<and> int (length (pad_labels d k xs)) = d"
proof (induction d k xs rule: pad_labels.induct)
  case (1 d k xs)
  show ?case
  proof (cases "int (length xs) < d")
    case True
    then show ?thesis
      using 1 nat_str_ne [of k]
      by (cases "nat_str k \<in> set xs") (auto simp: pad_labels.simps [of d k xs] Let_def)
  next
    case False
    then show ?thesis using 1 by (simp add: pad_labels.simps [of d k xs])
  qed
qed

lemma slice_to_ok: "0 \<le> d \<Longrightarrow> d \<le> int (length xs) \<Longrightarrow> distinct xs \<Longrightarrow>
  set (slice_to xs d) \<subseteq> set xs \<and> distinct (slice_to xs d) \<and> int (length (slice_to xs d)) = d"
  by (auto simp: slice_to_def dest: in_set_takeD)

lemma ordinals_ok:
  "0 \<le> d \<Longrightarrow> distinct (map (nat_str \<circ> nat) [1..d]) \<and> [] \<notin> set (map (nat_str \<circ> nat) [1..d])
    \<and> int (length (map (nat_str \<circ> nat) [1..d])) = d"
  by (auto simp: distinct_map nat_str_inj nat_str_ne [symmetric] intro!: inj_onI)

lemma labels_ok:
  assumes "1 \<le> d" and "labels d obs kind = (ls, notes)"
  shows "distinct ls \<and> [] \<notin> set ls \<and> int (length ls) = d
    \<and> (int (card (set obs - {[]})) \<le> d \<longrightarrow> set obs - {[]} \<subseteq> set ls)
    \<and> (d \<le> int (card (set obs - {[]})) \<longrightarrow> set ls \<subseteq> set obs - {[]})"
proof -
  let ?ids = "sorted_identities obs" and ?n = "card (set obs - {[]})"
  have ids: "set ?ids = set obs - {[]}" "distinct ?ids" "length ?ids = ?n" "[] \<notin> set ?ids"
    by (simp_all add: sorted_identities_set sorted_identities_distinct sorted_identities_length)
  have emp: "?ids = [] \<longleftrightarrow> ?n = 0" using ids(3) by (metis length_0_conv)
  consider "int ?n = d" | "?n = 0" | "?n \<noteq> 0" "int ?n < d" | "?n \<noteq> 0" "d < int ?n" using assms(1) by linarith
  then show ?thesis
  proof cases
    case 1
    then show ?thesis using assms ids by (auto simp: labels_def Let_def)
  next
    case 2
    then have "set obs - {[]} = {}" by simp
    moreover have "?ids = []" using 2 emp by simp
    then have "ls = map (nat_str \<circ> nat) [1..d]" using assms by (auto simp: labels_def)
    ultimately show ?thesis using ordinals_ok [of d] assms(1) by (auto simp: 2)
  next
    case 3
    let ?p = "pad_labels d 1 ?ids"
    have p: "distinct ?p \<and> [] \<notin> set ?p \<and> set ?ids \<subseteq> set ?p \<and> int (length ?p) = d"
      using 3 ids by (intro pad_labels_ok) auto
    have "ls = sorted_identities ?p" using 3 assms ids(3) emp by (auto simp: labels_def Let_def)
    then show ?thesis using p 3 ids(1)
      by (auto simp: sorted_identities_set sorted_identities_distinct sorted_identities_length distinct_card)
  next
    case 4
    have "ls = slice_to ?ids d" using 4 assms ids(3) emp by (auto simp: labels_def Let_def)
    then show ?thesis using slice_to_ok [of d ?ids] 4 assms(1) ids by auto
  qed
qed

lemma cross_mem: "p \<in> cross cs ss \<longleftrightarrow> connector_id p \<in> set cs \<and> smr_id p \<in> set ss"
  by (cases p) (auto simp: cross_def)

lemma cross_card:
  assumes "distinct cs" and "distinct ss"
  shows "card (cross cs ss) = length cs * length ss"
proof -
  have "cross cs ss = (\<lambda>(c, s). LogicalPosition c s) ` (set cs \<times> set ss)"
    by (auto simp: cross_def)
  moreover have "inj_on (\<lambda>(c, s). LogicalPosition c s) (set cs \<times> set ss)"
    by (auto intro!: inj_onI)
  ultimately show ?thesis
    using assms by (simp add: card_image card_cartesian_product distinct_card)
qed

section \<open>What each tier yields\<close>

definition declared :: "int option \<Rightarrow> int option \<Rightarrow> bool" where
  "declared c s = (c \<notin> {None, Some 0} \<and> s \<notin> {None, Some 0})"

definition stable_positions ::
    "topology_resolver \<Rightarrow> (logical_position, nat) pydict \<Rightarrow> nat \<Rightarrow> logical_position set" where
  "stable_positions r counts groups =
     (if groups = 0 then {}
      else {p. position_is_assigned p \<and> (\<exists>n. (p, n) \<in> set counts
                 \<and> max 1 (py_int (stability r * of_nat groups)) \<le> int n)})"

lemma from_configuration_Some:
  "from_configuration c s oc os b \<noteq> None \<longleftrightarrow> declared c s"
  by (auto simp: from_configuration_def declared_def split: option.splits prod.splits)

lemma from_configuration_basis: "from_configuration c s oc os b = Some t \<Longrightarrow> tp_basis t = b"
  by (auto simp: from_configuration_def Let_def split: option.splits prod.splits if_splits)

lemma from_observation_cases:
  "(from_observation r counts groups = None \<and> stable_positions r counts groups = {}) \<or>
   (\<exists>t. from_observation r counts groups = Some t \<and> stable_positions r counts groups \<noteq> {}
      \<and> tp_positions t = stable_positions r counts groups \<and> tp_basis t = OBSERVED_STABLE)"
proof (cases "groups = 0 \<or> counts = []")
  case True
  then show ?thesis by (auto simp: from_observation_def stable_positions_def)
next
  case False
  let ?f = "\<lambda>(p, n). max 1 (py_int (stability r * of_nat groups)) \<le> int n \<and> position_is_assigned p"
  obtain L where L: "L = map fst (filter ?f counts)" by simp
  have s: "stable_positions r counts groups = set L"
    using False unfolding L by (force simp: stable_positions_def)
  have "from_observation r counts groups =
      (if L = [] then None
       else from_observation r counts groups)"
    using False unfolding L by (simp add: from_observation_def Let_def)
  moreover have "L \<noteq> [] \<Longrightarrow> \<exists>t. from_observation r counts groups = Some t \<and> tp_positions t = set L
      \<and> tp_basis t = OBSERVED_STABLE"
    using False unfolding L by (simp add: from_observation_def Let_def)
  ultimately show ?thesis by (cases "L = []") (auto simp: s)
qed

text \<open>
  the precedence of the tiers. The basis of the resolved topology is the charger's own
  configuration when both of its counts are given and non-zero, else the configured default
  under the same test, else the observation when some position is stable, else UNRESOLVED;
  every input gets one of these verdicts.
\<close>

lemma resolve_basis:
  "tp_basis (resolve r c s oc os counts groups) =
     (if declared c s then CHARGER_CONFIGURATION
      else if declared (default_connectors r) (default_smrs r) then CONFIGURED_DEFAULT
      else if stable_positions r counts groups \<noteq> {} then OBSERVED_STABLE
      else UNRESOLVED)"
proof -
  let ?a = "from_configuration c s oc os CHARGER_CONFIGURATION"
  let ?b = "from_configuration (default_connectors r) (default_smrs r) oc os CONFIGURED_DEFAULT"
  have st: "counts = [] \<Longrightarrow> stable_positions r counts groups = {}"
    by (simp add: stable_positions_def)
  show ?thesis
    using from_observation_cases [of r counts groups] st
      from_configuration_Some [of c s oc os CHARGER_CONFIGURATION]
      from_configuration_Some [of "default_connectors r" "default_smrs r" oc os CONFIGURED_DEFAULT]
    by (cases ?a; cases ?b)
      (auto simp: resolve_def unresolved_topology_def dest: from_configuration_basis)
qed

text \<open>
  with positive declared counts, the topology is the full matrix of exactly the declared
  size whatever was observed; all its positions are usable. When at least as many connectors were
  observed as declared only observed ones are expected, so surplus identities stay outside the
  matrix; when at most as many were observed, every observed one is expected.
\<close>

lemma resolve_declared:
  assumes "1 \<le> c" and "1 \<le> s"
  shows "let t = resolve r (Some c) (Some s) oc os counts groups
         in int (tp_position_count t) = c * s \<and> tp_basis t = CHARGER_CONFIGURATION
         \<and> (\<forall>p. p \<in> tp_positions t \<longrightarrow> position_is_assigned p)
         \<and> tp_positions t = cross (tp_connectors t) (tp_smrs t)
         \<and> (c \<le> int (card (set oc - {[]})) \<longrightarrow> set (tp_connectors t) \<subseteq> set oc)
         \<and> (int (card (set oc - {[]})) \<le> c \<longrightarrow> set oc - {[]} \<subseteq> set (tp_connectors t))"
proof -
  obtain cl cn where cl: "labels c oc ''connector'' = (cl, cn)" by (cases "labels c oc ''connector''")
  obtain sl sn where sl: "labels s os ''SMR'' = (sl, sn)" by (cases "labels s os ''SMR''")
  have t: "resolve r (Some c) (Some s) oc os counts groups =
     \<lparr>tp_positions = cross cl sl, tp_connectors = cl, tp_smrs = sl,
      tp_basis = CHARGER_CONFIGURATION, is_full_matrix = True, tp_notes = cn @ sn\<rparr>"
    using assms cl sl by (simp add: resolve_def from_configuration_def)
  note c = labels_ok [OF assms(1) cl] and s = labels_ok [OF assms(2) sl]
  have "int (card (cross cl sl)) = c * s"
    using c s by (simp add: cross_card)
  then show ?thesis
    unfolding t Let_def using c s
    by (auto simp: tp_position_count_def cross_mem position_is_assigned_def)
qed

lemma resolve_declared_witness:
  "int (tp_position_count
      (resolve demo_resolver (Some 2) (Some 4) [''1'', ''2'', ''9''] [''1''] [] 0)) = 8
   \<and> LogicalPosition ''9'' ''1'' \<notin> tp_positions
      (resolve demo_resolver (Some 2) (Some 4) [''1'', ''2'', ''9''] [''1''] [] 0)"
proof -
  have "LogicalPosition ''9'' ''1'' \<notin> tp_positions
      (resolve demo_resolver (Some 2) (Some 4) [''1'', ''2'', ''9''] [''1''] [] 0)"
    by code_simp
  then show ?thesis
    using resolve_declared [of 2 4 demo_resolver "[''1'', ''2'', ''9'']" "[''1'']" "[]" 0]
    by (simp add: Let_def)
qed

lemma stable_positions_dict:
  assumes "distinct (dict_keys counts)"
  shows "p \<in> stable_positions r counts groups \<longleftrightarrow> groups \<noteq> 0 \<and> position_is_assigned p
    \<and> max 1 (py_int (stability r * of_nat groups)) \<le> int (dict_get counts p 0)"
proof -
  let ?m = "max 1 (py_int (stability r * of_nat groups))"
  have "(\<exists>n. (p, n) \<in> set counts \<and> ?m \<le> int n) \<longleftrightarrow> ?m \<le> int (dict_get counts p 0)"
  proof
    assume "\<exists>n. (p, n) \<in> set counts \<and> ?m \<le> int n"
    then show "?m \<le> int (dict_get counts p 0)" using dict_get_mem [OF assms] by metis
  next
    assume m: "?m \<le> int (dict_get counts p 0)"
    then have "dict_get counts p 0 \<noteq> 0" by auto
    then have "p \<in> set (dict_keys counts)"
      by (force simp: dict_get_def dest: map_of_SomeD split: option.splits)
    then show "\<exists>n. (p, n) \<in> set counts \<and> ?m \<le> int n" using mem_dict_get m by metis
  qed
  then show ?thesis by (auto simp: stable_positions_def)
qed

text \<open>
  C34: an observed topology expects exactly the usable positions that occur in enough timestamp
  groups of the file. Groups are counted, not rows, so one group with any number of rows adds
  one to the count of a position.
\<close>

lemma observed_topology_positions:
  assumes "build_keys digest kb df fid ets = Inr k"
    and "from_observation r (position_group_counts k) (group_total k) = Some t"
  shows "p \<in> tp_positions t \<longleftrightarrow> position_is_assigned p
    \<and> max 1 (py_int (stability r * of_nat (length (by_timestamp k))))
        \<le> int (groups_with p (by_timestamp k))"
proof -
  note c = build_keys_position_counts [OF assms(1)]
  have "tp_positions t = stable_positions r (position_group_counts k) (group_total k)"
    "group_total k \<noteq> 0"
    using from_observation_cases [of r "position_group_counts k" "group_total k"] assms(2)
    by (auto simp: stable_positions_def)
  then show ?thesis using c stable_positions_dict [of "position_group_counts k" p r] by simp
qed

lemma observed_topology_positions_witness:
  "\<exists>k t. build_keys (\<lambda>s. s) demo_builder demo_frame None demo_times = Inr k
   \<and> from_observation demo_resolver (position_group_counts k) (group_total k) = Some t
   \<and> (LogicalPosition ''1'' ''2'' \<in> tp_positions t \<longleftrightarrow> 1 \<le> groups_with (LogicalPosition ''1'' ''2'') (by_timestamp k))"
proof -
  let ?b = "build_keys (\<lambda>s. s) demo_builder demo_frame None demo_times"
  have "case ?b of Inl _ \<Rightarrow> False
    | Inr k \<Rightarrow> from_observation demo_resolver (position_group_counts k) (group_total k) \<noteq> None \<and> length (by_timestamp k) = 1"
    by code_simp
  then obtain k t where k: "?b = Inr k"
    "from_observation demo_resolver (position_group_counts k) (group_total k) = Some t" "length (by_timestamp k) = 1"
    by (cases ?b) auto
  have "max 1 (py_int (stability demo_resolver * of_nat 1)) = 1" by code_simp
  then show ?thesis
    using observed_topology_positions [OF k(1,2), of "LogicalPosition ''1'' ''2''"] k by (auto simp: position_is_assigned_def)
qed

lemma from_observation_mem:
  "(\<exists>t. from_observation r counts groups = Some t \<and> p \<in> tp_positions t)
    \<longleftrightarrow> p \<in> stable_positions r counts groups"
  using from_observation_cases [of r counts groups]
  by (elim disjE conjE exE) simp_all

lemma half_floor: "max 1 (py_int (1 / 2 * of_nat n)) \<le> 1 \<longleftrightarrow> n \<le> 3"
  by (auto simp: py_int_floor floor_le_iff)

text \<open>
  with the default threshold of one half, a position seen in a single timestamp group becomes
  part of the observed topology exactly when the file has one, two or three groups. From four
  groups on, a single anomalous timestamp cannot invent a position.
\<close>

lemma single_sighting:
  assumes "distinct (dict_keys counts)" and "position_is_assigned p" and "dict_get counts p 0 = 1"
  shows "(\<exists>t. from_observation (r\<lparr>stability := 1 / 2\<rparr>) counts groups = Some t \<and> p \<in> tp_positions t)
    \<longleftrightarrow> 1 \<le> groups \<and> groups \<le> 3"
proof -
  have "(\<exists>t. from_observation (r\<lparr>stability := 1 / 2\<rparr>) counts groups = Some t \<and> p \<in> tp_positions t)
    \<longleftrightarrow> p \<in> stable_positions (r\<lparr>stability := 1 / 2\<rparr>) counts groups"
    by (rule from_observation_mem)
  also have "\<dots> \<longleftrightarrow> groups \<noteq> 0 \<and> groups \<le> 3"
    using half_floor [of groups] assms by (simp add: stable_positions_dict)
  finally show ?thesis by (simp add: Suc_le_eq)
qed

lemma single_sighting_witness:
  "\<exists>t. from_observation (demo_resolver\<lparr>stability := 1 / 2\<rparr>)
         [(LogicalPosition ''1'' ''1'', 3), (LogicalPosition ''9'' ''1'', 1)] 3 = Some t
       \<and> LogicalPosition ''9'' ''1'' \<in> tp_positions t"
proof -
  have "distinct (dict_keys [(LogicalPosition ''1'' ''1'', 3::nat), (LogicalPosition ''9'' ''1'', 1)])"
    and "position_is_assigned (LogicalPosition ''9'' ''1'')"
    and "dict_get [(LogicalPosition ''1'' ''1'', 3::nat), (LogicalPosition ''9'' ''1'', 1)] (LogicalPosition ''9'' ''1'') 0 = 1"
    by code_simp+
  from single_sighting [OF this, of demo_resolver 3] show ?thesis by simp
qed
end
