(* ===== verification/FrameBuilder.thy ===== *)
theory FrameBuilder
  imports LogicalKeys
begin

text \<open>
  Timestamp groups and frame candidates, \<open>pipelines/frame_reconstruction/timestamp_groups.py\<close>
  and \<open>frame_builder.py\<close>: rows of one charger and one event time are grouped, and a group is
  sliced by occurrence, the \<open>k\<close>-th frame taking the \<open>k\<close>-th row of every logical position.
  Generators and tuples are lists; the f-strings of \<open>note\<close> are the values they print.
\<close>

section \<open>Timestamp groups\<close>

record group_occupancy =
  oc_raw_row_count :: nat
  oc_expected_position_count :: nat
  oc_observed_position_count :: nat
  oc_missing_positions :: "logical_position list"
  oc_unexpected_positions :: "logical_position list"
  oc_occurrences :: "(logical_position, nat) pydict"
  oc_max_occurrence :: nat
  oc_min_occurrence :: nat
  is_even :: bool

definition implied_frame_count :: "group_occupancy \<Rightarrow> nat" where
  "implied_frame_count oc = max (oc_max_occurrence oc) 1"

definition looks_like_clean_multiframe :: "group_occupancy \<Rightarrow> bool" where
  "looks_like_clean_multiframe oc =
     (is_even oc \<and> oc_max_occurrence oc > 1 \<and> oc_missing_positions oc = [])"

definition build_timestamp_groups ::
    "(group_key, raw_row_ref list) pydict \<Rightarrow> (group_key, raw_row_ref list) pydict
     \<Rightarrow> logical_position set \<Rightarrow> timestamp_group list" where
  "build_timestamp_groups rows_by unassigned_by positions =
     map (\<lambda>(charger, event_time).
            let rows = dict_get rows_by (charger, event_time) []
            in \<lparr>tg_charger_id = charger, tg_event_time = event_time, tg_rows = rows,
                expected_positions = positions,
                occurrences = tally (map position rows),
                unassigned_rows = dict_get unassigned_by (charger, event_time) []\<rparr>)
       (sort_key (\<lambda>(c, t). (t, c)) (remdups (dict_keys rows_by @ dict_keys unassigned_by)))"

definition describe_occupancy :: "timestamp_group \<Rightarrow> group_occupancy" where
  "describe_occupancy g =
     (let counts = dict_values (occurrences g)
      in \<lparr>oc_raw_row_count = raw_row_count g,
          oc_expected_position_count = card (expected_positions g),
          oc_observed_position_count = card (observed_positions g),
          oc_missing_positions = sorted_list_of_set (missing_positions g),
          oc_unexpected_positions = sorted_list_of_set (unexpected_positions g),
          oc_occurrences = occurrences g,
          oc_max_occurrence = max_default 0 counts,
          oc_min_occurrence = min_default 0 counts,
          is_even = is_evenly_occupied g\<rparr>)"

definition iter_groups_by_charger ::
    "timestamp_group list \<Rightarrow> (string \<times> timestamp_group list) list" where
  "iter_groups_by_charger groups =
     (let by_charger = group_on tg_charger_id groups
      in map (\<lambda>c. (c, sort_key tg_event_time (dict_get by_charger c []))) (sort (dict_keys by_charger)))"

section \<open>Frame candidates\<close>

datatype candidate_note =
    TooManyOccurrences nat nat
  | FragmentOf nat nat
  | UnevenOccurrences

record frame_candidate =
  fc_sequence :: nat
  rows_by_position :: "(logical_position, raw_row_ref) pydict"
  fc_expected :: "logical_position set"
  fc_status :: frame_status
  is_fragment :: bool
  fc_note :: "candidate_note option"

definition fc_rows :: "frame_candidate \<Rightarrow> raw_row_ref list" where
  "fc_rows c = sort_key source_row_number (dict_values (rows_by_position c))"

definition fc_observed :: "frame_candidate \<Rightarrow> logical_position set" where
  "fc_observed c = set (dict_keys (rows_by_position c))"

definition fc_missing :: "frame_candidate \<Rightarrow> logical_position list" where
  "fc_missing c = sorted_list_of_set (fc_expected c - fc_observed c)"

definition fc_unexpected :: "frame_candidate \<Rightarrow> logical_position list" where
  "fc_unexpected c = sorted_list_of_set (fc_observed c - fc_expected c)"

definition classify_status :: "nat \<Rightarrow> nat \<Rightarrow> nat \<Rightarrow> pyfloat \<Rightarrow> frame_status" where
  "classify_status observed expected unexpected below_pct =
     (if unexpected > 0 then MALFORMED
      else if expected \<le> 0 then frame_status.AMBIGUOUS
      else if observed \<ge> expected then frame_status.COMPLETE
      else let share = 100 * of_nat observed / of_nat expected
           in if share < below_pct then frame_status.SEVERELY_INCOMPLETE else frame_status.PARTIAL)"

text \<open>The rows a frame takes from the buckets: row number \<open>sequence\<close> of each that has one.\<close>

definition slice ::
    "(logical_position, raw_row_ref list) pydict \<Rightarrow> nat \<Rightarrow> (logical_position, raw_row_ref) pydict" where
  "slice buckets sequence =
     map (\<lambda>(p, rows). (p, rows ! sequence)) (filter (\<lambda>(p, rows). sequence < length rows) buckets)"

definition candidate_buckets ::
    "raw_row_ref list \<Rightarrow> (logical_position, raw_row_ref list) pydict" where
  "candidate_buckets rows =
     group_on position (sort_key (\<lambda>r. (occurrence_index r, source_row_number r)) rows)"

text \<open>One round of the slicing loop; the state is \<open>previous_size\<close> and the candidates so far.\<close>

definition candidate_step ::
    "timestamp_group \<Rightarrow> group_occupancy \<Rightarrow> pyfloat \<Rightarrow> nat option \<times> frame_candidate list \<Rightarrow> nat
     \<Rightarrow> nat option \<times> frame_candidate list" where
  "candidate_step g oc below_pct state sequence =
     (let (previous_size, candidates) = state;
          rows = slice (candidate_buckets (tg_rows g)) sequence
      in if rows = [] then state
         else let observed = length rows;
                  unexpected = card (set (dict_keys rows) - expected_positions g);
                  fragment = (case previous_size of None \<Rightarrow> False | Some p \<Rightarrow> observed < p);
                  note = (if fragment then Some (FragmentOf observed (the previous_size))
                          else if \<not> is_even oc \<and> sequence = 0 \<and> implied_frame_count oc > 1
                          then Some UnevenOccurrences else None)
              in (if sequence = 0 then Some observed else previous_size,
                  candidates @
                    [\<lparr>fc_sequence = sequence, rows_by_position = rows,
                      fc_expected = expected_positions g,
                      fc_status = classify_status observed (card (expected_positions g)) unexpected
                                    below_pct,
                      is_fragment = fragment, fc_note = note\<rparr>]))"

definition build_frame_candidates ::
    "timestamp_group \<Rightarrow> pyfloat \<Rightarrow> nat \<Rightarrow> frame_candidate list \<times> group_occupancy" where
  "build_frame_candidates g below_pct max_frames =
     (let oc = describe_occupancy g
      in if tg_rows g = [] then ([], oc)
         else let buckets = candidate_buckets (tg_rows g);
                  frame_count = implied_frame_count oc
              in if frame_count > max_frames
                 then ([\<lparr>fc_sequence = 0, rows_by_position = map (\<lambda>(p, rows). (p, rows ! 0)) buckets,
                        fc_expected = expected_positions g, fc_status = frame_status.AMBIGUOUS,
                        is_fragment = False,
                        fc_note = Some (TooManyOccurrences frame_count max_frames)\<rparr>], oc)
                 else (snd (foldl (candidate_step g oc below_pct) (None, []) [0..<frame_count]), oc))"

definition total_rows_assigned :: "frame_candidate list \<Rightarrow> nat" where
  "total_rows_assigned candidates = sum_list (map (\<lambda>c. length (rows_by_position c)) candidates)"

section \<open>Facts about slices\<close>

lemma slice_values:
  "dict_values (slice buckets k) =
     map (\<lambda>xs. xs ! k) (filter (\<lambda>xs. k < length xs) (dict_values buckets))"
  by (induction buckets) (auto simp: slice_def)

lemma slice_mem: "(p, r) \<in> set (slice buckets k) \<longleftrightarrow>
    (\<exists>rows. (p, rows) \<in> set buckets \<and> k < length rows \<and> r = rows ! k)"
  by (auto simp: slice_def)

lemma slice_keys:
  "set (dict_keys (slice buckets k)) = {p. \<exists>rows. (p, rows) \<in> set buckets \<and> k < length rows}"
  by (force simp: slice_def)

lemma slice_distinct: "distinct (dict_keys buckets) \<Longrightarrow> distinct (dict_keys (slice buckets k))"
  unfolding slice_def by (induction buckets) (auto simp: rev_image_eqI)

section \<open>Buckets of well-formed rows\<close>

lemma rows_wf_bucket:
  "rows_wf rs \<Longrightarrow> map occurrence_index (filter (\<lambda>r. position r = p) rs)
     = [0..<length (filter (\<lambda>r. position r = p) rs)]"
  by (induction rs rule: rev_induct) (auto simp: rows_wf_snoc earlier_same_def)

lemma rows_wf_sorted: "rows_wf rs \<Longrightarrow> sorted (map source_row_number rs)"
  by (simp add: rows_wf_def strict_sorted_imp_sorted)

lemma bucket_rows:
  assumes "rows_wf rs"
  shows "dict_get (candidate_buckets rs) p [] = filter (\<lambda>r. position r = p) rs"
proof -
  let ?b = "filter (\<lambda>r. position r = p) rs" and ?f = "\<lambda>r. (occurrence_index r, source_row_number r)"
  have "sorted (map occurrence_index ?b)" using rows_wf_bucket [OF assms, of p] by simp
  moreover have "sorted (map source_row_number ?b)"
    using rows_wf_sorted [OF assms] by (rule sorted_filter)
  ultimately have "sorted (map ?f ?b)"
    by (simp add: sorted_map sorted_wrt_iff_nth_less less_eq_prod_def order_le_less)
  then have "sort_key ?f ?b = ?b" by (simp add: sort_key_id_if_sorted)
  then show ?thesis by (simp add: candidate_buckets_def dict_simps filter_sort)
qed

lemma bucket_entry:
  assumes "rows_wf rs"
  shows "(p, b) \<in> set (candidate_buckets rs) \<longleftrightarrow> b = filter (\<lambda>r. position r = p) rs \<and> b \<noteq> []"
proof
  assume m: "(p, b) \<in> set (candidate_buckets rs)"
  have "distinct (dict_keys (candidate_buckets rs))" by (simp add: candidate_buckets_def dict_simps)
  then have "b = filter (\<lambda>r. position r = p) rs"
    using dict_get_mem [OF _ m, of "[]"] bucket_rows [OF assms, of p] by simp
  moreover have "p \<in> position ` set rs"
    using m group_on_keys [of position "sort_key (\<lambda>r. (occurrence_index r, source_row_number r)) rs"]
    by (force simp: candidate_buckets_def)
  ultimately show "b = filter (\<lambda>r. position r = p) rs \<and> b \<noteq> []" by (auto simp: filter_empty_conv)
next
  assume b: "b = filter (\<lambda>r. position r = p) rs \<and> b \<noteq> []"
  then have "p \<in> position ` set rs" by (auto simp: filter_empty_conv)
  then have "p \<in> set (dict_keys (candidate_buckets rs))"
    unfolding candidate_buckets_def group_on_keys by simp
  then show "(p, b) \<in> set (candidate_buckets rs)"
    using mem_dict_get [of p "candidate_buckets rs" "[]"] bucket_rows [OF assms] b by simp
qed

definition candidate_at :: "timestamp_group \<Rightarrow> group_occupancy \<Rightarrow> pyfloat \<Rightarrow> nat \<Rightarrow> frame_candidate" where
  "candidate_at g oc below_pct k =
     (let rows = slice (candidate_buckets (tg_rows g)) k; observed = length rows;
          first = length (slice (candidate_buckets (tg_rows g)) 0);
          fragment = (0 < k \<and> observed < first)
      in \<lparr>fc_sequence = k, rows_by_position = rows, fc_expected = expected_positions g,
          fc_status = classify_status observed (card (expected_positions g))
                        (card (set (dict_keys rows) - expected_positions g)) below_pct,
          is_fragment = fragment,
          fc_note = (if fragment then Some (FragmentOf observed first)
                     else if \<not> is_even oc \<and> k = 0 \<and> implied_frame_count oc > 1
                     then Some UnevenOccurrences else None)\<rparr>)"

lemma candidate_loop:
  assumes "\<forall>k<n. slice (candidate_buckets (tg_rows g)) k \<noteq> []"
  shows "foldl (candidate_step g oc below_pct) (None, []) [0..<n] =
    (if n = 0 then None else Some (length (slice (candidate_buckets (tg_rows g)) 0)),
     map (candidate_at g oc below_pct) [0..<n])"
  using assms
proof (induction n)
  case (Suc n)
  then have "slice (candidate_buckets (tg_rows g)) n \<noteq> []" by simp
  then show ?case using Suc
    by (cases n) (simp_all add: candidate_step_def candidate_at_def Let_def)
qed simp

text \<open>A group as \<open>build_timestamp_groups\<close> makes it from the key builder's rows.\<close>

definition group_wf :: "timestamp_group \<Rightarrow> bool" where
  "group_wf g = (rows_wf (tg_rows g) \<and> occurrences g = tally (map position (tg_rows g)))"

lemma count_bucket: "count_list (map position rs) p = length (filter (\<lambda>r. position r = p) rs)"
  by (induction rs) auto

lemma bucket_le_max:
  assumes "group_wf g" and "p \<in> position ` set (tg_rows g)"
  shows "length (filter (\<lambda>r. position r = p) (tg_rows g)) \<le> max_occurrence g"
proof -
  have "length (filter (\<lambda>r. position r = p) (tg_rows g)) \<in> set (dict_values (occurrences g))"
    using assms by (auto simp: group_wf_def tally_values simp flip: count_bucket simp del: set_map)
      (auto simp: image_iff)
  then show ?thesis unfolding max_occurrence_def by (rule max_default_ge)
qed

lemma max_bucket:
  assumes "group_wf g" and "tg_rows g \<noteq> []"
  obtains p where "p \<in> position ` set (tg_rows g)"
    "length (filter (\<lambda>r. position r = p) (tg_rows g)) = max_occurrence g"
proof -
  have "dict_values (occurrences g) \<noteq> []"
    using assms tally_keys [of "map position (tg_rows g)"] by (auto simp: group_wf_def)
  then have "max_occurrence g \<in> set (dict_values (occurrences g))"
    unfolding max_occurrence_def by (rule max_default_in)
  then obtain p where p: "p \<in> set (map position (tg_rows g))"
    and n: "max_occurrence g = count_list (map position (tg_rows g)) p"
    using assms(1) unfolding group_wf_def by (auto simp only: tally_values)
  have "p \<in> position ` set (tg_rows g)" using p by simp
  then show ?thesis using n unfolding count_bucket by (intro that) simp_all
qed

lemma slice_nonempty:
  assumes "group_wf g" and "tg_rows g \<noteq> []"
  shows "slice (candidate_buckets (tg_rows g)) k \<noteq> [] \<longleftrightarrow> k < max_occurrence g"
proof -
  have wf: "rows_wf (tg_rows g)" using assms(1) by (simp add: group_wf_def)
  obtain p where p: "p \<in> position ` set (tg_rows g)"
    "length (filter (\<lambda>r. position r = p) (tg_rows g)) = max_occurrence g"
    using max_bucket [OF assms] .
  show ?thesis
  proof
    assume "slice (candidate_buckets (tg_rows g)) k \<noteq> []"
    then obtain q b where "(q, b) \<in> set (candidate_buckets (tg_rows g))" "k < length b"
      by (force simp: slice_def filter_empty_conv)
    then show "k < max_occurrence g"
      using bucket_le_max [OF assms(1), of q] bucket_entry [OF wf, of q b]
      by (auto simp: filter_empty_conv)
  next
    assume k: "k < max_occurrence g"
    then have "(p, filter (\<lambda>r. position r = p) (tg_rows g)) \<in> set (candidate_buckets (tg_rows g))"
      using bucket_entry [OF wf, of p] p by (auto simp: filter_empty_conv)
    then show "slice (candidate_buckets (tg_rows g)) k \<noteq> []"
      using k p(2) by (force simp: slice_def filter_empty_conv)
  qed
qed

lemma max_occurrence_pos:
  assumes "group_wf g" and "tg_rows g \<noteq> []"
  shows "0 < max_occurrence g"
proof -
  obtain p where "p \<in> position ` set (tg_rows g)"
    and "length (filter (\<lambda>r. position r = p) (tg_rows g)) = max_occurrence g"
    using max_bucket [OF assms] .
  then show ?thesis
    using length_pos_if_in_set [of _ "filter (\<lambda>r. position r = p) (tg_rows g)"] by auto
qed

lemma frame_count_eq:
  "group_wf g \<Longrightarrow> tg_rows g \<noteq> [] \<Longrightarrow> implied_frame_count (describe_occupancy g) = max_occurrence g"
  using max_occurrence_pos [of g]
  by (simp add: implied_frame_count_def describe_occupancy_def Let_def max_occurrence_def)

text \<open>The candidates of a group, in closed form.\<close>

lemma candidates_eq:
  assumes "group_wf g" and "tg_rows g \<noteq> []" and "max_occurrence g \<le> max_frames"
  shows "fst (build_frame_candidates g below_pct max_frames) =
    map (candidate_at g (describe_occupancy g) below_pct) [0..<max_occurrence g]"
proof -
  have "\<forall>k<max_occurrence g. slice (candidate_buckets (tg_rows g)) k \<noteq> []"
    using slice_nonempty [OF assms(1,2)] by blast
  from candidate_loop [OF this] show ?thesis
    using assms frame_count_eq [OF assms(1,2)] by (simp add: build_frame_candidates_def Let_def)
qed


lemma candidate_nth:
  assumes "group_wf g" and "max_occurrence g \<le> max_frames"
    and "cs = fst (build_frame_candidates g below_pct max_frames)" and "i < length cs"
  shows "tg_rows g \<noteq> [] \<and> i < max_occurrence g
    \<and> cs ! i = candidate_at g (describe_occupancy g) below_pct i"
proof -
  have ne: "tg_rows g \<noteq> []" using assms(3,4) by (auto simp: build_frame_candidates_def)
  show ?thesis using candidates_eq [OF assms(1) ne assms(2), of below_pct] assms(3,4) ne by simp
qed

lemma candidate_at_simps [simp]:
  "fc_sequence (candidate_at g oc b k) = k"
  "rows_by_position (candidate_at g oc b k) = slice (candidate_buckets (tg_rows g)) k"
  "fc_expected (candidate_at g oc b k) = expected_positions g"
  by (simp_all add: candidate_at_def Let_def)

lemma slice_entry:
  assumes "rows_wf rs"
  shows "(p, r) \<in> set (slice (candidate_buckets rs) k) \<longleftrightarrow>
    (k < length (filter (\<lambda>x. position x = p) rs) \<and> r = filter (\<lambda>x. position x = p) rs ! k)"
  using bucket_entry [OF assms] by (auto simp: slice_mem)

lemma slice_entry_row:
  assumes "rows_wf rs" and "(p, r) \<in> set (slice (candidate_buckets rs) k)"
  shows "r \<in> set rs \<and> position r = p \<and> occurrence_index r = k"
proof -
  let ?b = "filter (\<lambda>x. position x = p) rs"
  have k: "k < length ?b" "r = ?b ! k" using assms slice_entry by blast+
  have "r \<in> set ?b" unfolding k(2) using k(1) by (rule nth_mem)
  then have "r \<in> set rs \<and> position r = p" by simp
  moreover have "map occurrence_index ?b ! k = k" using rows_wf_bucket [OF assms(1), of p] k by simp
  ultimately show ?thesis using k by simp
qed

lemma slice_antitone:
  assumes "rows_wf rs" and "i \<le> k"
  shows "set (dict_keys (slice (candidate_buckets rs) k)) \<subseteq> set (dict_keys (slice (candidate_buckets rs) i))"
  using assms(2) by (auto simp: slice_keys simp del: set_map intro: le_less_trans)

lemma frames_conserve_rows:
  assumes "group_wf g" and "max_occurrence g \<le> max_frames"
  shows "mset (concat (map (\<lambda>c. dict_values (rows_by_position c))
             (fst (build_frame_candidates g below_pct max_frames)))) = mset (tg_rows g)"
proof (cases "tg_rows g = []")
  case True
  then show ?thesis by (simp add: build_frame_candidates_def)
next
  case False
  let ?bs = "candidate_buckets (tg_rows g)"
  have wf: "rows_wf (tg_rows g)" using assms(1) by (simp add: group_wf_def)
  have "\<forall>xs\<in>set (dict_values ?bs). length xs \<le> max_occurrence g"
  proof
    fix xs assume "xs \<in> set (dict_values ?bs)"
    then obtain p where "xs = filter (\<lambda>r. position r = p) (tg_rows g)" "xs \<noteq> []"
      using bucket_entry [OF wf] by auto
    then show "length xs \<le> max_occurrence g"
      using bucket_le_max [OF assms(1), of p] by (auto simp: filter_empty_conv)
  qed
  from mset_columns [OF this] have
    "mset (concat (map (\<lambda>k. dict_values (slice ?bs k)) [0..<max_occurrence g])) =
     mset (concat (dict_values ?bs))"
    by (simp add: slice_values)
  also have "\<dots> = mset (tg_rows g)"
    unfolding candidate_buckets_def by (simp add: group_on_values)
  finally show ?thesis
    using candidates_eq [OF assms(1) False assms(2)] by (simp add: comp_def)
qed

lemma frames_nested_shape:
  assumes "group_wf g" and "max_occurrence g \<le> max_frames"
    and "cs = fst (build_frame_candidates g below_pct max_frames)" and "i < length cs"
  shows "fc_sequence (cs ! i) = i \<and> rows_by_position (cs ! i) \<noteq> []
    \<and> distinct (dict_keys (rows_by_position (cs ! i)))
    \<and> (\<forall>(p, r)\<in>set (rows_by_position (cs ! i)).
          r \<in> set (tg_rows g) \<and> position r = p \<and> occurrence_index r = i)
    \<and> (\<forall>k\<le>i. fc_observed (cs ! i) \<subseteq> fc_observed (cs ! k))"
proof -
  have wf: "rows_wf (tg_rows g)" using assms(1) by (simp add: group_wf_def)
  note n = candidate_nth [OF assms(1-3)]
  have i: "tg_rows g \<noteq> []" "i < max_occurrence g" using n [OF assms(4)] by blast+
  have d: "distinct (dict_keys (candidate_buckets (tg_rows g)))"
    by (simp add: candidate_buckets_def dict_simps)
  have "fc_observed (cs ! i) \<subseteq> fc_observed (cs ! k)" if "k \<le> i" for k
    using n [of i] n [of k] assms(4) that slice_antitone [OF wf that] by (simp add: fc_observed_def)
  then show ?thesis
    using n [OF assms(4)] i slice_nonempty [OF assms(1)] slice_distinct [OF d] slice_entry_row [OF wf]
    by auto
qed

lemma classify_complete:
  assumes "finite observed"
  shows "classify_status (card observed) (card expected) (card (observed - expected)) b
      = frame_status.COMPLETE \<longleftrightarrow> observed = expected \<and> expected \<noteq> {}"
proof -
  have "card expected \<le> card observed \<Longrightarrow> card expected \<noteq> 0 \<Longrightarrow> observed \<subseteq> expected \<Longrightarrow> observed = expected"
    by (metis card.infinite card_seteq)
  moreover have "card (observed - expected) = 0 \<longleftrightarrow> observed \<subseteq> expected" using assms by auto
  ultimately show ?thesis using assms by (auto simp: classify_status_def Let_def)
qed

section \<open>Groups from the key builder's bins\<close>

lemma build_groups_wf:
  assumes "\<forall>(k, rs)\<in>set rows_by. rows_wf rs" and "g \<in> set (build_timestamp_groups rows_by un ps)"
  shows "group_wf g \<and> expected_positions g = ps"
proof -
  have "rows_wf (dict_get rows_by k [])" for k
    using assms(1) map_of_SomeD [of rows_by k] by (cases "map_of rows_by k") (auto simp: dict_get_def)
  then show ?thesis using assms(2) by (auto simp: build_timestamp_groups_def group_wf_def Let_def)
qed

lemma build_groups_rows:
  assumes "distinct (dict_keys rows_by)" and "distinct (dict_keys un)"
  shows "mset (concat (map tg_rows (build_timestamp_groups rows_by un ps))) = mset (concat (dict_values rows_by))
    \<and> mset (concat (map unassigned_rows (build_timestamp_groups rows_by un ps))) = mset (concat (dict_values un))"
proof -
  let ?ks = "sort_key (\<lambda>(c, t). (t, c)) (remdups (dict_keys rows_by @ dict_keys un))"
  have m: "map tg_rows (build_timestamp_groups rows_by un ps) = map (\<lambda>k. dict_get rows_by k []) ?ks"
    "map unassigned_rows (build_timestamp_groups rows_by un ps) = map (\<lambda>k. dict_get un k []) ?ks"
    by (auto simp: build_timestamp_groups_def Let_def)
  show ?thesis unfolding m using keyed_values [OF assms(1), of ?ks] keyed_values [OF assms(2), of ?ks] by simp
qed

lemma build_groups_order:
  "sorted_wrt (<) (map (\<lambda>g. (tg_event_time g, tg_charger_id g)) (build_timestamp_groups rows_by un ps))"
proof -
  let ?f = "\<lambda>(c::string, t::datetime). (t, c)"
  let ?ks = "sort_key ?f (remdups (dict_keys rows_by @ dict_keys un))"
  have "map (\<lambda>g. (tg_event_time g, tg_charger_id g)) (build_timestamp_groups rows_by un ps) = map ?f ?ks"
    by (auto simp: build_timestamp_groups_def Let_def)
  moreover have "distinct (map ?f ?ks)" by (simp add: distinct_map) (auto intro!: inj_onI)
  ultimately show ?thesis by (simp add: strict_sorted_iff)
qed

section \<open>What the candidates are\<close>

text \<open>A group of two positions, seen four times and twice, for the witnesses.\<close>

definition demo_row :: "nat \<Rightarrow> string \<Rightarrow> nat \<Rightarrow> string \<Rightarrow> raw_row_ref" where
  "demo_row n smr occ fp =
     \<lparr>telemetry_file_id = None, source_row_number = n, position = LogicalPosition ''1'' smr,
      occurrence_index = occ, row_fingerprint = fp, unassigned = False\<rparr>"

definition demo_group :: timestamp_group where
  "demo_group =
     (let rows = [demo_row 0 ''1'' 0 ''a'', demo_row 1 ''2'' 0 ''b'', demo_row 2 ''1'' 1 ''a'',
                  demo_row 3 ''2'' 1 ''b'', demo_row 4 ''1'' 2 ''a'', demo_row 5 ''1'' 3 ''c'']
      in \<lparr>tg_charger_id = ''CH1'', tg_event_time = 0, tg_rows = rows,
          expected_positions = {LogicalPosition ''1'' ''1'', LogicalPosition ''1'' ''2''},
          occurrences = tally (map position rows), unassigned_rows = []\<rparr>)"

lemma demo_group_wf: "group_wf demo_group" "max_occurrence demo_group = 4" "tg_rows demo_group \<noteq> []"
  by code_simp+

text \<open>
  C8: slicing neither drops nor invents nor moves a row. Within the frame limit the rows of all
  frames together are the rows of the group; frame \<open>i\<close> has sequence \<open>i\<close>, is not empty, has at
  most one row per position, each at its own position and with occurrence index \<open>i\<close>, and
  observes no position that an earlier frame does not.
\<close>

lemma frame_slices:
  assumes "group_wf g" and "max_occurrence g \<le> max_frames"
    and "cs = fst (build_frame_candidates g below_pct max_frames)"
  shows "mset (concat (map (\<lambda>c. dict_values (rows_by_position c)) cs)) = mset (tg_rows g)
    \<and> (\<forall>i<length cs. fc_sequence (cs ! i) = i \<and> rows_by_position (cs ! i) \<noteq> []
          \<and> distinct (dict_keys (rows_by_position (cs ! i)))
          \<and> (\<forall>(p, r)\<in>set (rows_by_position (cs ! i)).
                r \<in> set (tg_rows g) \<and> position r = p \<and> occurrence_index r = i)
          \<and> (\<forall>k\<le>i. fc_observed (cs ! i) \<subseteq> fc_observed (cs ! k)))"
  using frames_conserve_rows [OF assms(1,2), of below_pct] frames_nested_shape [OF assms] assms(3)
  by blast

lemma frame_slices_witness:
  "length (fst (build_frame_candidates demo_group 50 64)) = 4
   \<and> mset (concat (map (\<lambda>c. dict_values (rows_by_position c))
        (fst (build_frame_candidates demo_group 50 64)))) = mset (tg_rows demo_group)"
proof -
  have "length (fst (build_frame_candidates demo_group 50 64)) = 4" by code_simp
  then show ?thesis
    using frame_slices [OF demo_group_wf(1), of 64 "fst (build_frame_candidates demo_group 50 64)" 50]
    by (simp add: demo_group_wf)
qed

text \<open>
  what a frame's status means, for a group within the frame limit. COMPLETE says that exactly
  the expected positions were observed, MALFORMED that some observed position is not expected,
  whatever else is missing; AMBIGUOUS is never given here. So a charger whose topology is
  unresolved, with no expected position, has MALFORMED frames only.
\<close>

lemma frames_status:
  assumes "group_wf g" and "max_occurrence g \<le> max_frames"
    and "c \<in> set (fst (build_frame_candidates g below_pct max_frames))"
  shows "(fc_status c = frame_status.COMPLETE \<longleftrightarrow>
            fc_observed c = expected_positions g \<and> expected_positions g \<noteq> {})
    \<and> (fc_status c = MALFORMED \<longleftrightarrow> \<not> fc_observed c \<subseteq> expected_positions g)
    \<and> (finite (expected_positions g) \<longrightarrow> fc_status c \<noteq> frame_status.AMBIGUOUS)"
proof -
  let ?cs = "fst (build_frame_candidates g below_pct max_frames)"
  obtain i where i: "i < length ?cs" "c = ?cs ! i" using assms(3) by (metis in_set_conv_nth)
  note n = candidate_nth [OF assms(1,2) refl i(1)]
  let ?rows = "slice (candidate_buckets (tg_rows g)) i"
  have c: "c = candidate_at g (describe_occupancy g) below_pct i" using n i(2) by simp
  have "distinct (dict_keys ?rows)"
    by (intro slice_distinct) (simp add: candidate_buckets_def dict_simps)
  then have len: "length ?rows = card (fc_observed c)"
    using distinct_card [of "dict_keys ?rows"] by (simp add: c fc_observed_def)
  have ne: "fc_observed c \<noteq> {}" and fin: "finite (fc_observed c)"
    using n slice_nonempty [OF assms(1), of i] by (auto simp: c fc_observed_def)
  have st: "fc_status c = classify_status (card (fc_observed c)) (card (expected_positions g))
      (card (fc_observed c - expected_positions g)) below_pct"
    unfolding len [symmetric] by (simp add: c candidate_at_def Let_def fc_observed_def)
  have z: "card (fc_observed c - expected_positions g) = 0 \<longleftrightarrow> fc_observed c \<subseteq> expected_positions g"
    using fin by auto
  have "fc_status c = MALFORMED \<longleftrightarrow> \<not> fc_observed c \<subseteq> expected_positions g"
    unfolding st using z by (auto simp: classify_status_def Let_def)
  moreover have "finite (expected_positions g) \<Longrightarrow> fc_status c \<noteq> frame_status.AMBIGUOUS"
    unfolding st using z ne by (auto simp: classify_status_def Let_def)
  ultimately show ?thesis
    using classify_complete [OF fin] unfolding st by blast
qed

lemma frames_status_witness:
  "\<exists>c\<in>set (fst (build_frame_candidates demo_group 50 64)).
     fc_observed c = expected_positions demo_group \<and> fc_status c = frame_status.COMPLETE"
proof -
  have "\<exists>c\<in>set (fst (build_frame_candidates demo_group 50 64)).
     fc_observed c = expected_positions demo_group \<and> expected_positions demo_group \<noteq> {}"
    by code_simp
  then show ?thesis using frames_status [OF demo_group_wf(1), of 64 _ 50] by (auto simp: demo_group_wf)
qed


lemma rows_wf_distinct: "rows_wf rs \<Longrightarrow> distinct rs"
  by (metis distinct_map rows_wf_def strict_sorted_iff)

lemma slice_rows:
  assumes "rows_wf rs"
  shows "mset (dict_values (slice (candidate_buckets rs) k)) = mset (filter (\<lambda>r. occurrence_index r = k) rs)"
proof -
  let ?s = "slice (candidate_buckets rs) k"
  have dk: "distinct (dict_keys ?s)"
    by (intro slice_distinct) (simp add: candidate_buckets_def dict_simps)
  have "inj_on snd (set ?s)"
  proof (rule inj_onI)
    fix x y assume "x \<in> set ?s" "y \<in> set ?s" "snd x = snd y"
    then show "x = y"
      using slice_entry_row [OF assms, of "fst x" "snd x" k] slice_entry_row [OF assms, of "fst y" "snd y" k]
      by (metis prod.collapse)
  qed
  then have dv: "distinct (dict_values ?s)"
    using dk by (simp add: distinct_map)
  have "r \<in> set (dict_values ?s)" if r: "r \<in> set rs" "occurrence_index r = k" for r
  proof -
    let ?b = "filter (\<lambda>x. position x = position r) rs"
    have "r \<in> set ?b" using r by simp
    then obtain j where j: "j < length ?b" "?b ! j = r" by (metis in_set_conv_nth)
    then have "map occurrence_index ?b ! j = k" using r(2) by simp
    then have "j = k" using j(1) rows_wf_bucket [OF assms, of "position r"] by simp
    then have "(position r, r) \<in> set ?s" using j slice_entry [OF assms] by auto
    then show ?thesis by force
  qed
  then have "set (dict_values ?s) = set (filter (\<lambda>r. occurrence_index r = k) rs)"
    using slice_entry_row [OF assms] by auto
  then show ?thesis
    using dv rows_wf_distinct [OF assms] by (metis distinct_filter set_eq_iff_mset_eq_distinct)
qed

lemma overflow_single:
  assumes "group_wf g" and "tg_rows g \<noteq> []" and "max_frames < max_occurrence g"
  shows "\<exists>c. fst (build_frame_candidates g below_pct max_frames) = [c]
    \<and> fc_status c = frame_status.AMBIGUOUS
    \<and> mset (dict_values (rows_by_position c)) =
        mset (filter (\<lambda>r. occurrence_index r = 0) (tg_rows g))"
proof -
  have wf: "rows_wf (tg_rows g)" using assms(1) by (simp add: group_wf_def)
  let ?bs = "candidate_buckets (tg_rows g)"
  have "\<forall>(p, rows)\<in>set ?bs. 0 < length rows" using bucket_entry [OF wf] by auto
  then have "filter (\<lambda>(p, rows). 0 < length rows) ?bs = ?bs" by (auto simp: filter_id_conv)
  then have "map (\<lambda>(p, rows). (p, rows ! 0)) ?bs = slice ?bs 0" by (simp add: slice_def)
  then show ?thesis
    using assms frame_count_eq [OF assms(1,2)] slice_rows [OF wf, of 0]
    by (simp add: build_frame_candidates_def Let_def)
qed

text \<open>
  a group beyond the frame limit yields one AMBIGUOUS frame, which holds exactly the rows of
  occurrence zero: every other row of the group is in no frame.
\<close>

lemma overflow_frame:
  assumes "group_wf g" and "tg_rows g \<noteq> []" and "max_frames < max_occurrence g"
  shows "\<exists>c. fst (build_frame_candidates g below_pct max_frames) = [c]
    \<and> fc_status c = frame_status.AMBIGUOUS
    \<and> mset (dict_values (rows_by_position c)) =
        mset (filter (\<lambda>r. occurrence_index r = 0) (tg_rows g))"
  using assms by (rule overflow_single)

lemma overflow_frame_witness:
  "\<exists>c. fst (build_frame_candidates demo_group 50 3) = [c] \<and> fc_status c = frame_status.AMBIGUOUS
     \<and> size (mset (dict_values (rows_by_position c))) = 2"
proof -
  have "size (mset (filter (\<lambda>r. occurrence_index r = 0) (tg_rows demo_group))) = 2" by code_simp
  moreover obtain c where "fst (build_frame_candidates demo_group 50 3) = [c]"
    "fc_status c = frame_status.AMBIGUOUS"
    "mset (dict_values (rows_by_position c)) =
       mset (filter (\<lambda>r. occurrence_index r = 0) (tg_rows demo_group))"
    using overflow_frame [OF demo_group_wf(1,3), of 3 50] by (auto simp: demo_group_wf(2))
  ultimately show ?thesis by (metis (no_types, lifting))
qed

text \<open>
  a frame is flagged as a fragment exactly when it does not observe all positions of the first
  frame of its timestamp; the frame just before it plays no part.
\<close>

lemma fragment_flag:
  assumes "group_wf g" and "max_occurrence g \<le> max_frames"
    and "cs = fst (build_frame_candidates g below_pct max_frames)" and "i < length cs"
  shows "is_fragment (cs ! i) \<longleftrightarrow> fc_observed (cs ! i) \<noteq> fc_observed (cs ! 0)"
proof -
  have wf: "rows_wf (tg_rows g)" using assms(1) by (simp add: group_wf_def)
  have 0: "0 < length cs" using assms(4) by linarith
  let ?s = "\<lambda>k. slice (candidate_buckets (tg_rows g)) k"
  have c: "cs ! k = candidate_at g (describe_occupancy g) below_pct k" if "k < length cs" for k
    using candidate_nth [OF assms(1-3) that] by blast
  have len: "length (?s k) = card (set (dict_keys (?s k)))" for k
    using distinct_card [OF slice_distinct, of "candidate_buckets (tg_rows g)" k]
    by (simp add: candidate_buckets_def dict_simps)
  have sub: "set (dict_keys (?s i)) \<subseteq> set (dict_keys (?s 0))" by (rule slice_antitone [OF wf]) simp
  then have "length (?s i) < length (?s 0) \<longleftrightarrow> set (dict_keys (?s i)) \<noteq> set (dict_keys (?s 0))"
    unfolding len by (metis List.finite_set card_seteq less_irrefl not_le psubset_card_mono psubsetI)
  then show ?thesis
    unfolding c [OF assms(4)] c [OF 0]
    by (cases "i = 0") (simp_all add: candidate_at_def Let_def fc_observed_def)
qed

lemma fragment_flag_witness:
  "let cs = fst (build_frame_candidates demo_group 50 64)
   in is_fragment (cs ! 3) \<and> fc_observed (cs ! 3) = fc_observed (cs ! 2)"
proof -
  let ?cs = "fst (build_frame_candidates demo_group 50 64)"
  have "length ?cs = 4 \<and> fc_observed (?cs ! 3) \<noteq> fc_observed (?cs ! 0)
      \<and> fc_observed (?cs ! 3) = fc_observed (?cs ! 2)"
    by code_simp
  then show ?thesis
    using fragment_flag [OF demo_group_wf(1) _ refl, of 64 3 50] by (auto simp: demo_group_wf Let_def)
qed

end
