(* ===== verification/Replay.thy ===== *)
theory Replay
  imports FrameBuilder
begin

text \<open>
  Replay and collision classification, \<open>pipelines/frame_reconstruction/replay_detector.py\<close>: the
  frames of one event timestamp are walked in sequence order and each gets a duplicate verdict
  by its fingerprint and by comparison with the earliest canonical frame. The digest is a
  parameter, as in the serializer.
\<close>

section \<open>The detector\<close>

datatype frame_note =
    FromCandidate candidate_note
  | RepeatsCanonical nat
  | SharesNoPosition

record classified_frame =
  cf_candidate :: frame_candidate
  cf_fingerprint :: string
  cf_classification :: duplicate_classification
  cf_replay_of :: "nat option"
  cf_issues :: "reconstruction_issue_type list"
  cf_differing :: "logical_position list"
  cf_note :: "frame_note option"

definition cf_is_canonical :: "classified_frame \<Rightarrow> bool" where
  "cf_is_canonical f =
     (cf_classification f \<in> {UNIQUE, duplicate_classification.SAME_TIMESTAMP_DISTINCT_FRAME})"

text \<open>
  A dict comprehension: equal keys overwrite. Its keys are the printed positions, so positions
  that print alike share one entry.
\<close>

definition position_fingerprints :: "frame_candidate \<Rightarrow> (string, string) pydict" where
  "position_fingerprints c =
     foldl (\<lambda>d (p, row). AList.update (position_str p) (row_fingerprint row) d) []
       (rows_by_position c)"

type_synonym payload = "(logical_position, string) pydict"

definition payload_of :: "frame_candidate \<Rightarrow> payload" where
  "payload_of c = map (\<lambda>(p, row). (p, row_fingerprint row)) (rows_by_position c)"

definition compare_payloads :: "payload \<Rightarrow> payload \<Rightarrow> logical_position list \<times> logical_position list" where
  "compare_payloads subject canonical =
     (let shared = set (dict_keys subject) \<inter> set (dict_keys canonical)
      in (sorted_list_of_set {p \<in> shared. dict_get subject p [] = dict_get canonical p []},
          sorted_list_of_set {p \<in> shared. dict_get subject p [] \<noteq> dict_get canonical p []}))"

definition structural_issues :: "frame_candidate \<Rightarrow> reconstruction_issue_type list" where
  "structural_issues c =
     (if fc_unexpected c \<noteq> [] then [FRAME_UNEXPECTED_POSITION] else [])
     @ (if fc_status c = frame_status.AMBIGUOUS then [AMBIGUOUS_FRAME_BOUNDARY]
        else if fc_missing c \<noteq> [] then [FRAME_MISSING_POSITION] else [])"

record replay_state =
  rs_results :: "classified_frame list"
  seen_fingerprints :: "(string, nat) pydict"
  canonical_payloads :: "(nat, payload) pydict"

definition replay_start :: replay_state where
  "replay_start = \<lparr>rs_results = [], seen_fingerprints = [], canonical_payloads = []\<rparr>"

text \<open>
  A verdict appends its result; an accepted frame is also recorded under its fingerprint and its
  sequence number.
\<close>

definition emit :: "classified_frame \<Rightarrow> replay_state \<Rightarrow> replay_state" where
  "emit f s = s\<lparr>rs_results := rs_results s @ [f]\<rparr>"

definition accept :: "string \<Rightarrow> nat \<Rightarrow> payload \<Rightarrow> replay_state \<Rightarrow> replay_state" where
  "accept fp n payload s =
     s\<lparr>seen_fingerprints := AList.update fp n (seen_fingerprints s),
       canonical_payloads := AList.update n payload (canonical_payloads s)\<rparr>"

definition replay_step ::
    "(string \<Rightarrow> string) \<Rightarrow> replay_state \<Rightarrow> frame_candidate \<Rightarrow> replay_state" where
  "replay_step digest s c =
     (let payload = payload_of c;
          fp = frame_fingerprint_of digest (position_fingerprints c);
          issues = structural_issues c;
          note = map_option FromCandidate (fc_note c);
          verdict = (\<lambda>cls replay_of extra differing note.
             \<lparr>cf_candidate = c, cf_fingerprint = fp, cf_classification = cls,
              cf_replay_of = replay_of, cf_issues = issues @ extra, cf_differing = differing,
              cf_note = note\<rparr>)
      in if rs_results s = []
         then emit (verdict UNIQUE None [] [] note) (accept fp (fc_sequence c) payload s)
         else case map_of (seen_fingerprints s) fp of
           Some earlier \<Rightarrow>
             emit (verdict duplicate_classification.FULL_FRAME_REPLAY (Some earlier)
                     [reconstruction_issue_type.FULL_FRAME_REPLAY] [] note) s
         | None \<Rightarrow>
             (let canonical_sequence = min_default 0 (dict_keys (canonical_payloads s));
                  (matching, differing) =
                    compare_payloads payload (dict_get (canonical_payloads s) canonical_sequence [])
              in if differing \<noteq> []
                 then emit (verdict duplicate_classification.SAME_TIMESTAMP_DISTINCT_FRAME None
                              [reconstruction_issue_type.SAME_TIMESTAMP_DISTINCT_FRAME] differing
                              note)
                        (accept fp (fc_sequence c) payload s)
                 else if matching \<noteq> []
                 then emit (verdict duplicate_classification.PARTIAL_FRAME_REPLAY
                              (Some canonical_sequence)
                              [reconstruction_issue_type.PARTIAL_FRAME_REPLAY] []
                              (if note \<noteq> None then note
                               else Some (RepeatsCanonical (length matching)))) s
                 else emit (verdict duplicate_classification.AMBIGUOUS None
                              [AMBIGUOUS_FRAME_BOUNDARY] [] (Some SharesNoPosition))
                        (accept fp (fc_sequence c) payload s)))"

definition classify_group :: "(string \<Rightarrow> string) \<Rightarrow> frame_candidate list \<Rightarrow> classified_frame list" where
  "classify_group digest candidates = rs_results (foldl (replay_step digest) replay_start candidates)"

section \<open>What the verdicts mean\<close>

text \<open>
  The specification speaks of payloads only. A frame after the first either contradicts the first
  frame at a position both have, or it does not. If it does, it is a replay when an earlier frame
  carried the same payload, and a distinct observation otherwise. If it does not, it repeats the
  first frame, fully or in part.
\<close>

definition contradicts :: "frame_candidate \<Rightarrow> frame_candidate \<Rightarrow> bool" where
  "contradicts c d =
     (\<exists>(p, f)\<in>set (payload_of c). \<exists>(q, g)\<in>set (payload_of d). p = q \<and> f \<noteq> g)"

definition same_payload :: "frame_candidate \<Rightarrow> frame_candidate \<Rightarrow> bool" where
  "same_payload c d = (set (payload_of c) = set (payload_of d))"

definition spec_class :: "frame_candidate list \<Rightarrow> nat \<Rightarrow> duplicate_classification" where
  "spec_class cs i =
     (if i = 0 then UNIQUE
      else if contradicts (cs ! i) (cs ! 0)
      then (if \<exists>j\<in>set [0..<i]. same_payload (cs ! j) (cs ! i)
            then duplicate_classification.FULL_FRAME_REPLAY
            else duplicate_classification.SAME_TIMESTAMP_DISTINCT_FRAME)
      else if same_payload (cs ! 0) (cs ! i) then duplicate_classification.FULL_FRAME_REPLAY
      else duplicate_classification.PARTIAL_FRAME_REPLAY)"

text \<open>
  The candidates the frame builder hands over, with labels whose printed forms are unambiguous.
\<close>

definition clean_candidate :: "frame_candidate \<Rightarrow> bool" where
  "clean_candidate c =
     (\<forall>(p, row)\<in>set (rows_by_position c).
        CHR ''/'' \<notin> set (connector_id p) \<and> CHR 0x1E \<notin> set (position_str p)
        \<and> CHR 0x1E \<notin> set (row_fingerprint row) \<and> CHR ''='' \<notin> set (row_fingerprint row))"

definition candidates_ok :: "frame_candidate list \<Rightarrow> bool" where
  "candidates_ok cs =
     (\<forall>i<length cs. fc_sequence (cs ! i) = i \<and> rows_by_position (cs ! i) \<noteq> []
        \<and> distinct (dict_keys (rows_by_position (cs ! i)))
        \<and> fc_observed (cs ! i) \<subseteq> fc_observed (cs ! 0) \<and> clean_candidate (cs ! i))"

section \<open>Payloads, fingerprints and comparisons\<close>

lemma payload_keys: "dict_keys (payload_of c) = dict_keys (rows_by_position c)"
  by (induction "rows_by_position c") (auto simp: payload_of_def comp_def split_beta)

lemma position_fingerprints_eq:
  assumes "inj_on position_str (set (dict_keys rows))" and "distinct (dict_keys rows)"
  shows "foldl (\<lambda>d (p, row). AList.update (position_str p) (row_fingerprint row) d) [] rows =
    map (\<lambda>(p, row). (position_str p, row_fingerprint row)) rows"
  using assms
proof (induction rows rule: rev_induct)
  case (snoc x rows)
  obtain p row where x: "x = (p, row)" by (cases x)
  have new: "position_str p \<notin> set (map fst (map (\<lambda>(p, row). (position_str p, row_fingerprint row)) rows))"
    using snoc.prems x by (auto simp: inj_on_def)
  have "AList.update k v d = d @ [(k, v)]" if "k \<notin> set (map fst d)" for k v and d :: "(string \<times> string) list"
    using that by (induction d) auto
  from this [OF new] show ?case using snoc x by (auto simp: inj_on_def)
qed simp

lemma clean_labels:
  assumes "clean_candidate c" and "distinct (dict_keys (rows_by_position c))"
  shows "position_fingerprints c = map (\<lambda>(p, f). (position_str p, f)) (payload_of c)
    \<and> clean_items (position_fingerprints c)"
proof -
  have "CHR ''/'' \<notin> set (connector_id p)" if "p \<in> set (dict_keys (rows_by_position c))" for p
    using assms(1) that by (auto simp: clean_candidate_def)
  then have "inj_on position_str (set (dict_keys (rows_by_position c)))"
    by (intro inj_onI) (rule position_str_inj)
  from position_fingerprints_eq [OF this assms(2)] show ?thesis
    using assms(1) by (auto simp: position_fingerprints_def payload_of_def clean_items_def clean_candidate_def comp_def split_beta)
qed

lemma fingerprint_payload:
  assumes "inj digest" and "clean_candidate c" "distinct (dict_keys (rows_by_position c))"
    and "clean_candidate d" "distinct (dict_keys (rows_by_position d))"
  shows "frame_fingerprint_of digest (position_fingerprints c) =
      frame_fingerprint_of digest (position_fingerprints d) \<longleftrightarrow> same_payload c d"
proof -
  note c = clean_labels [OF assms(2,3)] and d = clean_labels [OF assms(4,5)]
  let ?s = "\<lambda>(p, f). (position_str p, f)"
  have inj: "inj_on ?s (set (payload_of c) \<union> set (payload_of d))"
  proof (rule inj_onI)
    fix x y assume x: "x \<in> set (payload_of c) \<union> set (payload_of d)"
      and y: "y \<in> set (payload_of c) \<union> set (payload_of d)" and eq: "?s x = ?s y"
    have "CHR ''/'' \<notin> set (connector_id (fst x))" "CHR ''/'' \<notin> set (connector_id (fst y))"
      using x y assms(2,4) by (auto simp: payload_of_def clean_candidate_def)
    then show "x = y" using eq position_str_inj [of "fst x" "fst y"] by (cases x; cases y) simp
  qed
  have "distinct (payload_of c)" "distinct (payload_of d)"
    using assms(3,5) payload_keys by (metis distinct_map)+
  show ?thesis
  proof
    assume "frame_fingerprint_of digest (position_fingerprints c) = frame_fingerprint_of digest (position_fingerprints d)"
    then have "frame_payload (position_fingerprints c) = frame_payload (position_fingerprints d)"
      using assms(1) by (simp add: frame_fingerprint_of_def inj_eq)
    then have "?s ` set (payload_of c) = ?s ` set (payload_of d)"
      using frame_payload_inj c d by (metis list.set_map)
    then show "same_payload c d" using inj by (simp add: same_payload_def inj_on_Un_image_eq_iff)
  next
    assume "same_payload c d"
    then have "mset (payload_of c) = mset (payload_of d)"
      using \<open>distinct (payload_of c)\<close> \<open>distinct (payload_of d)\<close>
      by (simp add: same_payload_def set_eq_iff_mset_eq_distinct)
    then show "frame_fingerprint_of digest (position_fingerprints c) = frame_fingerprint_of digest (position_fingerprints d)"
      using c d by (intro frame_fingerprint_perm) simp
  qed
qed

lemma compare_differing:
  assumes "distinct (dict_keys (rows_by_position c))" "distinct (dict_keys (rows_by_position d))"
  shows "snd (compare_payloads (payload_of c) (payload_of d)) \<noteq> [] \<longleftrightarrow> contradicts c d"
proof -
  let ?P = "payload_of c" and ?Q = "payload_of d"
  let ?D = "{p \<in> set (dict_keys ?P) \<inter> set (dict_keys ?Q). dict_get ?P p [] \<noteq> dict_get ?Q p []}"
  have dist: "distinct (dict_keys ?P)" "distinct (dict_keys ?Q)" using assms by (simp_all add: payload_keys)
  have "?D \<noteq> {} \<longleftrightarrow> contradicts c d"
  proof
    assume "?D \<noteq> {}"
    then obtain p where "p \<in> set (dict_keys ?P)" "p \<in> set (dict_keys ?Q)" "dict_get ?P p [] \<noteq> dict_get ?Q p []"
      by blast
    then show "contradicts c d" using mem_dict_get [of p ?P "[]"] mem_dict_get [of p ?Q "[]"]
      unfolding contradicts_def by blast
  next
    assume "contradicts c d"
    then obtain p f g where "(p, f) \<in> set ?P" "(p, g) \<in> set ?Q" "f \<noteq> g" by (auto simp: contradicts_def)
    then show "?D \<noteq> {}" using dict_get_mem [OF dist(1), of p f "[]"] dict_get_mem [OF dist(2), of p g "[]"] by force
  qed
  moreover have "finite ?D" by simp
  ultimately show ?thesis by (simp add: compare_payloads_def Let_def sorted_list_of_set_eq_Nil_iff)
qed

lemma compare_matching:
  assumes "distinct (dict_keys (rows_by_position c))" "distinct (dict_keys (rows_by_position d))"
    and "rows_by_position c \<noteq> []" and "fc_observed c \<subseteq> fc_observed d" and "\<not> contradicts c d"
  shows "fst (compare_payloads (payload_of c) (payload_of d)) \<noteq> []"
proof -
  let ?P = "payload_of c" and ?Q = "payload_of d"
  let ?M = "{p \<in> set (dict_keys ?P) \<inter> set (dict_keys ?Q). dict_get ?P p [] = dict_get ?Q p []}"
  obtain p where p: "p \<in> set (dict_keys ?P)" using assms(3) payload_keys [of c] by (cases "rows_by_position c") auto
  then have q: "p \<in> set (dict_keys ?Q)" using assms(4) by (auto simp: payload_keys fc_observed_def simp del: set_map)
  have "p \<in> ?M" using assms(5) mem_dict_get [OF p, of "[]"] mem_dict_get [OF q, of "[]"] p q
    unfolding contradicts_def by blast
  then have "?M \<noteq> {}" by blast
  moreover have "finite ?M" by simp
  ultimately show ?thesis by (simp add: compare_payloads_def Let_def sorted_list_of_set_eq_Nil_iff)
qed

section \<open>The loop against the specification\<close>

definition frame_fp :: "(string \<Rightarrow> string) \<Rightarrow> frame_candidate \<Rightarrow> string" where
  "frame_fp digest c = frame_fingerprint_of digest (position_fingerprints c)"

definition replay_target_ok :: "frame_candidate list \<Rightarrow> nat \<Rightarrow> nat option \<Rightarrow> bool" where
  "replay_target_ok es i t =
     (case t of
        None \<Rightarrow> canonical_class (spec_class es i)
      | Some j \<Rightarrow> \<not> canonical_class (spec_class es i) \<and> j < i \<and> canonical_class (spec_class es j)
                   \<and> set (payload_of (es ! i)) \<subseteq> set (payload_of (es ! j)))"

definition replay_inv :: "(string \<Rightarrow> string) \<Rightarrow> frame_candidate list \<Rightarrow> replay_state \<Rightarrow> bool" where
  "replay_inv digest es s =
     (map cf_candidate (rs_results s) = es
      \<and> (\<forall>i<length es. cf_classification (rs_results s ! i) = spec_class es i
            \<and> replay_target_ok es i (cf_replay_of (rs_results s ! i)))
      \<and> (\<forall>f n. map_of (seen_fingerprints s) f = Some n \<longrightarrow>
            n < length es \<and> frame_fp digest (es ! n) = f \<and> canonical_class (spec_class es n))
      \<and> (\<forall>i<length es. canonical_class (spec_class es i) \<longrightarrow>
            map_of (seen_fingerprints s) (frame_fp digest (es ! i)) \<noteq> None)
      \<and> (es \<noteq> [] \<longrightarrow> map_of (canonical_payloads s) 0 = Some (payload_of (es ! 0))))"

lemma candidates_ok_prefix: "candidates_ok (es @ [e]) \<Longrightarrow> candidates_ok es"
  by (cases "es = []") (auto simp: candidates_ok_def nth_append split: if_splits)

lemma spec_class_snoc: "i < length es \<Longrightarrow> spec_class (es @ [e]) i = spec_class es i"
  by (auto simp: spec_class_def nth_append)

lemma replay_target_snoc: "i < length es \<Longrightarrow> replay_target_ok (es @ [e]) i t = replay_target_ok es i t"
  by (cases t) (auto simp: replay_target_ok_def nth_append spec_class_snoc)

lemma same_payload_sym: "same_payload c d \<longleftrightarrow> same_payload d c"
  by (auto simp: same_payload_def)

lemma fp_same:
  assumes "inj digest" and ok: "candidates_ok (es @ [e])" and "j < length es"
  shows "frame_fp digest (es ! j) = frame_fp digest e \<longleftrightarrow> same_payload (es ! j) e"
proof -
  have "clean_candidate (es ! j) \<and> distinct (dict_keys (rows_by_position (es ! j)))"
    using ok assms(3) by (auto simp: candidates_ok_def nth_append dest!: spec [of _ j])
  moreover have "clean_candidate e \<and> distinct (dict_keys (rows_by_position e))"
    using ok by (auto simp: candidates_ok_def nth_append dest!: spec [of _ "length es"])
  ultimately show ?thesis using fingerprint_payload [OF assms(1)] by (simp add: frame_fp_def)
qed

text \<open>The detector's fingerprint lookup finds exactly the payloads the specification means.\<close>

lemma seen_iff:
  assumes "inj digest" and ok: "candidates_ok (es @ [e])" and inv: "replay_inv digest es s" and "es \<noteq> []"
  shows "map_of (seen_fingerprints s) (frame_fp digest e) \<noteq> None \<longleftrightarrow>
    spec_class (es @ [e]) (length es) = duplicate_classification.FULL_FRAME_REPLAY"
proof -
  let ?n = "length es"
  note fp = fp_same [OF assms(1) ok]
  have spec: "spec_class (es @ [e]) ?n = duplicate_classification.FULL_FRAME_REPLAY \<longleftrightarrow>
     (if contradicts e (es ! 0) then \<exists>j<?n. same_payload (es ! j) e else same_payload (es ! 0) e)"
    using assms(4) by (auto simp: spec_class_def nth_append)
  show ?thesis
  proof
    assume "map_of (seen_fingerprints s) (frame_fp digest e) \<noteq> None"
    then obtain j where j: "j < ?n" "frame_fp digest (es ! j) = frame_fp digest e" "canonical_class (spec_class es j)"
      using inv by (auto simp: replay_inv_def)
    then have sp: "same_payload (es ! j) e" using fp by blast
    show "spec_class (es @ [e]) ?n = duplicate_classification.FULL_FRAME_REPLAY"
    proof (cases "contradicts e (es ! 0)")
      case True
      then show ?thesis using spec sp j(1) by auto
    next
      case False
      then have "\<not> contradicts (es ! j) (es ! 0)" using sp by (simp add: contradicts_def same_payload_def)
      then have "j = 0" using j(3) by (auto simp: spec_class_def canonical_class_def split: if_splits)
      then show ?thesis using spec sp False by simp
    qed
  next
    assume f: "spec_class (es @ [e]) ?n = duplicate_classification.FULL_FRAME_REPLAY"
    then obtain j0 where j0: "j0 < ?n" "same_payload (es ! j0) e"
      using spec assms(4) by (auto split: if_splits)
    then obtain j where "j \<le> j0" and least: "\<forall>k<j. \<not> same_payload (es ! k) e" and jp: "same_payload (es ! j) e"
      using ex_least_nat_le [of "\<lambda>k. same_payload (es ! k) e" j0] by blast
    then have j: "j < ?n" "same_payload (es ! j) e" using j0(1) by simp_all
    have "canonical_class (spec_class es j)"
    proof (cases "j = 0")
      case False
      then have "\<not> same_payload (es ! 0) e" using least by blast
      then have "contradicts e (es ! 0)" using f spec by (auto split: if_splits)
      then have "contradicts (es ! j) (es ! 0)" using j(2) by (simp add: contradicts_def same_payload_def)
      moreover have "\<not> same_payload (es ! k) (es ! j)" if "k < j" for k
        using least that j(2) by (simp add: same_payload_def)
      ultimately show ?thesis using False by (simp add: spec_class_def canonical_class_def)
    qed (simp add: spec_class_def canonical_class_def)
    then have "map_of (seen_fingerprints s) (frame_fp digest (es ! j)) \<noteq> None"
      using inv j(1) unfolding replay_inv_def by blast
    moreover have "frame_fp digest (es ! j) = frame_fp digest e" using fp j by blast
    ultimately show "map_of (seen_fingerprints s) (frame_fp digest e) \<noteq> None" by simp
  qed
qed

lemma min_key_0: "map_of d (0::nat) = Some v \<Longrightarrow> min_default 0 (dict_keys d) = 0"
  using min_default_le [of 0 "dict_keys d" 0] by (force dest: map_of_SomeD)

lemma replay_inv_dest:
  assumes "replay_inv digest es s"
  shows "map cf_candidate (rs_results s) = es" "length (rs_results s) = length es"
    and "\<And>i. i < length es \<Longrightarrow> cf_classification (rs_results s ! i) = spec_class es i"
    and "\<And>i. i < length es \<Longrightarrow> replay_target_ok es i (cf_replay_of (rs_results s ! i))"
    and "\<And>f n. map_of (seen_fingerprints s) f = Some n \<Longrightarrow>
           n < length es \<and> frame_fp digest (es ! n) = f \<and> canonical_class (spec_class es n)"
    and "\<And>i. i < length es \<Longrightarrow> canonical_class (spec_class es i) \<Longrightarrow>
           map_of (seen_fingerprints s) (frame_fp digest (es ! i)) \<noteq> None"
    and "es \<noteq> [] \<Longrightarrow> map_of (canonical_payloads s) 0 = Some (payload_of (es ! 0))"
  using assms unfolding replay_inv_def by (metis length_map | blast)+

lemma replay_inv_snoc:
  assumes inv: "replay_inv digest es s"
    and res: "rs_results s' = rs_results s @ [f]" "cf_candidate f = e"
      "cf_classification f = spec_class (es @ [e]) (length es)"
      "replay_target_ok (es @ [e]) (length es) (cf_replay_of f)"
    and st: "if canonical_class (spec_class (es @ [e]) (length es))
       then map_of (seen_fingerprints s) (frame_fp digest e) = None
         \<and> seen_fingerprints s' = AList.update (frame_fp digest e) (length es) (seen_fingerprints s)
         \<and> canonical_payloads s' = AList.update (length es) (payload_of e) (canonical_payloads s)
       else es \<noteq> [] \<and> seen_fingerprints s' = seen_fingerprints s
         \<and> canonical_payloads s' = canonical_payloads s"
  shows "replay_inv digest (es @ [e]) s'"
proof -
  note d = replay_inv_dest [OF inv]
  let ?n = "length es"
  have 1: "map cf_candidate (rs_results s') = es @ [e]" using res d(1) by simp
  have 2: "cf_classification (rs_results s' ! i) = spec_class (es @ [e]) i \<and>
      replay_target_ok (es @ [e]) i (cf_replay_of (rs_results s' ! i))" if "i < length (es @ [e])" for i
    using that d(2-4) res spec_class_snoc replay_target_snoc
    by (cases "i < ?n") (auto simp: nth_append less_Suc_eq)
  have 3: "n < length (es @ [e]) \<and> frame_fp digest ((es @ [e]) ! n) = f \<and> canonical_class (spec_class (es @ [e]) n)"
    if "map_of (seen_fingerprints s') f = Some n" for f n
  proof (cases "map_of (seen_fingerprints s) f = Some n")
    case True
    then show ?thesis using d(5) [OF True] by (simp add: nth_append spec_class_snoc)
  next
    case False
    then show ?thesis using that st by (auto simp: update_conv' split: if_splits)
  qed
  have 4: "map_of (seen_fingerprints s') (frame_fp digest ((es @ [e]) ! i)) \<noteq> None"
    if "i < length (es @ [e])" "canonical_class (spec_class (es @ [e]) i)" for i
  proof (cases "i < ?n")
    case True
    then show ?thesis using d(6) [OF True] that st
      by (auto simp: nth_append spec_class_snoc update_conv' split: if_splits)
  next
    case False
    then have "i = ?n" using that(1) by simp
    then show ?thesis using that(2) st by (auto simp: update_conv' split: if_splits)
  qed
  have 5: "map_of (canonical_payloads s') 0 = Some (payload_of ((es @ [e]) ! 0))"
  proof (cases "es = []")
    case True
    then have "canonical_class (spec_class (es @ [e]) ?n)"
      by (simp add: spec_class_def canonical_class_def)
    with st True show ?thesis by (simp add: update_conv')
  next
    case False
    then have "map_of (canonical_payloads s') 0 = map_of (canonical_payloads s) 0"
      using st by (simp add: update_conv' split: if_splits)
    then show ?thesis using d(7) False by (simp add: nth_append)
  qed
  show ?thesis
    unfolding replay_inv_def
    by (intro conjI allI impI 1 5; (elim conjE)?) (use 2 3 4 in blast)+
qed

lemma subset_payload:
  assumes "distinct (dict_keys (rows_by_position d))" and "fc_observed c \<subseteq> fc_observed d" and "\<not> contradicts c d"
  shows "set (payload_of c) \<subseteq> set (payload_of d)"
proof
  fix x assume x: "x \<in> set (payload_of c)"
  then have "fst x \<in> set (dict_keys (payload_of c))" by auto
  then have "fst x \<in> set (dict_keys (payload_of d))"
    using assms(2) unfolding fc_observed_def payload_keys by blast
  then obtain f where "(fst x, f) \<in> set (payload_of d)" by auto
  then show "x \<in> set (payload_of d)" using assms(3) x unfolding contradicts_def by (cases x) fastforce
qed

lemma replay_step_inv:
  assumes dig: "inj digest" and ok: "candidates_ok (es @ [e])" and inv: "replay_inv digest es s"
  shows "replay_inv digest (es @ [e]) (replay_step digest s e)"
proof -
  let ?n = "length es" and ?fp = "frame_fp digest e"
  note d = replay_inv_dest [OF inv]
  have e: "fc_sequence e = ?n" "rows_by_position e \<noteq> []" "distinct (dict_keys (rows_by_position e))"
    "fc_observed e \<subseteq> fc_observed ((es @ [e]) ! 0)"
    using ok unfolding candidates_ok_def by (auto dest!: spec [of _ ?n])
  show ?thesis
  proof (cases "es = []")
    case True
    then have "rs_results s = []" using d(2) by simp
    moreover have "map_of (seen_fingerprints s) f = None" for f
      using d(5) [of f] True by (cases "map_of (seen_fingerprints s) f") auto
    ultimately show ?thesis
      using True e
      by (intro replay_inv_snoc [OF inv, where f = "last (rs_results (replay_step digest s e))"])
        (simp_all add: replay_step_def Let_def emit_def accept_def spec_class_def canonical_class_def
          replay_target_ok_def frame_fp_def)
  next
    case False
    then have ne: "rs_results s \<noteq> []" using d(2) by auto
    have e0: "distinct (dict_keys (rows_by_position (es ! 0)))" "fc_observed e \<subseteq> fc_observed (es ! 0)"
      using ok e(4) False by (auto simp: candidates_ok_def nth_append dest!: spec [of _ 0])
    note seen = seen_iff [OF dig ok inv False]
    let ?res = "\<lambda>f. rs_results (replay_step digest s e) = rs_results s @ [f]"
    let ?f = "last (rs_results (replay_step digest s e))"
    show ?thesis
    proof (cases "map_of (seen_fingerprints s) ?fp")
      case (Some j)
      then have full: "spec_class (es @ [e]) ?n = duplicate_classification.FULL_FRAME_REPLAY"
        using seen by blast
      have j: "j < ?n" "frame_fp digest (es ! j) = ?fp" "canonical_class (spec_class es j)"
        using d(5) [OF Some] by blast+
      then have "replay_target_ok (es @ [e]) ?n (Some j)"
        using fp_same [OF dig ok j(1)] full
        by (auto simp: replay_target_ok_def canonical_class_def nth_append spec_class_snoc same_payload_def)
      then show ?thesis
        using ne False full Some
        by (intro replay_inv_snoc [OF inv, where f = ?f])
          (simp_all add: replay_step_def Let_def emit_def canonical_class_def frame_fp_def)
    next
      case None
      then have notfull: "spec_class (es @ [e]) ?n \<noteq> duplicate_classification.FULL_FRAME_REPLAY"
        using seen by blast
      have cp: "dict_get (canonical_payloads s) (min_default 0 (dict_keys (canonical_payloads s))) [] =
          payload_of (es ! 0)"
        using d(7) [OF False] min_key_0 [OF d(7) [OF False]] by (simp add: dict_get_def)
      obtain m df where cmp: "compare_payloads (payload_of e) (payload_of (es ! 0)) = (m, df)"
        by (cases "compare_payloads (payload_of e) (payload_of (es ! 0))")
      show ?thesis
      proof (cases "contradicts e (es ! 0)")
        case True
        then have "df \<noteq> []" using compare_differing [OF e(3) e0(1)] cmp by simp
        moreover have "spec_class (es @ [e]) ?n = duplicate_classification.SAME_TIMESTAMP_DISTINCT_FRAME"
          using True notfull False by (auto simp: spec_class_def nth_append split: if_splits)
        ultimately show ?thesis
          using ne False None cp cmp e(1)
          by (intro replay_inv_snoc [OF inv, where f = ?f])
            (simp_all add: replay_step_def Let_def emit_def accept_def canonical_class_def frame_fp_def
              replay_target_ok_def)
      next
        case no: False
        then have "df = []" using compare_differing [OF e(3) e0(1)] cmp by simp
        moreover have "m \<noteq> []" using compare_matching [OF e(3) e0(1) e(2) e0(2) no] cmp by simp
        moreover have part: "spec_class (es @ [e]) ?n = duplicate_classification.PARTIAL_FRAME_REPLAY"
          using no notfull False by (auto simp: spec_class_def nth_append split: if_splits)
        moreover have "replay_target_ok (es @ [e]) ?n (Some 0)"
          using part subset_payload [OF e0(1) e0(2) no] False
          by (simp add: replay_target_ok_def canonical_class_def nth_append spec_class_def [of _ 0])
        ultimately show ?thesis
          using ne False None cp cmp min_key_0 [OF d(7) [OF False]]
          by (intro replay_inv_snoc [OF inv, where f = ?f])
            (simp_all add: replay_step_def Let_def emit_def canonical_class_def frame_fp_def)
      qed
    qed
  qed
qed


interpretation replay_fold: history_fold "replay_step digest" replay_start
  "\<lambda>es. inj digest \<and> candidates_ok es" "replay_inv digest" for digest
proof unfold_locales
  show "replay_inv digest [] replay_start" for digest
    by (simp add: replay_inv_def replay_start_def)
qed (use candidates_ok_prefix replay_step_inv in blast)+

lemma classified:
  assumes "inj digest" and "candidates_ok cs"
  shows "map cf_candidate (classify_group digest cs) = cs"
    and "length (classify_group digest cs) = length cs"
    and "\<And>i. i < length cs \<Longrightarrow> cf_classification (classify_group digest cs ! i) = spec_class cs i"
    and "\<And>i. i < length cs \<Longrightarrow> replay_target_ok cs i (cf_replay_of (classify_group digest cs ! i))"
  using replay_inv_dest(1-4) [OF replay_fold.fold_inv, of digest cs] assms
  by (simp_all add: classify_group_def)

text \<open>The frame builder's candidates are what the specification asks for.\<close>

definition clean_row :: "raw_row_ref \<Rightarrow> bool" where
  "clean_row r =
     (CHR ''/'' \<notin> set (connector_id (position r)) \<and> CHR 0x1E \<notin> set (position_str (position r))
      \<and> CHR 0x1E \<notin> set (row_fingerprint r) \<and> CHR ''='' \<notin> set (row_fingerprint r))"

lemma built_candidates_ok:
  assumes "group_wf g" and "max_occurrence g \<le> max_frames" and "\<forall>r\<in>set (tg_rows g). clean_row r"
  shows "candidates_ok (fst (build_frame_candidates g below_pct max_frames))"
  unfolding candidates_ok_def
proof (intro allI impI)
  let ?cs = "fst (build_frame_candidates g below_pct max_frames)"
  fix i assume i: "i < length ?cs"
  note n = frames_nested_shape [OF assms(1,2) refl i]
  then have "clean_candidate (?cs ! i)" using assms(3) unfolding clean_candidate_def clean_row_def by fast
  then show "fc_sequence (?cs ! i) = i \<and> rows_by_position (?cs ! i) \<noteq> []
      \<and> distinct (dict_keys (rows_by_position (?cs ! i)))
      \<and> fc_observed (?cs ! i) \<subseteq> fc_observed (?cs ! 0) \<and> clean_candidate (?cs ! i)"
    using n by blast
qed

definition observations :: "frame_candidate list \<Rightarrow> (logical_position \<times> string) set" where
  "observations cs = \<Union> (set (map (\<lambda>c. set (payload_of c)) cs))"

lemma canonical_observations:
  assumes "inj digest" and "candidates_ok cs"
  shows "observations (map cf_candidate (filter cf_is_canonical (classify_group digest cs))) = observations cs"
proof -
  let ?R = "classify_group digest cs"
  note c = classified [OF assms]
  have can: "cf_is_canonical (?R ! i) \<longleftrightarrow> canonical_class (spec_class cs i)" if "i < length cs" for i
    using c(3) [OF that] by (simp add: cf_is_canonical_def canonical_class_def)
  have mem: "cs ! i \<in> cf_candidate ` {f \<in> set ?R. cf_is_canonical f}"
    if "i < length cs" "canonical_class (spec_class cs i)" for i
  proof -
    have "cf_candidate (?R ! i) = cs ! i" using c(1,2) that(1) by (metis nth_map)
    moreover have "?R ! i \<in> set ?R" using c(2) that(1) by simp
    ultimately show ?thesis using can [OF that(1)] that(2) by (metis (mono_tags, lifting) image_eqI mem_Collect_eq)
  qed
  have "\<exists>d\<in>cf_candidate ` {f \<in> set ?R. cf_is_canonical f}. set (payload_of c) \<subseteq> set (payload_of d)"
    if "c \<in> set cs" for c
  proof -
    obtain i where i: "i < length cs" "c = cs ! i" using \<open>c \<in> set cs\<close> by (metis in_set_conv_nth)
    show ?thesis
    proof (cases "cf_replay_of (?R ! i)")
      case None
      then show ?thesis using c(4) [OF i(1)] mem [OF i(1)] i by (auto simp: replay_target_ok_def)
    next
      case (Some j)
      then have "j < length cs" "canonical_class (spec_class cs j)" "set (payload_of c) \<subseteq> set (payload_of (cs ! j))"
        using c(4) [OF i(1)] i by (auto simp: replay_target_ok_def)
      then show ?thesis using mem [of j] by blast
    qed
  qed
  moreover have "cf_candidate f \<in> set cs" if "f \<in> set ?R" for f
    using c(1) that by (metis image_eqI list.set_map)
  ultimately show ?thesis by (fastforce simp: observations_def)
qed

section \<open>What the verdicts guarantee\<close>

lemma demo_clean: "\<forall>r\<in>set (tg_rows demo_group). clean_row r" by code_simp

text \<open>
  C9: for the frames the builder makes of a group within the frame limit, with unambiguous labels (no slash
  in an identifier, see \<open>label_collision\<close>) and a collision-free digest, the detector's verdicts are those of
  the specification, in order: the first frame is UNIQUE, a frame that contradicts it is a full replay
  exactly when an earlier frame carried the same payload and a distinct observation otherwise, and a frame
  that does not contradict it is its full or partial replay. The verdict AMBIGUOUS does not occur.
\<close>

lemma replay_classification:
  assumes "inj digest" and "group_wf g" and "max_occurrence g \<le> max_frames" and "\<forall>r\<in>set (tg_rows g). clean_row r"
    and "cs = fst (build_frame_candidates g below_pct max_frames)"
  shows "map cf_candidate (classify_group digest cs) = cs
    \<and> map cf_classification (classify_group digest cs) = map (spec_class cs) [0..<length cs]"
proof -
  have ok: "candidates_ok cs" unfolding assms(5) using built_candidates_ok assms(2-4) .
  note c = classified [OF assms(1) ok]
  show ?thesis using c by (auto intro: nth_equalityI)
qed

lemma replay_classification_witness:
  "map cf_classification (classify_group (\<lambda>x. x) (fst (build_frame_candidates demo_group 50 64)))
     = [UNIQUE, duplicate_classification.FULL_FRAME_REPLAY,
        duplicate_classification.PARTIAL_FRAME_REPLAY,
        duplicate_classification.SAME_TIMESTAMP_DISTINCT_FRAME]"
proof -
  let ?cs = "fst (build_frame_candidates demo_group 50 64)"
  have "inj (\<lambda>x::string. x)" by simp
  then have "map cf_classification (classify_group (\<lambda>x. x) ?cs) = map (spec_class ?cs) [0..<length ?cs]"
    using replay_classification [OF _ demo_group_wf(1) _ demo_clean refl, of "\<lambda>x. x" 64 50]
    by (simp add: demo_group_wf(2))
  also have "\<dots> = [UNIQUE, duplicate_classification.FULL_FRAME_REPLAY,
      duplicate_classification.PARTIAL_FRAME_REPLAY,
      duplicate_classification.SAME_TIMESTAMP_DISTINCT_FRAME]"
    by code_simp
  finally show ?thesis .
qed

text \<open>Skipping the replays loses no reading of the group.\<close>

lemma replay_keeps_observations:
  assumes "inj digest" and "group_wf g" and "max_occurrence g \<le> max_frames" and "\<forall>r\<in>set (tg_rows g). clean_row r"
  shows "observations (map cf_candidate (filter cf_is_canonical
        (classify_group digest (fst (build_frame_candidates g below_pct max_frames))))) =
    (\<lambda>r. (position r, row_fingerprint r)) ` set (tg_rows g)"
proof -
  let ?cs = "fst (build_frame_candidates g below_pct max_frames)"
  have "observations ?cs = (\<Union>c\<in>set ?cs. (\<lambda>r. (position r, row_fingerprint r)) ` set (dict_values (rows_by_position c)))"
  proof -
    have "set (payload_of c) = (\<lambda>r. (position r, row_fingerprint r)) ` set (dict_values (rows_by_position c))"
      if c: "c \<in> set ?cs" for c
    proof -
      obtain i where "i < length ?cs" "c = ?cs ! i" using c by (metis in_set_conv_nth)
      then have "\<forall>(p, r)\<in>set (rows_by_position c). position r = p"
        using frames_nested_shape [OF assms(2,3) refl, of i below_pct] by auto
      then show ?thesis by (force simp: payload_of_def)
    qed
    then show ?thesis by (simp add: observations_def)
  qed
  also have "\<dots> = (\<lambda>r. (position r, row_fingerprint r)) ` set (concat (map (\<lambda>c. dict_values (rows_by_position c)) ?cs))"
    by (simp add: image_UN)
  also have "set (concat (map (\<lambda>c. dict_values (rows_by_position c)) ?cs)) = set (tg_rows g)"
    using frames_conserve_rows [OF assms(2,3), of below_pct] by (rule mset_eq_setD)
  finally show ?thesis
    using canonical_observations [OF assms(1) built_candidates_ok [OF assms(2-4)], of below_pct] by simp
qed

text \<open>
  C10: for the frames the builder makes of a group within the frame limit, with unambiguous labels and a
  collision-free digest, a frame reported as a replay names an earlier frame, that frame is canonical, and
  it holds every reading of the replay; a frame that names none is canonical itself.
\<close>

lemma replay_target:
  assumes "inj digest" and "group_wf g" and "max_occurrence g \<le> max_frames"
    and "\<forall>r\<in>set (tg_rows g). clean_row r"
    and "fs = classify_group digest (fst (build_frame_candidates g below_pct max_frames))"
    and "i < length fs"
  shows "case cf_replay_of (fs ! i) of
      None \<Rightarrow> cf_is_canonical (fs ! i)
    | Some j \<Rightarrow> \<not> cf_is_canonical (fs ! i) \<and> j < i \<and> cf_is_canonical (fs ! j)
        \<and> set (payload_of (cf_candidate (fs ! i))) \<subseteq> set (payload_of (cf_candidate (fs ! j)))"
proof -
  let ?cs = "fst (build_frame_candidates g below_pct max_frames)"
  note c = classified [OF assms(1) built_candidates_ok [OF assms(2-4), where below_pct = below_pct],
      folded assms(5)]
  have can: "cf_is_canonical (fs ! k) \<longleftrightarrow> canonical_class (spec_class ?cs k)" if "k < length fs" for k
    using c(2,3) that by (simp add: cf_is_canonical_def canonical_class_def)
  have cand: "cf_candidate (fs ! k) = ?cs ! k" if "k < length fs" for k
    using c(1) that by (metis nth_map)
  have "replay_target_ok ?cs i (cf_replay_of (fs ! i))" using c(2,4) assms(6) by simp
  then show ?thesis
    using can cand assms(6) by (auto simp: replay_target_ok_def split: option.splits)
qed

lemma replay_target_witness:
  "let fs = classify_group (\<lambda>x. x) (fst (build_frame_candidates demo_group 50 64))
   in cf_replay_of (fs ! 2) = Some 0 \<and> cf_is_canonical (fs ! 0)"
proof -
  let ?fs = "classify_group (\<lambda>x. x) (fst (build_frame_candidates demo_group 50 64))"
  have "inj (\<lambda>x::string. x)" by simp
  moreover have "length ?fs = 4 \<and> cf_replay_of (?fs ! 2) = Some 0" by code_simp
  ultimately show ?thesis
    using replay_target [OF _ demo_group_wf(1) _ demo_clean refl, where digest = "\<lambda>x. x"
        and max_frames = 64 and below_pct = 50 and i = 2]
    by (simp add: demo_group_wf(2) Let_def)
qed

text \<open>Two positions that print alike: \<open>C1/S2/S3\<close> is connector \<open>1/S2\<close> with SMR 3, or 1 with \<open>2/S3\<close>.\<close>

definition collision_group :: timestamp_group where
  "collision_group =
     (let p = LogicalPosition ''1/S2'' ''3''; q = LogicalPosition ''1'' ''2/S3'';
          row = (\<lambda>n pos occ fp. \<lparr>telemetry_file_id = None, source_row_number = n, position = pos,
                    occurrence_index = occ, row_fingerprint = fp, unassigned = False\<rparr>);
          rows = [row 0 p 0 ''a'', row 1 q 0 ''b'', row 2 p 1 ''b'']
      in \<lparr>tg_charger_id = ''CH1'', tg_event_time = 0, tg_rows = rows, expected_positions = {p, q},
          occurrences = tally (map position rows), unassigned_rows = []\<rparr>)"

text \<open>
  the labels have to be unambiguous. With two positions that print alike, a frame whose only
  reading contradicts the first frame is called a full replay of it, and the reading is in no
  canonical frame.
\<close>

lemma label_collision:
  "let fs = classify_group (\<lambda>x. x) (fst (build_frame_candidates collision_group 50 64))
   in group_wf collision_group
     \<and> map cf_classification fs = [UNIQUE, duplicate_classification.FULL_FRAME_REPLAY]
     \<and> contradicts (cf_candidate (fs ! 1)) (cf_candidate (fs ! 0))
     \<and> \<not> set (payload_of (cf_candidate (fs ! 1))) \<subseteq> set (payload_of (cf_candidate (fs ! 0)))"
  by code_simp

end
