(* ===== verification/Reconstruction.thy ===== *)
theory Reconstruction
  imports Topology Replay
begin

text \<open>
  The reconstruction of one file, \<open>pipelines/frame_reconstruction/reconstruction_service.py\<close>, and
  its metrics, \<open>diagnostics.py\<close>: keys, topology, groups, candidates, verdicts, frames. An
  exception of the key builder leaves \<open>reconstruct\<close> as it leaves the code; nothing in the body
  of the guarded loop over the groups raises on modelled values, so no group is recorded as
  failed. Log calls have no counterpart, and the measured duration is a parameter.
\<close>

section \<open>Metrics\<close>

record file_metrics =
  fm_telemetry_file_id :: "uuid option"
  reconstruction_version :: string
  raw_rows :: nat
  unique_timestamps :: nat
  expected_positions_per_frame :: nat
  fm_topology_basis :: string
  frames_reconstructed :: nat
  complete_frames :: nat
  partial_frames :: nat
  severely_incomplete_frames :: nat
  malformed_frames :: nat
  ambiguous_frames :: nat
  canonical_frames :: nat
  full_frame_replays :: nat
  partial_frame_replays :: nat
  same_timestamp_distinct_frames :: nat
  exact_duplicate_rows :: nat
  fm_collision_timestamps :: nat
  rows_assigned :: nat
  rows_unassigned :: nat
  duration_ms :: int

definition frame_completeness_percentage :: "file_metrics \<Rightarrow> pyfloat" where
  "frame_completeness_percentage m =
     (if frames_reconstructed m \<le> 0 then 0
      else py_round 3 (100 * of_nat (complete_frames m) / of_nat (frames_reconstructed m)))"

definition replay_rate :: "file_metrics \<Rightarrow> pyfloat" where
  "replay_rate m =
     (if frames_reconstructed m \<le> 0 then 0
      else let replays = full_frame_replays m + partial_frame_replays m
           in py_round 3 (100 * of_nat replays / of_nat (frames_reconstructed m)))"

fun count_status :: "frame_status \<Rightarrow> file_metrics \<Rightarrow> file_metrics" where
  "count_status frame_status.COMPLETE m = m\<lparr>complete_frames := complete_frames m + 1\<rparr>"
| "count_status frame_status.PARTIAL m = m\<lparr>partial_frames := partial_frames m + 1\<rparr>"
| "count_status frame_status.SEVERELY_INCOMPLETE m =
     m\<lparr>severely_incomplete_frames := severely_incomplete_frames m + 1\<rparr>"
| "count_status MALFORMED m = m\<lparr>malformed_frames := malformed_frames m + 1\<rparr>"
| "count_status frame_status.AMBIGUOUS m = m\<lparr>ambiguous_frames := ambiguous_frames m + 1\<rparr>"

fun count_classification :: "duplicate_classification \<Rightarrow> file_metrics \<Rightarrow> file_metrics" where
  "count_classification duplicate_classification.FULL_FRAME_REPLAY m =
     m\<lparr>full_frame_replays := full_frame_replays m + 1\<rparr>"
| "count_classification duplicate_classification.PARTIAL_FRAME_REPLAY m =
     m\<lparr>partial_frame_replays := partial_frame_replays m + 1\<rparr>"
| "count_classification duplicate_classification.SAME_TIMESTAMP_DISTINCT_FRAME m =
     m\<lparr>same_timestamp_distinct_frames := same_timestamp_distinct_frames m + 1\<rparr>"
| "count_classification _ m = m"

definition metrics_step ::
    "file_metrics \<times> datetime set \<Rightarrow> reconstructed_frame \<Rightarrow> file_metrics \<times> datetime set" where
  "metrics_step st f =
     (let (m, collisions) = st;
          m = count_classification (fr_classification f) (count_status (fr_status f) m);
          m = (if frame_is_canonical f then m\<lparr>canonical_frames := canonical_frames m + 1\<rparr> else m)
      in (m, if fr_classification f = duplicate_classification.SAME_TIMESTAMP_DISTINCT_FRAME
             then insert (fr_event_time f) collisions else collisions))"

definition build_file_metrics ::
    "reconstructed_frame list \<Rightarrow> uuid option \<Rightarrow> string \<Rightarrow> nat \<Rightarrow> nat \<Rightarrow> nat \<Rightarrow> string \<Rightarrow> nat \<Rightarrow> nat
     \<Rightarrow> nat \<Rightarrow> int \<Rightarrow> file_metrics" where
  "build_file_metrics frames file_id version rows stamps per_frame basis assigned left_over
     duplicates duration =
     (let start =
        \<lparr>fm_telemetry_file_id = file_id, reconstruction_version = version, raw_rows = rows,
         unique_timestamps = stamps, expected_positions_per_frame = per_frame,
         fm_topology_basis = basis, frames_reconstructed = length frames, complete_frames = 0,
         partial_frames = 0, severely_incomplete_frames = 0, malformed_frames = 0,
         ambiguous_frames = 0, canonical_frames = 0, full_frame_replays = 0,
         partial_frame_replays = 0, same_timestamp_distinct_frames = 0,
         exact_duplicate_rows = duplicates, fm_collision_timestamps = 0, rows_assigned = assigned,
         rows_unassigned = left_over, duration_ms = duration\<rparr>;
        (m, collisions) = foldl metrics_step (start, {}) frames
      in m\<lparr>fm_collision_timestamps := card collisions\<rparr>)"

record charger_day_metrics =
  cd_charger_id :: string
  cd_business_date :: int
  canonical_frame_count :: nat
  replay_frame_count :: nat
  collision_timestamp_count :: nat
  partial_frame_count :: nat
  ambiguous_frame_count :: nat
  cd_unassigned_row_count :: nat
  frames_total :: nat

definition day_frame_completeness :: "charger_day_metrics \<Rightarrow> pyfloat" where
  "day_frame_completeness m =
     (if frames_total m \<le> 0 then 0
      else let complete = int (frames_total m) - int (partial_frame_count m) - int (ambiguous_frame_count m)
           in py_round 3 (100 * of_int (max complete 0) / of_nat (frames_total m)))"

section \<open>The pass over one file\<close>

record reconstruction_input =
  ri_frame :: data_frame
  ri_event_times :: "datetime option list"
  ri_roles :: role_resolution
  ri_serializer :: serializer
  ri_telemetry_file_id :: "uuid option"
  charger_id_fallback :: "string option"
  charger_connector_count :: "int option"
  charger_smr_count :: "int option"
  default_connector_count :: "int option"
  default_smr_count :: "int option"
  severely_incomplete_below_pct :: pyfloat
  max_frames_per_timestamp :: nat

text \<open>The diagnostic payload stored beside a frame.\<close>

record frame_detail =
  fd_topology_basis :: string
  group_raw_rows :: nat
  group_max_occurrence :: nat
  group_even_occupancy :: bool
  fd_differing_positions :: "string list"
  fd_note :: "frame_note option"
  fd_topology_notes :: "topology_note list"

record reconstruction_outcome =
  ro_frames :: "(reconstructed_frame \<times> frame_detail) list"
  ro_topology :: frame_topology
  ro_metrics :: file_metrics
  ro_unassigned_rows :: "raw_row_ref list"
  failed_groups :: "(datetime \<times> string) list"

definition RECONSTRUCTION_VERSION :: string where
  "RECONSTRUCTION_VERSION = ''frame-reconstruction-v1''"

definition frame_detail_of :: "classified_frame \<Rightarrow> group_occupancy \<Rightarrow> frame_topology \<Rightarrow> frame_detail" where
  "frame_detail_of item oc topology =
     \<lparr>fd_topology_basis = basis_value (tp_basis topology), group_raw_rows = oc_raw_row_count oc,
      group_max_occurrence = oc_max_occurrence oc, group_even_occupancy = is_even oc,
      fd_differing_positions = map position_str (cf_differing item), fd_note = cf_note item,
      fd_topology_notes = tp_notes topology\<rparr>"

definition frame_of ::
    "timestamp_group \<Rightarrow> frame_topology \<Rightarrow> classified_frame \<Rightarrow> reconstructed_frame" where
  "frame_of g topology item =
     (let c = cf_candidate item;
          issues = cf_issues item
            @ (if tp_basis topology = UNRESOLVED then [INCONSISTENT_TOPOLOGY] else [])
      in \<lparr>fr_charger_id = tg_charger_id g, fr_event_time = tg_event_time g,
          frame_sequence = fc_sequence c, fr_rows = fc_rows c,
          frame_fingerprint = cf_fingerprint item, fr_status = fc_status c,
          fr_classification = cf_classification item,
          expected_position_count = card (expected_positions g),
          observed_position_count = length (rows_by_position c),
          missing_position_count = length (fc_missing c),
          unexpected_position_count = length (fc_unexpected c),
          fr_replay_of_sequence = cf_replay_of item, fr_missing_positions = fc_missing c,
          fr_unexpected_positions = fc_unexpected c, fr_issues = py_unique issues\<rparr>)"

definition reconstruct_group ::
    "(string \<Rightarrow> string) \<Rightarrow> reconstruction_input \<Rightarrow> frame_topology \<Rightarrow> timestamp_group
     \<Rightarrow> (reconstructed_frame \<times> frame_detail) list \<times> nat" where
  "reconstruct_group digest p topology g =
     (let (candidates, oc) = build_frame_candidates g (severely_incomplete_below_pct p)
                               (max_frames_per_timestamp p);
          classified = classify_group digest candidates
      in (map (\<lambda>item. (frame_of g topology item, frame_detail_of item oc topology)) classified,
          sum_list (map (\<lambda>item. length (rows_by_position (cf_candidate item))) classified)))"

definition input_topology :: "reconstruction_input \<Rightarrow> keyed_rows \<Rightarrow> frame_topology" where
  "input_topology p keyed =
     resolve \<lparr>default_connectors = default_connector_count p, default_smrs = default_smr_count p,
              stability = 1 / 2\<rparr>
       (charger_connector_count p) (charger_smr_count p) (observed_connectors keyed)
       (observed_smrs keyed) (position_group_counts keyed) (group_total keyed)"

definition input_groups :: "reconstruction_input \<Rightarrow> keyed_rows \<Rightarrow> timestamp_group list" where
  "input_groups p keyed =
     build_timestamp_groups (by_timestamp keyed) (unassigned_by_timestamp keyed)
       (tp_positions (input_topology p keyed))"

definition reconstruct ::
    "(string \<Rightarrow> string) \<Rightarrow> int \<Rightarrow> reconstruction_input \<Rightarrow> decimal_error + reconstruction_outcome" where
  "reconstruct digest duration p =
     bind_err
       (build_keys digest
          \<lparr>kb_roles = ri_roles p, kb_serializer = ri_serializer p,
           kb_charger_fallback = charger_id_fallback p\<rparr>
          (ri_frame p) (ri_telemetry_file_id p) (ri_event_times p))
       (\<lambda>keyed.
          let topology = input_topology p keyed;
              groups = input_groups p keyed;
              results = map (reconstruct_group digest p topology) groups;
              frames = concat (map fst results);
              left_over = concat (dict_values (unassigned_by_timestamp keyed)) @ undatable_rows keyed
          in Inr \<lparr>ro_frames = frames, ro_topology = topology,
                  ro_metrics =
                    build_file_metrics (map fst frames) (ri_telemetry_file_id p)
                      RECONSTRUCTION_VERSION (length (df_rows (ri_frame p)))
                      (card (set (map tg_event_time groups))) (tp_position_count topology)
                      (basis_value (tp_basis topology)) (sum_list (map snd results))
                      (length left_over) (exact_duplicate_row_count keyed) duration,
                  ro_unassigned_rows = left_over, failed_groups = []\<rparr>)"

definition outcome_canonical_frames :: "reconstruction_outcome \<Rightarrow> reconstructed_frame list" where
  "outcome_canonical_frames out = filter frame_is_canonical (map fst (ro_frames out))"

definition collision_timestamps :: "reconstruction_outcome \<Rightarrow> datetime list" where
  "collision_timestamps out =
     sort (map fst (filter (\<lambda>(t, n). n > 1)
             (tally (map fr_event_time (outcome_canonical_frames out)))))"

definition frames_by_position ::
    "reconstructed_frame \<Rightarrow> (logical_position, raw_row_ref) pydict" where
  "frames_by_position f = foldl (\<lambda>d r. AList.update (position r) r d) [] (fr_rows f)"

definition status_counts :: "reconstructed_frame list \<Rightarrow> (frame_status, nat) pydict" where
  "status_counts frames =
     foldl (\<lambda>d f. bump d (fr_status f)) (map (\<lambda>s. (s, 0)) all_frame_statuses) frames"

definition classification_counts ::
    "reconstructed_frame list \<Rightarrow> (duplicate_classification, nat) pydict" where
  "classification_counts frames =
     foldl (\<lambda>d f. bump d (fr_classification f)) (map (\<lambda>c. (c, 0)) all_classifications) frames"

section \<open>What the metrics count\<close>

lemma count_status_simps [simp]:
  "complete_frames (count_status s m) = complete_frames m + (if s = frame_status.COMPLETE then 1 else 0)"
  "partial_frames (count_status s m) = partial_frames m + (if s = frame_status.PARTIAL then 1 else 0)"
  "severely_incomplete_frames (count_status s m) =
     severely_incomplete_frames m + (if s = frame_status.SEVERELY_INCOMPLETE then 1 else 0)"
  "malformed_frames (count_status s m) = malformed_frames m + (if s = MALFORMED then 1 else 0)"
  "ambiguous_frames (count_status s m) = ambiguous_frames m + (if s = frame_status.AMBIGUOUS then 1 else 0)"
  "canonical_frames (count_status s m) = canonical_frames m"
  "full_frame_replays (count_status s m) = full_frame_replays m"
  "partial_frame_replays (count_status s m) = partial_frame_replays m"
  "same_timestamp_distinct_frames (count_status s m) = same_timestamp_distinct_frames m"
  "frames_reconstructed (count_status s m) = frames_reconstructed m"
  "rows_assigned (count_status s m) = rows_assigned m"
  "rows_unassigned (count_status s m) = rows_unassigned m"
  by (cases s; simp)+

lemma count_classification_simps [simp]:
  "complete_frames (count_classification c m) = complete_frames m"
  "partial_frames (count_classification c m) = partial_frames m"
  "severely_incomplete_frames (count_classification c m) = severely_incomplete_frames m"
  "malformed_frames (count_classification c m) = malformed_frames m"
  "ambiguous_frames (count_classification c m) = ambiguous_frames m"
  "canonical_frames (count_classification c m) = canonical_frames m"
  "full_frame_replays (count_classification c m) =
     full_frame_replays m + (if c = duplicate_classification.FULL_FRAME_REPLAY then 1 else 0)"
  "partial_frame_replays (count_classification c m) =
     partial_frame_replays m + (if c = duplicate_classification.PARTIAL_FRAME_REPLAY then 1 else 0)"
  "same_timestamp_distinct_frames (count_classification c m) = same_timestamp_distinct_frames m
     + (if c = duplicate_classification.SAME_TIMESTAMP_DISTINCT_FRAME then 1 else 0)"
  "frames_reconstructed (count_classification c m) = frames_reconstructed m"
  "rows_assigned (count_classification c m) = rows_assigned m"
  "rows_unassigned (count_classification c m) = rows_unassigned m"
  by (cases c; simp)+

definition with_status :: "frame_status \<Rightarrow> reconstructed_frame list \<Rightarrow> nat" where
  "with_status s fs = length (filter (\<lambda>f. fr_status f = s) fs)"

definition with_class :: "duplicate_classification \<Rightarrow> reconstructed_frame list \<Rightarrow> nat" where
  "with_class c fs = length (filter (\<lambda>f. fr_classification f = c) fs)"

definition distinct_times :: "reconstructed_frame list \<Rightarrow> datetime set" where
  "distinct_times fs =
     fr_event_time ` {f \<in> set fs. fr_classification f = duplicate_classification.SAME_TIMESTAMP_DISTINCT_FRAME}"

definition metrics_count :: "reconstructed_frame list \<Rightarrow> file_metrics \<Rightarrow> bool" where
  "metrics_count fs m =
     (complete_frames m = with_status frame_status.COMPLETE fs
      \<and> partial_frames m = with_status frame_status.PARTIAL fs
      \<and> severely_incomplete_frames m = with_status frame_status.SEVERELY_INCOMPLETE fs
      \<and> malformed_frames m = with_status MALFORMED fs
      \<and> ambiguous_frames m = with_status frame_status.AMBIGUOUS fs
      \<and> canonical_frames m = length (filter frame_is_canonical fs)
      \<and> full_frame_replays m = with_class duplicate_classification.FULL_FRAME_REPLAY fs
      \<and> partial_frame_replays m = with_class duplicate_classification.PARTIAL_FRAME_REPLAY fs
      \<and> same_timestamp_distinct_frames m =
          with_class duplicate_classification.SAME_TIMESTAMP_DISTINCT_FRAME fs)"

lemma metrics_count_step:
  "metrics_count fs m \<Longrightarrow>
   metrics_count (fs @ [f]) (fst (metrics_step (m, cs) f))"
  unfolding metrics_count_def with_status_def with_class_def
  by (elim conjE, intro conjI) (simp_all add: metrics_step_def Let_def)

interpretation metrics_fold: history_fold metrics_step "(m0, {})" "\<lambda>_. metrics_count [] m0"
  "\<lambda>fs (m, cs). metrics_count fs m \<and> cs = distinct_times fs
     \<and> frames_reconstructed m = frames_reconstructed m0 \<and> rows_assigned m = rows_assigned m0
     \<and> rows_unassigned m = rows_unassigned m0" for m0
proof unfold_locales
  fix es :: "reconstructed_frame list" and e and s :: "file_metrics \<times> datetime set"
  assume "case s of (m, cs) \<Rightarrow> metrics_count es m \<and> cs = distinct_times es
     \<and> frames_reconstructed m = frames_reconstructed m0 \<and> rows_assigned m = rows_assigned m0
     \<and> rows_unassigned m = rows_unassigned m0"
  moreover obtain m cs where s: "s = (m, cs)" by (cases s)
  ultimately have "metrics_count (es @ [e]) (fst (metrics_step s e))" "cs = distinct_times es"
    "frames_reconstructed m = frames_reconstructed m0" "rows_assigned m = rows_assigned m0"
    "rows_unassigned m = rows_unassigned m0"
    using metrics_count_step by auto
  then show "case metrics_step s e of (m, cs) \<Rightarrow> metrics_count (es @ [e]) m \<and> cs = distinct_times (es @ [e])
     \<and> frames_reconstructed m = frames_reconstructed m0 \<and> rows_assigned m = rows_assigned m0
     \<and> rows_unassigned m = rows_unassigned m0"
    unfolding s by (auto simp: metrics_step_def Let_def distinct_times_def)
qed (simp_all add: distinct_times_def)

lemma build_file_metrics_counts:
  "let m = build_file_metrics fs fid v rows stamps per basis asg left_over dup dur
   in metrics_count fs m \<and> fm_collision_timestamps m = card (distinct_times fs)
     \<and> frames_reconstructed m = length fs \<and> rows_assigned m = asg \<and> rows_unassigned m = left_over"
proof -
  let ?m0 = "\<lparr>fm_telemetry_file_id = fid, reconstruction_version = v, raw_rows = rows,
         unique_timestamps = stamps, expected_positions_per_frame = per,
         fm_topology_basis = basis, frames_reconstructed = length fs, complete_frames = 0,
         partial_frames = 0, severely_incomplete_frames = 0, malformed_frames = 0,
         ambiguous_frames = 0, canonical_frames = 0, full_frame_replays = 0,
         partial_frame_replays = 0, same_timestamp_distinct_frames = 0,
         exact_duplicate_rows = dup, fm_collision_timestamps = 0, rows_assigned = asg,
         rows_unassigned = left_over, duration_ms = dur\<rparr>"
  have "metrics_count [] ?m0" by (simp add: metrics_count_def with_status_def with_class_def)
  note inv = metrics_fold.fold_inv [of ?m0 fs, OF this]
  obtain m cs where f: "foldl metrics_step (?m0, {}) fs = (m, cs)" by (cases "foldl metrics_step (?m0, {}) fs")
  show ?thesis using inv unfolding f build_file_metrics_def Let_def by (simp add: metrics_count_def)
qed

lemma status_partition:
  "with_status frame_status.COMPLETE fs + with_status frame_status.PARTIAL fs
   + with_status frame_status.SEVERELY_INCOMPLETE fs + with_status MALFORMED fs
   + with_status frame_status.AMBIGUOUS fs = length fs"
proof (induction fs)
  case (Cons f fs)
  then show ?case by (cases "fr_status f") (simp_all add: with_status_def)
qed (simp add: with_status_def)

text \<open>
  the file metrics are the counts they are named after. The five status counters add up to the
  number of frames, canonical frames and the two kinds of replay are disjoint, and there are at
  most as many collision timestamps as distinct frames, which are at most the canonical ones.
\<close>

lemma metrics_partition:
  "let m = build_file_metrics fs fid v rows stamps per basis asg left_over dup dur
   in metrics_count fs m
     \<and> complete_frames m + partial_frames m + severely_incomplete_frames m + malformed_frames m
         + ambiguous_frames m = frames_reconstructed m
     \<and> canonical_frames m + full_frame_replays m + partial_frame_replays m \<le> frames_reconstructed m
     \<and> same_timestamp_distinct_frames m \<le> canonical_frames m
     \<and> fm_collision_timestamps m \<le> same_timestamp_distinct_frames m"
proof -
  let ?m = "build_file_metrics fs fid v rows stamps per basis asg left_over dup dur"
  note c = build_file_metrics_counts [of fs fid v rows stamps per basis asg left_over dup dur, unfolded Let_def]
  have 1: "length (filter frame_is_canonical fs) + with_class duplicate_classification.FULL_FRAME_REPLAY fs
     + with_class duplicate_classification.PARTIAL_FRAME_REPLAY fs \<le> length fs"
    by (induction fs) (auto simp: with_class_def frame_is_canonical_def canonical_class_def)
  have 2: "with_class duplicate_classification.SAME_TIMESTAMP_DISTINCT_FRAME fs \<le> length (filter frame_is_canonical fs)"
    by (induction fs) (auto simp: with_class_def frame_is_canonical_def canonical_class_def)
  have "distinct_times fs = fr_event_time ` set (filter (\<lambda>f. fr_classification f = duplicate_classification.SAME_TIMESTAMP_DISTINCT_FRAME) fs)"
    by (simp add: distinct_times_def)
  then have 3: "card (distinct_times fs) \<le> with_class duplicate_classification.SAME_TIMESTAMP_DISTINCT_FRAME fs"
    unfolding with_class_def by (metis card_image_le card_length List.finite_set order_trans)
  show ?thesis unfolding Let_def using c 1 2 3 status_partition [of fs] by (simp add: metrics_count_def)
qed

section \<open>One frame per candidate\<close>

interpretation verdict_fold: history_fold "replay_step digest" replay_start "\<lambda>_. True"
  "\<lambda>es (s::replay_state). map cf_candidate (rs_results s) = es
     \<and> (\<forall>i<length es. cf_classification (rs_results s ! i) = UNIQUE \<longleftrightarrow> i = 0)" for digest
proof unfold_locales
  fix es and s :: replay_state and e
  assume inv: "map cf_candidate (rs_results s) = es
     \<and> (\<forall>i<length es. cf_classification (rs_results s ! i) = UNIQUE \<longleftrightarrow> i = 0)"
  then have len: "length (rs_results s) = length es" by auto
  obtain f where f: "rs_results (replay_step digest s e) = rs_results s @ [f]"
    "cf_candidate f = e" "cf_classification f = UNIQUE \<longleftrightarrow> rs_results s = []"
    by (rule that [of "last (rs_results (replay_step digest s e))"])
      (auto simp: replay_step_def Let_def emit_def accept_def split: option.splits prod.splits)
  show "map cf_candidate (rs_results (replay_step digest s e)) = es @ [e]
     \<and> (\<forall>i<length (es @ [e]).
          cf_classification (rs_results (replay_step digest s e) ! i) = UNIQUE \<longleftrightarrow> i = 0)"
    using inv f len by (auto simp: nth_append less_Suc_eq)
qed (simp_all add: replay_start_def)

lemma verdict_candidates: "map cf_candidate (classify_group digest cs) = cs"
  using verdict_fold.fold_inv [where es = cs and digest = digest] by (simp add: classify_group_def)

lemma verdict_unique:
  "i < length cs \<Longrightarrow> cf_classification (classify_group digest cs ! i) = UNIQUE \<longleftrightarrow> i = 0"
  using verdict_fold.fold_inv [where es = cs and digest = digest] by (simp add: classify_group_def)

lemma verdict_length: "length (classify_group digest cs) = length cs"
  using verdict_candidates by (metis length_map)

definition group_frames ::
    "(string \<Rightarrow> string) \<Rightarrow> reconstruction_input \<Rightarrow> frame_topology \<Rightarrow> timestamp_group
     \<Rightarrow> reconstructed_frame list" where
  "group_frames digest p topology g = map fst (fst (reconstruct_group digest p topology g))"

abbreviation input_candidates :: "reconstruction_input \<Rightarrow> timestamp_group \<Rightarrow> frame_candidate list" where
  "input_candidates p g \<equiv>
     fst (build_frame_candidates g (severely_incomplete_below_pct p) (max_frames_per_timestamp p))"

lemma group_frames_eq:
  "group_frames digest p tpl g = map (frame_of g tpl) (classify_group digest (input_candidates p g))"
  by (simp add: group_frames_def reconstruct_group_def Let_def split_beta comp_def)

lemma group_assigned:
  "snd (reconstruct_group digest p tpl g) = total_rows_assigned (input_candidates p g)"
proof -
  have "map (\<lambda>item. length (rows_by_position (cf_candidate item))) (classify_group digest cs) =
      map (\<lambda>c. length (rows_by_position c)) (map cf_candidate (classify_group digest cs))" for cs
    by simp
  then show ?thesis
    by (simp only: verdict_candidates) (simp add: reconstruct_group_def Let_def split_beta total_rows_assigned_def verdict_candidates)
qed

lemma group_frame_rows:
  "mset (concat (map fr_rows (group_frames digest p tpl g))) =
   mset (concat (map (\<lambda>c. dict_values (rows_by_position c)) (input_candidates p g)))"
proof -
  have "mset (concat (map fr_rows (map (frame_of g tpl) fs))) =
      mset (concat (map (\<lambda>c. dict_values (rows_by_position c)) (map cf_candidate fs)))" for fs
    by (induction fs) (simp_all add: frame_of_def fc_rows_def Let_def)
  then show ?thesis unfolding group_frames_eq by (simp only: verdict_candidates)
qed

lemma total_rows_size:
  "total_rows_assigned cs = size (mset (concat (map (\<lambda>c. dict_values (rows_by_position c)) cs)))"
  by (induction cs) (simp_all add: total_rows_assigned_def)

text \<open>The rows a group keeps: all of them, or the first occurrences beyond the limit.\<close>

lemma group_rows_kept:
  assumes "group_wf g"
  shows "mset (concat (map fr_rows (group_frames digest p tpl g))) \<subseteq># mset (tg_rows g)
    \<and> (max_occurrence g \<le> max_frames_per_timestamp p \<longrightarrow>
        mset (concat (map fr_rows (group_frames digest p tpl g))) = mset (tg_rows g))
    \<and> snd (reconstruct_group digest p tpl g) = size (mset (concat (map fr_rows (group_frames digest p tpl g))))"
proof -
  let ?M = "mset (concat (map (\<lambda>c. dict_values (rows_by_position c)) (input_candidates p g)))"
  have "?M \<subseteq># mset (tg_rows g)"
  proof (cases "tg_rows g = [] \<or> max_occurrence g \<le> max_frames_per_timestamp p")
    case True
    moreover have "tg_rows g = [] \<Longrightarrow> input_candidates p g = []"
      by (simp add: build_frame_candidates_def)
    ultimately show ?thesis
      using frames_conserve_rows [OF assms, of "max_frames_per_timestamp p" "severely_incomplete_below_pct p"]
      by auto
  next
    case False
    then obtain c where "input_candidates p g = [c]"
      "mset (dict_values (rows_by_position c)) = mset (filter (\<lambda>r. occurrence_index r = 0) (tg_rows g))"
      using overflow_single [OF assms, of "max_frames_per_timestamp p" "severely_incomplete_below_pct p"] by auto
    then show ?thesis by (simp add: multiset_filter_subset)
  qed
  then show ?thesis
    using frames_conserve_rows [OF assms]
    by (simp add: group_frame_rows group_assigned total_rows_size)
qed

section \<open>The whole file\<close>

abbreviation input_builder :: "reconstruction_input \<Rightarrow> key_builder" where
  "input_builder p \<equiv>
     \<lparr>kb_roles = ri_roles p, kb_serializer = ri_serializer p,
      kb_charger_fallback = charger_id_fallback p\<rparr>"

abbreviation input_keys :: "(string \<Rightarrow> string) \<Rightarrow> reconstruction_input \<Rightarrow> decimal_error + keyed_rows" where
  "input_keys digest p \<equiv>
     build_keys digest (input_builder p) (ri_frame p) (ri_telemetry_file_id p) (ri_event_times p)"

lemma reconstruct_Inr:
  assumes "reconstruct digest d p = Inr out"
  obtains k where "input_keys digest p = Inr k"
    and "map fst (ro_frames out) = concat (map (group_frames digest p (input_topology p k)) (input_groups p k))"
    and "ro_unassigned_rows out = concat (dict_values (unassigned_by_timestamp k)) @ undatable_rows k"
    and "rows_assigned (ro_metrics out) =
      sum_list (map (\<lambda>g. snd (reconstruct_group digest p (input_topology p k) g)) (input_groups p k))"
    and "rows_unassigned (ro_metrics out) = length (ro_unassigned_rows out)"
    and "fm_collision_timestamps (ro_metrics out) = card (distinct_times (map fst (ro_frames out)))"
proof -
  from assms obtain k where k: "input_keys digest p = Inr k"
    by (auto simp: reconstruct_def bind_err_Inr)
  have fr: "concat (map (\<lambda>x. map fst (f x)) gs) = map fst (concat (map f gs))" for f gs
    by (induction gs) auto
  show ?thesis
  proof (rule that [OF k])
    show "map fst (ro_frames out) =
        concat (map (group_frames digest p (input_topology p k)) (input_groups p k))"
      using assms k unfolding reconstruct_def group_frames_def
      by (auto simp: Let_def map_concat comp_def)
  qed (use assms k build_file_metrics_counts in \<open>auto simp: reconstruct_def Let_def comp_def\<close>)
qed

lemma input_groups_wf:
  assumes "input_keys digest p = Inr k" and "g \<in> set (input_groups p k)"
  shows "group_wf g"
proof -
  have "\<forall>(key, rs)\<in>set (by_timestamp k). rows_wf rs"
    using build_keys_group [OF assms(1)] by auto
  then show ?thesis using build_groups_wf assms(2) unfolding input_groups_def by blast
qed

lemma by_timestamp_distinct:
  assumes "build_keys digest kb df fid ets = Inr k"
  shows "distinct (dict_keys (by_timestamp k))"
  using assms by (rule build_keys_inv) (auto simp: keys_inv_def groups_inv_def finish_keys_def)

lemma input_groups_rows:
  assumes "input_keys digest p = Inr k"
  shows "mset (concat (map tg_rows (input_groups p k))) = mset (concat (dict_values (by_timestamp k)))"
proof -
  let ?ks = "sort_key (\<lambda>(c, t). (t, c)) (remdups (dict_keys (by_timestamp k) @ dict_keys (unassigned_by_timestamp k)))"
  have "map tg_rows (input_groups p k) = map (\<lambda>x. dict_get (by_timestamp k) x []) ?ks"
    by (auto simp: input_groups_def build_timestamp_groups_def Let_def)
  then show ?thesis using keyed_values [OF by_timestamp_distinct [OF assms], of ?ks] by simp
qed

lemma concat_subset_mset:
  "(\<And>g. g \<in> set gs \<Longrightarrow> mset (f g) \<subseteq># mset (h g)) \<Longrightarrow> mset (concat (map f gs)) \<subseteq># mset (concat (map h gs))"
  by (induction gs) (auto intro: subset_mset.add_mono)

lemma concat_eq_mset:
  "(\<And>g. g \<in> set gs \<Longrightarrow> mset (f g) = mset (h g)) \<Longrightarrow> mset (concat (map f gs)) = mset (concat (map h gs))"
  by (induction gs) auto

lemma concat_frames: "concat (map fr_rows (concat (map F gs))) = concat (map (\<lambda>g. concat (map fr_rows (F g))) gs)"
  by (induction gs) auto

lemma sum_sizes: "(\<And>g. g \<in> set gs \<Longrightarrow> n g = size (mset (f g))) \<Longrightarrow> sum_list (map n gs) = length (concat (map f gs))"
  by (induction gs) auto

text \<open>
  C1: reconstruction conserves rows. No row of the file appears twice among the frames and the
  unassigned rows, the reported number of assigned rows is the number of rows in frames, and
  unless some timestamp exceeds the frame limit every row of the file appears.
\<close>

lemma reconstruct_conserves_rows:
  assumes "reconstruct digest d p = Inr out"
  shows "mset (map source_row_number (concat (map fr_rows (map fst (ro_frames out))) @ ro_unassigned_rows out))
      \<subseteq># mset [0..<length (df_rows (ri_frame p))]
    \<and> rows_assigned (ro_metrics out) = length (concat (map fr_rows (map fst (ro_frames out))))
    \<and> ((\<forall>k g. input_keys digest p = Inr k \<longrightarrow> g \<in> set (input_groups p k) \<longrightarrow>
           max_occurrence g \<le> max_frames_per_timestamp p) \<longrightarrow>
        mset (map source_row_number (concat (map fr_rows (map fst (ro_frames out))) @ ro_unassigned_rows out))
          = mset [0..<length (df_rows (ri_frame p))])"
proof -
  obtain k where k: "input_keys digest p = Inr k"
    and fs: "map fst (ro_frames out) = concat (map (group_frames digest p (input_topology p k)) (input_groups p k))"
    and un: "ro_unassigned_rows out = concat (dict_values (unassigned_by_timestamp k)) @ undatable_rows k"
    and asg: "rows_assigned (ro_metrics out) =
      sum_list (map (\<lambda>g. snd (reconstruct_group digest p (input_topology p k) g)) (input_groups p k))"
    using reconstruct_Inr [OF assms] .
  let ?F = "\<lambda>g. concat (map fr_rows (group_frames digest p (input_topology p k) g))"
  let ?gs = "input_groups p k" and ?rows = "concat (map fr_rows (map fst (ro_frames out)))"
  have rows: "?rows = concat (map ?F ?gs)" unfolding fs by (rule concat_frames)
  note kept = group_rows_kept [OF input_groups_wf [OF k], of _ digest p "input_topology p k"]
  have sub: "mset ?rows \<subseteq># mset (concat (dict_values (by_timestamp k)))"
    unfolding rows input_groups_rows [OF k, symmetric] using kept by (intro concat_subset_mset) blast
  have eq: "mset ?rows = mset (concat (dict_values (by_timestamp k)))"
    if "\<forall>g\<in>set ?gs. max_occurrence g \<le> max_frames_per_timestamp p"
    unfolding rows input_groups_rows [OF k, symmetric] using kept that by (intro concat_eq_mset) blast
  have all: "mset (map source_row_number (concat (dict_values (by_timestamp k)) @ ro_unassigned_rows out)) =
      mset [0..<length (df_rows (ri_frame p))]"
    using build_keys_rows [OF k] by (simp add: kept_refs_def un)
  have "rows_assigned (ro_metrics out) = length ?rows"
    unfolding asg rows using kept by (intro sum_sizes) blast
  moreover have "mset (map source_row_number (?rows @ ro_unassigned_rows out)) \<subseteq># mset [0..<length (df_rows (ri_frame p))]"
    unfolding all [symmetric] using image_mset_subseteq_mono [OF sub, of source_row_number] by simp
  moreover have "mset (map source_row_number (?rows @ ro_unassigned_rows out)) = mset [0..<length (df_rows (ri_frame p))]"
    if "\<forall>k g. input_keys digest p = Inr k \<longrightarrow> g \<in> set (input_groups p k) \<longrightarrow>
           max_occurrence g \<le> max_frames_per_timestamp p"
  proof -
    have "mset ?rows = mset (concat (dict_values (by_timestamp k)))" using eq that k by blast
    then show ?thesis unfolding all [symmetric] by simp
  qed
  ultimately show ?thesis by blast
qed

section \<open>Order and identity of the frames\<close>

lemma candidate_sequences:
  assumes "group_wf g"
  shows "sorted_wrt (<) (map fc_sequence (fst (build_frame_candidates g below_pct max_frames)))"
proof (cases "tg_rows g = [] \<or> max_occurrence g \<le> max_frames")
  case True
  then show ?thesis
  proof
    assume "tg_rows g = []"
    then show ?thesis by (simp add: build_frame_candidates_def)
  next
    assume m: "max_occurrence g \<le> max_frames"
    show ?thesis
      using candidate_nth [OF assms m refl] by (simp add: sorted_wrt_iff_nth_less)
  qed
next
  case False
  then show ?thesis using overflow_single [OF assms, of max_frames below_pct] by auto
qed

lemma group_frames_ids:
  assumes "group_wf g"
  shows "sorted_wrt (<) (map frame_sequence (group_frames digest p tpl g))"
    and "\<forall>f\<in>set (group_frames digest p tpl g). fr_event_time f = tg_event_time g \<and> fr_charger_id f = tg_charger_id g"
proof -
  have "map frame_sequence (map (frame_of g tpl) fs) = map fc_sequence (map cf_candidate fs)" for fs
    by (simp add: frame_of_def Let_def)
  then have "map frame_sequence (group_frames digest p tpl g) = map fc_sequence (input_candidates p g)"
    unfolding group_frames_eq by (simp only: verdict_candidates)
  then show "sorted_wrt (<) (map frame_sequence (group_frames digest p tpl g))"
    using candidate_sequences [OF assms] by simp
qed (auto simp: group_frames_eq frame_of_def Let_def)

abbreviation frame_key :: "reconstructed_frame \<Rightarrow> datetime \<times> string \<times> nat" where
  "frame_key f \<equiv> (fr_event_time f, fr_charger_id f, frame_sequence f)"

lemma sorted_concat_groups:
  assumes "sorted_wrt (<) (map (\<lambda>g. (tg_event_time g, tg_charger_id g)) gs)"
    and "\<And>g. g \<in> set gs \<Longrightarrow> sorted_wrt (<) (map frame_sequence (F g))"
    and "\<And>g f. g \<in> set gs \<Longrightarrow> f \<in> set (F g) \<Longrightarrow> fr_event_time f = tg_event_time g \<and> fr_charger_id f = tg_charger_id g"
  shows "sorted_wrt (<) (map frame_key (concat (map F gs)))"
  using assms
proof (induction gs)
  case (Cons g gs)
  have "sorted_wrt (\<lambda>f f'. frame_sequence f < frame_sequence f') (F g)"
    using Cons.prems(2) by (simp add: sorted_wrt_map)
  then have "sorted_wrt (\<lambda>f f'. frame_key f < frame_key f') (F g)"
    by (rule sorted_wrt_mono_rel [rotated]) (use Cons.prems(3) [of g] in simp)
  then have "sorted_wrt (<) (map frame_key (F g))" by (simp add: sorted_wrt_map)
  moreover have "frame_key f < frame_key f'" if f: "f \<in> set (F g)" and f': "f' \<in> set (concat (map F gs))" for f f'
  proof -
    obtain h where h: "h \<in> set gs" "f' \<in> set (F h)" using f' by auto
    then have "(tg_event_time g, tg_charger_id g) < (tg_event_time h, tg_charger_id h)"
      using Cons.prems(1) by simp
    then show ?thesis using Cons.prems(3) [of g f] Cons.prems(3) [of h f'] h f by auto
  qed
  moreover have "sorted_wrt (<) (map frame_key (concat (map F gs)))"
    by (rule Cons.IH) (use Cons.prems in \<open>simp_all\<close>)
  ultimately show ?case
    unfolding list.map concat.simps map_append sorted_wrt_append set_map by blast
qed simp

text \<open>
  frames come out in strictly increasing order of event time, charger and sequence, so these three
  identify a frame of the file.
\<close>

lemma reconstruct_order:
  assumes "reconstruct digest d p = Inr out"
  shows "sorted_wrt (<) (map frame_key (map fst (ro_frames out)))"
proof -
  obtain k where k: "input_keys digest p = Inr k"
    and fs: "map fst (ro_frames out) = concat (map (group_frames digest p (input_topology p k)) (input_groups p k))"
    using reconstruct_Inr [OF assms] .
  show ?thesis
    unfolding fs
  proof (rule sorted_concat_groups)
    show "sorted_wrt (<) (map (\<lambda>g. (tg_event_time g, tg_charger_id g)) (input_groups p k))"
      unfolding input_groups_def by (rule build_groups_order)
  qed (use group_frames_ids input_groups_wf [OF k] in blast)+
qed


section \<open>Collisions\<close>

lemma group_class:
  assumes "i < length (group_frames digest p tpl g)"
  shows "fr_classification (group_frames digest p tpl g ! i) = UNIQUE \<longleftrightarrow> i = 0"
  using assms verdict_unique [of i "input_candidates p g" digest]
  by (simp add: group_frames_eq verdict_length frame_of_def Let_def)

lemma length_filter_le_1:
  assumes "distinct (map k xs)" and "\<And>x. x \<in> set xs \<Longrightarrow> P x \<Longrightarrow> k x = a"
  shows "length (filter P xs) \<le> 1"
proof -
  have "distinct (map k (filter P xs))" using assms(1) by (rule distinct_map_filter)
  moreover have "set (map k (filter P xs)) \<subseteq> {a}" using assms(2) by auto
  ultimately show ?thesis
    using card_mono [of "{a}" "set (map k (filter P xs))"] distinct_card by fastforce
qed

lemma filter_concat_length:
  "length (filter P (concat (map F gs))) = sum_list (map (\<lambda>g. length (filter P (F g))) gs)"
  by (induction gs) auto

lemma sum_list_single:
  assumes "\<And>g. g \<in> set gs \<Longrightarrow> (n g :: nat) \<le> (if Q g then 1 else 0)"
  shows "sum_list (map n gs) \<le> length (filter Q gs)"
  using assms
proof (induction gs)
  case (Cons g gs)
  then show ?case using Cons.prems [of g] Cons.IH by (cases "Q g") fastforce+
qed simp

lemma two_members_length:
  assumes "x \<in> set xs" "y \<in> set xs" "x \<noteq> y" "P x" "P y"
  shows "1 < length (filter P xs)"
proof -
  have "{x, y} \<subseteq> set (filter P xs)" using assms by auto
  then have "card {x, y} \<le> card (set (filter P xs))" by (rule card_mono [rotated]) simp
  then show ?thesis using assms(3) card_length [of "filter P xs"] by simp
qed

text \<open>
  Within one charger, a timestamp has several canonical frames exactly when one of its frames was
  classified as a distinct observation.
\<close>

lemma collision_iff:
  assumes "reconstruct digest d p = Inr out"
    and one: "\<forall>f\<in>set (map fst (ro_frames out)). fr_charger_id f = c"
  shows "1 < length (filter (\<lambda>f. frame_is_canonical f \<and> fr_event_time f = t) (map fst (ro_frames out)))
    \<longleftrightarrow> t \<in> distinct_times (map fst (ro_frames out))"
proof -
  obtain k where k: "input_keys digest p = Inr k"
    and fs: "map fst (ro_frames out) = concat (map (group_frames digest p (input_topology p k)) (input_groups p k))"
    using reconstruct_Inr [OF assms(1)] .
  let ?F = "group_frames digest p (input_topology p k)" and ?gs = "input_groups p k"
  let ?P = "\<lambda>f. frame_is_canonical f \<and> fr_event_time f = t"
  have ids: "fr_event_time f = tg_event_time g \<and> fr_charger_id f = tg_charger_id g"
    if "g \<in> set ?gs" "f \<in> set (?F g)" for g f
    using group_frames_ids(2) [OF input_groups_wf [OF k that(1)]] that(2) by blast
  show ?thesis unfolding fs
  proof
    assume many: "1 < length (filter ?P (concat (map ?F ?gs)))"
    show "t \<in> distinct_times (concat (map ?F ?gs))"
    proof (rule ccontr)
      assume none: "t \<notin> distinct_times (concat (map ?F ?gs))"
      let ?Q = "\<lambda>g. tg_event_time g = t \<and> ?F g \<noteq> []"
      have "length (filter ?P (?F g)) \<le> (if ?Q g then 1 else 0)" if g: "g \<in> set ?gs" for g
      proof (cases "?Q g")
        case True
        have "f = ?F g ! 0" if f: "f \<in> set (?F g)" "?P f" for f
        proof -
          have "fr_classification f \<noteq> duplicate_classification.SAME_TIMESTAMP_DISTINCT_FRAME"
            using none f g unfolding distinct_times_def by auto
          then have "fr_classification f = UNIQUE"
            using f(2) by (simp add: frame_is_canonical_def canonical_class_def)
          then show ?thesis using f(1) group_class by (metis in_set_conv_nth)
        qed
        moreover have "distinct (map frame_sequence (?F g))"
          using group_frames_ids(1) [OF input_groups_wf [OF k g]] by (simp add: strict_sorted_iff)
        ultimately have "length (filter ?P (?F g)) \<le> 1"
          by (intro length_filter_le_1 [where k = frame_sequence and a = "frame_sequence (?F g ! 0)"]) auto
        then show ?thesis using True by simp
      next
        case False
        then show ?thesis using ids [OF g] by (auto simp: filter_empty_conv)
      qed
      then have "length (filter ?P (concat (map ?F ?gs))) \<le> length (filter ?Q ?gs)"
        unfolding filter_concat_length by (rule sum_list_single)
      moreover have "length (filter ?Q ?gs) \<le> 1"
      proof (rule length_filter_le_1 [where a = "(t, c)"])
        show "distinct (map (\<lambda>g. (tg_event_time g, tg_charger_id g)) ?gs)"
          using build_groups_order unfolding input_groups_def strict_sorted_iff by blast
        fix g assume g: "g \<in> set ?gs" "?Q g"
        then obtain f where "f \<in> set (?F g)" by (cases "?F g") auto
        then have "fr_charger_id f = c" "fr_charger_id f = tg_charger_id g"
          using one ids g(1) unfolding fs by auto
        then show "(tg_event_time g, tg_charger_id g) = (t, c)" using g(2) by simp
      qed
      ultimately show False using many by linarith
    qed
  next
    assume "t \<in> distinct_times (concat (map ?F ?gs))"
    then obtain g f where gf: "g \<in> set ?gs" "f \<in> set (?F g)" "fr_event_time f = t"
      "fr_classification f = duplicate_classification.SAME_TIMESTAMP_DISTINCT_FRAME"
      by (auto simp: distinct_times_def)
    let ?u = "?F g ! 0"
    have 0: "0 < length (?F g)" using gf(2) by auto
    then have u: "?u \<in> set (?F g)" "fr_classification ?u = UNIQUE" using group_class [OF 0] by simp_all
    then have "1 < length (filter ?P (?F g))"
      using gf ids [OF gf(1)] by (intro two_members_length [of ?u _ f])
        (auto simp: frame_is_canonical_def canonical_class_def)
    also have "\<dots> \<le> sum_list (map (\<lambda>g. length (filter ?P (?F g))) ?gs)"
      using gf(1) by (intro member_le_sum_list) auto
    finally show "1 < length (filter ?P (concat (map ?F ?gs)))" unfolding filter_concat_length .
  qed
qed

lemma collision_mem:
  "set (collision_timestamps out) =
     {t. 1 < length (filter (\<lambda>f. frame_is_canonical f \<and> fr_event_time f = t) (map fst (ro_frames out)))}"
  and collision_distinct: "distinct (collision_timestamps out)"
proof -
  let ?ts = "map fr_event_time (outcome_canonical_frames out)"
  have cnt: "count_list ?ts t = length (filter (\<lambda>f. frame_is_canonical f \<and> fr_event_time f = t) (map fst (ro_frames out)))" for t
  proof -
    have c: "count_list (map fr_event_time fs) t = length (filter (\<lambda>f. fr_event_time f = t) fs)" for fs
      by (induction fs) auto
    show ?thesis unfolding outcome_canonical_frames_def c filter_filter ..
  qed
  have "t \<in> set (collision_timestamps out) \<longleftrightarrow> 1 < count_list ?ts t" for t
  proof
    assume "t \<in> set (collision_timestamps out)"
    then obtain n where "(t, n) \<in> set (tally ?ts)" "1 < n" by (auto simp: collision_timestamps_def)
    then show "1 < count_list ?ts t" using dict_get_mem [OF tally_distinct, of t n ?ts 0] by (simp add: tally_get)
  next
    assume c: "1 < count_list ?ts t"
    then have "t \<in> set ?ts" by (metis count_notin less_zeroE)
    then have "(t, count_list ?ts t) \<in> set (tally ?ts)"
      using mem_dict_get [of t "tally ?ts" 0] unfolding tally_keys tally_get by simp
    then show "t \<in> set (collision_timestamps out)" using c by (force simp: collision_timestamps_def)
  qed
  then show "set (collision_timestamps out) =
     {t. 1 < length (filter (\<lambda>f. frame_is_canonical f \<and> fr_event_time f = t) (map fst (ro_frames out)))}"
    unfolding cnt by blast
  show "distinct (collision_timestamps out)"
    unfolding collision_timestamps_def by (simp add: distinct_map_filter tally_distinct)
qed

text \<open>
  for a file of one charger the two collision reports agree: the timestamps with several canonical
  frames are those with a frame classified as a distinct observation, and as many as the metrics
  count.
\<close>

lemma collision_counts_agree:
  assumes "reconstruct digest d p = Inr out"
    and "\<forall>f\<in>set (map fst (ro_frames out)). fr_charger_id f = c"
  shows "set (collision_timestamps out) = distinct_times (map fst (ro_frames out))
    \<and> length (collision_timestamps out) = fm_collision_timestamps (ro_metrics out)"
proof -
  have s: "set (collision_timestamps out) = distinct_times (map fst (ro_frames out))"
    unfolding collision_mem using collision_iff [OF assms] by blast
  then show ?thesis
    using reconstruct_Inr [OF assms(1)] collision_distinct distinct_card by metis
qed

section \<open>Readings\<close>

lemma set_concat_frames_rows:
  "set (fr_rows (frame_of g tpl item)) = set (dict_values (rows_by_position (cf_candidate item)))"
  by (simp add: frame_of_def Let_def fc_rows_def)

definition readings :: "reconstructed_frame list \<Rightarrow> (string \<times> datetime \<times> logical_position \<times> string) set" where
  "readings fs = \<Union> (set (map (\<lambda>f. (\<lambda>r. (fr_charger_id f, fr_event_time f, position r, row_fingerprint r)) ` set (fr_rows f)) fs))"

lemma group_readings:
  assumes "inj digest" and wf: "group_wf g" and "max_occurrence g \<le> max_frames_per_timestamp p"
    and "\<forall>r\<in>set (tg_rows g). clean_row r"
  shows "readings (filter frame_is_canonical (group_frames digest p tpl g)) =
    (\<lambda>r. (tg_charger_id g, tg_event_time g, position r, row_fingerprint r)) ` set (tg_rows g)"
proof -
  let ?cs = "input_candidates p g"
  let ?R = "filter cf_is_canonical (classify_group digest ?cs)"
  have can: "filter frame_is_canonical (group_frames digest p tpl g) = map (frame_of g tpl) ?R"
  proof -
    have "frame_is_canonical \<circ> frame_of g tpl = cf_is_canonical"
      by (rule ext) (simp add: frame_is_canonical_def canonical_class_def cf_is_canonical_def frame_of_def Let_def)
    then show ?thesis unfolding group_frames_eq filter_map by simp
  qed
  have pay: "set (payload_of c) = (\<lambda>r. (position r, row_fingerprint r)) ` set (dict_values (rows_by_position c))"
    if c: "c \<in> set ?cs" for c
  proof -
    obtain i where "i < length ?cs" "c = ?cs ! i" using c by (metis in_set_conv_nth)
    then have "\<forall>(p, r)\<in>set (rows_by_position c). position r = p"
      using frames_nested_shape [OF wf assms(3) refl, of i "severely_incomplete_below_pct p"] by auto
    then show ?thesis by (force simp: payload_of_def)
  qed
  let ?pair = "\<lambda>(pos, f). (tg_charger_id g, tg_event_time g, pos, f)"
  have "readings (map (frame_of g tpl) ?R) = ?pair ` observations (map cf_candidate ?R)"
  proof -
    have "(\<lambda>r. (fr_charger_id (frame_of g tpl f), fr_event_time (frame_of g tpl f), position r, row_fingerprint r)) ` set (fr_rows (frame_of g tpl f))
        = ?pair ` set (payload_of (cf_candidate f))" if f: "f \<in> set ?R" for f
    proof -
      have "cf_candidate f \<in> set ?cs" using f verdict_candidates [of digest ?cs] by (metis filter_is_subset image_eqI list.set_map subsetD)
      then show ?thesis unfolding set_concat_frames_rows pay [OF \<open>cf_candidate f \<in> set ?cs\<close>]
        by (simp add: image_image frame_of_def Let_def)
    qed
    then show ?thesis by (auto simp: readings_def observations_def)
  qed
  also have "observations (map cf_candidate ?R) = (\<lambda>r. (position r, row_fingerprint r)) ` set (tg_rows g)"
    using assms replay_keeps_observations by blast
  finally show ?thesis unfolding can by (simp add: image_image)
qed

lemma readings_concat: "readings (filter P (concat (map F gs))) = (\<Union>g\<in>set gs. readings (filter P (F g)))"
  by (induction gs) (auto simp: readings_def)

text \<open>
  C2: with a collision-free digest, position labels without a slash in an identifier and no timestamp beyond
  the frame limit, consuming only the canonical frames of a file loses no reading: the readings (charger,
  time, position, row fingerprint) in canonical frames are exactly those of the assigned rows. Without the
  second condition a reading can be lost (\<open>Replay.label_collision\<close>), and without the third
  (\<open>FrameBuilder.overflow_frame\<close>).
\<close>

lemma reconstruct_keeps_readings:
  assumes "inj digest" and "reconstruct digest d p = Inr out" and "input_keys digest p = Inr k"
    and "\<forall>g\<in>set (input_groups p k). max_occurrence g \<le> max_frames_per_timestamp p"
    and "\<forall>r\<in>set (kept_refs k). clean_row r"
  shows "readings (outcome_canonical_frames out) =
    {(c, t, position r, row_fingerprint r) | c t r rs. ((c, t), rs) \<in> set (by_timestamp k) \<and> r \<in> set rs}"
proof -
  have fs: "map fst (ro_frames out) = concat (map (group_frames digest p (input_topology p k)) (input_groups p k))"
    using reconstruct_Inr [OF assms(2)] assms(3) by auto
  have rows: "tg_rows g = dict_get (by_timestamp k) (tg_charger_id g, tg_event_time g) []"
    if "g \<in> set (input_groups p k)" for g
    using that by (auto simp: input_groups_def build_timestamp_groups_def Let_def)
  have dist: "distinct (dict_keys (by_timestamp k))" using by_timestamp_distinct [OF assms(3)] .
  have in_rows: "(\<exists>rs. ((c, t), rs) \<in> set (by_timestamp k) \<and> r \<in> set rs) \<longleftrightarrow>
      r \<in> set (dict_get (by_timestamp k) (c, t) [])" for c t r
  proof
    assume "\<exists>rs. ((c, t), rs) \<in> set (by_timestamp k) \<and> r \<in> set rs"
    then show "r \<in> set (dict_get (by_timestamp k) (c, t) [])" using dict_get_mem [OF dist] by metis
  next
    assume r: "r \<in> set (dict_get (by_timestamp k) (c, t) [])"
    then show "\<exists>rs. ((c, t), rs) \<in> set (by_timestamp k) \<and> r \<in> set rs"
      by (cases "map_of (by_timestamp k) (c, t)") (auto simp: dict_get_def dest: map_of_SomeD)
  qed
  have group: "\<exists>g\<in>set (input_groups p k). tg_charger_id g = c \<and> tg_event_time g = t"
    if "((c, t), rs) \<in> set (by_timestamp k)" for c t rs
    using that by (force simp: input_groups_def build_timestamp_groups_def Let_def)
  have clean: "\<forall>r\<in>set (tg_rows g). clean_row r" if g: "g \<in> set (input_groups p k)" for g
  proof
    fix r assume "r \<in> set (tg_rows g)"
    then have "\<exists>rs. ((tg_charger_id g, tg_event_time g), rs) \<in> set (by_timestamp k) \<and> r \<in> set rs"
      using rows [OF g] in_rows by simp
    then show "clean_row r" using assms(5) by (force simp: kept_refs_def)
  qed
  have "readings (outcome_canonical_frames out) =
      (\<Union>g\<in>set (input_groups p k). (\<lambda>r. (tg_charger_id g, tg_event_time g, position r, row_fingerprint r)) ` set (tg_rows g))"
    unfolding outcome_canonical_frames_def fs readings_concat
    using group_readings [OF assms(1) input_groups_wf [OF assms(3)]] assms(4) clean by simp
  also have "\<dots> = {(c, t, position r, row_fingerprint r) | c t r. \<exists>rs. ((c, t), rs) \<in> set (by_timestamp k) \<and> r \<in> set rs}"
    (is "?A = ?B")
  proof
    show "?A \<subseteq> ?B" using rows in_rows by fastforce
    show "?B \<subseteq> ?A"
    proof
      fix x assume "x \<in> ?B"
      then obtain c t r rs where x: "x = (c, t, position r, row_fingerprint r)" "((c, t), rs) \<in> set (by_timestamp k)" "r \<in> set rs"
        by blast
      obtain g where g: "g \<in> set (input_groups p k)" "tg_charger_id g = c" "tg_event_time g = t"
        using group [OF x(2)] by blast
      then have "r \<in> set (tg_rows g)" using rows [OF g(1)] in_rows x by auto
      then show "x \<in> ?A" using g x(1) by blast
    qed
  qed
  finally show ?thesis by blast
qed

text \<open>Inputs for the witnesses.\<close>

definition swap_char :: "char \<Rightarrow> char" where
  "swap_char c =
     (if c = CHR ''='' then CHR ''~'' else if c = CHR ''~'' then CHR ''=''
      else if c = CHR 0x1E then CHR ''!'' else if c = CHR ''!'' then CHR 0x1E else c)"

definition demo_digest :: "string \<Rightarrow> string" where
  "demo_digest = map swap_char"

lemma demo_digest_inj: "inj demo_digest"
proof (rule inj_on_inverseI [where g = "map swap_char"])
  have "swap_char (swap_char c) = c" for c by (simp add: swap_char_def)
  then show "map swap_char (demo_digest s) = s" for s by (induction s) (simp_all add: demo_digest_def)
qed

definition demo_input :: reconstruction_input where
  "demo_input =
     \<lparr>ri_frame = demo_frame, ri_event_times = demo_times, ri_roles = demo_roles,
      ri_serializer = demo_serializer, ri_telemetry_file_id = None,
      charger_id_fallback = Some ''CH1'', charger_connector_count = None, charger_smr_count = None,
      default_connector_count = None, default_smr_count = None,
      severely_incomplete_below_pct = 50, max_frames_per_timestamp = 64\<rparr>"

section \<open>Witnesses and counterexamples\<close>

lemma demo_reconstruction:
  obtains out k c t r rs d where "reconstruct demo_digest 0 demo_input = Inr out" "input_keys demo_digest demo_input = Inr k"
    "\<forall>g\<in>set (input_groups demo_input k). max_occurrence g \<le> max_frames_per_timestamp demo_input"
    "\<forall>r\<in>set (kept_refs k). clean_row r"
    "map (\<lambda>f. (frame_key f, fr_classification f)) (map fst (ro_frames out)) =
      [((0, ''CH1'', 0), UNIQUE), ((0, ''CH1'', 1), duplicate_classification.PARTIAL_FRAME_REPLAY)]"
    "by_timestamp k = ((c, t), r # rs) # d"
proof -
  have "case (reconstruct demo_digest 0 demo_input, input_keys demo_digest demo_input) of
      (Inr out, Inr k) \<Rightarrow>
        (\<forall>g\<in>set (input_groups demo_input k). max_occurrence g \<le> max_frames_per_timestamp demo_input)
        \<and> (\<forall>r\<in>set (kept_refs k). clean_row r)
        \<and> map (\<lambda>f. (frame_key f, fr_classification f)) (map fst (ro_frames out)) =
            [((0, ''CH1'', 0), UNIQUE), ((0, ''CH1'', 1), duplicate_classification.PARTIAL_FRAME_REPLAY)]
        \<and> by_timestamp k \<noteq> [] \<and> snd (hd (by_timestamp k)) \<noteq> []
    | _ \<Rightarrow> False"
    by code_simp
  then obtain out k where k: "reconstruct demo_digest 0 demo_input = Inr out" "input_keys demo_digest demo_input = Inr k"
      "\<forall>g\<in>set (input_groups demo_input k). max_occurrence g \<le> max_frames_per_timestamp demo_input"
      "\<forall>r\<in>set (kept_refs k). clean_row r"
      "map (\<lambda>f. (frame_key f, fr_classification f)) (map fst (ro_frames out)) =
        [((0, ''CH1'', 0), UNIQUE), ((0, ''CH1'', 1), duplicate_classification.PARTIAL_FRAME_REPLAY)]"
      "by_timestamp k \<noteq> []" "snd (hd (by_timestamp k)) \<noteq> []"
    by (cases "reconstruct demo_digest 0 demo_input"; cases "input_keys demo_digest demo_input") simp_all
  moreover obtain c t r rs where "hd (by_timestamp k) = ((c, t), r # rs)"
    using k(7) by (metis list.exhaust prod.collapse)
  then have "by_timestamp k = ((c, t), r # rs) # tl (by_timestamp k)" using k(6) by (metis list.collapse)
  ultimately show thesis using that by (metis (no_types, lifting))
qed

definition two_charger_input :: reconstruction_input where
  "two_charger_input = demo_input
     \<lparr>ri_frame :=
        \<lparr>df_columns = [''charger_id'', ''connector_id'', ''smr_id'', ''volt''],
         df_rows =
           [[RText ''CH1'', RText ''1'', RText ''1'', RText ''10''],
            [RText ''CH2'', RText ''1'', RText ''1'', RText ''20'']]\<rparr>,
      ri_roles :=
        \<lparr>resolved = (CHARGER_ID, \<lparr>rc_role = CHARGER_ID, rc_canonical_name = ''charger_id'',
            rc_source_name = ''charger_id'', rc_position = 0, matched_by = ''name''\<rparr>) # resolved demo_roles,
         missing_required = []\<rparr>,
      ri_event_times := [Some 0, Some 0]\<rparr>"

text \<open>
  the two collision reports disagree on a file of two chargers. Two unique frames of different
  chargers at one instant are reported as a collision by the outcome and not by the metrics.
\<close>

lemma collision_across_chargers:
  "\<exists>out. reconstruct demo_digest 0 two_charger_input = Inr out
     \<and> collision_timestamps out = [0] \<and> fm_collision_timestamps (ro_metrics out) = 0
     \<and> list_all (\<lambda>f. fr_classification f = UNIQUE) (map fst (ro_frames out))"
proof -
  have "case reconstruct demo_digest 0 two_charger_input of Inl _ \<Rightarrow> False | Inr out \<Rightarrow>
     collision_timestamps out = [0] \<and> fm_collision_timestamps (ro_metrics out) = 0
     \<and> list_all (\<lambda>f. fr_classification f = UNIQUE) (map fst (ro_frames out))"
    by code_simp
  then show ?thesis by (cases "reconstruct demo_digest 0 two_charger_input") simp_all
qed

text \<open>
  one cell that cannot be canonicalised aborts the reconstruction of its whole file: the exception
  is raised while the keys are built, outside the loop that contains failures.
\<close>

lemma one_bad_cell:
  assumes "row \<in> set (df_rows (ri_frame p))" and "(name, raw) \<in> set (zip (df_columns (ri_frame p)) row)"
    and "name \<notin> excluded_fields (ri_serializer p)"
    and "canonical_value (ri_serializer p) name raw = Inl e"
  shows "\<exists>e'. reconstruct digest d p = Inl e'"
proof -
  have "\<exists>e'. canonical_row (ri_serializer p) (df_columns (ri_frame p)) row = Inl e'"
    using traverse_Inl [of "(name, raw)" "filter (\<lambda>(name, raw). name \<notin> excluded_fields (ri_serializer p)) (zip (df_columns (ri_frame p)) row)"
      "\<lambda>(name, raw). bind_err (canonical_value (ri_serializer p) name raw) (\<lambda>v. Inr (name @ ''='' @ v))" e] assms(2-4)
    by (auto simp: canonical_row_def)
  then obtain e1 where "row_fingerprint_of digest (ri_serializer p) (df_columns (ri_frame p)) row = Inl e1"
    by (auto simp: row_fingerprint_of_def)
  from traverse_Inl [OF assms(1), of "row_fingerprint_of digest (ri_serializer p) (df_columns (ri_frame p))", OF this]
  show ?thesis by (auto simp: reconstruct_def build_keys_def)
qed

lemma one_bad_cell_witness:
  "\<exists>e. reconstruct demo_digest 0 (demo_input\<lparr>ri_frame := demo_frame\<lparr>df_rows :=
      [[RText ''1'', RText ''1'', RText (''1e'' @ nat_str 28)]]\<rparr>\<rparr>) = Inl e"
proof -
  let ?p = "demo_input\<lparr>ri_frame := demo_frame\<lparr>df_rows :=
      [[RText ''1'', RText ''1'', RText (''1e'' @ nat_str 28)]]\<rparr>\<rparr>"
  have n: "nat_str 28 = ''28''" by code_simp
  have "\<not> is_null demo_serializer (RText ''1e28'')" "py_strip ''1e28'' = ''1e28''"
     "dict_get (field_types demo_serializer) ''volt'' canonical_data_type.UNKNOWN = canonical_data_type.FLOAT"
    "type_is_numeric canonical_data_type.FLOAT" by code_simp+
  moreover have "canonical_number ''1e28'' = Inl InvalidOperation" using power_of_ten_number [of 28] unfolding n by simp
  ultimately have "canonical_value demo_serializer ''volt'' (RText ''1e28'') = Inl InvalidOperation"
    by (simp add: canonical_value_def Let_def number_or_text_def)
  then show ?thesis
    by (intro one_bad_cell [where row = "[RText ''1'', RText ''1'', RText (''1e'' @ nat_str 28)]" and name = "''volt''"
          and raw = "RText (''1e'' @ nat_str 28)" and e = InvalidOperation])
      (simp_all add: n demo_input_def demo_frame_def demo_serializer_def del: nat_str.simps)
qed

lemma reconstruct_conserves_rows_witness:
  "\<exists>out. reconstruct demo_digest 0 demo_input = Inr out
     \<and> mset (map source_row_number (concat (map fr_rows (map fst (ro_frames out))) @ ro_unassigned_rows out))
         = mset [0..<5]"
proof (rule demo_reconstruction)
  fix out k and c :: string and t :: int and r :: raw_row_ref and rs d
  assume a: "reconstruct demo_digest 0 demo_input = Inr out" "input_keys demo_digest demo_input = Inr k"
    "\<forall>g\<in>set (input_groups demo_input k). max_occurrence g \<le> max_frames_per_timestamp demo_input"
  have "length (df_rows (ri_frame demo_input)) = 5" by (simp add: demo_input_def demo_frame_def)
  moreover have "\<forall>k g. input_keys demo_digest demo_input = Inr k \<longrightarrow> g \<in> set (input_groups demo_input k) \<longrightarrow>
      max_occurrence g \<le> max_frames_per_timestamp demo_input" using a(2,3) by auto
  ultimately show ?thesis using reconstruct_conserves_rows [OF a(1)] a(1) by (metis (no_types, lifting))
qed

lemma reconstruct_order_witness:
  "\<exists>out. reconstruct demo_digest 0 demo_input = Inr out \<and> length (ro_frames out) = 2
     \<and> sorted_wrt (<) (map frame_key (map fst (ro_frames out)))"
proof (rule demo_reconstruction)
  fix out k and c :: string and t :: int and r :: raw_row_ref and rs d
  assume a: "reconstruct demo_digest 0 demo_input = Inr out"
    "map (\<lambda>f. (frame_key f, fr_classification f)) (map fst (ro_frames out)) =
      [((0, ''CH1'', 0), UNIQUE), ((0, ''CH1'', 1), duplicate_classification.PARTIAL_FRAME_REPLAY)]"
  have "length (ro_frames out) = 2" using arg_cong [OF a(2), of length] by simp
  then show ?thesis using reconstruct_order [OF a(1)] a(1) by blast
qed

lemma collision_counts_agree_witness:
  "\<exists>out. reconstruct demo_digest 0 demo_input = Inr out
     \<and> length (collision_timestamps out) = fm_collision_timestamps (ro_metrics out)"
proof (rule demo_reconstruction)
  fix out k and c :: string and t :: int and r :: raw_row_ref and rs d
  assume a: "reconstruct demo_digest 0 demo_input = Inr out"
    "map (\<lambda>f. (frame_key f, fr_classification f)) (map fst (ro_frames out)) =
      [((0, ''CH1'', 0), UNIQUE), ((0, ''CH1'', 1), duplicate_classification.PARTIAL_FRAME_REPLAY)]"
  have "\<forall>f\<in>set (map fst (ro_frames out)). fr_charger_id f = ''CH1''"
    using a(2) by (auto simp: Cons_eq_map_conv)
  then show ?thesis using collision_counts_agree [OF a(1)] a(1) by blast
qed

lemma reconstruct_keeps_readings_witness:
  "\<exists>out. reconstruct demo_digest 0 demo_input = Inr out \<and> readings (outcome_canonical_frames out) \<noteq> {}"
proof (rule demo_reconstruction)
  fix out k and c :: string and t :: int and r :: raw_row_ref and rs d
  assume a: "reconstruct demo_digest 0 demo_input = Inr out" "input_keys demo_digest demo_input = Inr k"
    "\<forall>g\<in>set (input_groups demo_input k). max_occurrence g \<le> max_frames_per_timestamp demo_input"
    "\<forall>r\<in>set (kept_refs k). clean_row r" and k: "by_timestamp k = ((c, t), r # rs) # d"
  have "(c, t, position r, row_fingerprint r) \<in> readings (outcome_canonical_frames out)"
    unfolding reconstruct_keeps_readings [OF demo_digest_inj a(1-4)] using k by force
  then show ?thesis using a(1) by blast
qed

end
