(* ===== verification/Transitions.thy ===== *)
theory Transitions
  imports Enums
begin

text \<open>
  Discrete events between neighbouring observations: the telemetry gap of
  \<open>pipelines/events/models.py\<close>, the state transitions of \<open>state_transition_detector.py\<close> and the
  configuration changes of \<open>config_change_detector.py\<close>.

  Both detectors keep the previous observation and advance it in every round, so they walk the
  neighbouring pairs of the sorted observations. A JSON null is \<open>None\<close>, which is also what
  \<open>dict.get\<close> returns for an absent key.
\<close>

section \<open>Gaps\<close>

record gap_interval =
  gap_start_time :: datetime
  gap_end_time :: datetime

definition gap_duration_seconds :: "gap_interval \<Rightarrow> pyfloat" where
  "gap_duration_seconds g = total_seconds (gap_end_time g - gap_start_time g)"

definition overlaps :: "gap_interval \<Rightarrow> datetime \<Rightarrow> datetime option \<Rightarrow> bool" where
  "overlaps g start finish =
     (case finish of
        None \<Rightarrow> gap_end_time g \<ge> start
      | Some e \<Rightarrow> \<not> (gap_end_time g \<le> start \<or> gap_start_time g \<ge> e))"

section \<open>State transitions\<close>

record 'f state_observation =
  so_event_time :: datetime
  so_frame_sequence :: int
  state_val :: "string option"
  so_frame_id :: "'f option"

record 'f state_transition =
  st_charger_id :: string
  st_component_type :: string
  st_component_id :: "int option"
  state_field :: string
  from_state :: "string option"
  to_state :: string
  transition_time :: datetime
  st_frame_sequence :: int
  st_frame_id :: "'f option"

definition observation_order :: "'f state_observation \<Rightarrow> datetime \<times> int" where
  "observation_order ob = (so_event_time ob, so_frame_sequence ob)"

definition reading :: "'f state_observation \<Rightarrow> string option" where
  "reading ob = map_option py_strip (state_val ob)"

definition transition_of ::
    "string \<Rightarrow> string \<Rightarrow> int option \<Rightarrow> string
     \<Rightarrow> 'f state_observation \<times> 'f state_observation \<Rightarrow> 'f state_transition list" where
  "transition_of charger ctype cid fld = (\<lambda>(prev, curr).
     (case reading curr of
        None \<Rightarrow> []
      | Some v \<Rightarrow>
          if Some v = reading prev then []
          else [\<lparr>st_charger_id = charger, st_component_type = ctype, st_component_id = cid,
                 state_field = fld, from_state = reading prev, to_state = v,
                 transition_time = so_event_time curr, st_frame_sequence = so_frame_sequence curr,
                 st_frame_id = so_frame_id curr\<rparr>]))"

definition detect_transitions ::
    "string \<Rightarrow> string \<Rightarrow> int option \<Rightarrow> string \<Rightarrow> 'f state_observation list \<Rightarrow> 'f state_transition list" where
  "detect_transitions charger ctype cid fld observations =
     (if length observations < 2 then []
      else concat (map (transition_of charger ctype cid fld)
             (pairs (sort_key observation_order observations))))"

section \<open>Configuration changes\<close>

record 'v config_snapshot =
  cs_event_time :: datetime
  config_hash :: string
  config_json :: "(string, 'v option) pydict"

record 'v config_change =
  cc_charger_id :: string
  change_time :: datetime
  old_config_hash :: string
  new_config_hash :: string
  changed_fields :: "(string, 'v option \<times> 'v option) pydict"
  previous_config :: "(string, 'v option) pydict"
  new_config :: "(string, 'v option) pydict"
  cc_version :: string

definition json_get :: "(string, 'v option) pydict \<Rightarrow> string \<Rightarrow> 'v option" where
  "json_get d k = dict_get d k None"

definition config_diff ::
    "(string, 'v option) pydict \<Rightarrow> (string, 'v option) pydict \<Rightarrow> (string, 'v option \<times> 'v option) pydict" where
  "config_diff old new =
     concat (map (\<lambda>k. if json_get old k \<noteq> json_get new k then [(k, (json_get old k, json_get new k))] else [])
       (sort (remdups (dict_keys old @ dict_keys new))))"

definition change_of ::
    "string \<Rightarrow> string \<Rightarrow> 'v config_snapshot \<times> 'v config_snapshot \<Rightarrow> 'v config_change list" where
  "change_of version charger = (\<lambda>(prev, curr).
     (if config_hash curr \<noteq> config_hash prev
      then let diff = config_diff (config_json prev) (config_json curr)
           in if diff = [] then []
              else [\<lparr>cc_charger_id = charger, change_time = cs_event_time curr,
                     old_config_hash = config_hash prev, new_config_hash = config_hash curr,
                     changed_fields = diff, previous_config = config_json prev,
                     new_config = config_json curr, cc_version = version\<rparr>]
      else []))"

definition detect_changes :: "string \<Rightarrow> string \<Rightarrow> 'v config_snapshot list \<Rightarrow> 'v config_change list" where
  "detect_changes version charger snapshots =
     (if length snapshots < 2 then []
      else concat (map (change_of version charger) (pairs (sort_key cs_event_time snapshots))))"

section \<open>Replaying the transitions\<close>

text \<open>
  When every reading is present, the transitions are a chain: each starts in the state the one
  before it ended in, from the first reading to the last.
\<close>

fun chained :: "'s option \<Rightarrow> ('s option \<times> 's) list \<Rightarrow> 's option \<Rightarrow> bool" where
  "chained s [] t = (s = t)"
| "chained s ((a, b) # cs) t = (s = a \<and> a \<noteq> Some b \<and> chained (Some b) cs t)"

lemma chained_append: "chained s (cs @ ds) t \<longleftrightarrow> (\<exists>m. chained s cs m \<and> chained m ds t)"
  by (induction cs arbitrary: s) auto

lemma transitions_chained:
  assumes "obs \<noteq> []" and "\<forall>ob\<in>set obs. state_val ob \<noteq> None"
  shows "chained (reading (hd obs))
      (map (\<lambda>t. (from_state t, to_state t)) (concat (map (transition_of charger ctype cid fld) (pairs obs))))
      (reading (last obs))"
  using assms
proof (induction obs rule: induct_list012)
  case (3 a b obs)
  then have "chained (reading b)
      (map (\<lambda>t. (from_state t, to_state t)) (concat (map (transition_of charger ctype cid fld) (pairs (b # obs)))))
      (reading (last (b # obs)))" by simp
  moreover obtain v where "reading b = Some v" using 3 by (auto simp: reading_def)
  ultimately show ?case by (auto simp: transition_of_def)
qed simp_all

text \<open>
  If every observation carries a reading, the reported transitions form a chain from the
  first reading in time to the last one: each starts where the one before ended and changes the
  state, so replaying them reproduces the final state.
\<close>

theorem transitions_replay:
  assumes "2 \<le> length observations" and "\<forall>ob\<in>set observations. state_val ob \<noteq> None"
  shows "chained (reading (hd (sort_key observation_order observations)))
    (map (\<lambda>t. (from_state t, to_state t)) (detect_transitions charger ctype cid fld observations))
    (reading (last (sort_key observation_order observations)))"
proof -
  have "sort_key observation_order observations \<noteq> []"
    using assms(1) by (metis length_sort list.size(3) not_numeral_le_zero)
  then show ?thesis
    using transitions_chained [of "sort_key observation_order observations"] assms
    by (simp add: detect_transitions_def)
qed

text \<open>An absent reading in between makes an unchanged state look like a transition.\<close>

definition state_at :: "int \<Rightarrow> string option \<Rightarrow> nat state_observation" where
  "state_at t v = \<lparr>so_event_time = t, so_frame_sequence = 0, state_val = v, so_frame_id = None\<rparr>"

lemma missing_reading_transition:
  "map (\<lambda>t. (from_state t, to_state t)) (detect_transitions ''c'' ''connector'' (Some 1) ''status''
     [state_at 0 (Some ''idle''), state_at 1 None, state_at 2 (Some ''idle'')]) = [(None, ''idle'')]"
  by code_simp

theorem transitions_replay_witness:
  "chained (Some ''idle'') [(Some ''idle'', ''busy''), (Some ''busy'', ''idle'')] (Some ''idle'')"
proof -
  let ?obs = "[state_at 5 (Some ''busy ''), state_at 0 (Some ''idle''), state_at 9 (Some ''idle''), state_at 7 (Some ''busy'')]"
  have "2 \<le> length ?obs \<and> (\<forall>ob\<in>set ?obs. state_val ob \<noteq> None)" by (simp add: state_at_def)
  moreover have "reading (hd (sort_key observation_order ?obs)) = Some ''idle'' \<and>
      reading (last (sort_key observation_order ?obs)) = Some ''idle'' \<and>
      map (\<lambda>t. (from_state t, to_state t)) (detect_transitions ''c'' ''connector'' None ''status'' ?obs) =
        [(Some ''idle'', ''busy''), (Some ''busy'', ''idle'')]"
    by code_simp
  ultimately show ?thesis
    using transitions_replay [of ?obs "''c''" "''connector''" None "''status''"] by simp
qed

section \<open>Replaying the changes\<close>

text \<open>Taking over the changed fields.\<close>

lemma config_diff_get:
  "map_of (config_diff old new) k =
     (if json_get old k \<noteq> json_get new k then Some (json_get old k, json_get new k) else None)"
proof -
  have "map_of (concat (map (\<lambda>k. if json_get old k \<noteq> json_get new k then [(k, (json_get old k, json_get new k))] else []) ks)) k =
      (if k \<in> set ks \<and> json_get old k \<noteq> json_get new k then Some (json_get old k, json_get new k) else None)" for ks
    by (induction ks) (auto simp: map_add_def split: option.splits)
  moreover have "k \<in> set (dict_keys old @ dict_keys new)" if "json_get old k \<noteq> json_get new k"
    using that by (force simp: json_get_def dict_get_def split: option.splits dest: map_of_SomeD)
  ultimately show ?thesis by (simp add: config_diff_def)
qed

text \<open>
  A reported configuration change carries the whole difference: patching the previous
  configuration with the changed fields gives the new configuration, and no field is listed that
  did not change.
\<close>

theorem config_change_patch:
  assumes "c \<in> set (detect_changes version charger snapshots)"
  shows "json_get (new_config c) k =
      (case map_of (changed_fields c) k of None \<Rightarrow> json_get (previous_config c) k | Some (old, new) \<Rightarrow> new) \<and>
    (\<forall>old new. map_of (changed_fields c) k = Some (old, new) \<longrightarrow>
       old = json_get (previous_config c) k \<and> old \<noteq> new) \<and>
    changed_fields c \<noteq> []"
proof -
  obtain prev curr where "c \<in> set (change_of version charger (prev, curr))"
    using assms by (auto simp: detect_changes_def split: if_splits)
  then have "changed_fields c = config_diff (previous_config c) (new_config c)" and "changed_fields c \<noteq> []"
    by (auto simp: change_of_def Let_def split: if_splits)
  then show ?thesis by (simp add: config_diff_get)
qed

definition demo_snapshots :: "nat config_snapshot list" where
  "demo_snapshots =
     [\<lparr>cs_event_time = 9, config_hash = ''b'', config_json = [(''limit'', Some 40), (''mode'', None)]\<rparr>,
      \<lparr>cs_event_time = 1, config_hash = ''a'', config_json = [(''limit'', Some 32), (''fan'', Some 1)]\<rparr>]"

lemma demo_changes:
  "map (\<lambda>c. changed_fields c) (detect_changes ''v1'' ''c'' demo_snapshots) =
     [[(''fan'', Some 1, None), (''limit'', Some 32, Some 40)]]"
  by code_simp

theorem config_change_patch_witness:
  "\<exists>c\<in>set (detect_changes ''v1'' ''c'' demo_snapshots). json_get (new_config c) ''limit'' = Some 40"
proof -
  obtain c where c: "c \<in> set (detect_changes ''v1'' ''c'' demo_snapshots)"
    "changed_fields c = [(''fan'', Some 1, None), (''limit'', Some 32, Some 40)]"
    using demo_changes by (cases "detect_changes ''v1'' ''c'' demo_snapshots") auto
  show ?thesis using config_change_patch [OF c(1), of "''limit''"] c by auto
qed

end
