(* ===== verification/Alarms.thy ===== *)
theory Alarms
  imports Transitions
begin

text \<open>
  Alarm and fault intervals, \<open>pipelines/events/alarm_reconstructor.py\<close>: activity readings become
  intervals with a debounce that reopens a recently closed alarm.

  The local variables of the loop are the record \<open>alarm_state\<close>; the enclosing arguments (codes,
  names, severity, gaps) are \<open>alarm_context\<close>. \<open>is_active_state\<close> takes \<open>str(raw_value)\<close>.
\<close>

section \<open>Values\<close>

record 'f alarm_observation =
  ao_event_time :: datetime
  ao_frame_sequence :: int
  ao_frame_id :: 'f
  is_active :: bool
  state_str :: "string option"

record 'f alarm =
  al_charger_id :: string
  alarm_code :: string
  alarm_name :: string
  al_component_type :: string
  al_component_id :: "int option"
  al_start :: datetime
  al_end :: "datetime option"
  al_duration :: "pyfloat option"
  is_open :: bool
  al_start_state :: "string option"
  al_end_state :: "string option"
  al_severity :: alarm_severity
  al_confidence :: event_confidence
  al_has_gap :: bool
  al_quality_flags :: "event_quality_flag list"
  al_version :: string
  al_first_frame :: "'f option"
  al_last_frame :: "'f option"

record 'f fault =
  fa_charger_id :: string
  fault_code :: string
  fault_name :: string
  fa_component_type :: string
  fa_component_id :: "int option"
  fa_start :: datetime
  fa_end :: "datetime option"
  fa_duration :: "pyfloat option"
  fa_is_open :: bool
  initial_reading :: "string option"
  clearing_reading :: "string option"
  fa_confidence :: event_confidence
  fa_has_gap :: bool
  fa_quality_flags :: "event_quality_flag list"
  fa_version :: string
  fa_first_frame :: "'f option"
  fa_last_frame :: "'f option"

definition is_active_state :: "string option \<Rightarrow> bool" where
  "is_active_state raw =
     (case raw of None \<Rightarrow> False
      | Some r \<Rightarrow> py_lower (py_strip r) \<in> set [''1'', ''true'', ''yes'', ''alarm'', ''trip'', ''active'',
          ''fail'', ''failed'', ''abnormal'', ''open''])"

section \<open>The loop\<close>

record alarm_context =
  ctx_charger :: string
  ctx_code :: string
  ctx_name :: string
  ctx_component_type :: string
  ctx_component_id :: "int option"
  ctx_gaps :: "gap_interval list"
  ctx_severity :: alarm_severity
  ctx_version :: string
  debounce_seconds :: pyfloat

record 'f alarm_state =
  in_alarm :: bool
  start_time :: "datetime option"
  start_state :: "string option"
  last_active_time :: "datetime option"
  last_active_state :: "string option"
  first_frame :: "'f option"
  last_frame :: "'f option"
  alarms :: "'f alarm list"

definition alarm_start :: "'f alarm_state" where
  "alarm_start = \<lparr>in_alarm = False, start_time = None, start_state = None, last_active_time = None,
     last_active_state = None, first_frame = None, last_frame = None, alarms = []\<rparr>"

definition close_alarm ::
    "alarm_context \<Rightarrow> 'f alarm_state \<Rightarrow> datetime \<Rightarrow> datetime option \<Rightarrow> string option \<Rightarrow> 'f option
     \<Rightarrow> event_quality_flag list \<Rightarrow> bool \<Rightarrow> 'f alarm" where
  "close_alarm ctx s until end_time end_state last_id flags opened =
     (let start = the (start_time s);
          has_gap = list_ex (\<lambda>g. overlaps g start (Some until)) (ctx_gaps ctx)
      in \<lparr>al_charger_id = ctx_charger ctx, alarm_code = ctx_code ctx, alarm_name = ctx_name ctx,
          al_component_type = ctx_component_type ctx, al_component_id = ctx_component_id ctx,
          al_start = start, al_end = end_time,
          al_duration = Some (max (total_seconds (until - start)) 0), is_open = opened,
          al_start_state = start_state s, al_end_state = end_state, al_severity = ctx_severity ctx,
          al_confidence = (if opened \<or> has_gap then MEDIUM else HIGH), al_has_gap = has_gap,
          al_quality_flags = flags @ (if has_gap then [EVENT_HAS_GAP] else []),
          al_version = ctx_version ctx, al_first_frame = first_frame s, al_last_frame = last_id\<rparr>)"

definition reopens :: "alarm_context \<Rightarrow> 'f alarm_state \<Rightarrow> 'f alarm_observation \<Rightarrow> bool" where
  "reopens ctx s ob =
     (alarms s \<noteq> [] \<and> debounce_seconds ctx > 0 \<and>
      (case al_end (last (alarms s)) of None \<Rightarrow> False
       | Some e \<Rightarrow> total_seconds (ao_event_time ob - e) \<le> debounce_seconds ctx))"

definition alarm_step :: "alarm_context \<Rightarrow> 'f alarm_state \<Rightarrow> 'f alarm_observation \<Rightarrow> 'f alarm_state" where
  "alarm_step ctx s ob =
     (if is_active ob then
        (let seen = s\<lparr>in_alarm := True, last_active_time := Some (ao_event_time ob),
                      last_active_state := state_str ob, last_frame := Some (ao_frame_id ob)\<rparr>
         in if in_alarm s then seen
            else if reopens ctx s ob then
              seen\<lparr>start_time := Some (al_start (last (alarms s))),
                   start_state := al_start_state (last (alarms s)),
                   first_frame := al_first_frame (last (alarms s)), alarms := butlast (alarms s)\<rparr>
            else seen\<lparr>start_time := Some (ao_event_time ob), start_state := state_str ob,
                      first_frame := Some (ao_frame_id ob)\<rparr>)
      else if in_alarm s then
        s\<lparr>alarms := alarms s @ [close_alarm ctx s (ao_event_time ob) (Some (ao_event_time ob))
                                    (state_str ob) (Some (ao_frame_id ob)) [] False],
          in_alarm := False, start_time := None, start_state := None, last_active_time := None,
          first_frame := None, last_frame := None\<rparr>
      else s)"

definition finish_alarms :: "alarm_context \<Rightarrow> 'f alarm_state \<Rightarrow> 'f alarm list" where
  "finish_alarms ctx s =
     (case (if in_alarm s \<and> start_time s \<noteq> None then last_active_time s else None) of
        None \<Rightarrow> alarms s
      | Some t \<Rightarrow> alarms s @ [close_alarm ctx s t None (last_active_state s) (last_frame s) [ALARM_OPEN_ENDED] True])"

definition alarm_order :: "'f alarm_observation \<Rightarrow> datetime \<times> int" where
  "alarm_order ob = (ao_event_time ob, ao_frame_sequence ob)"

definition reconstruct_alarms :: "alarm_context \<Rightarrow> 'f alarm_observation list \<Rightarrow> 'f alarm list" where
  "reconstruct_alarms ctx observations =
     finish_alarms ctx (foldl (alarm_step ctx) alarm_start (sort_key alarm_order observations))"

text \<open>\<open>AlarmReconstructor.__init__\<close> clamps the debounce; a fault is a critical alarm under other names.\<close>

definition alarm_reconstructor :: "pyfloat \<Rightarrow> string \<Rightarrow> alarm_context \<Rightarrow> alarm_context" where
  "alarm_reconstructor debounce version ctx = ctx\<lparr>debounce_seconds := max debounce 0, ctx_version := version\<rparr>"

definition fault_of :: "alarm_context \<Rightarrow> 'f alarm \<Rightarrow> 'f fault" where
  "fault_of ctx a =
     \<lparr>fa_charger_id = al_charger_id a, fault_code = alarm_code a, fault_name = alarm_name a,
      fa_component_type = al_component_type a, fa_component_id = al_component_id a,
      fa_start = al_start a, fa_end = al_end a, fa_duration = al_duration a, fa_is_open = is_open a,
      initial_reading = al_start_state a, clearing_reading = al_end_state a,
      fa_confidence = al_confidence a, fa_has_gap = al_has_gap a, fa_quality_flags = al_quality_flags a,
      fa_version = ctx_version ctx, fa_first_frame = al_first_frame a, fa_last_frame = al_last_frame a\<rparr>"

definition reconstruct_faults :: "alarm_context \<Rightarrow> 'f alarm_observation list \<Rightarrow> 'f fault list" where
  "reconstruct_faults ctx observations =
     map (fault_of ctx) (reconstruct_alarms (ctx\<lparr>ctx_severity := alarm_severity.CRITICAL\<rparr>) observations)"

section \<open>Intervals\<close>

text \<open>An alarm is over, and for longer than the debounce, before another one starts.\<close>

definition before :: "pyfloat \<Rightarrow> 'f alarm \<Rightarrow> datetime \<Rightarrow> bool" where
  "before D a t = (case al_end a of None \<Rightarrow> False
     | Some e \<Rightarrow> al_start a \<le> e \<and> e \<le> t \<and> (0 < D \<longrightarrow> D < total_seconds (t - e)))"

definition covers :: "'f alarm \<Rightarrow> datetime \<Rightarrow> bool" where
  "covers a t = (al_start a \<le> t \<and> (case al_end a of None \<Rightarrow> is_open a | Some e \<Rightarrow> t \<le> e))"

lemma before_later: "before D a s \<Longrightarrow> s \<le> t \<Longrightarrow> before D a t"
proof (cases "al_end a")
  case (Some e)
  assume "before D a s" and "s \<le> t"
  then show ?thesis using Some total_seconds_mono [of "s - e" "t - e"] by (auto simp: before_def)
qed (simp add: before_def)

lemma close_alarm_fields [simp]:
  "al_start (close_alarm ctx s u e es l fl opened) = the (start_time s)"
  "al_end (close_alarm ctx s u e es l fl opened) = e"
  "is_open (close_alarm ctx s u e es l fl opened) = opened"
  by (simp_all add: close_alarm_def Let_def)

text \<open>The invariant of the loop over the readings seen so far.\<close>

definition closed_by :: "datetime \<Rightarrow> 'f alarm \<Rightarrow> bool" where
  "closed_by t a = (case al_end a of None \<Rightarrow> False | Some e \<Rightarrow> al_start a \<le> e \<and> e \<le> t)"

definition open_since :: "pyfloat \<Rightarrow> datetime \<Rightarrow> 'f alarm_state \<Rightarrow> bool" where
  "open_since D now s = (\<exists>b u. start_time s = Some b \<and> last_active_time s = Some u \<and> b \<le> u \<and> u \<le> now \<and>
     (\<forall>a\<in>set (alarms s). before D a b))"

definition alarm_inv :: "pyfloat \<Rightarrow> 'f alarm_observation list \<Rightarrow> 'f alarm_state \<Rightarrow> bool" where
  "alarm_inv D es s =
     (sorted_wrt (\<lambda>a b. before D a (al_start b)) (alarms s) \<and>
      (\<forall>a\<in>set (alarms s). es \<noteq> [] \<and> closed_by (ao_event_time (last es)) a) \<and>
      (in_alarm s \<longrightarrow> es \<noteq> [] \<and> open_since D (ao_event_time (last es)) s) \<and>
      (\<forall>ob\<in>set es. is_active ob \<longrightarrow>
          (\<exists>a\<in>set (alarms s). covers a (ao_event_time ob)) \<or>
          (in_alarm s \<and> the (start_time s) \<le> ao_event_time ob)))"

lemma closed_by_later: "closed_by s a \<Longrightarrow> s \<le> t \<Longrightarrow> closed_by t a"
  by (auto simp: closed_by_def split: option.splits)

lemma closed_by_end: "closed_by t a \<Longrightarrow> al_end a \<noteq> None"
  by (cases "al_end a") (auto simp: closed_by_def)

lemma not_reopened:
  assumes "\<not> reopens ctx s ob" and "closed_by (ao_event_time ob) a" and "a = last (alarms s)" and "alarms s \<noteq> []"
  shows "before (debounce_seconds ctx) a (ao_event_time ob)"
  using assms by (auto simp: reopens_def before_def closed_by_def split: option.splits)

lemma sorted_last_before:
  assumes "sorted_wrt (\<lambda>a b. before D a (al_start b)) xs" and "xs \<noteq> []" and "before D (last xs) t" and "a \<in> set xs"
  shows "before D a t"
proof -
  have xs: "xs = butlast xs @ [last xs]" using assms(2) by simp
  consider "a = last xs" | "a \<in> set (butlast xs)" using assms(4) by (subst (asm) xs) auto
  then show ?thesis
  proof cases
    case 2
    have "before D a (al_start (last xs))"
      using assms(1) 2 by (subst (asm) xs) (auto simp: sorted_wrt_append simp del: append_butlast_last_id)
    moreover have "al_start (last xs) \<le> t" using assms(3) by (auto simp: before_def split: option.splits)
    ultimately show ?thesis by (rule before_later)
  qed (simp add: assms(3))
qed

text \<open>The four kinds of rounds.\<close>

lemma step_extend:
  assumes "alarm_inv D es s" and "is_active ob" and "in_alarm s" and "ao_event_time (last es) \<le> ao_event_time ob"
  shows "alarm_inv D (es @ [ob]) (alarm_step ctx s ob)"
  using assms
  by (auto simp: alarm_inv_def alarm_step_def Let_def open_since_def intro: closed_by_later)

lemma step_open:
  assumes "alarm_inv (debounce_seconds ctx) es s" and "is_active ob" and "\<not> in_alarm s" and "\<not> reopens ctx s ob"
    and "es \<noteq> [] \<Longrightarrow> ao_event_time (last es) \<le> ao_event_time ob"
  shows "alarm_inv (debounce_seconds ctx) (es @ [ob]) (alarm_step ctx s ob)"
proof -
  have c: "closed_by (ao_event_time ob) a" if "a \<in> set (alarms s)" for a
    using assms(1,5) that closed_by_later by (auto simp: alarm_inv_def)
  have "before (debounce_seconds ctx) a (ao_event_time ob)" if "a \<in> set (alarms s)" for a
  proof -
    have ne: "alarms s \<noteq> []" using that by auto
    have "before (debounce_seconds ctx) (last (alarms s)) (ao_event_time ob)"
      by (rule not_reopened [OF assms(4) c [OF last_in_set [OF ne]] refl ne])
    with assms(1) ne that show ?thesis
      unfolding alarm_inv_def by (blast intro: sorted_last_before)
  qed
  moreover have "alarms (alarm_step ctx s ob) = alarms s" "in_alarm (alarm_step ctx s ob)"
    "start_time (alarm_step ctx s ob) = Some (ao_event_time ob)"
    "last_active_time (alarm_step ctx s ob) = Some (ao_event_time ob)"
    using assms(2,3,4) by (simp_all add: alarm_step_def Let_def)
  ultimately show ?thesis
    using assms(1,3) c by (auto simp: alarm_inv_def open_since_def)
qed

lemma step_reopen:
  assumes "alarm_inv (debounce_seconds ctx) es s" and "is_active ob" and "\<not> in_alarm s" and "reopens ctx s ob"
    and "es \<noteq> [] \<Longrightarrow> ao_event_time (last es) \<le> ao_event_time ob"
  shows "alarm_inv (debounce_seconds ctx) (es @ [ob]) (alarm_step ctx s ob)"
proof -
  obtain xs l where al: "alarms s = xs @ [l]"
    using assms(4) by (metis append_butlast_last_id reopens_def)
  have srt: "sorted_wrt (\<lambda>a b. before (debounce_seconds ctx) a (al_start b)) xs"
    "\<forall>a\<in>set xs. before (debounce_seconds ctx) a (al_start l)"
    using assms(1) al by (auto simp: alarm_inv_def sorted_wrt_append)
  have c: "closed_by (ao_event_time ob) a" if "a \<in> set (alarms s)" for a
    using assms(1,5) that closed_by_later by (auto simp: alarm_inv_def)
  from this [of l] have l: "al_start l \<le> ao_event_time ob"
    by (auto simp: al closed_by_def split: option.splits)
  have step: "alarms (alarm_step ctx s ob) = xs" "in_alarm (alarm_step ctx s ob)"
    "start_time (alarm_step ctx s ob) = Some (al_start l)" "last_active_time (alarm_step ctx s ob) = Some (ao_event_time ob)"
    using assms(2,3,4) al by (simp_all add: alarm_step_def Let_def)
  have "(\<exists>a\<in>set xs. covers a (ao_event_time o')) \<or> al_start l \<le> ao_event_time o'"
    if "o' \<in> set es" "is_active o'" for o'
    using assms(1,3) that al by (auto simp: alarm_inv_def covers_def)
  then show ?thesis
    using assms(1) srt c l al by (auto simp: alarm_inv_def step open_since_def)
qed

lemma step_close:
  assumes "alarm_inv D es s" and "\<not> is_active ob" and "in_alarm s" and "ao_event_time (last es) \<le> ao_event_time ob"
    and "sorted (map ao_event_time (es @ [ob]))"
  shows "alarm_inv D (es @ [ob]) (alarm_step ctx s ob)"
proof -
  obtain b u where b: "start_time s = Some b" "b \<le> ao_event_time ob" "\<forall>a\<in>set (alarms s). before D a b"
    using assms(1,3,4) by (force simp: alarm_inv_def open_since_def)
  let ?a = "close_alarm ctx s (ao_event_time ob) (Some (ao_event_time ob)) (state_str ob) (Some (ao_frame_id ob)) [] False"
  have step: "alarms (alarm_step ctx s ob) = alarms s @ [?a]" "\<not> in_alarm (alarm_step ctx s ob)"
    using assms(2,3) by (simp_all add: alarm_step_def)
  have "covers ?a (ao_event_time o')" if "o' \<in> set es" "the (start_time s) \<le> ao_event_time o'" for o'
    using that assms(5) by (auto simp: covers_def sorted_append)
  then show ?thesis
    using assms(1,2,4) b closed_by_later
    by (auto simp: alarm_inv_def step sorted_wrt_append closed_by_def split: option.splits)
qed


interpretation alarm_loop: history_fold "alarm_step ctx" alarm_start "\<lambda>es. sorted (map ao_event_time es)"
  "alarm_inv (debounce_seconds ctx)" for ctx
proof
  fix es :: "'a alarm_observation list" and e s
  assume sorted: "sorted (map ao_event_time (es @ [e]))" and inv: "alarm_inv (debounce_seconds ctx) es s"
  have late: "ao_event_time (last es) \<le> ao_event_time e" if "es \<noteq> []"
    using sorted that by (auto simp: sorted_append)
  have ne: "es \<noteq> []" if "in_alarm s" using inv that by (simp add: alarm_inv_def)
  consider "is_active e" "in_alarm s" | "is_active e" "\<not> in_alarm s" "reopens ctx s e"
    | "is_active e" "\<not> in_alarm s" "\<not> reopens ctx s e" | "\<not> is_active e" "in_alarm s"
    | "\<not> is_active e" "\<not> in_alarm s" by blast
  then show "alarm_inv (debounce_seconds ctx) (es @ [e]) (alarm_step ctx s e)"
  proof cases
    case 1
    show ?thesis using step_extend [OF inv 1 late [OF ne [OF 1(2)]]] .
  next
    case 2
    then show ?thesis using inv late by (intro step_reopen)
  next
    case 3
    then show ?thesis using inv late by (intro step_open)
  next
    case 4
    show ?thesis using step_close [OF inv 4 late [OF ne [OF 4(2)]] sorted] .
  next
    case 5
    then have "alarm_step ctx s e = s" by (simp add: alarm_step_def)
    then show ?thesis using inv 5 late closed_by_later by (auto simp: alarm_inv_def)
  qed
qed (simp_all add: alarm_inv_def alarm_start_def sorted_append)

lemma sorted_by_time: "sorted (map ao_event_time (sort_key alarm_order observations))"
proof -
  have "sorted (map alarm_order (sort_key alarm_order observations))" by (rule sorted_sort_key)
  then have "sorted_wrt (\<lambda>a b. alarm_order a \<le> alarm_order b) (sort_key alarm_order observations)"
    by (simp add: sorted_map)
  then have "sorted_wrt (\<lambda>a b. ao_event_time a \<le> ao_event_time b) (sort_key alarm_order observations)"
    by (rule sorted_wrt_mono_rel [rotated]) (auto simp: alarm_order_def less_eq_prod_def)
  then show ?thesis by (simp add: sorted_map)
qed

lemma alarm_inv_final:
  "alarm_inv (debounce_seconds ctx) (sort_key alarm_order observations)
     (foldl (alarm_step ctx) alarm_start (sort_key alarm_order observations))"
  by (rule alarm_loop.fold_inv [OF sorted_by_time])

lemma finish_cases:
  assumes "alarm_inv D es s"
  shows "(\<not> in_alarm s \<and> finish_alarms ctx s = alarms s) \<or>
    (in_alarm s \<and> (\<exists>a. finish_alarms ctx s = alarms s @ [a] \<and> al_end a = None \<and> is_open a \<and>
       start_time s = Some (al_start a) \<and> (\<forall>c\<in>set (alarms s). before D c (al_start a))))"
  using assms by (auto simp: alarm_inv_def open_since_def finish_alarms_def)

text \<open>
  C19: The alarms of one flag never overlap and come in time order: each ends before the next
  starts, by more than the debounce when one is set, and only the last one may be open.
\<close>

theorem alarms_disjoint:
  "sorted_wrt (\<lambda>a b. before (debounce_seconds ctx) a (al_start b)) (reconstruct_alarms ctx observations) \<and>
   (\<forall>a\<in>set (reconstruct_alarms ctx observations). al_end a = None \<longrightarrow>
      a = last (reconstruct_alarms ctx observations))"
proof -
  let ?s = "foldl (alarm_step ctx) alarm_start (sort_key alarm_order observations)"
  have inv: "sorted_wrt (\<lambda>a b. before (debounce_seconds ctx) a (al_start b)) (alarms ?s)"
      "\<forall>a\<in>set (alarms ?s). al_end a \<noteq> None"
    using alarm_inv_final [of ctx observations] by (auto simp: alarm_inv_def dest: closed_by_end)
  show ?thesis
    using finish_cases [OF alarm_inv_final, of ctx observations ctx] inv
    by (fastforce simp: reconstruct_alarms_def sorted_wrt_append)
qed

text \<open>
  C18: No active reading is lost: every one lies within a reported alarm, whatever the debounce
  merged.
\<close>

theorem active_readings_covered:
  assumes "ob \<in> set observations" and "is_active ob"
  shows "\<exists>a\<in>set (reconstruct_alarms ctx observations). covers a (ao_event_time ob)"
proof -
  let ?s = "foldl (alarm_step ctx) alarm_start (sort_key alarm_order observations)"
  have "(\<exists>a\<in>set (alarms ?s). covers a (ao_event_time ob)) \<or>
      (in_alarm ?s \<and> the (start_time ?s) \<le> ao_event_time ob)"
    using alarm_inv_final [of ctx observations] assms by (auto simp: alarm_inv_def)
  then show ?thesis
    using finish_cases [OF alarm_inv_final, of ctx observations ctx]
    by (auto simp: reconstruct_alarms_def covers_def)
qed

text \<open>
  Without a debounce every rising edge of the sorted readings is an alarm of its own.
\<close>

fun rising_edges :: "bool \<Rightarrow> bool list \<Rightarrow> nat" where
  "rising_edges prev [] = 0"
| "rising_edges prev (b # bs) = (if b \<and> \<not> prev then 1 else 0) + rising_edges b bs"

definition alarm_count :: "'f alarm_state \<Rightarrow> nat" where
  "alarm_count s = length (alarms s) + (if in_alarm s then 1 else 0)"

lemma alarm_step_count:
  assumes "debounce_seconds ctx \<le> 0"
  shows "alarm_count (alarm_step ctx s ob) = alarm_count s + (if is_active ob \<and> \<not> in_alarm s then 1 else 0)"
    and "in_alarm (alarm_step ctx s ob) = is_active ob"
  using assms by (auto simp: alarm_count_def alarm_step_def Let_def reopens_def)

lemma alarm_fold_count:
  assumes "debounce_seconds ctx \<le> 0"
  shows "alarm_count (foldl (alarm_step ctx) s es) = alarm_count s + rising_edges (in_alarm s) (map is_active es)"
  by (induction es arbitrary: s) (simp_all add: alarm_step_count [OF assms])

text \<open>
  Without a debounce the number of reported alarms is the number of rising edges of the
  readings in time order, the first reading counting as an edge when it is active.
\<close>

theorem alarms_are_rising_edges:
  assumes "debounce_seconds ctx \<le> 0"
  shows "length (reconstruct_alarms ctx observations) =
    rising_edges False (map is_active (sort_key alarm_order observations))"
proof -
  let ?s = "foldl (alarm_step ctx) alarm_start (sort_key alarm_order observations)"
  have "length (reconstruct_alarms ctx observations) = alarm_count ?s"
    using finish_cases [OF alarm_inv_final, of ctx observations ctx]
    by (auto simp: reconstruct_alarms_def alarm_count_def)
  then show ?thesis
    by (simp add: alarm_fold_count [OF assms]) (simp add: alarm_count_def alarm_start_def)
qed

section \<open>Witnesses\<close>

definition demo_context :: "pyfloat \<Rightarrow> alarm_context" where
  "demo_context d = \<lparr>ctx_charger = ''c'', ctx_code = ''E1'', ctx_name = ''door'', ctx_component_type = ''charger'',
     ctx_component_id = None, ctx_gaps = [], ctx_severity = alarm_severity.WARNING, ctx_version = ''v1'',
     debounce_seconds = d\<rparr>"

definition alarm_at :: "int \<Rightarrow> bool \<Rightarrow> nat alarm_observation" where
  "alarm_at t b = \<lparr>ao_event_time = t * 1000000, ao_frame_sequence = 0, ao_frame_id = nat t, is_active = b, state_str = None\<rparr>"

definition demo_alarms :: "nat alarm_observation list" where
  "demo_alarms = [alarm_at 0 True, alarm_at 10 False, alarm_at 12 True, alarm_at 20 False, alarm_at 90 True]"

lemma demo_alarm_spans:
  "map (\<lambda>a. (al_start a, al_end a)) (reconstruct_alarms (demo_context 5) demo_alarms) =
     [(0, Some 20000000), (90000000, None)]"
  by code_simp

theorem alarms_disjoint_witness:
  "\<exists>a b. reconstruct_alarms (demo_context 5) demo_alarms = [a, b] \<and> before 5 a (al_start b) \<and>
     al_end a = Some 20000000 \<and> al_end b = None"
proof -
  obtain a b where ab: "reconstruct_alarms (demo_context 5) demo_alarms = [a, b]"
    and e: "al_end a = Some 20000000" "al_end b = None"
    using demo_alarm_spans by (auto simp: map_eq_Cons_conv)
  have "before (debounce_seconds (demo_context 5)) a (al_start b)"
    using conjunct1 [OF alarms_disjoint [where ctx = "demo_context 5" and observations = demo_alarms]] ab by simp
  then show ?thesis using ab e by (simp add: demo_context_def)
qed

theorem active_readings_covered_witness:
  "\<exists>a\<in>set (reconstruct_alarms (demo_context 5) demo_alarms). covers a 12000000"
proof -
  have "alarm_at 12 True \<in> set demo_alarms" "is_active (alarm_at 12 True)" "ao_event_time (alarm_at 12 True) = 12000000"
    by (simp_all add: demo_alarms_def alarm_at_def)
  then show ?thesis using active_readings_covered by metis
qed

theorem alarms_are_rising_edges_witness:
  "length (reconstruct_alarms (demo_context 0) demo_alarms) = 3"
proof -
  have "debounce_seconds (demo_context 0) \<le> 0" by (simp add: demo_context_def)
  moreover have "rising_edges False (map is_active (sort_key alarm_order demo_alarms)) = 3" by code_simp
  ultimately show ?thesis using alarms_are_rising_edges by metis
qed

end
