(* ===== verification/Sessions.thy ===== *)
theory Sessions
  imports Transitions
begin

text \<open>
  Charging sessions, \<open>pipelines/events/session_reconstructor.py\<close>: the vendor status mapping, the
  classification of why a session ended, and the loop that opens, extends and closes sessions of
  one connector.

  The local variables of \<open>reconstruct\<close>, shared with its nested \<open>close_active_session\<close>, are the
  record \<open>session_vars\<close>. Its list \<open>sessions\<close> is \<open>reconstructed\<close>.
\<close>

section \<open>Values\<close>

record 'f connector_observation =
  co_event_time :: datetime
  co_frame_sequence :: int
  co_frame_id :: 'f
  connector_status :: "string option"
  plug_status :: "string option"
  co_session_id :: "string option"
  begin_time :: "datetime option"
  session_consumed_energy :: "pyfloat option"
  session_output_voltage :: "pyfloat option"
  session_output_current :: "pyfloat option"
  co_start_soc :: "pyfloat option"
  co_stop_soc :: "pyfloat option"
  co_stop_reason :: "string option"
  reported_charging_time :: "pyfloat option"
  meter_energy :: "pyfloat option"

record session_evidence =
  observed_states :: "session_state list"
  ev_stop_reason :: "string option"
  ev_start_meter :: "pyfloat option"
  ev_end_meter :: "pyfloat option"
  max_consumed_energy :: "pyfloat option"
  ev_reported_charging_time :: "pyfloat option"

record 'f session =
  se_charger_id :: string
  connector_id :: int
  se_session_id :: "string option"
  se_start_time :: datetime
  charging_start_time :: "datetime option"
  charging_end_time :: "datetime option"
  se_end_time :: datetime
  se_duration :: pyfloat
  energy_delivered_kwh :: "pyfloat option"
  se_start_soc :: "pyfloat option"
  se_end_soc :: "pyfloat option"
  se_stop_reason :: "string option"
  se_termination :: termination_class
  se_confidence :: event_confidence
  se_has_gap :: bool
  se_quality_flags :: "event_quality_flag list"
  evidence :: session_evidence
  se_version :: string
  se_first_frame :: "'f option"
  se_last_frame :: "'f option"

definition truthy_text :: "string option \<Rightarrow> bool" where
  "truthy_text v = (case v of None \<Rightarrow> False | Some s \<Rightarrow> s \<noteq> [])"

definition map_connector_state :: "string option \<Rightarrow> session_state" where
  "map_connector_state raw =
     (case raw of None \<Rightarrow> session_state.UNKNOWN
      | Some r \<Rightarrow>
        (let clean = py_lower (py_strip r)
         in if clean \<in> set [''available'', ''idle'', ''standby'', ''ready_for_use''] then IDLE
            else if clean \<in> set [''plugged'', ''connected''] then PLUGGED
            else if clean \<in> set [''preparing'', ''authenticating''] then PREPARING
            else if clean \<in> set [''authorized'', ''ready''] then AUTHORIZED
            else if clean \<in> set [''charging'', ''in_use'', ''delivering_energy''] then CHARGING
            else if clean \<in> set [''suspended'', ''paused'', ''ev_suspended'', ''evse_suspended''] then SUSPENDED
            else if clean \<in> set [''finishing'', ''stopping''] then FINISHING
            else if clean \<in> set [''completed'', ''charge finished'', ''stopped'', ''finished''] then session_state.COMPLETED
            else if clean \<in> set [''faulted'', ''error'', ''unavailable'', ''emergency''] then FAULTED
            else session_state.UNKNOWN))"

definition any_word :: "string list \<Rightarrow> string \<Rightarrow> bool" where
  "any_word ws s = list_ex (\<lambda>w. contains w s) ws"

definition classify_termination :: "string option \<Rightarrow> session_state \<Rightarrow> termination_class" where
  "classify_termination stop_reason final_state =
     (if truthy_text stop_reason then
        (let s = py_lower (the stop_reason)
         in if any_word [''remote'', ''remotestop''] s then REMOTE_STOPPED
            else if any_word [''emergency'', ''e-stop'', ''estop''] s then EMERGENCY_STOPPED
            else if any_word [''local'', ''user'', ''stop'', ''evdisconnected'', ''card'', ''app''] s then USER_STOPPED
            else if any_word [''fault'', ''error'', ''overcurrent'', ''overvoltage'', ''ground'', ''insulation''] s
              then FAULT_STOPPED
            else if any_word [''commlost'', ''communication'', ''reboot'', ''timeout''] s then COMMUNICATION_LOST
            else NORMAL)
      else if final_state = IDLE \<or> final_state = session_state.COMPLETED then NORMAL
      else if final_state = FAULTED then FAULT_STOPPED
      else termination_class.UNKNOWN)"

section \<open>The loop\<close>

record session_context =
  sc_charger :: string
  sc_connector :: int
  sc_gaps :: "gap_interval list"
  sc_version :: string

record 'f session_vars =
  in_session :: bool
  current_session_id :: "string option"
  session_start_time :: "datetime option"
  v_charging_start :: "datetime option"
  v_charging_end :: "datetime option"
  first_frame_id :: "'f option"
  last_frame_id :: "'f option"
  start_soc :: "pyfloat option"
  end_soc :: "pyfloat option"
  max_energy :: "pyfloat option"
  start_meter :: "pyfloat option"
  end_meter :: "pyfloat option"
  last_stop_reason :: "string option"
  last_reported_duration :: "pyfloat option"
  states :: "session_state list"
  sessions :: "'f session list"

definition idle_vars :: "'f session list \<Rightarrow> 'f session_vars" where
  "idle_vars done =
     \<lparr>in_session = False, current_session_id = None, session_start_time = None, v_charging_start = None,
      v_charging_end = None, first_frame_id = None, last_frame_id = None, start_soc = None, end_soc = None,
      max_energy = None, start_meter = None, end_meter = None, last_stop_reason = None,
      last_reported_duration = None, states = [], sessions = done\<rparr>"

definition meter_delta :: "'f session_vars \<Rightarrow> pyfloat option" where
  "meter_delta v = (case (start_meter v, end_meter v) of (Some a, Some b) \<Rightarrow> Some (b - a) | _ \<Rightarrow> None)"

definition energy_delivered :: "'f session_vars \<Rightarrow> pyfloat option" where
  "energy_delivered v =
     (case max_energy v of Some e \<Rightarrow> Some e
      | None \<Rightarrow> (case meter_delta v of None \<Rightarrow> None | Some d \<Rightarrow> if d \<ge> 0 then Some d else None))"

definition session_flags :: "'f session_vars \<Rightarrow> bool \<Rightarrow> pyfloat \<Rightarrow> event_quality_flag list" where
  "session_flags v has_gap duration =
     (if has_gap then [EVENT_HAS_GAP] else []) @
     (if truthy_text (current_session_id v) then [] else [SESSION_ID_MISSING]) @
     (if truthy_text (last_stop_reason v) then [] else [SESSION_BOUNDARY_INFERRED]) @
     (case (max_energy v, meter_delta v) of
        (Some e, Some d) \<Rightarrow> if \<bar>d - e\<bar> > 1 / 2 then [SESSION_ENERGY_MISMATCH] else []
      | _ \<Rightarrow> []) @
     (case last_reported_duration v of
        Some r \<Rightarrow> if \<bar>duration - r\<bar> > 60 then [SESSION_DURATION_MISMATCH] else []
      | None \<Rightarrow> [])"

definition session_confidence :: "'f session_vars \<Rightarrow> bool \<Rightarrow> event_confidence" where
  "session_confidence v has_gap =
     (if \<not> has_gap \<and> truthy_text (current_session_id v) \<and> truthy_text (last_stop_reason v)
         \<and> v_charging_start v \<noteq> None then HIGH
      else if has_gap \<or> \<not> truthy_text (current_session_id v) then LOW
      else MEDIUM)"

definition session_of ::
    "session_context \<Rightarrow> 'f session_vars \<Rightarrow> datetime \<Rightarrow> datetime \<Rightarrow> 'f connector_observation \<Rightarrow> 'f session" where
  "session_of ctx v start finish terminal =
     (let duration = max (total_seconds (finish - start)) 0;
          has_gap = list_ex (\<lambda>g. overlaps g start (Some finish)) (sc_gaps ctx)
      in \<lparr>se_charger_id = sc_charger ctx, connector_id = sc_connector ctx,
          se_session_id = current_session_id v, se_start_time = start,
          charging_start_time = v_charging_start v, charging_end_time = v_charging_end v,
          se_end_time = finish, se_duration = duration, energy_delivered_kwh = energy_delivered v,
          se_start_soc = start_soc v, se_end_soc = end_soc v, se_stop_reason = last_stop_reason v,
          se_termination = classify_termination (last_stop_reason v) (map_connector_state (connector_status terminal)),
          se_confidence = session_confidence v has_gap, se_has_gap = has_gap,
          se_quality_flags = session_flags v has_gap duration,
          evidence = \<lparr>observed_states = states v, ev_stop_reason = last_stop_reason v,
            ev_start_meter = start_meter v, ev_end_meter = end_meter v, max_consumed_energy = max_energy v,
            ev_reported_charging_time = last_reported_duration v\<rparr>,
          se_version = sc_version ctx, se_first_frame = first_frame_id v,
          se_last_frame = (case last_frame_id v of None \<Rightarrow> Some (co_frame_id terminal) | Some f \<Rightarrow> Some f)\<rparr>)"

definition close_session ::
    "session_context \<Rightarrow> 'f session_vars \<Rightarrow> datetime \<Rightarrow> 'f connector_observation \<Rightarrow> 'f session_vars" where
  "close_session ctx v finish terminal =
     (case session_start_time v of
        None \<Rightarrow> v\<lparr>in_session := False\<rparr>
      | Some start \<Rightarrow> idle_vars (sessions v @ [session_of ctx v start finish terminal]))"

text \<open>What the loop reads off an observation.\<close>

definition session_id_str :: "'f connector_observation \<Rightarrow> string option" where
  "session_id_str ob =
     (case co_session_id ob of None \<Rightarrow> None
      | Some s \<Rightarrow> if py_strip s \<in> set [''0'', ''0.0'', ''None'', ''nan''] then None else Some (py_strip s))"

definition active_status :: "'f connector_observation \<Rightarrow> bool" where
  "active_status ob = (map_connector_state (connector_status ob)
     \<in> set [PREPARING, AUTHORIZED, CHARGING, SUSPENDED, FINISHING])"

definition charging_delivery :: "'f connector_observation \<Rightarrow> bool" where
  "charging_delivery ob = (case session_output_current ob of None \<Rightarrow> False | Some c \<Rightarrow> c > 1 / 2)"

definition delivers :: "'f connector_observation \<Rightarrow> bool" where
  "delivers ob = (map_connector_state (connector_status ob) = CHARGING \<or> charging_delivery ob)"

definition starts_session :: "'f connector_observation \<Rightarrow> bool" where
  "starts_session ob = (active_status ob \<or> truthy_text (session_id_str ob) \<or> charging_delivery ob)"

definition truthy_float :: "pyfloat option \<Rightarrow> bool" where
  "truthy_float v = (case v of None \<Rightarrow> False | Some x \<Rightarrow> x \<noteq> 0)"

definition begin_session :: "'f session_vars \<Rightarrow> 'f connector_observation \<Rightarrow> 'f session_vars" where
  "begin_session v ob =
     v\<lparr>in_session := True, current_session_id := session_id_str ob,
       session_start_time := Some (case begin_time ob of None \<Rightarrow> co_event_time ob | Some t \<Rightarrow> t),
       first_frame_id := Some (co_frame_id ob), last_frame_id := Some (co_frame_id ob),
       start_soc := co_start_soc ob,
       end_soc := (if truthy_float (co_stop_soc ob) then co_stop_soc ob else co_start_soc ob),
       max_energy := session_consumed_energy ob, start_meter := meter_energy ob, end_meter := meter_energy ob,
       last_stop_reason := co_stop_reason ob, last_reported_duration := reported_charging_time ob,
       states := [map_connector_state (connector_status ob)],
       v_charging_start := (if delivers ob then Some (co_event_time ob) else v_charging_start v),
       v_charging_end := (if delivers ob then Some (co_event_time ob) else v_charging_end v)\<rparr>"

definition or_else :: "'a option \<Rightarrow> 'a option \<Rightarrow> 'a option" where
  "or_else a b = (case a of None \<Rightarrow> b | Some x \<Rightarrow> Some x)"

definition extend_session :: "'f session_vars \<Rightarrow> 'f connector_observation \<Rightarrow> 'f session_vars" where
  "extend_session v ob =
     v\<lparr>last_frame_id := Some (co_frame_id ob),
       states := states v @ [map_connector_state (connector_status ob)],
       current_session_id :=
         (if \<not> truthy_text (current_session_id v) \<and> truthy_text (session_id_str ob) then session_id_str ob
          else current_session_id v),
       v_charging_start :=
         (if delivers ob \<and> v_charging_start v = None then Some (co_event_time ob) else v_charging_start v),
       v_charging_end := (if delivers ob then Some (co_event_time ob) else v_charging_end v),
       start_soc := or_else (start_soc v) (co_start_soc ob),
       end_soc := or_else (co_stop_soc ob) (end_soc v),
       max_energy :=
         (case session_consumed_energy ob of None \<Rightarrow> max_energy v
          | Some e \<Rightarrow> (case max_energy v of None \<Rightarrow> Some e | Some m \<Rightarrow> if e > m then Some e else Some m)),
       start_meter := or_else (start_meter v) (meter_energy ob),
       end_meter := or_else (meter_energy ob) (end_meter v),
       last_stop_reason := or_else (co_stop_reason ob) (last_stop_reason v),
       last_reported_duration := or_else (reported_charging_time ob) (last_reported_duration v)\<rparr>"

definition session_over :: "'f session_vars \<Rightarrow> 'f connector_observation \<Rightarrow> bool" where
  "session_over v ob =
     (map_connector_state (connector_status ob) \<in> set [IDLE, session_state.COMPLETED] \<or>
      (truthy_text (last_stop_reason v) \<and> \<not> active_status ob \<and> \<not> charging_delivery ob))"

definition id_changed :: "'f session_vars \<Rightarrow> 'f connector_observation \<Rightarrow> bool" where
  "id_changed v ob =
     (in_session v \<and> truthy_text (session_id_str ob) \<and> truthy_text (current_session_id v) \<and>
      session_id_str ob \<noteq> current_session_id v)"

definition session_step :: "session_context \<Rightarrow> 'f session_vars \<Rightarrow> 'f connector_observation \<Rightarrow> 'f session_vars" where
  "session_step ctx v ob =
     (let u = (if id_changed v ob then close_session ctx v (co_event_time ob) ob else v)
      in if \<not> in_session u then (if starts_session ob then begin_session u ob else u)
         else let w = extend_session u ob
              in if session_over w ob then close_session ctx w (co_event_time ob) ob else w)"

definition session_order :: "'f connector_observation \<Rightarrow> datetime \<times> int" where
  "session_order ob = (co_event_time ob, co_frame_sequence ob)"

definition reconstruct_sessions :: "session_context \<Rightarrow> 'f connector_observation list \<Rightarrow> 'f session list" where
  "reconstruct_sessions ctx observations =
     (let ordered = sort_key session_order observations;
          v = foldl (session_step ctx) (idle_vars []) ordered
      in if in_session v \<and> ordered \<noteq> []
         then sessions (close_session ctx v (co_event_time (last ordered)) (last ordered))
         else sessions v)"

section \<open>The loop invariant\<close>

definition session_size :: "'f session \<Rightarrow> nat" where
  "session_size s = length (observed_states (evidence s))"

text \<open>A session ends at an observation seen so far, not after the last one, and lasts until then.\<close>

definition ended_by :: "datetime list \<Rightarrow> 'f session \<Rightarrow> bool" where
  "ended_by ts s = (se_end_time s \<in> set ts \<and> se_duration s = max (total_seconds (se_end_time s - se_start_time s)) 0)"

definition session_inv :: "'f connector_observation list \<Rightarrow> 'f session_vars \<Rightarrow> bool" where
  "session_inv es v =
     (list_all (ended_by (map co_event_time es)) (sessions v) \<and> sorted (map se_end_time (sessions v)) \<and>
      sum_list (map session_size (sessions v)) + length (states v) \<le> length es \<and>
      (in_session v \<longrightarrow> es \<noteq> [] \<and> session_start_time v \<noteq> None) \<and>
      (\<forall>ob\<in>set es. starts_session ob \<longrightarrow>
         in_session v \<or> (\<exists>s\<in>set (sessions v). co_event_time ob \<le> se_end_time s)))"

lemma session_of_fields [simp]:
  "se_end_time (session_of ctx v start finish terminal) = finish"
  "se_start_time (session_of ctx v start finish terminal) = start"
  "se_duration (session_of ctx v start finish terminal) = max (total_seconds (finish - start)) 0"
  "session_size (session_of ctx v start finish terminal) = length (states v)"
  by (simp_all add: session_of_def session_size_def Let_def)

lemma step_fields [simp]:
  "sessions (begin_session v ob) = sessions v" "in_session (begin_session v ob)"
  "session_start_time (begin_session v ob) \<noteq> None" "states (begin_session v ob) = [map_connector_state (connector_status ob)]"
  "sessions (extend_session v ob) = sessions v" "in_session (extend_session v ob) = in_session v"
  "session_start_time (extend_session v ob) = session_start_time v"
  "states (extend_session v ob) = states v @ [map_connector_state (connector_status ob)]"
  "sessions (idle_vars ss) = ss" "\<not> in_session (idle_vars ss)" "states (idle_vars ss) = []"
  by (simp_all add: begin_session_def extend_session_def idle_vars_def)

text \<open>Closing at the latest instant keeps what the invariant says, and covers everything before.\<close>

lemma close_open_session:
  assumes "in_session v" and "session_start_time v \<noteq> None" and "list_all (ended_by ts) (sessions v)"
    and "sorted (map se_end_time (sessions v))" and "t \<in> set ts" and "\<forall>u\<in>set ts. u \<le> t"
  shows "list_all (ended_by ts) (sessions (close_session ctx v t ob))"
    and "sorted (map se_end_time (sessions (close_session ctx v t ob)))"
    and "sum_list (map session_size (sessions (close_session ctx v t ob))) = sum_list (map session_size (sessions v)) + length (states v)"
    and "states (close_session ctx v t ob) = []"
    and "\<not> in_session (close_session ctx v t ob)"
    and "\<exists>s\<in>set (sessions (close_session ctx v t ob)). se_end_time s = t"
proof -
  obtain start where c: "close_session ctx v t ob = idle_vars (sessions v @ [session_of ctx v start t ob])"
    using assms(2) by (auto simp: close_session_def)
  have late: "\<forall>s\<in>set (sessions v). se_end_time s \<le> t"
    using assms(3,6) by (auto simp: list_all_iff ended_by_def)
  show "list_all (ended_by ts) (sessions (close_session ctx v t ob))"
    using assms(3,5) by (simp add: c ended_by_def list_all_iff)
  show "sorted (map se_end_time (sessions (close_session ctx v t ob)))"
    using assms(4) late by (simp add: c sorted_append)
  show "sum_list (map session_size (sessions (close_session ctx v t ob))) = sum_list (map session_size (sessions v)) + length (states v)"
    "states (close_session ctx v t ob) = []" "\<not> in_session (close_session ctx v t ob)"
    "\<exists>s\<in>set (sessions (close_session ctx v t ob)). se_end_time s = t"
    by (simp_all add: c)
qed

lemma ended_by_more: "list_all (ended_by ts) ss \<Longrightarrow> list_all (ended_by (ts @ us)) ss"
  by (auto simp: list_all_iff ended_by_def)

lemma session_step_inv:
  assumes "sorted (map co_event_time (es @ [ob]))" and "session_inv es v"
  shows "session_inv (es @ [ob]) (session_step ctx v ob)"
proof -
  let ?t = "co_event_time ob" and ?ts = "map co_event_time (es @ [ob])"
  have t: "?t \<in> set ?ts" "\<forall>u\<in>set ?ts. u \<le> ?t" using assms(1) by (auto simp: sorted_append)
  have v: "list_all (ended_by ?ts) (sessions v)" "sorted (map se_end_time (sessions v))"
    "sum_list (map session_size (sessions v)) + length (states v) \<le> length es"
    using assms(2) ended_by_more [of "map co_event_time es" "sessions v" "[?t]"] by (simp_all add: session_inv_def)
  have old: "in_session v \<or> (\<exists>s\<in>set (sessions v). co_event_time o' \<le> se_end_time s)"
    if "o' \<in> set es" "starts_session o'" for o'
    using assms(2) that by (auto simp: session_inv_def)
  have start: "session_start_time v \<noteq> None" if "in_session v"
    using assms(2) that by (auto simp: session_inv_def)
  consider (change) "id_changed v ob" | (start) "\<not> id_changed v ob" "\<not> in_session v" "starts_session ob"
    | (idle) "\<not> id_changed v ob" "\<not> in_session v" "\<not> starts_session ob"
    | (over) "\<not> id_changed v ob" "in_session v" "session_over (extend_session v ob) ob"
    | (extend) "\<not> id_changed v ob" "in_session v" "\<not> session_over (extend_session v ob) ob" by blast
  then show ?thesis
  proof cases
    case change
    then have i: "in_session v" and st: "starts_session ob" by (auto simp: id_changed_def starts_session_def)
    note c = close_open_session [OF i start [OF i] v(1,2) t, of ctx ob]
    have "session_step ctx v ob = begin_session (close_session ctx v ?t ob) ob"
      using change c(5) st by (simp add: session_step_def Let_def)
    then show ?thesis using c v(3) by (auto simp: session_inv_def)
  next
    case start
    then have "session_step ctx v ob = begin_session v ob" by (simp add: session_step_def)
    then show ?thesis using v by (auto simp: session_inv_def)
  next
    case idle
    then have "session_step ctx v ob = v" by (simp add: session_step_def)
    then show ?thesis using v old idle by (auto simp: session_inv_def)
  next
    case over
    let ?w = "extend_session v ob"
    have c: "list_all (ended_by ?ts) (sessions (close_session ctx ?w ?t ob))"
      "sorted (map se_end_time (sessions (close_session ctx ?w ?t ob)))"
      "sum_list (map session_size (sessions (close_session ctx ?w ?t ob))) = sum_list (map session_size (sessions v)) + (length (states v) + 1)"
      "states (close_session ctx ?w ?t ob) = []" "\<not> in_session (close_session ctx ?w ?t ob)"
      "\<exists>s\<in>set (sessions (close_session ctx ?w ?t ob)). se_end_time s = ?t"
      using close_open_session [of ?w ?ts ?t ctx ob] over(2) start v(1,2) t by simp_all
    have "session_step ctx v ob = close_session ctx ?w ?t ob" using over by (simp add: session_step_def Let_def)
    moreover have "\<exists>s\<in>set (sessions (close_session ctx ?w ?t ob)). co_event_time o' \<le> se_end_time s"
      if o': "o' \<in> set (es @ [ob])" for o'
    proof -
      obtain s where "s \<in> set (sessions (close_session ctx ?w ?t ob))" "se_end_time s = ?t" using c(6) by blast
      moreover have "co_event_time o' \<le> ?t" using t(2) o' by auto
      ultimately show ?thesis by metis
    qed
    ultimately show ?thesis using c(1-5) v(3) by (simp add: session_inv_def)
  next
    case extend
    then have "session_step ctx v ob = extend_session v ob" by (simp add: session_step_def Let_def)
    then show ?thesis using v extend start by (auto simp: session_inv_def)
  qed
qed

interpretation session_loop: history_fold "session_step ctx" "idle_vars []" "\<lambda>es. sorted (map co_event_time es)" session_inv for ctx
proof
  show "session_inv [] (idle_vars [] :: 'a session_vars)" by (simp add: session_inv_def)
qed (simp_all only: session_step_inv, simp add: sorted_append)

lemma sessions_by_time: "sorted (map co_event_time (sort_key session_order observations))"
proof -
  have "sorted (map session_order (sort_key session_order observations))" by (rule sorted_sort_key)
  then have "sorted_wrt (\<lambda>a b. session_order a \<le> session_order b) (sort_key session_order observations)"
    by (simp add: sorted_map)
  then have "sorted_wrt (\<lambda>a b. co_event_time a \<le> co_event_time b) (sort_key session_order observations)"
    by (rule sorted_wrt_mono_rel [rotated]) (auto simp: session_order_def less_eq_prod_def)
  then show ?thesis by (simp add: sorted_map)
qed

lemma sorted_last_ge: "sorted xs \<Longrightarrow> x \<in> set xs \<Longrightarrow> x \<le> last xs"
  by (induction xs) auto

lemma session_inv_final:
  "session_inv (sort_key session_order observations)
     (foldl (session_step ctx) (idle_vars []) (sort_key session_order observations))"
  by (rule session_loop.fold_inv [OF sessions_by_time])

text \<open>The sessions reported are the ones closed in the loop, plus the one still open at the end.\<close>

lemma reported_sessions:
  assumes "ordered = sort_key session_order observations"
  shows "list_all (ended_by (map co_event_time ordered)) (reconstruct_sessions ctx observations)"
    and "sorted (map se_end_time (reconstruct_sessions ctx observations))"
    and "sum_list (map session_size (reconstruct_sessions ctx observations)) \<le> length ordered"
    and "ob \<in> set ordered \<Longrightarrow> starts_session ob \<Longrightarrow>
      \<exists>s\<in>set (reconstruct_sessions ctx observations). co_event_time ob \<le> se_end_time s"
proof -
  let ?v = "foldl (session_step ctx) (idle_vars []) ordered"
  have inv: "session_inv ordered ?v" unfolding assms by (rule session_inv_final)
  have "list_all (ended_by (map co_event_time ordered)) (reconstruct_sessions ctx observations) \<and>
    sorted (map se_end_time (reconstruct_sessions ctx observations)) \<and>
    sum_list (map session_size (reconstruct_sessions ctx observations)) \<le> length ordered \<and>
    (\<forall>ob\<in>set ordered. starts_session ob \<longrightarrow>
      (\<exists>s\<in>set (reconstruct_sessions ctx observations). co_event_time ob \<le> se_end_time s))"
  proof (cases "in_session ?v")
    case True
    let ?l = "last ordered"
    have o: "ordered \<noteq> []" "session_start_time ?v \<noteq> None" using inv True by (simp_all add: session_inv_def)
    have t: "co_event_time ?l \<in> set (map co_event_time ordered)" using o(1) by simp
    have "sorted (map co_event_time ordered)"
      using sessions_by_time assms by metis
    then have late: "\<forall>u\<in>set (map co_event_time ordered). u \<le> co_event_time ?l"
      using sorted_last_ge [of "map co_event_time ordered"] o(1) by (auto simp: last_map)
    have "list_all (ended_by (map co_event_time ordered)) (sessions ?v)" "sorted (map se_end_time (sessions ?v))"
      "sum_list (map session_size (sessions ?v)) + length (states ?v) \<le> length ordered"
      using inv by (simp_all add: session_inv_def)
    note c = close_open_session [OF True o(2) this(1,2) t late, of ctx ?l] this(3)
    have r: "reconstruct_sessions ctx observations = sessions (close_session ctx ?v (co_event_time ?l) ?l)"
      using True o(1) by (simp add: reconstruct_sessions_def Let_def assms)
    obtain s where s: "s \<in> set (reconstruct_sessions ctx observations)" "se_end_time s = co_event_time ?l"
      using c(6) r by metis
    have "co_event_time ob \<le> se_end_time s" if "ob \<in> set ordered" for ob
      using late that s(2) by simp
    then show ?thesis using c(1-3,7) r s(1) by (metis add_leD1 le_trans)
  next
    case False
    have "reconstruct_sessions ctx observations = sessions ?v"
      using False by (simp add: reconstruct_sessions_def Let_def assms)
    then show ?thesis using inv False by (simp add: session_inv_def)
  qed
  then show "list_all (ended_by (map co_event_time ordered)) (reconstruct_sessions ctx observations)"
    and "sorted (map se_end_time (reconstruct_sessions ctx observations))"
    and "sum_list (map session_size (reconstruct_sessions ctx observations)) \<le> length ordered"
    and "ob \<in> set ordered \<Longrightarrow> starts_session ob \<Longrightarrow>
      \<exists>s\<in>set (reconstruct_sessions ctx observations). co_event_time ob \<le> se_end_time s"
    by blast+
qed

text \<open>
  Sessions come in the order they end, each ends at an observation and lasts from its start
  until then (or zero when the reported start lies later), and no observation is evidence for two
  sessions: the observed states of all sessions together are no more than the observations.
\<close>

theorem sessions_wellformed:
  "sorted (map se_end_time (reconstruct_sessions ctx observations)) \<and>
   (\<forall>s\<in>set (reconstruct_sessions ctx observations).
      se_end_time s \<in> co_event_time ` set observations \<and>
      se_duration s = max (total_seconds (se_end_time s - se_start_time s)) 0) \<and>
   sum_list (map (\<lambda>s. length (observed_states (evidence s))) (reconstruct_sessions ctx observations))
     \<le> length observations"
  using reported_sessions [OF refl, where observations = observations and ctx = ctx]
  by (auto simp: list_all_iff ended_by_def session_size_def [abs_def])

text \<open>
  C17: Activity always ends in a reported session: for every observation that shows an active
  status, a session identifier or a delivered current there is a session that ends at that time
  or later.
\<close>

theorem activity_is_reported:
  assumes "ob \<in> set observations" and "starts_session ob"
  shows "\<exists>s\<in>set (reconstruct_sessions ctx observations). co_event_time ob \<le> se_end_time s"
  using reported_sessions(4) [OF refl, where observations = observations and ctx = ctx] assms by simp

section \<open>Concrete runs\<close>

definition demo_session_context :: session_context where
  "demo_session_context = \<lparr>sc_charger = ''c'', sc_connector = 1, sc_gaps = [], sc_version = ''v1''\<rparr>"

definition status_at :: "int \<Rightarrow> string \<Rightarrow> string option \<Rightarrow> nat connector_observation" where
  "status_at t status sid =
     \<lparr>co_event_time = t * 1000000, co_frame_sequence = 0, co_frame_id = nat t, connector_status = Some status,
      plug_status = None, co_session_id = sid, begin_time = None, session_consumed_energy = None,
      session_output_voltage = None, session_output_current = None, co_start_soc = None, co_stop_soc = None,
      co_stop_reason = None, reported_charging_time = None, meter_energy = None\<rparr>"

theorem activity_is_reported_witness:
  "\<exists>s\<in>set (reconstruct_sessions demo_session_context [status_at 0 ''Idle'' None, status_at 60 ''Charging'' None]).
     60000000 \<le> se_end_time s"
proof -
  have "starts_session (status_at 60 ''Charging'' None)" by code_simp
  moreover have "co_event_time (status_at 60 ''Charging'' None) = 60000000" by (simp add: status_at_def)
  ultimately show ?thesis
    using activity_is_reported [of "status_at 60 ''Charging'' None"
      "[status_at 0 ''Idle'' None, status_at 60 ''Charging'' None]" demo_session_context] by simp
qed

theorem sessions_wellformed_witness:
  "\<exists>s. reconstruct_sessions demo_session_context [status_at 0 ''Charging'' None, status_at 60 ''Completed'' None] = [s] \<and>
     se_end_time s \<in> {0, 60000000} \<and> se_duration s = max (total_seconds (se_end_time s - se_start_time s)) 0"
proof -
  let ?obs = "[status_at 0 ''Charging'' None, status_at 60 ''Completed'' None]"
  have "length (reconstruct_sessions demo_session_context ?obs) = 1" by code_simp
  then obtain s where s: "reconstruct_sessions demo_session_context ?obs = [s]" by (auto simp: length_Suc_conv)
  have "se_end_time s \<in> co_event_time ` set ?obs \<and>
      se_duration s = max (total_seconds (se_end_time s - se_start_time s)) 0"
    using conjunct1 [OF conjunct2 [OF sessions_wellformed [where ctx = demo_session_context and observations = ?obs]]] s by simp
  then show ?thesis using s by (simp add: status_at_def)
qed

text \<open>
  A connector that stays on its final status with the session identifier still shown is
  reported as further sessions with the same identifier: each completed reading either opens a
  new session or closes it.
\<close>

theorem lingering_completed:
  "map (\<lambda>s. (se_session_id s, se_start_time s, se_end_time s))
     (reconstruct_sessions demo_session_context
        [status_at 0 ''Charging'' (Some ''s1''), status_at 60 ''Completed'' (Some ''s1''),
         status_at 120 ''Completed'' (Some ''s1''), status_at 180 ''Completed'' (Some ''s1''),
         status_at 240 ''Completed'' (Some ''s1'')]) =
   [(Some ''s1'', 0, 60000000), (Some ''s1'', 120000000, 180000000), (Some ''s1'', 240000000, 240000000)]"
  by code_simp

text \<open>A stop reason that mentions a stop is never classified as a fault.\<close>

lemma fault_stop_reason:
  "classify_termination (Some ''Ground Fault Stop'') FAULTED = USER_STOPPED"
  by code_simp

end
