(* ===== verification/DailyRules.thy ===== *)
theory DailyRules
  imports Quality Coverage
begin

text \<open>
  Charger-day quality rules, \<open>pipelines/quality/daily_rules.py\<close>, over the result of the coverage
  evaluation, with their severities from \<open>backend/app/core/config.py\<close>.

  Message texts and the free-form details of a finding are left out; the digest and
  \<open>isoformat\<close> are arguments, as in the file rules.
\<close>

section \<open>Findings and configuration\<close>

definition upper_char :: "char \<Rightarrow> char" where
  "upper_char c = (let n = (of_char c :: nat) in if 97 \<le> n \<and> n \<le> 122 then char_of (n - 32) else c)"

definition py_upper :: "string \<Rightarrow> string" where
  "py_upper s = map upper_char s"

record daily_finding =
  df_rule_code :: quality_issue_type
  df_severity :: quality_severity
  df_charger_id :: string
  df_business_date :: int
  df_occurrence_count :: int
  df_entity_reference :: "string option"
  df_event_time :: "datetime option"

record daily_severities =
  missing_charger_data :: string
  late_file :: string
  partial_day :: string
  severely_incomplete_day :: string
  telemetry_gap :: string
  abnormal_sampling_interval :: string
  missing_expected_connector :: string
  missing_expected_smr :: string
  multiple_files_same_charger_day :: string
  overlapping_file_coverage :: string
  event_date_filename_mismatch :: string
  gap_min_severity :: string

definition default_severities :: daily_severities where
  "default_severities =
     \<lparr>missing_charger_data = ''ERROR'', late_file = ''WARNING'', partial_day = ''WARNING'',
      severely_incomplete_day = ''ERROR'', telemetry_gap = ''WARNING'', abnormal_sampling_interval = ''WARNING'',
      missing_expected_connector = ''WARNING'', missing_expected_smr = ''WARNING'',
      multiple_files_same_charger_day = ''INFO'', overlapping_file_coverage = ''INFO'',
      event_date_filename_mismatch = ''WARNING'', gap_min_severity = ''MODERATE''\<rparr>"

record 'f charger_day_context =
  evaluation :: "'f coverage_evaluation"
  arrival :: arrival_status
  expected_connectors :: "int option"
  expected_smrs :: "int option"
  filename_date_mismatches :: "(string \<times> int) list"

definition severity_of :: "string \<Rightarrow> quality_severity" where
  "severity_of configured =
     (let raw = py_upper configured
      in if raw = ''INFO'' then quality_severity.INFO
         else if raw = ''ERROR'' then quality_severity.ERROR
         else quality_severity.WARNING)"

definition daily_issue_hash ::
    "(string \<Rightarrow> string) \<Rightarrow> (datetime \<Rightarrow> string) \<Rightarrow> (int \<Rightarrow> string) \<Rightarrow> daily_finding \<Rightarrow> string" where
  "daily_issue_hash digest isoformat date_text f =
     digest (py_join [CHR 0x1F]
       [issue_type_value (df_rule_code f), rule_scope_value quality_rule_scope.CHARGER_DAY, df_charger_id f,
        date_text (df_business_date f), or_empty (df_entity_reference f),
        (case df_event_time f of None \<Rightarrow> [] | Some t \<Rightarrow> isoformat t)])"

definition day_finding :: "'f coverage_evaluation \<Rightarrow> quality_issue_type \<Rightarrow> string \<Rightarrow> daily_finding" where
  "day_finding ev code configured =
     \<lparr>df_rule_code = code, df_severity = severity_of configured, df_charger_id = ev_charger_id ev,
      df_business_date = business_date ev, df_occurrence_count = 1, df_entity_reference = None, df_event_time = None\<rparr>"

section \<open>The rules\<close>

type_synonym 'f daily_rule = "'f charger_day_context \<Rightarrow> daily_severities \<Rightarrow> daily_finding list"

definition missing_charger_data_rule :: "'f daily_rule" where
  "missing_charger_data_rule ctx cfg =
     (if arrival ctx \<noteq> arrival_status.MISSING then []
      else [day_finding (evaluation ctx) MISSING_CHARGER_DATA (missing_charger_data cfg)])"

definition late_file_rule :: "'f daily_rule" where
  "late_file_rule ctx cfg =
     (if arrival ctx \<noteq> arrival_status.LATE then [] else [day_finding (evaluation ctx) LATE_FILE (late_file cfg)])"

definition completeness_rule :: "'f daily_rule" where
  "completeness_rule ctx cfg =
     (case completeness_status_of (evaluation ctx) of
        completeness_status.PARTIAL \<Rightarrow> [day_finding (evaluation ctx) PARTIAL_DAY (partial_day cfg)]
      | completeness_status.SEVERELY_INCOMPLETE \<Rightarrow>
          [day_finding (evaluation ctx) SEVERELY_INCOMPLETE_DAY (severely_incomplete_day cfg)]
      | _ \<Rightarrow> [])"

fun gap_order :: "gap_severity \<Rightarrow> nat" where
  "gap_order gap_severity.MINOR = 0"
| "gap_order gap_severity.MODERATE = 1"
| "gap_order gap_severity.MAJOR = 2"
| "gap_order gap_severity.CRITICAL = 3"

definition parse_gap_severity :: "string \<Rightarrow> gap_severity" where
  "parse_gap_severity raw =
     (let s = py_upper raw
      in if s = ''MINOR'' then gap_severity.MINOR else if s = ''MAJOR'' then gap_severity.MAJOR
         else if s = ''CRITICAL'' then gap_severity.CRITICAL else gap_severity.MODERATE)"

definition reportable_gaps :: "'f coverage_evaluation \<Rightarrow> daily_severities \<Rightarrow> gap_candidate list" where
  "reportable_gaps ev cfg =
     filter (\<lambda>g. gap_order (gap_severity_of g) \<ge> gap_order (parse_gap_severity (gap_min_severity cfg))) (gaps ev)"

text \<open>\<open>max\<close> with a key keeps the first of the largest.\<close>

definition worst_gap :: "gap_candidate list \<Rightarrow> gap_candidate" where
  "worst_gap gs = foldl (\<lambda>best g. if gap_duration g > gap_duration best then g else best) (hd gs) (tl gs)"

definition telemetry_gap_rule :: "'f daily_rule" where
  "telemetry_gap_rule ctx cfg =
     (let reportable = reportable_gaps (evaluation ctx) cfg
      in if reportable = [] then []
         else [(day_finding (evaluation ctx) TELEMETRY_GAP (telemetry_gap cfg))
           \<lparr>df_occurrence_count := int (length reportable), df_event_time := Some (start_event_at (worst_gap reportable))\<rparr>])"

definition abnormal_cadence_rule :: "'f daily_rule" where
  "abnormal_cadence_rule ctx cfg =
     (if \<not> cadence_is_abnormal (evaluation ctx) \<or> observed_median_interval_seconds (evaluation ctx) = None then []
      else [day_finding (evaluation ctx) ABNORMAL_SAMPLING_INTERVAL (abnormal_sampling_interval cfg)])"

definition missing_of ::
    "'f coverage_evaluation \<Rightarrow> int option \<Rightarrow> string set \<Rightarrow> quality_issue_type \<Rightarrow> string \<Rightarrow> daily_finding list" where
  "missing_of ev expected observed code configured =
     (case expected of
        None \<Rightarrow> []
      | Some n \<Rightarrow>
          if int (card observed) \<ge> n then []
          else [(day_finding ev code configured)\<lparr>df_occurrence_count := n - int (card observed)\<rparr>])"

definition missing_topology_rule :: "'f daily_rule" where
  "missing_topology_rule ctx cfg =
     (let ev = evaluation ctx
      in if \<not> ev_has_data ev then []
         else missing_of ev (expected_connectors ctx) (connectors_detected ev) MISSING_EXPECTED_CONNECTOR
                (missing_expected_connector cfg) @
              missing_of ev (expected_smrs ctx) (smrs_detected ev) MISSING_EXPECTED_SMR (missing_expected_smr cfg))"

definition multiple_files_rule :: "'f daily_rule" where
  "multiple_files_rule ctx cfg =
     (let ev = evaluation ctx
      in if file_count ev \<le> 1 then []
         else [(day_finding ev MULTIPLE_FILES_SAME_CHARGER_DAY (multiple_files_same_charger_day cfg))
           \<lparr>df_occurrence_count := int (file_count ev)\<rparr>])"

definition overlapping_coverage_rule :: "'f daily_rule" where
  "overlapping_coverage_rule ctx cfg =
     (let ev = evaluation ctx
      in if overlapping_timestamp_count ev \<le> 0 then []
         else [(day_finding ev OVERLAPPING_FILE_COVERAGE (overlapping_file_coverage cfg))
           \<lparr>df_occurrence_count := int (overlapping_timestamp_count ev)\<rparr>])"

definition filename_mismatch_rule :: "'f daily_rule" where
  "filename_mismatch_rule ctx cfg =
     map (\<lambda>(filename, d). (day_finding (evaluation ctx) EVENT_DATE_FILENAME_MISMATCH (event_date_filename_mismatch cfg))
         \<lparr>df_entity_reference := Some (take 128 filename)\<rparr>) (filename_date_mismatches ctx)"

definition daily_rules :: "'f daily_rule list" where
  "daily_rules = [missing_charger_data_rule, late_file_rule, completeness_rule, telemetry_gap_rule,
     abnormal_cadence_rule, missing_topology_rule, multiple_files_rule, overlapping_coverage_rule,
     filename_mismatch_rule]"

definition daily_key ::
    "(string \<Rightarrow> string) \<Rightarrow> (datetime \<Rightarrow> string) \<Rightarrow> (int \<Rightarrow> string) \<Rightarrow> daily_finding \<Rightarrow> string \<times> string \<times> string" where
  "daily_key digest isoformat date_text f =
     (issue_type_value (df_rule_code f), or_empty (df_entity_reference f), daily_issue_hash digest isoformat date_text f)"

definition evaluate_charger_day_rules ::
    "(string \<Rightarrow> string) \<Rightarrow> (datetime \<Rightarrow> string) \<Rightarrow> (int \<Rightarrow> string) \<Rightarrow> 'f charger_day_context \<Rightarrow> daily_severities
     \<Rightarrow> daily_finding list" where
  "evaluate_charger_day_rules digest isoformat date_text ctx cfg =
     sort_key (daily_key digest isoformat date_text)
       (foldl (\<lambda>fs rule. fs @ rule ctx cfg) [] daily_rules)"

section \<open>What the rules report\<close>

lemmas daily_rule_defs = missing_charger_data_rule_def late_file_rule_def completeness_rule_def
  telemetry_gap_rule_def abnormal_cadence_rule_def missing_topology_rule_def missing_of_def
  multiple_files_rule_def overlapping_coverage_rule_def filename_mismatch_rule_def day_finding_def

lemma rule_codes:
  shows "f \<in> set (missing_charger_data_rule ctx cfg) \<Longrightarrow> df_rule_code f = MISSING_CHARGER_DATA"
    and "f \<in> set (late_file_rule ctx cfg) \<Longrightarrow> df_rule_code f = LATE_FILE"
    and "f \<in> set (completeness_rule ctx cfg) \<Longrightarrow> df_rule_code f \<in> {PARTIAL_DAY, SEVERELY_INCOMPLETE_DAY}"
    and "f \<in> set (telemetry_gap_rule ctx cfg) \<Longrightarrow> df_rule_code f = TELEMETRY_GAP"
    and "f \<in> set (abnormal_cadence_rule ctx cfg) \<Longrightarrow> df_rule_code f = ABNORMAL_SAMPLING_INTERVAL"
    and "f \<in> set (missing_topology_rule ctx cfg) \<Longrightarrow> df_rule_code f \<in> {MISSING_EXPECTED_CONNECTOR, MISSING_EXPECTED_SMR}"
    and "f \<in> set (multiple_files_rule ctx cfg) \<Longrightarrow> df_rule_code f = MULTIPLE_FILES_SAME_CHARGER_DAY"
    and "f \<in> set (overlapping_coverage_rule ctx cfg) \<Longrightarrow> df_rule_code f = OVERLAPPING_FILE_COVERAGE"
    and "f \<in> set (filename_mismatch_rule ctx cfg) \<Longrightarrow> df_rule_code f = EVENT_DATE_FILENAME_MISMATCH"
proof -
  show "df_rule_code f = MISSING_CHARGER_DATA" if "f \<in> set (missing_charger_data_rule ctx cfg)"
    using that by (auto simp: missing_charger_data_rule_def day_finding_def Let_def split: if_split_asm)
  show "df_rule_code f = LATE_FILE" if "f \<in> set (late_file_rule ctx cfg)"
    using that by (auto simp: late_file_rule_def day_finding_def Let_def split: if_split_asm)
  show "df_rule_code f \<in> {PARTIAL_DAY, SEVERELY_INCOMPLETE_DAY}" if "f \<in> set (completeness_rule ctx cfg)"
    using that by (auto simp: completeness_rule_def day_finding_def Let_def split: if_split_asm completeness_status.split_asm)
  show "df_rule_code f = TELEMETRY_GAP" if "f \<in> set (telemetry_gap_rule ctx cfg)"
    using that by (auto simp: telemetry_gap_rule_def day_finding_def Let_def split: if_split_asm)
  show "df_rule_code f = ABNORMAL_SAMPLING_INTERVAL" if "f \<in> set (abnormal_cadence_rule ctx cfg)"
    using that by (auto simp: abnormal_cadence_rule_def day_finding_def Let_def split: if_split_asm)
  show "df_rule_code f \<in> {MISSING_EXPECTED_CONNECTOR, MISSING_EXPECTED_SMR}" if "f \<in> set (missing_topology_rule ctx cfg)"
    using that by (auto simp: missing_topology_rule_def missing_of_def day_finding_def Let_def split: if_split_asm option.split_asm)
  show "df_rule_code f = MULTIPLE_FILES_SAME_CHARGER_DAY" if "f \<in> set (multiple_files_rule ctx cfg)"
    using that by (auto simp: multiple_files_rule_def day_finding_def Let_def split: if_split_asm)
  show "df_rule_code f = OVERLAPPING_FILE_COVERAGE" if "f \<in> set (overlapping_coverage_rule ctx cfg)"
    using that by (auto simp: overlapping_coverage_rule_def day_finding_def Let_def split: if_split_asm)
  show "df_rule_code f = EVENT_DATE_FILENAME_MISMATCH" if "f \<in> set (filename_mismatch_rule ctx cfg)"
    using that by (auto simp: filename_mismatch_rule_def day_finding_def Let_def split: if_split_asm)
qed

lemma gap_findings:
  "filter (\<lambda>f. df_rule_code f = TELEMETRY_GAP) (evaluate_charger_day_rules digest isoformat date_text ctx cfg) =
     telemetry_gap_rule ctx cfg"
proof -
  have other: "filter (\<lambda>f. df_rule_code f = TELEMETRY_GAP) fs = []" if "\<And>f. f \<in> set fs \<Longrightarrow> df_rule_code f \<noteq> TELEMETRY_GAP" for fs
    using that by (simp add: filter_empty_conv)
  have own: "filter (\<lambda>f. df_rule_code f = TELEMETRY_GAP) (telemetry_gap_rule ctx cfg) = telemetry_gap_rule ctx cfg"
    by (simp only: filter_id_conv) (intro ballI rule_codes(4))
  have n1: "filter (\<lambda>f. df_rule_code f = TELEMETRY_GAP) (missing_charger_data_rule ctx cfg) = []"
    by (rule other, drule rule_codes(1)) auto
  have n2: "filter (\<lambda>f. df_rule_code f = TELEMETRY_GAP) (late_file_rule ctx cfg) = []"
    by (rule other, drule rule_codes(2)) auto
  have n3: "filter (\<lambda>f. df_rule_code f = TELEMETRY_GAP) (completeness_rule ctx cfg) = []"
    by (rule other, drule rule_codes(3)) auto
  have n5: "filter (\<lambda>f. df_rule_code f = TELEMETRY_GAP) (abnormal_cadence_rule ctx cfg) = []"
    by (rule other, drule rule_codes(5)) auto
  have n6: "filter (\<lambda>f. df_rule_code f = TELEMETRY_GAP) (missing_topology_rule ctx cfg) = []"
    by (rule other, drule rule_codes(6)) auto
  have n7: "filter (\<lambda>f. df_rule_code f = TELEMETRY_GAP) (multiple_files_rule ctx cfg) = []"
    by (rule other, drule rule_codes(7)) auto
  have n8: "filter (\<lambda>f. df_rule_code f = TELEMETRY_GAP) (overlapping_coverage_rule ctx cfg) = []"
    by (rule other, drule rule_codes(8)) auto
  have n9: "filter (\<lambda>f. df_rule_code f = TELEMETRY_GAP) (filename_mismatch_rule ctx cfg) = []"
    by (rule other, drule rule_codes(9)) auto
  have "filter (\<lambda>f. df_rule_code f = TELEMETRY_GAP) (foldl (\<lambda>fs rule. fs @ rule ctx cfg) [] daily_rules) = telemetry_gap_rule ctx cfg"
    by (simp only: daily_rules_def foldl.simps append_Nil filter_append own n1 n2 n3 n5 n6 n7 n8 n9 append_Nil2)
  moreover have "length (telemetry_gap_rule ctx cfg) \<le> 1" by (simp add: telemetry_gap_rule_def Let_def)
  then have "sort_key f (telemetry_gap_rule ctx cfg) = telemetry_gap_rule ctx cfg" for f :: "daily_finding \<Rightarrow> string \<times> string \<times> string"
    by (cases "telemetry_gap_rule ctx cfg") simp_all
  ultimately show ?thesis by (simp add: evaluate_charger_day_rules_def filter_sort)
qed

lemma worst_gap_mem: "gs \<noteq> [] \<Longrightarrow> worst_gap gs \<in> set gs \<and> (\<forall>g\<in>set gs. gap_duration g \<le> gap_duration (worst_gap gs))"
proof -
  have "foldl (\<lambda>best g. if gap_duration g > gap_duration best then g else best) b gs \<in> insert b (set gs) \<and>
      (\<forall>g\<in>insert b (set gs). gap_duration g \<le>
        gap_duration (foldl (\<lambda>best g. if gap_duration g > gap_duration best then g else best) b gs))" for b gs
  proof (induction gs arbitrary: b)
    case (Cons g gs)
    show ?case using Cons [of "if gap_duration g > gap_duration b then g else b"] by (auto split: if_splits)
  qed simp
  from this [of "hd gs" "tl gs"] show "gs \<noteq> [] \<Longrightarrow> ?thesis" by (cases gs) (simp_all add: worst_gap_def)
qed

text \<open>
  End to end, a charger day is reported as having telemetry gaps exactly when two of its
  neighbouring in-day timestamps are further apart than the gap threshold with a severity of at
  least the configured floor, and then in a single finding.
\<close>

theorem telemetry_gap_reported:
  assumes "evaluate_charger_day zones charger date items p = Inr e" and "evaluation ctx = e"
    and "stamps = day_stamps zones date p items"
    and "fs = filter (\<lambda>f. df_rule_code f = TELEMETRY_GAP) (evaluate_charger_day_rules digest isoformat date_text ctx cfg)"
  shows "length fs \<le> 1 \<and>
    (fs \<noteq> [] \<longleftrightarrow> (\<exists>a b. a \<in> stamps \<and> b \<in> stamps \<and> a < b \<and> (\<forall>x\<in>stamps. x \<le> a \<or> b \<le> x) \<and>
       gap_threshold_seconds p < total_seconds (b - a) \<and>
       gap_order (parse_gap_severity (gap_min_severity cfg)) \<le> gap_order (classify_gap p (total_seconds (b - a)))))"
proof
  let ?ts = "sorted_list_of_set stamps"
  have fin: "finite stamps" by (simp add: assms(3) finite_day_stamps)
  have g: "gaps e = detect_gaps p ?ts" using assms(1,3) by (simp only: evaluate_assess assess_fields)
  have fs: "fs = telemetry_gap_rule ctx cfg" by (simp only: assms(4) gap_findings)
  show "length fs \<le> 1" by (simp add: fs telemetry_gap_rule_def Let_def)
  have "g \<in> set (detect_gaps p ?ts) \<longleftrightarrow> (\<exists>q\<in>set (pairs ?ts). g \<in> set (gap_of p q))" for g
  proof (cases "length ?ts < 2")
    case True
    then have "pairs ?ts = []" by (cases ?ts) (auto simp: numeral_2_eq_2)
    then show ?thesis using True by (simp only: detect_gaps_def if_True) simp
  qed (simp add: detect_gaps_def)
  then have "telemetry_gap_rule ctx cfg \<noteq> [] \<longleftrightarrow>
      (\<exists>q\<in>set (pairs ?ts). \<exists>g\<in>set (gap_of p q).
         gap_order (parse_gap_severity (gap_min_severity cfg)) \<le> gap_order (gap_severity_of g))"
    by (simp add: telemetry_gap_rule_def reportable_gaps_def Let_def assms(2) g filter_empty_conv) blast
  also have "\<dots> \<longleftrightarrow> (\<exists>q\<in>set (pairs ?ts). gap_threshold_seconds p < total_seconds (snd q - fst q) \<and>
         gap_order (parse_gap_severity (gap_min_severity cfg)) \<le> gap_order (classify_gap p (total_seconds (snd q - fst q))))"
    by (intro bex_cong refl) (simp add: gap_of_def Let_def case_prod_beta' not_le)
  also have "\<dots> \<longleftrightarrow> (\<exists>a b. (a, b) \<in> set (pairs ?ts) \<and> gap_threshold_seconds p < total_seconds (b - a) \<and>
         gap_order (parse_gap_severity (gap_min_severity cfg)) \<le> gap_order (classify_gap p (total_seconds (b - a))))"
    by force
  finally show "fs \<noteq> [] \<longleftrightarrow> (\<exists>a b. a \<in> stamps \<and> b \<in> stamps \<and> a < b \<and> (\<forall>x\<in>stamps. x \<le> a \<or> b \<le> x) \<and>
       gap_threshold_seconds p < total_seconds (b - a) \<and>
       gap_order (parse_gap_severity (gap_min_severity cfg)) \<le> gap_order (classify_gap p (total_seconds (b - a))))"
    unfolding fs pairs_iff [OF sorted_sorted_list_of_set distinct_sorted_list_of_set] set_sorted_list_of_set [OF fin]
    by (simp only: conj_assoc)
qed

theorem telemetry_gap_reported_witness:
  "\<exists>e. evaluate_charger_day demo_zones ''c'' 0 demo_items demo_policy = Inr e \<and>
     length (filter (\<lambda>f. df_rule_code f = TELEMETRY_GAP) (evaluate_charger_day_rules id (\<lambda>_. []) (\<lambda>_. [])
       \<lparr>evaluation = e, arrival = RECEIVED, expected_connectors = None, expected_smrs = None, filename_date_mismatches = []\<rparr>
       default_severities)) \<le> 1"
proof -
  obtain e where e: "evaluate_charger_day demo_zones ''c'' 0 demo_items demo_policy = Inr e"
    using demo_total by blast
  show ?thesis
    by (rule exI [of _ e], rule conjI [OF e],
      rule conjunct1 [OF telemetry_gap_reported [OF e _ refl refl]]) simp
qed

end
