(* ===== verification/Historical.thy ===== *)
theory Historical
  imports Coverage
begin

text \<open>
  Historical continuity, \<open>pipelines/historical/\<close>: empirical sampling statistics, gaps relative to
  them, the readiness for pattern research, cumulative counters and component presence.

  Floats are exact rationals, so NaN and infinities do not occur. A counter value is missing, not
  convertible to a float, or a number. Dates of instants are UTC dates.
\<close>

section \<open>Sampling, \<open>sampling_analyzer.py\<close>\<close>

record sampling_profile =
  observation_count :: nat
  distinct_timestamps :: nat
  first_event_time :: "datetime option"
  last_event_time :: "datetime option"
  coverage_duration_seconds :: pyfloat
  median_interval :: "pyfloat option"
  p05_interval :: "pyfloat option"
  p95_interval :: "pyfloat option"
  min_interval :: "pyfloat option"
  max_interval :: "pyfloat option"
  expected_interval :: "pyfloat option"
  same_second_frame_count :: nat

datatype history_error = IndexError

definition MIN_SAMPLES_FOR_EXPECTED_INFERENCE :: nat where
  "MIN_SAMPLES_FOR_EXPECTED_INFERENCE = 5"

definition empty_profile :: sampling_profile where
  "empty_profile = \<lparr>observation_count = 0, distinct_timestamps = 0, first_event_time = None, last_event_time = None,
     coverage_duration_seconds = 0, median_interval = None, p05_interval = None, p95_interval = None,
     min_interval = None, max_interval = None, expected_interval = None, same_second_frame_count = 0\<rparr>"

text \<open>\<open>sorted(zip(event_times, frame_sequences))\<close>, the sequences being zero when not given.\<close>

definition paired_times :: "datetime list \<Rightarrow> int list option \<Rightarrow> (datetime \<times> int) list" where
  "paired_times stamps seqs =
     sort (zip stamps (case seqs of None \<Rightarrow> replicate (length stamps) 0 | Some s \<Rightarrow> s))"

definition quantile_at :: "pyfloat \<Rightarrow> pyfloat list \<Rightarrow> pyfloat" where
  "quantile_at q ds = ds ! nat (round_half_even (q * of_nat (length ds - 1)))"

definition infer_expected :: "pyfloat list \<Rightarrow> pyfloat \<Rightarrow> pyfloat option" where
  "infer_expected ds median =
     (if length ds \<ge> MIN_SAMPLES_FOR_EXPECTED_INFERENCE \<and>
         of_nat (length (filter (\<lambda>d. median * (85 / 100) \<le> d \<and> d \<le> median * (115 / 100)) ds)) \<ge> of_nat (length ds) * (4 / 10 :: rat)
      then Some (py_round 1 median) else None)"

definition analyze_times :: "datetime list \<Rightarrow> sampling_profile" where
  "analyze_times ts =
     (let steps = seconds_between ts;
          deltas = sort (filter (\<lambda>d. d > 0) steps);
          base = empty_profile\<lparr>observation_count := length ts, distinct_timestamps := card (set ts),
            first_event_time := Some (hd ts), last_event_time := Some (last ts),
            coverage_duration_seconds := total_seconds (last ts - hd ts),
            same_second_frame_count := length (filter (\<lambda>d. d = 0) steps)\<rparr>
      in if deltas = [] then base
         else let median = py_median deltas
              in base\<lparr>median_interval := Some (py_round 2 median),
                   p05_interval := Some (py_round 2 (quantile_at (5 / 100) deltas)),
                   p95_interval := Some (py_round 2 (quantile_at (95 / 100) deltas)),
                   min_interval := Some (py_round 2 (hd deltas)), max_interval := Some (py_round 2 (last deltas)),
                   expected_interval := infer_expected deltas median\<rparr>)"

definition analyze_sampling :: "datetime list \<Rightarrow> int list option \<Rightarrow> history_error + sampling_profile" where
  "analyze_sampling stamps seqs =
     (if stamps = [] then Inr empty_profile
      else let ts = map fst (paired_times stamps seqs)
           in if ts = [] then Inl IndexError else Inr (analyze_times ts))"

section \<open>Gaps, \<open>gap_detector.py\<close>\<close>

record historical_gap =
  hg_charger_id :: string
  hg_component_type :: "string option"
  hg_component_id :: "int option"
  gap_start :: datetime
  gap_end :: datetime
  gap_duration_of :: pyfloat
  previous_event_time :: datetime
  next_event_time :: datetime
  hg_expected_interval :: "pyfloat option"
  gap_multiple :: "pyfloat option"
  detection_version :: string

record gap_detector =
  gap_multiplier :: pyfloat
  min_gap_seconds :: pyfloat

definition default_detector :: gap_detector where
  "default_detector = \<lparr>gap_multiplier = 25 / 10, min_gap_seconds = 180\<rparr>"

definition FALLBACK_GAP_THRESHOLD_SECONDS :: pyfloat where
  "FALLBACK_GAP_THRESHOLD_SECONDS = 300"

text \<open>\<open>expected or median\<close>: an expected interval of zero counts as absent.\<close>

definition expected_of :: "sampling_profile \<Rightarrow> pyfloat option" where
  "expected_of p =
     (case expected_interval p of None \<Rightarrow> median_interval p
      | Some e \<Rightarrow> if e = 0 then median_interval p else Some e)"

definition history_threshold :: "gap_detector \<Rightarrow> sampling_profile \<Rightarrow> pyfloat" where
  "history_threshold d p =
     (case expected_of p of
        None \<Rightarrow> FALLBACK_GAP_THRESHOLD_SECONDS
      | Some e \<Rightarrow> if e > 0 then max (min_gap_seconds d) (e * gap_multiplier d) else FALLBACK_GAP_THRESHOLD_SECONDS)"

definition history_gap ::
    "gap_detector \<Rightarrow> sampling_profile \<Rightarrow> string \<Rightarrow> string option \<Rightarrow> int option \<Rightarrow> datetime \<times> datetime
     \<Rightarrow> historical_gap list" where
  "history_gap d p charger ctype cid = (\<lambda>(prev, cur).
     (let duration = total_seconds (cur - prev)
      in if duration < 0 then []
         else if duration > history_threshold d p then
           [\<lparr>hg_charger_id = charger, hg_component_type = ctype, hg_component_id = cid,
             gap_start = prev, gap_end = cur, gap_duration_of = duration,
             previous_event_time = prev, next_event_time = cur, hg_expected_interval = expected_of p,
             gap_multiple = (case expected_of p of None \<Rightarrow> None
                             | Some e \<Rightarrow> if e > 0 then Some (py_round 2 (duration / e)) else None),
             detection_version = ''1.0''\<rparr>]
         else []))"

definition detect_history_gaps ::
    "gap_detector \<Rightarrow> string \<Rightarrow> datetime list \<Rightarrow> int list option \<Rightarrow> string option \<Rightarrow> int option
     \<Rightarrow> sampling_profile option \<Rightarrow> history_error + historical_gap list" where
  "detect_history_gaps d charger stamps seqs ctype cid prof =
     (if length stamps < 2 then Inr []
      else let paired = paired_times stamps seqs; ts = map fst paired
           in bind_err (case prof of Some p \<Rightarrow> Inr p | None \<Rightarrow> analyze_sampling ts (Some (map snd paired)))
                (\<lambda>p. Inr (concat (map (history_gap d p charger ctype cid) (pairs ts)))))"

section \<open>Eligibility, \<open>eligibility_evaluator.py\<close>\<close>

datatype ineligible =
    SingleObservation
  | ShallowHistory int
  | FewObservations nat
  | ExcessiveGaps pyfloat

record research_eligibility =
  re_charger_id :: string
  history_days :: int
  re_observation_count :: nat
  median_sampling_interval :: "pyfloat option"
  re_largest_gap :: "pyfloat option"
  re_gap_count :: nat
  signal_count :: nat
  pattern_research_ready :: bool
  reasons :: "ineligible list"

definition MIN_HISTORY_DAYS :: int where "MIN_HISTORY_DAYS = 7"
definition MIN_OBSERVATIONS :: nat where "MIN_OBSERVATIONS = 100"
definition MAX_GAP_RATIO :: pyfloat where "MAX_GAP_RATIO = 35 / 100"

definition research_reasons :: "int \<Rightarrow> sampling_profile \<Rightarrow> historical_gap list \<Rightarrow> ineligible list" where
  "research_reasons days p gs =
     (let gap_ratio = sum_list (map gap_duration_of gs) / coverage_duration_seconds p
      in (if days < MIN_HISTORY_DAYS then [ShallowHistory days] else []) @
         (if observation_count p < MIN_OBSERVATIONS then [FewObservations (observation_count p)] else []) @
         (if coverage_duration_seconds p > 0 \<and> gap_ratio > MAX_GAP_RATIO
          then [ExcessiveGaps (py_round 1 (gap_ratio * 100))] else []))"

definition evaluate_eligibility ::
    "string \<Rightarrow> sampling_profile \<Rightarrow> historical_gap list \<Rightarrow> nat \<Rightarrow> int \<Rightarrow> research_eligibility" where
  "evaluate_eligibility charger p gs signals active_days =
     (if observation_count p \<le> 1 then
        \<lparr>re_charger_id = charger,
         history_days = (if active_days \<noteq> 0 then active_days else if observation_count p = 1 then 1 else 0),
         re_observation_count = observation_count p, median_sampling_interval = None, re_largest_gap = None,
         re_gap_count = 0, signal_count = signals, pattern_research_ready = False, reasons = [SingleObservation]\<rparr>
      else
        (let days = (if active_days \<noteq> 0 then active_days
                     else max 1 (\<lfloor>coverage_duration_seconds p / 86400\<rfloor> + 1));
             largest = max_default 0 (map gap_duration_of gs);
             rs = research_reasons days p gs
         in \<lparr>re_charger_id = charger, history_days = days, re_observation_count = observation_count p,
             median_sampling_interval = median_interval p,
             re_largest_gap = (if largest > 0 then Some (py_round 1 largest) else None),
             re_gap_count = length gs, signal_count = signals, pattern_research_ready = (rs = []),
             reasons = rs\<rparr>))"

section \<open>Counters, \<open>counter_analyzer.py\<close>\<close>

datatype counter_transition_type = UNCHANGED | INCREASED | DECREASED | RESET_CANDIDATE | INITIAL

datatype counter_value = MissingValue | NotNumeric | Number pyfloat

record counter_observation =
  ct_event_time :: datetime
  ct_frame_sequence :: int
  ct_value :: counter_value

record counter_transition =
  tr_charger_id :: string
  tr_counter_name :: string
  tr_event_time :: datetime
  tr_frame_sequence :: int
  previous_value :: "pyfloat option"
  current_value :: pyfloat
  tr_delta :: "pyfloat option"
  transition_type :: counter_transition_type

record counter_report =
  counter_name :: string
  total_observations :: nat
  non_null_observations :: nat
  first_value :: "pyfloat option"
  last_value :: "pyfloat option"
  net_change :: "pyfloat option"
  increase_count :: nat
  unchanged_count :: nat
  decrease_count :: nat
  reset_candidate_count :: nat
  counter_transitions :: "counter_transition list"

definition RESET_CANDIDATE_RATIO :: pyfloat where
  "RESET_CANDIDATE_RATIO = 5 / 10"

text \<open>The loop over the numeric readings; \<open>prev_val\<close> and \<open>last_val\<close> always agree.\<close>

record counter_state =
  cs_first :: "pyfloat option"
  cs_prev :: "pyfloat option"
  max_seen :: pyfloat
  cs_transitions :: "counter_transition list"

definition counter_kind :: "pyfloat \<Rightarrow> pyfloat \<Rightarrow> pyfloat \<Rightarrow> counter_transition_type" where
  "counter_kind peak prev cur =
     (if cur - prev > 0 then INCREASED
      else if cur - prev = 0 then UNCHANGED
      else if peak > 10 \<and> cur < peak * RESET_CANDIDATE_RATIO then RESET_CANDIDATE
      else DECREASED)"

definition counter_step ::
    "string \<Rightarrow> string \<Rightarrow> counter_state \<Rightarrow> counter_observation \<Rightarrow> counter_state" where
  "counter_step charger name s ob =
     (case ct_value ob of
        Number cur \<Rightarrow>
          (let tr = (\<lambda>prev delta kind. \<lparr>tr_charger_id = charger, tr_counter_name = name,
                 tr_event_time = ct_event_time ob, tr_frame_sequence = ct_frame_sequence ob,
                 previous_value = prev, current_value = cur, tr_delta = delta, transition_type = kind\<rparr>)
           in case cs_prev s of
                None \<Rightarrow> \<lparr>cs_first = Some cur, cs_prev = Some cur, max_seen = cur,
                          cs_transitions = cs_transitions s @ [tr None None INITIAL]\<rparr>
              | Some prev \<Rightarrow>
                  s\<lparr>cs_prev := Some cur,
                    max_seen := (if cur - prev > 0 \<and> cur > max_seen s then cur else max_seen s),
                    cs_transitions := cs_transitions s @
                      [tr (Some prev) (Some (py_round 3 (cur - prev))) (counter_kind (max_seen s) prev cur)]\<rparr>)
      | _ \<Rightarrow> s)"

definition counter_start :: counter_state where
  "counter_start = \<lparr>cs_first = None, cs_prev = None, max_seen = 0, cs_transitions = []\<rparr>"

definition count_kind :: "counter_transition_type list \<Rightarrow> counter_transition list \<Rightarrow> nat" where
  "count_kind kinds ts = length (filter (\<lambda>t. transition_type t \<in> set kinds) ts)"

definition analyze_counter :: "string \<Rightarrow> string \<Rightarrow> counter_observation list \<Rightarrow> counter_report" where
  "analyze_counter charger name observations =
     (let s = foldl (counter_step charger name) counter_start
                (sort_key (\<lambda>ob. (ct_event_time ob, ct_frame_sequence ob)) observations);
          ts = cs_transitions s
      in \<lparr>counter_name = name, total_observations = length observations, non_null_observations = length ts,
          first_value = cs_first s, last_value = cs_prev s,
          net_change = (case (cs_first s, cs_prev s) of
             (Some a, Some b) \<Rightarrow> Some (py_round 3 (b - a)) | _ \<Rightarrow> None),
          increase_count = count_kind [INCREASED] ts, unchanged_count = count_kind [UNCHANGED] ts,
          decrease_count = count_kind [DECREASED, RESET_CANDIDATE] ts,
          reset_candidate_count = count_kind [RESET_CANDIDATE] ts, counter_transitions = ts\<rparr>)"

section \<open>Presence, \<open>topology_tracker.py\<close>\<close>

record component_presence =
  component_type :: string
  component_id :: int
  first_seen :: datetime
  last_seen :: datetime
  presence_count :: nat
  active_dates :: "int set"

definition active_days_count :: "component_presence \<Rightarrow> nat" where
  "active_days_count p = card (active_dates p)"

definition presence_step ::
    "string \<Rightarrow> (int, component_presence) pydict \<Rightarrow> int \<times> datetime \<Rightarrow> (int, component_presence) pydict" where
  "presence_step ctype m = (\<lambda>(cid, t).
     (case map_of m cid of
        None \<Rightarrow> AList.update cid \<lparr>component_type = ctype, component_id = cid, first_seen = t, last_seen = t,
                  presence_count = 1, active_dates = {t div day_us}\<rparr> m
      | Some p \<Rightarrow> AList.update cid
          (p\<lparr>last_seen := max (last_seen p) t, first_seen := min (first_seen p) t,
             presence_count := presence_count p + 1, active_dates := insert (t div day_us) (active_dates p)\<rparr>) m))"

definition track_presence :: "string \<Rightarrow> (int \<times> datetime) list \<Rightarrow> (int, component_presence) pydict" where
  "track_presence ctype observations = foldl (presence_step ctype) [] (sort_key snd observations)"

section \<open>Statistics of the intervals\<close>

lemma paired_sorted: "sorted (map fst (paired_times stamps seqs))"
proof -
  have "sorted_wrt (\<lambda>a b. fst a \<le> fst b) (paired_times stamps seqs)"
    unfolding paired_times_def
    by (rule sorted_wrt_mono_rel [OF _ sorted_sort]) (auto simp: less_eq_prod_def)
  then show ?thesis by (simp add: sorted_map)
qed

lemma quantile_index:
  assumes "0 \<le> q" and "q \<le> 1" and "ds \<noteq> []"
  shows "nat (round_half_even (q * of_nat (length ds - 1))) \<le> length ds - 1"
proof -
  have "q * of_nat (length ds - 1) \<le> of_int (int (length ds - 1))"
    using assms(1,2) mult_right_mono [of q 1 "of_nat (length ds - 1) :: rat"] by simp
  then have "round_half_even (q * of_nat (length ds - 1)) \<le> int (length ds - 1)"
    using round_half_even_mono round_half_even_of_int by metis
  then show ?thesis by simp
qed

lemma quantile_mono:
  assumes "sorted ds" and "ds \<noteq> []" and "0 \<le> q" and "q \<le> r" and "r \<le> 1"
  shows "hd ds \<le> quantile_at q ds" and "quantile_at q ds \<le> quantile_at r ds" and "quantile_at r ds \<le> last ds"
proof -
  define i j where "i = nat (round_half_even (q * of_nat (length ds - 1)))"
    and "j = nat (round_half_even (r * of_nat (length ds - 1)))"
  have "i \<le> length ds - 1" and j: "j \<le> length ds - 1"
    using quantile_index [of q ds] quantile_index [of r ds] assms by (simp_all add: i_def j_def)
  then have lt: "i < length ds" "j < length ds" using assms(2) by (cases ds; simp add: less_Suc_eq_le)+
  have ij: "i \<le> j" unfolding i_def j_def
    using assms(4) by (intro nat_mono round_half_even_mono mult_right_mono) simp_all
  have at: "quantile_at q ds = ds ! i" "quantile_at r ds = ds ! j" by (simp_all add: quantile_at_def i_def j_def)
  show "hd ds \<le> quantile_at q ds" "quantile_at q ds \<le> quantile_at r ds" "quantile_at r ds \<le> last ds"
    unfolding at hd_conv_nth [OF assms(2)] last_conv_nth [OF assms(2)]
    using assms(2) lt j ij by (auto intro!: sorted_nth_mono [OF assms(1)])
qed

lemma median_between:
  assumes "sorted ds" and "ds \<noteq> []"
  shows "hd ds \<le> py_median ds \<and> py_median ds \<le> last ds"
proof -
  have b: "hd ds \<le> ds ! i \<and> ds ! i \<le> last ds" if "i < length ds" for i
    using that assms by (auto simp: hd_conv_nth last_conv_nth intro!: sorted_nth_mono)
  have m: "length ds div 2 < length ds" "length ds div 2 - 1 < length ds" using assms(2)
    by (cases ds; simp add: less_Suc_eq_le div_le_dividend le_diff_conv)+
  show ?thesis
    using b [OF m(1)] b [OF m(2)] assms(1) by (simp add: py_median_def Let_def sorted_sort_id)
qed

text \<open>
  The reported interval statistics are ordered: the minimum is at most the 5th percentile, that
  at most the 95th, that at most the maximum, and the median lies between minimum and maximum.
\<close>

theorem sampling_statistics_ordered:
  assumes "analyze_sampling stamps seqs = Inr p" and "median_interval p = Some m"
  shows "\<exists>mn p05 p95 mx. min_interval p = Some mn \<and> p05_interval p = Some p05 \<and> p95_interval p = Some p95 \<and>
    max_interval p = Some mx \<and> mn \<le> p05 \<and> p05 \<le> p95 \<and> p95 \<le> mx \<and> mn \<le> m \<and> m \<le> mx"
proof -
  let ?ts = "map fst (paired_times stamps seqs)"
  let ?ds = "sort (filter (\<lambda>d. d > 0) (seconds_between ?ts))"
  have "p = analyze_times ?ts" and ne: "?ds \<noteq> []"
    using assms by (auto simp: analyze_sampling_def analyze_times_def empty_profile_def Let_def split: if_splits)
  then have p: "min_interval p = Some (py_round 2 (hd ?ds))" "p05_interval p = Some (py_round 2 (quantile_at (5 / 100) ?ds))"
    "p95_interval p = Some (py_round 2 (quantile_at (95 / 100) ?ds))" "max_interval p = Some (py_round 2 (last ?ds))"
    "m = py_round 2 (py_median ?ds)"
    using assms(2) by (simp_all add: analyze_times_def Let_def)
  have "hd ?ds \<le> quantile_at (5 / 100) ?ds" "quantile_at (5 / 100) ?ds \<le> quantile_at (95 / 100) ?ds"
    "quantile_at (95 / 100) ?ds \<le> last ?ds"
    using quantile_mono [of ?ds "5 / 100" "95 / 100"] ne by simp_all
  then show ?thesis
    using p median_between [OF _ ne] by (auto intro!: py_round_mono)
qed

theorem sampling_statistics_ordered_witness:
  "\<exists>p. analyze_sampling [0, 30000000, 90000000, 90000000] None = Inr p \<and> median_interval p = Some 45 \<and>
     min_interval p = Some 30 \<and> max_interval p = Some 60 \<and>
     (\<exists>mn p05 p95 mx. min_interval p = Some mn \<and> p05_interval p = Some p05 \<and> p95_interval p = Some p95 \<and>
       max_interval p = Some mx \<and> mn \<le> p05 \<and> p05 \<le> p95 \<and> p95 \<le> mx \<and> mn \<le> 45 \<and> 45 \<le> mx)"
proof -
  have "case analyze_sampling [0, 30000000, 90000000, 90000000] None of
      Inl e \<Rightarrow> False | Inr p \<Rightarrow> median_interval p = Some 45 \<and> min_interval p = Some 30 \<and> max_interval p = Some 60"
    by code_simp
  then obtain p where p: "analyze_sampling [0, 30000000, 90000000, 90000000] None = Inr p" "median_interval p = Some 45"
    "min_interval p = Some 30" "max_interval p = Some 60"
    by (auto split: sum.splits)
  then show ?thesis using sampling_statistics_ordered [OF p(1,2)] by blast
qed

section \<open>Gaps\<close>

lemma history_gap_iff:
  "(\<exists>g\<in>set (history_gap d p charger ctype cid q). gap_start g = a \<and> gap_end g = b) \<longleftrightarrow>
     q = (a, b) \<and> 0 \<le> total_seconds (b - a) \<and> history_threshold d p < total_seconds (b - a)"
  by (cases q) (auto simp: history_gap_def Let_def not_less total_seconds_def split: if_splits)

lemma history_gap_total:
  assumes "sorted ts" and "ts \<noteq> []"
  shows "sum_list (map gap_duration_of (concat (map (history_gap d p charger ctype cid) (pairs ts))))
    \<le> total_seconds (last ts - hd ts)"
proof -
  have "sum_list (map gap_duration_of (concat (map (history_gap d p charger ctype cid) qs)))
      \<le> (\<Sum>(a, b)\<leftarrow>qs. total_seconds b - total_seconds a)" if "\<forall>(a, b)\<in>set qs. a \<le> b" for qs
    using that
  proof (induction qs)
    case (Cons q qs)
    then have "sum_list (map gap_duration_of (history_gap d p charger ctype cid q)) \<le> (case q of (a, b) \<Rightarrow> total_seconds b - total_seconds a)"
      by (cases q) (auto simp: history_gap_def Let_def total_seconds_diff total_seconds_mono)
    then show ?case using Cons by simp
  qed simp
  then have "sum_list (map gap_duration_of (concat (map (history_gap d p charger ctype cid) (pairs ts))))
      \<le> (\<Sum>(a, b)\<leftarrow>pairs ts. total_seconds b - total_seconds a)"
    using pairs_sorted [OF assms(1)] by blast
  then show ?thesis using pairs_telescope [OF assms(2), of total_seconds] by (simp add: total_seconds_diff)
qed

text \<open>
  The gaps found in a timeline are neighbouring observations further apart than the threshold,
  they never cover more than the observed duration, and so the ratio of lost time the eligibility
  test compares is at most one.
\<close>

theorem history_gaps_within_coverage:
  assumes "detect_history_gaps d charger stamps None ctype cid prof = Inr gs"
    and "analyze_sampling stamps None = Inr p" and "0 < coverage_duration_seconds p"
  shows "0 \<le> sum_list (map gap_duration_of gs) \<and> sum_list (map gap_duration_of gs) / coverage_duration_seconds p \<le> 1"
proof -
  let ?ts = "map fst (paired_times stamps None)"
  have ne: "stamps \<noteq> []" using assms(2,3) by (auto simp: analyze_sampling_def empty_profile_def)
  then have len: "length ?ts = length stamps" by (simp add: paired_times_def)
  then have ne': "?ts \<noteq> []" using ne by auto
  have c: "coverage_duration_seconds p = total_seconds (last ?ts - hd ?ts)"
    using assms(2) ne ne' by (auto simp: analyze_sampling_def analyze_times_def empty_profile_def Let_def split: if_splits)
  have two: "\<not> length stamps < 2"
  proof
    assume "length stamps < 2"
    then have "length ?ts = 1" using ne len by (cases stamps) auto
    then have "hd ?ts = last ?ts" by (cases ?ts) auto
    then show False using assms(3) c by (simp add: total_seconds_def)
  qed
  obtain q where "gs = concat (map (history_gap d q charger ctype cid) (pairs ?ts))"
    using assms(1) two by (auto simp: detect_history_gaps_def Let_def bind_err_Inr)
  moreover have "0 \<le> gap_duration_of g" if "g \<in> set (history_gap d q charger ctype cid r)" for g r
    using that by (cases r) (auto simp: history_gap_def Let_def total_seconds_def not_less split: if_splits)
  ultimately have "0 \<le> sum_list (map gap_duration_of gs)"
    and "sum_list (map gap_duration_of gs) \<le> total_seconds (last ?ts - hd ?ts)"
    using history_gap_total [OF paired_sorted ne'] by (auto intro!: sum_list_nonneg)
  then show ?thesis using assms(3) c by simp
qed

theorem history_gaps_within_coverage_witness:
  "\<exists>gs p. detect_history_gaps default_detector ''C1'' [0, 60000000, 120000000, 720000000] None None None None = Inr gs \<and>
     length gs = 1 \<and> analyze_sampling [0, 60000000, 120000000, 720000000] None = Inr p \<and>
     0 \<le> sum_list (map gap_duration_of gs) \<and> sum_list (map gap_duration_of gs) / coverage_duration_seconds p \<le> 1"
proof -
  let ?ts = "[0, 60000000, 120000000, 720000000] :: datetime list"
  have "case detect_history_gaps default_detector ''C1'' ?ts None None None None of
      Inl e \<Rightarrow> False | Inr gs \<Rightarrow> length gs = 1"
    and "case analyze_sampling ?ts None of Inl e \<Rightarrow> False | Inr p \<Rightarrow> 0 < coverage_duration_seconds p"
    by code_simp+
  then obtain gs p where g: "detect_history_gaps default_detector ''C1'' ?ts None None None None = Inr gs" "length gs = 1"
    and p: "analyze_sampling ?ts None = Inr p" "0 < coverage_duration_seconds p"
    by (auto split: sum.splits)
  then show ?thesis using history_gaps_within_coverage [OF g(1) p] by blast
qed

section \<open>Counters\<close>

text \<open>
  The transitions of a counter chain its numeric readings: each starts at the value the one before
  reached.
\<close>

definition readings_of :: "counter_observation list \<Rightarrow> pyfloat list" where
  "readings_of obs = concat (map (\<lambda>ob. case ct_value ob of Number v \<Rightarrow> [v] | _ \<Rightarrow> []) obs)"

definition counter_inv :: "counter_observation list \<Rightarrow> counter_state \<Rightarrow> bool" where
  "counter_inv es s =
     (map current_value (cs_transitions s) = readings_of es \<and>
      map previous_value (cs_transitions s) =
        (if readings_of es = [] then [] else None # map Some (butlast (readings_of es))) \<and>
      cs_first s = (if readings_of es = [] then None else Some (hd (readings_of es))) \<and>
      cs_prev s = (if readings_of es = [] then None else Some (last (readings_of es))) \<and>
      (readings_of es \<noteq> [] \<longrightarrow> max_seen s = Max (set (readings_of es))) \<and>
      (\<forall>t\<in>set (cs_transitions s). transition_type t = INITIAL \<longleftrightarrow> previous_value t = None))"

lemma readings_snoc: "readings_of (es @ [e]) = readings_of es @ (case ct_value e of Number v \<Rightarrow> [v] | _ \<Rightarrow> [])"
  by (simp add: readings_of_def)

lemma kind_not_initial: "counter_kind t a b \<noteq> INITIAL"
  by (simp add: counter_kind_def)

lemma counter_step_inv:
  assumes "counter_inv es s"
  shows "counter_inv (es @ [e]) (counter_step charger name s e)"
proof (cases "ct_value e")
  case (Number v)
  show ?thesis
  proof (cases "readings_of es = []")
    case True
    then show ?thesis using assms Number by (simp add: counter_inv_def readings_snoc counter_step_def)
  next
    case False
    let ?rs = "readings_of es"
    have m: "Max (insert v (set ?rs)) = max (Max (set ?rs)) v"
      using False Max_insert [of "set ?rs" v] by (simp only: max.commute List.finite_set set_empty not_False_eq_True)
    have ps: "cs_prev s = Some (last ?rs)" "max_seen s = Max (set ?rs)"
      using assms False by (simp_all add: counter_inv_def)
    have l: "last ?rs \<le> Max (set ?rs)" using False by simp
    have mx: "(if v - p > 0 \<and> v > M then v else M) = max M v" if "p \<le> M" for p M :: pyfloat
      using that by auto
    have step: "counter_step charger name s e = s\<lparr>cs_prev := Some v,
        max_seen := max (Max (set ?rs)) v,
        cs_transitions := cs_transitions s @ [\<lparr>tr_charger_id = charger, tr_counter_name = name,
          tr_event_time = ct_event_time e, tr_frame_sequence = ct_frame_sequence e, previous_value = Some (last ?rs),
          current_value = v, tr_delta = Some (py_round 3 (v - last ?rs)),
          transition_type = counter_kind (Max (set ?rs)) (last ?rs) v\<rparr>]\<rparr>"
      using ps Number
      by (simp only: counter_step_def Let_def option.case counter_value.case mx [OF l])
    have "butlast ?rs @ [last ?rs] = ?rs" using False by simp
    then have "map Some (butlast ?rs) @ [Some (last ?rs)] = map Some ?rs" by (metis list.simps(8,9) map_append)
    then show ?thesis
      using assms False Number m by (simp add: counter_inv_def readings_snoc step kind_not_initial del: Max_insert)
  qed
qed (use assms in \<open>simp_all add: counter_inv_def readings_snoc counter_step_def\<close>)

interpretation counter_loop: history_fold "counter_step charger name" counter_start "\<lambda>_. True" counter_inv
  for charger name
  by unfold_locales (simp_all add: counter_step_inv, simp add: counter_inv_def counter_start_def readings_of_def)

lemma count_kind_partition:
  "length ts = length (filter (\<lambda>t. transition_type t = INITIAL) ts) + count_kind [INCREASED] ts
      + count_kind [UNCHANGED] ts + count_kind [DECREASED, RESET_CANDIDATE] ts"
proof (induction ts)
  case (Cons t ts)
  then show ?case by (cases "transition_type t") (simp_all add: count_kind_def)
qed (simp add: count_kind_def)

lemma count_kind_mono: "set ks \<subseteq> set ls \<Longrightarrow> count_kind ks ts \<le> count_kind ls ts"
  by (induction ts) (auto simp: count_kind_def)

text \<open>
  A counter report misses no change: increases, decreases and unchanged readings are all the
  numeric readings but the first, reset candidates are among the decreases, and the net change is
  that from the first to the last reading in time.
\<close>

theorem counter_report_complete:
  assumes "rs = readings_of (sort_key (\<lambda>ob. (ct_event_time ob, ct_frame_sequence ob)) observations)"
    and "r = analyze_counter charger name observations"
  shows "map current_value (counter_transitions r) = rs \<and>
    increase_count r + unchanged_count r + decrease_count r = length rs - 1 \<and>
    reset_candidate_count r \<le> decrease_count r \<and>
    (rs \<noteq> [] \<longrightarrow> net_change r = Some (py_round 3 (last rs - hd rs)))"
proof -
  let ?s = "foldl (counter_step charger name) counter_start
      (sort_key (\<lambda>ob. (ct_event_time ob, ct_frame_sequence ob)) observations)"
  have inv: "counter_inv (sort_key (\<lambda>ob. (ct_event_time ob, ct_frame_sequence ob)) observations) ?s"
    by (rule counter_loop.fold_inv) simp
  define ts where "ts = cs_transitions ?s"
  have ts: "map current_value ts = rs" "map previous_value ts = (if rs = [] then [] else None # map Some (butlast rs))"
    "\<forall>t\<in>set ts. transition_type t = INITIAL \<longleftrightarrow> previous_value t = None"
    "rs \<noteq> [] \<longrightarrow> cs_first ?s = Some (hd rs) \<and> cs_prev ?s = Some (last rs)"
    using inv unfolding counter_inv_def assms(1) [symmetric] ts_def [symmetric] by simp_all
  have len: "length ts = length rs" using ts(1) by (metis length_map)
  have "length (filter (\<lambda>t. transition_type t = INITIAL) ts) = length (filter (\<lambda>v. v = None) (map previous_value ts))"
    using ts(3) by (simp add: filter_map comp_def cong: filter_cong)
  also have "\<dots> = (if rs = [] then 0 else 1)"
    unfolding ts(2) by (simp add: filter_map comp_def)
  finally have counts: "count_kind [INCREASED] ts + count_kind [UNCHANGED] ts + count_kind [DECREASED, RESET_CANDIDATE] ts = length rs - 1"
    using count_kind_partition [of ts] len by (simp split: if_splits)
  show ?thesis
    using counts ts(1,4) count_kind_mono [of "[RESET_CANDIDATE]" "[DECREASED, RESET_CANDIDATE]" ts]
    unfolding assms(2) analyze_counter_def Let_def ts_def [symmetric] by simp
qed

theorem counter_report_complete_witness:
  "\<exists>r. r = analyze_counter ''C1'' ''energy'' (map (\<lambda>(t, v). \<lparr>ct_event_time = t, ct_frame_sequence = 0, ct_value = v\<rparr>)
        [(2, Number 30), (1, Number 20), (3, MissingValue), (4, Number 5)]) \<and>
     map current_value (counter_transitions r) = [20, 30, 5] \<and>
     increase_count r + unchanged_count r + decrease_count r = 2 \<and> reset_candidate_count r \<le> decrease_count r \<and>
     net_change r = Some (py_round 3 (5 - 20))"
proof -
  let ?obs = "map (\<lambda>(t, v). \<lparr>ct_event_time = t, ct_frame_sequence = 0, ct_value = v\<rparr>)
      [(2, Number 30), (1, Number 20), (3, MissingValue), (4, Number 5)]"
  have rs: "[20, 30, 5] = readings_of (sort_key (\<lambda>ob. (ct_event_time ob, ct_frame_sequence ob)) ?obs)" by code_simp
  show ?thesis using counter_report_complete [OF rs refl] by simp
qed

end
