(* ===== verification/Signals.thy ===== *)
theory Signals
  imports Serializer
begin

text \<open>
  Per-signal statistics and correlations, \<open>pipelines/research/signal_statistician.py\<close> and its
  value objects in \<open>pipelines/research/models.py\<close>.

  A signal value is \<open>None\<close>, a finite number, a Boolean, a NaN object, an infinity (\<open>True\<close> for the
  positive one), text or a datetime.
  Means and percentiles are exact rationals; what the code obtains through \<open>math.sqrt\<close> (standard
  deviation, skewness, kurtosis, correlations) is real. \<open>py_float\<close> is \<open>float(str)\<close> for exponents
  within the limits of \<open>parse_decimal\<close>.
\<close>

section \<open>Values\<close>

datatype sig_value =
    SNull
  | SFloat pyfloat
  | SBool bool
  | SNaN nat
  | SInf bool
  | SText string
  | STime datetime

datatype float_reading = Finite pyfloat | NonFinite | ValueError

definition py_float :: "string \<Rightarrow> float_reading" where
  "py_float text =
     (let s = py_strip text;
          placed = list_all (\<lambda>i. s ! i = CHR ''_'' \<longrightarrow>
              0 < i \<and> Suc i < length s \<and> is_digit (s ! (i - 1)) \<and> is_digit (s ! Suc i)) [0..<length s]
      in if py_lower (snd (split_sign s)) \<in> {''nan'', ''inf'', ''infinity''} then NonFinite
         else if \<not> placed then ValueError
         else case parse_decimal s of
                None \<Rightarrow> ValueError
              | Some d \<Rightarrow> (if \<bar>decimal_value d\<bar> \<ge> 2 ^ 1024 - 2 ^ 970 then NonFinite else Finite (decimal_value d)))"

fun float_of :: "sig_value \<Rightarrow> float_reading" where
  "float_of SNull = ValueError"
| "float_of (SFloat x) = Finite x"
| "float_of (SBool b) = Finite (of_bool b)"
| "float_of (SNaN i) = NonFinite"
| "float_of (SInf b) = NonFinite"
| "float_of (SText s) = py_float s"
| "float_of (STime t) = ValueError"

text \<open>Python compares \<open>True\<close> equal to \<open>1\<close>, so they are one element of a set.\<close>

fun set_key :: "sig_value \<Rightarrow> sig_value" where
  "set_key (SBool b) = SFloat (of_bool b)"
| "set_key v = v"

section \<open>Statistics\<close>

record signal_statistics =
  signal_name :: string
  st_count :: nat
  non_null_count :: nat
  null_count :: nat
  sentinel_count :: nat
  zero_count :: nat
  negative_count :: nat
  mean :: "pyfloat option"
  std :: "real option"
  min_val :: "pyfloat option"
  max_val :: "pyfloat option"
  p05 :: "pyfloat option"
  p25 :: "pyfloat option"
  p50 :: "pyfloat option"
  p75 :: "pyfloat option"
  p95 :: "pyfloat option"
  skewness :: "real option"
  kurtosis :: "real option"
  distinct_count :: nat
  missing_rate :: pyfloat

definition DEFAULT_SENTINELS :: "pyfloat list" where
  "DEFAULT_SENTINELS = [-1, -9999, 9999, 65535, 99999, -99999, 255]"

record stat_state =
  n_null :: nat
  n_sentinel :: nat
  n_zero :: nat
  n_negative :: nat
  numeric_values :: "pyfloat list"
  distinct_values :: "sig_value list"

definition stat_start :: stat_state where
  "stat_start = \<lparr>n_null = 0, n_sentinel = 0, n_zero = 0, n_negative = 0, numeric_values = [], distinct_values = []\<rparr>"

definition stat_step :: "pyfloat list \<Rightarrow> stat_state \<Rightarrow> sig_value \<Rightarrow> stat_state" where
  "stat_step sentinels s v =
     (let s = s\<lparr>distinct_values := List.insert (set_key v) (distinct_values s)\<rparr>
      in case float_of v of
           Finite x \<Rightarrow>
             (if x \<in> set sentinels then s\<lparr>n_sentinel := n_sentinel s + 1\<rparr>
              else s\<lparr>n_zero := n_zero s + (if x = 0 then 1 else 0),
                     n_negative := n_negative s + (if x < 0 then 1 else 0),
                     numeric_values := numeric_values s @ [x]\<rparr>)
         | _ \<Rightarrow> s\<lparr>n_null := n_null s + 1\<rparr>)"

definition percentile :: "pyfloat list \<Rightarrow> pyfloat \<Rightarrow> pyfloat" where
  "percentile arr p =
     (if arr = [] then 0
      else if length arr = 1 then arr ! 0
      else let k = of_nat (length arr - 1) * p; f = \<lfloor>k\<rfloor>; c = \<lceil>k\<rceil>
           in if f = c then arr ! nat f
              else arr ! nat f * (of_int c - k) + arr ! nat c * (k - of_int f))"

definition py_mean :: "pyfloat list \<Rightarrow> pyfloat" where
  "py_mean xs = sum_list xs / of_nat (length xs)"

definition central_sum :: "nat \<Rightarrow> pyfloat list \<Rightarrow> pyfloat" where
  "central_sum p xs = (\<Sum>x\<leftarrow>xs. (x - py_mean xs) ^ p)"

definition std_of :: "pyfloat list \<Rightarrow> real" where
  "std_of xs =
     (if length xs > 1 then sqrt (of_rat (central_sum 2 xs / of_nat (length xs - 1))) else 0)"

definition numeric_statistics :: "signal_statistics \<Rightarrow> pyfloat list \<Rightarrow> signal_statistics" where
  "numeric_statistics base values =
     (let xs = sort values; n = length xs; s = std_of xs
      in base\<lparr>non_null_count := length values,
           mean := Some (py_mean xs), std := Some s, min_val := Some (hd xs), max_val := Some (last xs),
           p05 := Some (percentile xs (5 / 100)), p25 := Some (percentile xs (25 / 100)),
           p50 := Some (percentile xs (50 / 100)), p75 := Some (percentile xs (75 / 100)),
           p95 := Some (percentile xs (95 / 100)),
           skewness := (if n \<ge> 3 \<and> s > 1 / 10 ^ 12 then Some (of_rat (central_sum 3 xs / of_nat n) / s ^ 3) else None),
           kurtosis := (if n \<ge> 4 \<and> s > 1 / 10 ^ 12 then Some (of_rat (central_sum 4 xs / of_nat n) / s ^ 4 - 3) else None)\<rparr>)"

definition compute_statistics :: "pyfloat list \<Rightarrow> string \<Rightarrow> sig_value list \<Rightarrow> signal_statistics" where
  "compute_statistics sentinels name values =
     (let s = foldl (stat_step sentinels) stat_start values; n = length values;
          base = \<lparr>signal_name = name, st_count = n, non_null_count = 0, null_count = n_null s,
            sentinel_count = n_sentinel s, zero_count = n_zero s, negative_count = n_negative s,
            mean = None, std = None, min_val = None, max_val = None, p05 = None, p25 = None, p50 = None,
            p75 = None, p95 = None, skewness = None, kurtosis = None, distinct_count = length (distinct_values s),
            missing_rate = (if n > 0 then of_nat (n_null s + n_sentinel s) / of_nat n else 0)\<rparr>
      in if numeric_values s = [] then base else numeric_statistics base (numeric_values s))"

section \<open>Correlations\<close>

record correlation_entry =
  signal_a :: string
  signal_b :: string
  pearson_r :: "real option"
  spearman_rho :: "real option"
  sample_count :: nat

record correlation_matrix =
  entries :: "correlation_entry list"
  signal_names :: "string list"

definition pearson :: "pyfloat list \<Rightarrow> pyfloat list \<Rightarrow> real option" where
  "pearson xs ys =
     (let n = of_nat (length xs); mx = py_mean xs; my = py_mean ys;
          cov = (\<Sum>(x, y)\<leftarrow>zip xs ys. (x - mx) * (y - my)) / n;
          std_x = sqrt (of_rat ((\<Sum>x\<leftarrow>xs. (x - mx) ^ 2) / n));
          std_y = sqrt (of_rat ((\<Sum>y\<leftarrow>ys. (y - my) ^ 2) / n))
      in if std_x < 1 / 10 ^ 12 \<or> std_y < 1 / 10 ^ 12 then None
         else Some (of_rat cov / (std_x * std_y)))"

text \<open>
  The rank transformation: the positions are sorted by value, and each run of equal values gets the
  average of its first and last place.
\<close>

function tie_end :: "(nat \<times> pyfloat) list \<Rightarrow> nat \<Rightarrow> nat" where
  "tie_end indexed j =
     (if j < length indexed - 1 \<and> snd (indexed ! (j + 1)) = snd (indexed ! j) then tie_end indexed (j + 1) else j)"
  by pat_completeness auto
termination
  by (relation "measure (\<lambda>(indexed, j). length indexed - j)") auto

declare tie_end.simps [simp del]

lemma tie_end_ge: "i \<le> tie_end indexed i"
proof (induction indexed i rule: tie_end.induct)
  case (1 indexed j)
  then show ?case by (subst tie_end.simps) (auto intro: order_trans [of j "j + 1"])
qed

definition assign_ranks ::
    "(nat \<times> pyfloat) list \<Rightarrow> nat \<Rightarrow> nat \<Rightarrow> pyfloat list \<Rightarrow> pyfloat list" where
  "assign_ranks indexed i j ranks =
     foldl (\<lambda>rs k. rs[fst (indexed ! k) := of_nat (i + j) / 2 + 1]) ranks [i..<j + 1]"

function rank_loop :: "(nat \<times> pyfloat) list \<Rightarrow> nat \<Rightarrow> pyfloat list \<Rightarrow> pyfloat list" where
  "rank_loop indexed i ranks =
     (if i < length indexed then
        let j = tie_end indexed i in rank_loop indexed (j + 1) (assign_ranks indexed i j ranks)
      else ranks)"
  by pat_completeness auto
termination
  by (relation "measure (\<lambda>(indexed, i, ranks). length indexed - i)") (auto simp: less_Suc_eq_le tie_end_ge diff_less_mono2)

declare rank_loop.simps [simp del]

definition rank :: "pyfloat list \<Rightarrow> pyfloat list" where
  "rank arr = rank_loop (sort_key snd (enumerate 0 arr)) 0 (replicate (length arr) 0)"

definition spearman :: "pyfloat list \<Rightarrow> pyfloat list \<Rightarrow> real option" where
  "spearman xs ys = pearson (rank xs) (rank ys)"

definition usable :: "pyfloat list \<Rightarrow> sig_value \<Rightarrow> pyfloat option" where
  "usable sentinels v =
     (case float_of v of Finite x \<Rightarrow> if x \<in> set sentinels then None else Some x | _ \<Rightarrow> None)"

definition paired_values ::
    "pyfloat list \<Rightarrow> sig_value list \<Rightarrow> sig_value list \<Rightarrow> (pyfloat \<times> pyfloat) list" where
  "paired_values sentinels as bs =
     concat (map (\<lambda>(a, b). case (usable sentinels a, usable sentinels b) of
         (Some x, Some y) \<Rightarrow> [(x, y)] | _ \<Rightarrow> []) (zip as bs))"

definition compute_correlation ::
    "pyfloat list \<Rightarrow> string \<Rightarrow> sig_value list \<Rightarrow> string \<Rightarrow> sig_value list \<Rightarrow> correlation_entry" where
  "compute_correlation sentinels a_name as b_name bs =
     (let paired = paired_values sentinels as bs; n = length paired;
          xs = map fst paired; ys = map snd paired
      in if n < 3 then \<lparr>signal_a = a_name, signal_b = b_name, pearson_r = None, spearman_rho = None, sample_count = n\<rparr>
         else \<lparr>signal_a = a_name, signal_b = b_name, pearson_r = pearson xs ys,
                spearman_rho = spearman xs ys, sample_count = n\<rparr>)"

fun name_pairs :: "'a list \<Rightarrow> ('a \<times> 'a) list" where
  "name_pairs [] = []"
| "name_pairs (a # bs) = map (Pair a) bs @ name_pairs bs"

definition compute_correlation_matrix ::
    "pyfloat list \<Rightarrow> (string, sig_value list) pydict \<Rightarrow> correlation_matrix" where
  "compute_correlation_matrix sentinels signals =
     (let names = sort (dict_keys signals); get = (\<lambda>a. the (map_of signals a))
      in \<lparr>entries = map (\<lambda>(a, b). compute_correlation sentinels a (get a) b (get b)) (name_pairs names),
          signal_names = names\<rparr>)"

section \<open>Counters\<close>

text \<open>The readings that enter the numeric statistics.\<close>

definition finite_values :: "pyfloat list \<Rightarrow> sig_value list \<Rightarrow> pyfloat list" where
  "finite_values sentinels vs = concat (map (\<lambda>v. case usable sentinels v of None \<Rightarrow> [] | Some x \<Rightarrow> [x]) vs)"

definition stat_inv :: "pyfloat list \<Rightarrow> sig_value list \<Rightarrow> stat_state \<Rightarrow> bool" where
  "stat_inv sentinels es s =
     (numeric_values s = finite_values sentinels es \<and>
      n_null s + n_sentinel s + length (numeric_values s) = length es \<and>
      n_zero s = length (filter (\<lambda>x. x = 0) (numeric_values s)) \<and>
      n_negative s = length (filter (\<lambda>x. x < 0) (numeric_values s)) \<and>
      distinct (distinct_values s) \<and> set (distinct_values s) = set_key ` set es)"

lemma stat_step_inv: "stat_inv sentinels es s \<Longrightarrow> stat_inv sentinels (es @ [v]) (stat_step sentinels s v)"
  by (cases "float_of v")
    (auto simp: stat_inv_def stat_step_def finite_values_def usable_def Let_def)

interpretation stat_loop: history_fold "stat_step sentinels" stat_start "\<lambda>_. True" "stat_inv sentinels"
  for sentinels
  by unfold_locales (simp_all add: stat_step_inv, simp add: stat_inv_def stat_start_def finite_values_def)

lemma stat_fold: "stat_inv sentinels vs (foldl (stat_step sentinels) stat_start vs)"
  by (rule stat_loop.fold_inv) simp

lemma statistics_fields:
  fixes vs sentinels name
  defines "r \<equiv> compute_statistics sentinels name vs" and "xs \<equiv> finite_values sentinels vs"
  shows "st_count r = length vs" and "non_null_count r = length xs"
    and "null_count r + sentinel_count r + length xs = length vs"
    and "zero_count r = length (filter (\<lambda>x. x = 0) xs)" and "negative_count r = length (filter (\<lambda>x. x < 0) xs)"
    and "distinct_count r = card (set_key ` set vs)"
    and "missing_rate r = (if vs = [] then 0 else of_nat (length vs - length xs) / of_nat (length vs))"
    and "xs \<noteq> [] \<Longrightarrow> mean r = Some (py_mean (sort xs)) \<and> min_val r = Some (hd (sort xs)) \<and>
      max_val r = Some (last (sort xs)) \<and> p05 r = Some (percentile (sort xs) (5 / 100)) \<and>
      p25 r = Some (percentile (sort xs) (25 / 100)) \<and> p50 r = Some (percentile (sort xs) (50 / 100)) \<and>
      p75 r = Some (percentile (sort xs) (75 / 100)) \<and> p95 r = Some (percentile (sort xs) (95 / 100)) \<and>
      std r = Some (std_of (sort xs))"
    and "xs = [] \<Longrightarrow> mean r = None"
proof -
  define s where "s = foldl (stat_step sentinels) stat_start vs"
  have inv: "numeric_values s = xs" "n_null s + n_sentinel s + length xs = length vs"
    "n_zero s = length (filter (\<lambda>x. x = 0) xs)" "n_negative s = length (filter (\<lambda>x. x < 0) xs)"
    "length (distinct_values s) = card (set_key ` set vs)"
    using stat_fold [of sentinels vs] distinct_card [of "distinct_values s"]
    by (auto simp: stat_inv_def xs_def s_def)
  have len: "length vs - length xs = n_null s + n_sentinel s" using inv(2) by simp
  note d = compute_statistics_def [of sentinels name vs, folded s_def r_def] numeric_statistics_def
  show "st_count r = length vs" "non_null_count r = length xs"
    "zero_count r = length (filter (\<lambda>x. x = 0) xs)" "negative_count r = length (filter (\<lambda>x. x < 0) xs)"
    "null_count r + sentinel_count r + length xs = length vs" "distinct_count r = card (set_key ` set vs)"
    "missing_rate r = (if vs = [] then 0 else of_nat (length vs - length xs) / of_nat (length vs))"
    unfolding len using inv(2) by (auto simp add: d inv(1,3-5) Let_def)
  show "mean r = None" if "xs = []" using that by (simp add: d inv Let_def)
  show "mean r = Some (py_mean (sort xs)) \<and> min_val r = Some (hd (sort xs)) \<and>
      max_val r = Some (last (sort xs)) \<and> p05 r = Some (percentile (sort xs) (5 / 100)) \<and>
      p25 r = Some (percentile (sort xs) (25 / 100)) \<and> p50 r = Some (percentile (sort xs) (50 / 100)) \<and>
      p75 r = Some (percentile (sort xs) (75 / 100)) \<and> p95 r = Some (percentile (sort xs) (95 / 100)) \<and>
      std r = Some (std_of (sort xs))" if "xs \<noteq> []"
    using that by (simp add: d inv Let_def)
qed

section \<open>Percentiles\<close>

definition interpolate :: "pyfloat list \<Rightarrow> pyfloat \<Rightarrow> pyfloat" where
  "interpolate xs k = xs ! nat \<lfloor>k\<rfloor> + (k - of_int \<lfloor>k\<rfloor>) * (xs ! nat \<lceil>k\<rceil> - xs ! nat \<lfloor>k\<rfloor>)"

lemma percentile_interpolate:
  assumes "xs \<noteq> []"
  shows "percentile xs p = interpolate xs (of_nat (length xs - 1) * p)"
proof (cases "length xs = 1")
  case True
  then show ?thesis using assms by (simp add: percentile_def interpolate_def)
next
  case False
  define k where "k = of_nat (length xs - 1) * p"
  have "of_int \<lceil>k\<rceil> = of_int \<lfloor>k\<rfloor> + (1 :: rat)" if "\<lfloor>k\<rfloor> \<noteq> \<lceil>k\<rceil>"
    using that ceiling_altdef [of k] by (simp split: if_splits)
  moreover have "k = of_int \<lfloor>k\<rfloor>" if "\<lfloor>k\<rfloor> = \<lceil>k\<rceil>"
    using that by (metis ceiling_correct floor_correct order_antisym)
  ultimately show ?thesis
    using False assms unfolding percentile_def interpolate_def k_def [symmetric]
    by (cases "\<lfloor>k\<rfloor> = \<lceil>k\<rceil>") (simp_all add: Let_def algebra_simps)
qed

lemma interpolate_between:
  assumes "sorted xs" and "0 \<le> k" and "\<lceil>k\<rceil> < int (length xs)"
  shows "xs ! nat \<lfloor>k\<rfloor> \<le> interpolate xs k \<and> interpolate xs k \<le> xs ! nat \<lceil>k\<rceil>"
proof -
  let ?d = "xs ! nat \<lceil>k\<rceil> - xs ! nat \<lfloor>k\<rfloor>"
  have "nat \<lfloor>k\<rfloor> \<le> nat \<lceil>k\<rceil>" by (intro nat_mono) (metis ceiling_correct floor_correct of_int_le_iff order_trans)
  then have d: "0 \<le> ?d" using assms ceiling_mono [OF assms(2)] by (simp add: sorted_nth_mono nat_less_iff)
  have f: "0 \<le> k - of_int \<lfloor>k\<rfloor>" "k - of_int \<lfloor>k\<rfloor> \<le> 1" using floor_correct [of k] by simp_all
  have "0 \<le> (k - of_int \<lfloor>k\<rfloor>) * ?d" "(k - of_int \<lfloor>k\<rfloor>) * ?d \<le> ?d"
    using mult_nonneg_nonneg [OF f(1) d] mult_right_mono [OF f(2) d] by simp_all
  then show ?thesis unfolding interpolate_def by simp
qed

lemma interpolate_mono:
  assumes "sorted xs" and "0 \<le> k" and "k \<le> l" and "\<lceil>l\<rceil> < int (length xs)"
  shows "interpolate xs k \<le> interpolate xs l"
proof (cases "\<lceil>k\<rceil> \<le> \<lfloor>l\<rfloor>")
  case True
  have l0: "0 \<le> l" "\<lceil>k\<rceil> < int (length xs)" using assms ceiling_mono [OF assms(3)] by linarith+
  have "\<lfloor>l\<rfloor> < int (length xs)" using assms(4) by (metis ceiling_correct floor_correct le_less_trans of_int_le_iff order_trans)
  then have "xs ! nat \<lceil>k\<rceil> \<le> xs ! nat \<lfloor>l\<rfloor>"
    using True assms(1) l0(1) by (intro sorted_nth_mono) (simp_all add: nat_mono nat_less_iff)
  then show ?thesis
    using interpolate_between [OF assms(1,2) l0(2)] interpolate_between [OF assms(1) l0(1) assms(4)] by linarith
next
  case False
  then have "\<lfloor>k\<rfloor> = \<lfloor>l\<rfloor>" "\<lceil>k\<rceil> = \<lceil>l\<rceil>"
    using floor_mono [OF assms(3)] ceiling_mono [OF assms(3)] ceiling_altdef [of k] ceiling_altdef [of l]
    by (auto split: if_splits)
  moreover have "xs ! nat \<lfloor>l\<rfloor> \<le> xs ! nat \<lceil>l\<rceil>"
    using assms interpolate_between [OF assms(1) _ assms(4)] by (meson order_trans)
  ultimately show ?thesis
    unfolding interpolate_def using assms(3) by (simp add: mult_right_mono)
qed

lemma percentile_mono:
  assumes "sorted xs" and "xs \<noteq> []" and "0 \<le> p" and "p \<le> q" and "q \<le> 1"
  shows "percentile xs p \<le> percentile xs q"
proof -
  have "of_nat (length xs - 1) * q \<le> of_int (int (length xs - 1))"
    using mult_left_mono [OF assms(5), of "of_nat (length xs - 1)"] by simp
  then have "\<lceil>of_nat (length xs - 1) * q\<rceil> \<le> int (length xs - 1)" by (simp only: ceiling_le_iff)
  then have "\<lceil>of_nat (length xs - 1) * q\<rceil> < int (length xs)" using assms(2) by (cases xs) simp_all
  then show ?thesis unfolding percentile_interpolate [OF assms(2)]
    using assms by (intro interpolate_mono) (simp_all add: mult_left_mono)
qed

lemma percentile_ends: "xs \<noteq> [] \<Longrightarrow> percentile xs 0 = hd xs \<and> percentile xs 1 = last xs"
  by (simp add: percentile_interpolate interpolate_def hd_conv_nth last_conv_nth del: of_nat_diff)

lemma mean_between:
  assumes "sorted xs" and "xs \<noteq> []"
  shows "hd xs \<le> py_mean xs \<and> py_mean xs \<le> last xs"
proof -
  have b: "hd xs \<le> x" "x \<le> last xs" if "x \<in> set xs" for x
    using that assms by (auto simp: in_set_conv_nth hd_conv_nth last_conv_nth intro!: sorted_nth_mono)
  have "of_nat (length xs) * hd xs \<le> sum_list xs" "sum_list xs \<le> of_nat (length xs) * last xs"
    using sum_list_mono [of xs "\<lambda>_. hd xs" "\<lambda>x. x"] sum_list_mono [of xs "\<lambda>x. x" "\<lambda>_. last xs"] b
    by (simp_all add: sum_list_triv)
  then show ?thesis using assms(2) by (simp add: py_mean_def field_simps)
qed

text \<open>
  The numeric statistics of a signal are ordered: minimum, 5th, 25th, 50th, 75th and 95th
  percentile and maximum ascend, the mean lies between the extremes, and the missing rate is the
  share of values that are not usable numbers.
\<close>

theorem signal_statistics_ordered:
  assumes "mean (compute_statistics sentinels name vs) = Some m"
  shows "\<exists>mn q05 q25 q50 q75 q95 mx. (let r = compute_statistics sentinels name vs in
      min_val r = Some mn \<and> p05 r = Some q05 \<and> p25 r = Some q25 \<and> p50 r = Some q50 \<and> p75 r = Some q75 \<and>
      p95 r = Some q95 \<and> max_val r = Some mx \<and>
      sorted [mn, q05, q25, q50, q75, q95, mx] \<and> mn \<le> m \<and> m \<le> mx \<and>
      0 \<le> missing_rate r \<and> missing_rate r < 1)"
proof -
  let ?xs = "sort (finite_values sentinels vs)"
  have xs: "finite_values sentinels vs \<noteq> []" using assms statistics_fields(9) by fastforce
  then have ne: "?xs \<noteq> []" by (metis length_0_conv length_sort)
  have lt: "0 < length (finite_values sentinels vs)" "length (finite_values sentinels vs) \<le> length vs"
    using xs statistics_fields(3) [where vs = vs and sentinels = sentinels and name = name] by simp_all
  have "hd ?xs \<le> percentile ?xs (5 / 100)" "percentile ?xs (5 / 100) \<le> percentile ?xs (25 / 100)"
    "percentile ?xs (25 / 100) \<le> percentile ?xs (50 / 100)" "percentile ?xs (50 / 100) \<le> percentile ?xs (75 / 100)"
    "percentile ?xs (75 / 100) \<le> percentile ?xs (95 / 100)" "percentile ?xs (95 / 100) \<le> last ?xs"
    using percentile_mono [OF sorted_sort ne, of 0 "5 / 100"] percentile_mono [OF sorted_sort ne, of "5 / 100" "25 / 100"]
      percentile_mono [OF sorted_sort ne, of "25 / 100" "50 / 100"] percentile_mono [OF sorted_sort ne, of "50 / 100" "75 / 100"]
      percentile_mono [OF sorted_sort ne, of "75 / 100" "95 / 100"] percentile_mono [OF sorted_sort ne, of "95 / 100" 1]
      percentile_ends [OF ne] by simp_all
  then show ?thesis
    using statistics_fields(7,8) [where vs = vs and sentinels = sentinels and name = name] xs assms mean_between [OF sorted_sort ne] lt by (auto simp: Let_def)
qed

theorem signal_statistics_ordered_witness:
  "\<exists>mn q05 q25 q50 q75 q95 mx. (let r = compute_statistics DEFAULT_SENTINELS ''temp'' [SFloat 3, SNull, SFloat 255, SBool True] in
      min_val r = Some mn \<and> p05 r = Some q05 \<and> p25 r = Some q25 \<and> p50 r = Some q50 \<and> p75 r = Some q75 \<and>
      p95 r = Some q95 \<and> max_val r = Some mx \<and>
      sorted [mn, q05, q25, q50, q75, q95, mx] \<and> mn \<le> 2 \<and> 2 \<le> mx \<and>
      0 \<le> missing_rate r \<and> missing_rate r < 1)"
proof (rule signal_statistics_ordered)
  have "finite_values DEFAULT_SENTINELS [SFloat 3, SNull, SFloat 255, SBool True] = [3, 1]"
    by (simp add: finite_values_def usable_def DEFAULT_SENTINELS_def)
  then show "mean (compute_statistics DEFAULT_SENTINELS ''temp'' [SFloat 3, SNull, SFloat 255, SBool True]) = Some 2"
    by (simp add: statistics_fields(8) py_mean_def)
qed

section \<open>Ranks\<close>

lemma tie_end_run:
  assumes "sorted (map snd ps)" and "i < length ps"
  shows "tie_end ps i < length ps \<and> (\<forall>k. i \<le> k \<and> k \<le> tie_end ps i \<longrightarrow> snd (ps ! k) = snd (ps ! i)) \<and>
    (\<forall>k. tie_end ps i < k \<and> k < length ps \<longrightarrow> snd (ps ! i) < snd (ps ! k))"
  using assms
proof (induction ps i rule: tie_end.induct)
  case (1 ps j)
  show ?case
  proof (cases "j < length ps - 1 \<and> snd (ps ! (j + 1)) = snd (ps ! j)")
    case True
    then have lt: "j + 1 < length ps" by linarith
    have e: "tie_end ps j = tie_end ps (j + 1)" using True by (subst tie_end.simps) simp
    have "\<forall>k. j \<le> k \<and> k \<le> tie_end ps (j + 1) \<longrightarrow> snd (ps ! k) = snd (ps ! j)"
      using "1.IH" [OF True "1.prems"(1) lt] True by (metis Suc_eq_plus1 le_antisym not_less_eq_eq)
    moreover have "snd (ps ! (j + 1)) = snd (ps ! j)" using True by blast
    ultimately show ?thesis unfolding e using "1.IH" [OF True "1.prems"(1) lt] by metis
  next
    case False
    then have e: "tie_end ps j = j" by (subst tie_end.simps) (rule if_not_P)
    have "snd (ps ! j) < snd (ps ! k)" if k: "j < k" "k < length ps" for k
    proof -
      have "snd (ps ! j) \<le> snd (ps ! (j + 1))" "snd (ps ! (j + 1)) \<le> snd (ps ! k)"
        using "1.prems"(1) k sorted_nth_mono [of "map snd ps" j "j + 1"] sorted_nth_mono [of "map snd ps" "j + 1" k] by simp_all
      then show ?thesis using False k by auto
    qed
    moreover have "\<forall>k. j \<le> k \<and> k \<le> j \<longrightarrow> snd (ps ! k) = snd (ps ! j)" by (metis le_antisym)
    ultimately show ?thesis unfolding e using "1.prems"(2) by blast
  qed
qed

lemma nth_fold_updates:
  assumes "m < length rs"
  shows "foldl (\<lambda>rs k. rs[f k := v]) rs ks ! m = (if m \<in> f ` set ks then v else rs ! m)"
  using assms by (induction ks arbitrary: rs) (auto simp: nth_list_update)

lemma length_fold_updates: "length (foldl (\<lambda>rs k. rs[f k := v]) rs ks) = length rs"
  by (induction ks arbitrary: rs) simp_all

definition tie_rank :: "pyfloat list \<Rightarrow> pyfloat \<Rightarrow> pyfloat" where
  "tie_rank xs x =
     of_nat (length (filter (\<lambda>y. y < x) xs)) + (of_nat (length (filter (\<lambda>y. y = x) xs)) + 1) / 2"

lemma filter_length_mset: "mset xs = mset ys \<Longrightarrow> length (filter P xs) = length (filter P ys)"
  by (metis mset_filter size_mset)

lemma tie_rank_mset: "mset xs = mset ys \<Longrightarrow> tie_rank xs = tie_rank ys"
  by (rule ext) (simp only: tie_rank_def filter_length_mset [of xs ys])

lemma run_rank:
  assumes "sorted (map snd ps)" and "i < length ps" and "\<forall>k<i. snd (ps ! k) < snd (ps ! i)"
  shows "tie_rank (map snd ps) (snd (ps ! i)) = of_nat (i + tie_end ps i) / 2 + 1"
proof -
  let ?x = "snd (ps ! i)"
  note run = tie_end_run [OF assms(1,2)]
  have before: "snd (ps ! k) < ?x" if "k < i" for k using assms(3) that by blast
  have within: "snd (ps ! k) = ?x" if "i \<le> k" "k \<le> tie_end ps i" for k using run that by blast
  have after: "?x < snd (ps ! k)" if "tie_end ps i < k" "k < length ps" for k using run that by blast
  have lt: "tie_end ps i < length ps" using run by blast
  have "{k. k < length ps \<and> snd (ps ! k) < ?x} = {..<i}"
  proof (rule set_eqI)
    fix k
    consider "k < i" | "i \<le> k \<and> k \<le> tie_end ps i" | "tie_end ps i < k" by linarith
    then show "k \<in> {k. k < length ps \<and> snd (ps ! k) < ?x} \<longleftrightarrow> k \<in> {..<i}"
      using before [of k] within [of k] after [of k] assms(2) tie_end_ge [of i ps] by cases auto
  qed
  moreover have "{k. k < length ps \<and> snd (ps ! k) = ?x} = {i..tie_end ps i}"
  proof (rule set_eqI)
    fix k
    consider "k < i" | "i \<le> k \<and> k \<le> tie_end ps i" | "tie_end ps i < k" by linarith
    then show "k \<in> {k. k < length ps \<and> snd (ps ! k) = ?x} \<longleftrightarrow> k \<in> {i..tie_end ps i}"
      using before [of k] within [of k] after [of k] lt by cases auto
  qed
  ultimately have "length (filter (\<lambda>y. y < ?x) (map snd ps)) = i"
    "length (filter (\<lambda>y. y = ?x) (map snd ps)) = tie_end ps i - i + 1"
    using tie_end_ge [of i ps] by (simp_all add: length_filter_conv_card cong: conj_cong)
  then show ?thesis using tie_end_ge [of i ps] by (simp add: tie_rank_def field_simps of_nat_diff)
qed

lemma rank_loop_rank:
  assumes "sorted (map snd ps)" and "distinct (map fst ps)" and "fst ` set ps \<subseteq> {..<length ranks}"
    and "\<forall>k<i. \<forall>l. i \<le> l \<and> l < length ps \<longrightarrow> snd (ps ! k) < snd (ps ! l)"
    and "\<forall>k<i. k < length ps \<longrightarrow> ranks ! fst (ps ! k) = tie_rank (map snd ps) (snd (ps ! k))"
  shows "length (rank_loop ps i ranks) = length ranks \<and>
    (\<forall>k<length ps. rank_loop ps i ranks ! fst (ps ! k) = tie_rank (map snd ps) (snd (ps ! k)))"
  using assms
proof (induction ps i ranks rule: rank_loop.induct)
  case (1 ps i ranks)
  show ?case
  proof (cases "i < length ps")
    case False
    then show ?thesis using "1.prems" by (subst (1 2) rank_loop.simps) simp
  next
    case True
    define j where "j = tie_end ps i"
    define rs where "rs = assign_ranks ps i j ranks"
    note run = tie_end_run [OF "1.prems"(1) True, folded j_def]
    have len: "length rs = length ranks" by (simp add: rs_def assign_ranks_def length_fold_updates)
    have jl: "j < length ps" using run by blast
    have at: "rs ! fst (ps ! k) = (if i \<le> k \<and> k \<le> j then of_nat (i + j) / 2 + 1 else ranks ! fst (ps ! k))"
      if k: "k < length ps" for k
    proof -
      have "fst (ps ! k) < length ranks" using "1.prems"(3) nth_mem [OF k] by (meson image_subset_iff lessThan_iff)
      moreover have "fst (ps ! k) \<in> (\<lambda>k. fst (ps ! k)) ` set [i..<j + 1] \<longleftrightarrow> i \<le> k \<and> k \<le> j"
      proof -
        have "fst (ps ! m) = fst (ps ! k) \<longleftrightarrow> m = k" if "m \<le> j" for m
          using nth_eq_iff_index_eq [OF "1.prems"(2), of m k] k that jl by simp
        moreover have "fst (ps ! k) \<in> (\<lambda>k. fst (ps ! k)) ` set [i..<j + 1] \<longleftrightarrow>
            (\<exists>m. i \<le> m \<and> m \<le> j \<and> fst (ps ! m) = fst (ps ! k))"
          by (simp only: image_iff set_upt atLeastLessThan_iff Suc_eq_plus1 [symmetric] less_Suc_eq_le Bex_def conj_assoc eq_commute)
        ultimately show ?thesis by blast
      qed
      ultimately show ?thesis
        unfolding rs_def assign_ranks_def nth_fold_updates [OF \<open>fst (ps ! k) < length ranks\<close>] by presburger
    qed
    have "rank_loop ps i ranks = rank_loop ps (j + 1) rs"
      using True by (subst rank_loop.simps) (simp add: j_def rs_def Let_def)
    moreover have "length (rank_loop ps (j + 1) rs) = length rs \<and>
        (\<forall>k<length ps. rank_loop ps (j + 1) rs ! fst (ps ! k) = tie_rank (map snd ps) (snd (ps ! k)))"
      unfolding rs_def
    proof (rule "1.IH" [OF True j_def "1.prems"(1,2)], unfold rs_def [symmetric] len)
      show "fst ` set ps \<subseteq> {..<length ranks}" by (rule "1.prems"(3))
      show "\<forall>k<j + 1. \<forall>l. j + 1 \<le> l \<and> l < length ps \<longrightarrow> snd (ps ! k) < snd (ps ! l)"
      proof (intro allI impI)
        fix k l assume k: "k < j + 1" and l: "j + 1 \<le> l \<and> l < length ps"
        have "snd (ps ! i) < snd (ps ! l)" using run l by (simp add: Suc_le_eq)
        moreover have "snd (ps ! k) = snd (ps ! i)" if "\<not> k < i"
        proof -
          have "i \<le> k \<and> k \<le> j" using that k by linarith
          then show ?thesis using run by blast
        qed
        moreover have "snd (ps ! k) < snd (ps ! l)" if "k < i"
          using "1.prems"(4) that l tie_end_ge [of i ps] by (simp add: j_def)
        ultimately show "snd (ps ! k) < snd (ps ! l)" by (cases "k < i") simp_all
      qed
      show "\<forall>k<j + 1. k < length ps \<longrightarrow> rs ! fst (ps ! k) = tie_rank (map snd ps) (snd (ps ! k))"
      proof (intro allI impI)
        fix k assume k: "k < j + 1" "k < length ps"
        note base = run_rank [OF "1.prems"(1) True]
        have before: "\<forall>k<i. snd (ps ! k) < snd (ps ! i)" using "1.prems"(4) True by blast
        show "rs ! fst (ps ! k) = tie_rank (map snd ps) (snd (ps ! k))"
        proof (cases "k < i")
          case True
          then have "\<not> (i \<le> k \<and> k \<le> j)" by simp
          then show ?thesis using "1.prems"(5) k True at [OF k(2)] by metis
        next
          case False
          then have ik: "i \<le> k \<and> k \<le> j" using k by linarith
          then have "snd (ps ! k) = snd (ps ! i)" using run by blast
          then show ?thesis unfolding at [OF k(2)] if_P [OF ik] using base [OF before] by (metis j_def)
        qed
      qed
    qed
    ultimately show ?thesis using len by simp
  qed
qed

lemma rank_eq: "rank xs = map (tie_rank xs) xs"
proof -
  define ps where "ps = sort_key snd (enumerate 0 xs)"
  have ms: "mset ps = mset (enumerate 0 xs)" by (simp add: ps_def)
  then have set: "set ps = set (enumerate 0 xs)" and len: "length ps = length xs"
    by (metis set_mset_mset, metis length_enumerate size_mset)
  have "mset (map fst ps) = mset (map fst (enumerate 0 xs))" and snd: "mset (map snd ps) = mset xs"
    using ms by (simp_all only: mset_map) (simp flip: mset_map)
  then have fst: "distinct (map fst ps)"
    using mset_eq_imp_distinct_iff [of "map fst ps" "[0..<length xs]"] by simp
  have "length (rank_loop ps 0 (replicate (length xs) 0)) = length (replicate (length xs) (0 :: pyfloat)) \<and>
      (\<forall>k<length ps. rank_loop ps 0 (replicate (length xs) 0) ! fst (ps ! k) = tie_rank (map snd ps) (snd (ps ! k)))"
    by (rule rank_loop_rank) (auto simp: fst set in_set_enumerate_eq, simp add: ps_def)
  then have r: "length (rank xs) = length xs" "\<forall>k<length ps. rank xs ! fst (ps ! k) = tie_rank xs (snd (ps ! k))"
    by (simp_all add: rank_def ps_def [symmetric] tie_rank_mset [OF snd])
  have "rank xs ! m = tie_rank xs (xs ! m)" if m: "m < length xs" for m
  proof -
    have "(m, xs ! m) \<in> set ps" using m by (simp add: set in_set_enumerate_eq)
    then obtain k where "k < length ps" "ps ! k = (m, xs ! m)" by (auto simp: in_set_conv_nth)
    then show ?thesis using r(2) by force
  qed
  then show ?thesis using r(1) by (intro nth_equalityI) simp_all
qed

text \<open>
  C27: The rank loop, which sorts once and walks runs of equal values, computes the tie-averaged
  ranks of the textbook definition: as many as are smaller, plus half of one more than are equal.
\<close>

theorem rank_reference:
  "rank xs = map (\<lambda>x. of_nat (length (filter (\<lambda>y. y < x) xs)) + (of_nat (length (filter (\<lambda>y. y = x) xs)) + 1) / 2) xs"
  by (simp add: rank_eq tie_rank_def)

section \<open>Correlations\<close>

lemma cauchy_schwarz_list:
  fixes ps :: "(rat \<times> rat) list"
  shows "(\<Sum>(a, b)\<leftarrow>ps. a * b)\<^sup>2 \<le> (\<Sum>(a, b)\<leftarrow>ps. a\<^sup>2) * (\<Sum>(a, b)\<leftarrow>ps. b\<^sup>2)"
proof (induction ps)
  case (Cons p ps)
  obtain x y where p: "p = (x, y)" by (cases p)
  define A B C where "A = (\<Sum>(a, b)\<leftarrow>ps. a\<^sup>2)" and "B = (\<Sum>(a, b)\<leftarrow>ps. b\<^sup>2)" and "C = (\<Sum>(a, b)\<leftarrow>ps. a * b)"
  have nonneg: "0 \<le> A" "0 \<le> B" unfolding A_def B_def by (auto intro!: sum_list_nonneg)
  have "(2 * (C * (x * y)))\<^sup>2 = 4 * C\<^sup>2 * (x * y)\<^sup>2" by (simp add: power2_eq_square algebra_simps)
  also have "\<dots> \<le> 4 * (A * B) * (x * y)\<^sup>2"
    using Cons by (intro mult_right_mono) (simp_all add: A_def B_def C_def)
  also have "\<dots> = (A * y\<^sup>2 + B * x\<^sup>2)\<^sup>2 - (A * y\<^sup>2 - B * x\<^sup>2)\<^sup>2" by (simp add: power2_eq_square algebra_simps)
  also have "\<dots> \<le> (A * y\<^sup>2 + B * x\<^sup>2)\<^sup>2" by simp
  finally have "2 * (C * (x * y)) \<le> A * y\<^sup>2 + B * x\<^sup>2"
    by (rule power2_le_imp_le) (use nonneg in simp)
  moreover have "C\<^sup>2 \<le> A * B" using Cons by (simp add: A_def B_def C_def)
  ultimately have "(x * y + C)\<^sup>2 \<le> (x\<^sup>2 + A) * (y\<^sup>2 + B)" by (simp add: power2_eq_square algebra_simps)
  then show ?case by (simp add: p A_def B_def C_def)
qed simp

lemma zip_map_sums:
  assumes "length xs = length ys"
  shows "(\<Sum>x\<leftarrow>xs. f x) = (\<Sum>(a, b)\<leftarrow>zip xs ys. f a)" and "(\<Sum>y\<leftarrow>ys. f y) = (\<Sum>(a, b)\<leftarrow>zip xs ys. f b)"
  using assms by (induction xs ys rule: list_induct2) simp_all

lemma pearson_bounded:
  assumes "length xs = length ys" and "pearson xs ys = Some r"
  shows "\<bar>r\<bar> \<le> 1"
proof -
  define n :: rat where "n = of_nat (length xs)"
  define sx sy s where "sx = (\<Sum>x\<leftarrow>xs. (x - py_mean xs)\<^sup>2)" and "sy = (\<Sum>y\<leftarrow>ys. (y - py_mean ys)\<^sup>2)"
    and "s = (\<Sum>(x, y)\<leftarrow>zip xs ys. (x - py_mean xs) * (y - py_mean ys))"
  define vx vy c where "vx = sx / n" and "vy = sy / n" and "c = s / n"
  let ?sx = "sqrt (of_rat vx)" and ?sy = "sqrt (of_rat vy)"
  have r: "r = of_rat c / (?sx * ?sy)" and pos: "1 / 10 ^ 12 \<le> ?sx" "1 / 10 ^ 12 \<le> ?sy"
    using assms(2) by (auto simp: pearson_def Let_def n_def vx_def vy_def c_def sx_def sy_def s_def assms(1) split: if_splits)
  have "(0 :: real) < 1 / 10 ^ 12" by simp
  then have spos: "0 < ?sx" "0 < ?sy" using pos by linarith+
  have v: "0 \<le> vx" "0 \<le> vy" unfolding vx_def vy_def n_def sx_def sy_def by (auto intro!: divide_nonneg_nonneg sum_list_nonneg)
  have "s\<^sup>2 \<le> sx * sy"
    using cauchy_schwarz_list [of "map (\<lambda>(x, y). (x - py_mean xs, y - py_mean ys)) (zip xs ys)"]
    by (simp add: s_def sx_def sy_def zip_map_sums [OF assms(1)] comp_def case_prod_beta')
  then have "c\<^sup>2 \<le> vx * vy"
    using divide_right_mono [of "s\<^sup>2" "sx * sy" "n\<^sup>2"]
    by (simp add: c_def vx_def vy_def power_divide power2_eq_square [of n])
  then have "(of_rat c :: real)\<^sup>2 \<le> of_rat (vx * vy)" by (simp only: of_rat_power [symmetric] of_rat_less_eq)
  also have "\<dots> = (?sx * ?sy)\<^sup>2" using v by (simp add: of_rat_mult power_mult_distrib)
  finally have "\<bar>of_rat c\<bar> \<le> \<bar>?sx * ?sy\<bar>" by (simp only: abs_le_square_iff)
  then have "\<bar>of_rat c\<bar> \<le> ?sx * ?sy" by (simp only: abs_of_pos mult_pos_pos [OF spos])
  then show ?thesis using spos by (simp add: r abs_mult)
qed

lemma zip_swap: "zip ys xs = map prod.swap (zip xs ys)"
  by (induction xs ys rule: list_induct2') simp_all

lemma pearson_commute:
  assumes "length xs = length ys"
  shows "pearson ys xs = pearson xs ys"
  unfolding pearson_def zip_swap [of ys xs]
  by (simp add: Let_def assms comp_def case_prod_beta' mult.commute disj_commute)

lemma paired_commute: "paired_values sentinels bs as = map prod.swap (paired_values sentinels as bs)"
proof -
  have "concat (map (\<lambda>(b, a). case (f b, f a) of (Some y, Some x) \<Rightarrow> [(y, x)] | _ \<Rightarrow> []) (map prod.swap qs)) =
      map prod.swap (concat (map (\<lambda>(a, b). case (f a, f b) of (Some x, Some y) \<Rightarrow> [(x, y)] | _ \<Rightarrow> []) qs))"
    for f :: "sig_value \<Rightarrow> pyfloat option" and qs
    by (induction qs) (auto split: option.splits)
  then show ?thesis unfolding paired_values_def zip_swap [of bs as] .
qed

lemma length_rank [simp]: "length (rank xs) = length xs"
  by (simp add: rank_eq)

text \<open>
  Every reported correlation coefficient lies between -1 and 1, and correlating the signals
  in the other order reports the same coefficients over as many pairs.
\<close>

theorem correlation_sound:
  assumes "e = compute_correlation sentinels a as b bs"
  shows "(\<forall>r. pearson_r e = Some r \<longrightarrow> \<bar>r\<bar> \<le> 1) \<and> (\<forall>r. spearman_rho e = Some r \<longrightarrow> \<bar>r\<bar> \<le> 1) \<and>
    compute_correlation sentinels b bs a as = e\<lparr>signal_a := b, signal_b := a\<rparr>"
proof -
  define ps where "ps = paired_values sentinels as bs"
  have e: "e = (if length ps < 3 then \<lparr>signal_a = a, signal_b = b, pearson_r = None, spearman_rho = None, sample_count = length ps\<rparr>
      else \<lparr>signal_a = a, signal_b = b, pearson_r = pearson (map fst ps) (map snd ps),
             spearman_rho = spearman (map fst ps) (map snd ps), sample_count = length ps\<rparr>)"
    by (simp add: assms compute_correlation_def Let_def ps_def)
  have "compute_correlation sentinels b bs a as = e\<lparr>signal_a := b, signal_b := a\<rparr>"
    unfolding e compute_correlation_def Let_def paired_commute [of sentinels bs as] ps_def [symmetric]
    using pearson_commute [of "map fst ps" "map snd ps"] pearson_commute [of "rank (map fst ps)" "rank (map snd ps)"]
    by (simp add: spearman_def comp_def)
  moreover have "\<bar>r\<bar> \<le> 1" if "pearson_r e = Some r" for r
    using that pearson_bounded [of "map fst ps" "map snd ps" r] by (simp add: e split: if_splits)
  moreover have "\<bar>r\<bar> \<le> 1" if "spearman_rho e = Some r" for r
    using that pearson_bounded [of "rank (map fst ps)" "rank (map snd ps)" r] by (simp add: e spearman_def split: if_splits)
  ultimately show ?thesis by blast
qed

theorem correlation_sound_witness:
  "\<exists>r. pearson_r (compute_correlation DEFAULT_SENTINELS ''a'' [SFloat 1, SFloat 2, SNull, SFloat 3]
        ''b'' [SFloat 2, SFloat 4, SFloat 5, SFloat 6]) = Some r \<and> \<bar>r\<bar> \<le> 1"
proof -
  let ?as = "[SFloat 1, SFloat 2, SNull, SFloat 3]" and ?bs = "[SFloat 2, SFloat 4, SFloat 5, SFloat 6]"
  have p: "paired_values DEFAULT_SENTINELS ?as ?bs = [(1, 2), (2, 4), (3, 6)]"
    by (simp add: paired_values_def usable_def DEFAULT_SENTINELS_def)
  have s: "1 / 10 ^ 12 < sqrt (2 / 3)" "1 / 10 ^ 12 < sqrt (8 / 3)"
    by (rule real_less_rsqrt, simp add: power2_eq_square)+
  have "pearson [1, 2, 3] [2, 4, 6] \<noteq> None"
    using s by (simp add: pearson_def py_mean_def Let_def of_rat_divide power2_eq_square)
  then obtain r where "pearson_r (compute_correlation DEFAULT_SENTINELS ''a'' ?as ''b'' ?bs) = Some r"
    using p by (auto simp: compute_correlation_def)
  then show ?thesis using correlation_sound [OF refl] by metis
qed

text \<open>The matrix has one entry for every unordered pair of distinct signals.\<close>

lemma name_pairs_sorted:
  fixes ns :: "'a::linorder list"
  assumes "sorted_wrt (<) ns"
  shows "(a, b) \<in> set (name_pairs ns) \<longleftrightarrow> a \<in> set ns \<and> b \<in> set ns \<and> a < b"
  using assms
proof (induction ns)
  case (Cons n ns)
  then have n: "\<And>m. m \<in> set ns \<Longrightarrow> n < m" by simp
  have "(a, b) \<in> set (name_pairs (n # ns)) \<longleftrightarrow> a = n \<and> b \<in> set ns \<or> a \<in> set ns \<and> b \<in> set ns \<and> a < b"
    using Cons by auto
  then show ?case using n [of a] n [of b] less_asym [of a b] by (simp only: list.set insert_iff) blast
qed simp

lemma name_pairs_distinct: "sorted_wrt (<) (ns :: 'a::linorder list) \<Longrightarrow> distinct (name_pairs ns)"
proof (induction ns)
  case (Cons n ns)
  then have "n \<notin> set ns" by (metis less_irrefl sorted_wrt.simps(2))
  moreover have "fst q \<in> set ns" if "q \<in> set (name_pairs ns)" for q
  proof -
    have "sorted_wrt (<) ns" using Cons.prems by simp
    then show ?thesis using that name_pairs_sorted [of ns "fst q" "snd q"] by simp
  qed
  moreover have "distinct (map (Pair n) ns)" using Cons.prems by (simp add: distinct_map inj_on_def strict_sorted_iff)
  moreover have "distinct (name_pairs ns)" using Cons by simp
  ultimately show ?case by fastforce
qed simp

lemma correlation_names: "signal_a (compute_correlation sentinels a as b bs) = a \<and> signal_b (compute_correlation sentinels a as b bs) = b"
  by (simp add: compute_correlation_def Let_def)

theorem correlation_matrix_pairs:
  assumes "distinct (dict_keys signals)"
  shows "map (\<lambda>e. (signal_a e, signal_b e)) (entries (compute_correlation_matrix sentinels signals)) =
      name_pairs (sort (dict_keys signals)) \<and>
    distinct (name_pairs (sort (dict_keys signals))) \<and>
    ((a, b) \<in> set (name_pairs (sort (dict_keys signals))) \<longleftrightarrow>
      a \<in> set (dict_keys signals) \<and> b \<in> set (dict_keys signals) \<and> a < b)"
proof -
  have s: "sorted_wrt (<) (sort (dict_keys signals))" using assms by (simp add: strict_sorted_iff)
  show ?thesis
    using name_pairs_sorted [OF s, of a b] name_pairs_distinct [OF s]
    by (simp only: compute_correlation_matrix_def Let_def correlation_matrix.simps map_map comp_def case_prod_beta'
        correlation_names prod.collapse map_ident set_sort)
qed

end
