(* ===== verification/Patterns.thy ===== *)
theory Patterns
  imports Signals
begin

text \<open>
  Pattern scanning, \<open>pipelines/research/pattern_scanner.py\<close>, with its value objects in
  \<open>pipelines/research/models.py\<close> and enumerations in \<open>backend/app/models/enums.py\<close>.

  Titles and descriptions, sentences that repeat the evidence, are left out, except that the
  description of a thermal candidate formats the standard deviation, which raises when there is
  none. \<open>time.monotonic\<close> only measures the scan and is left out.
  \<open>datetime.fromisoformat\<close> is the argument \<open>isoparse\<close>.
\<close>

section \<open>Candidates\<close>

datatype pattern_evidence_level =
    OBSERVATION | WEAK_CANDIDATE | MODERATE_CANDIDATE | STRONG_CANDIDATE | CONFIRMED_PRECURSOR

datatype analytical_grain =
    CHARGER_TIME | CONNECTOR_TIME | SMR_TIME | RECTIFIER_TIME | SESSION_LEVEL | EVENT_CENTERED

datatype pattern_category =
    THERMAL_DRIFT | VOLTAGE_ANOMALY | CURRENT_IMBALANCE | SESSION_DEGRADATION | ALARM_CLUSTERING
  | FAULT_RECURRENCE | EFFICIENCY_DECLINE | COMPONENT_DIVERGENCE | OPERATIONAL_PATTERN

record pattern_evidence =
  metric_name :: string
  observed_value :: "pyfloat option"
  reference_value :: "pyfloat option"
  threshold :: "pyfloat option"

record pattern_candidate =
  pc_charger_id :: string
  category_of :: pattern_category
  evidence_level :: pattern_evidence_level
  confidence_score :: pyfloat
  affected_signals :: "string list"
  observation_window_start :: "datetime option"
  observation_window_end :: "datetime option"
  supporting_evidence :: "pattern_evidence list"
  grain :: analytical_grain
  pc_scan_version :: string

record scan_result =
  scanned_charger :: string
  candidates :: "pattern_candidate list"
  signals_scanned :: nat
  records_analyzed :: nat
  scan_version :: string

record pattern_scanner =
  voltage_low :: pyfloat
  voltage_high :: pyfloat
  current_imbalance :: pyfloat
  temp_drift :: pyfloat
  alarm_cluster_window :: pyfloat
  alarm_cluster_min_count :: int

definition default_scanner :: pattern_scanner where
  "default_scanner = \<lparr>voltage_low = 200, voltage_high = 260, current_imbalance = 2 / 10, temp_drift = 5,
     alarm_cluster_window = 3600, alarm_cluster_min_count = 3\<rparr>"

datatype scan_error = TypeError

definition evidence_item :: "string \<Rightarrow> pyfloat \<Rightarrow> pyfloat \<Rightarrow> pyfloat \<Rightarrow> pattern_evidence" where
  "evidence_item name seen ref thr =
     \<lparr>metric_name = name, observed_value = Some seen, reference_value = Some ref, threshold = Some thr\<rparr>"

definition candidate ::
    "string \<Rightarrow> pattern_category \<Rightarrow> pattern_evidence_level \<Rightarrow> pyfloat \<Rightarrow> string list \<Rightarrow> pattern_evidence list
     \<Rightarrow> analytical_grain \<Rightarrow> pattern_candidate" where
  "candidate charger cat level score signals items g =
     \<lparr>pc_charger_id = charger, category_of = cat, evidence_level = level, confidence_score = score,
      affected_signals = signals, observation_window_start = None, observation_window_end = None,
      supporting_evidence = items, grain = g, pc_scan_version = ''v1''\<rparr>"

section \<open>Signal detectors\<close>

definition voltage_evidence ::
    "pattern_scanner \<Rightarrow> string \<Rightarrow> signal_statistics \<Rightarrow> (string, signal_statistics) pydict
     \<Rightarrow> pyfloat \<Rightarrow> pyfloat \<Rightarrow> pyfloat \<Rightarrow> pattern_evidence list" where
  "voltage_evidence sc name stat fleet m lo hi =
     (if lo < voltage_low sc then [evidence_item (name @ ''_min'') lo (voltage_low sc) (voltage_low sc)] else []) @
     (if hi > voltage_high sc then [evidence_item (name @ ''_max'') hi (voltage_high sc) (voltage_high sc)] else []) @
     (case Option.bind (map_of fleet name) p50 of
        None \<Rightarrow> []
      | Some q \<Rightarrow>
          if \<bar>m - q\<bar> / max q (1 / 1000000) > 1 / 10
          then [evidence_item (name @ ''_fleet_deviation'') m q (1 / 10)] else [])"

definition check_voltage_anomaly ::
    "pattern_scanner \<Rightarrow> string \<Rightarrow> string \<Rightarrow> signal_statistics \<Rightarrow> (string, signal_statistics) pydict
     \<Rightarrow> pattern_candidate list" where
  "check_voltage_anomaly sc charger name stat fleet =
     (case (mean stat, min_val stat, max_val stat) of
        (Some m, Some lo, Some hi) \<Rightarrow>
          (let items = voltage_evidence sc name stat fleet m lo hi
           in if items = [] then []
              else [candidate charger VOLTAGE_ANOMALY
                (if non_null_count stat \<ge> 100 \<and> length items \<ge> 2 then MODERATE_CANDIDATE
                 else if length items \<ge> 2 then WEAK_CANDIDATE else OBSERVATION)
                (min (3 / 10 + of_nat (length items) / 10) (8 / 10)) [name] items CHARGER_TIME])
      | _ \<Rightarrow> [])"

text \<open>A dict comprehension over the signals: the last one of a name wins, at the first's place.\<close>

definition signals_by_name ::
    "(signal_statistics \<Rightarrow> bool) \<Rightarrow> signal_statistics list \<Rightarrow> (string, signal_statistics) pydict" where
  "signals_by_name keep stats =
     foldl (\<lambda>d s. if keep s then AList.update (signal_name s) s d else d) [] stats"

definition named_with_data :: "string \<Rightarrow> signal_statistics \<Rightarrow> bool" where
  "named_with_data part s = (contains part (py_lower (signal_name s)) \<and> non_null_count s > 0 \<and> mean s \<noteq> None)"

definition max_deviation :: "pyfloat list \<Rightarrow> pyfloat" where
  "max_deviation ms = (let avg = py_mean ms in Max (set (map (\<lambda>m. \<bar>m - avg\<bar> / avg) ms)))"

definition check_current_imbalance ::
    "pattern_scanner \<Rightarrow> string \<Rightarrow> signal_statistics list \<Rightarrow> pattern_candidate list" where
  "check_current_imbalance sc charger stats =
     (let means = map (\<lambda>(name, s). (name, the (mean s))) (signals_by_name (named_with_data ''input_current'') stats);
          avg = py_mean (dict_values means); dev = max_deviation (dict_values means)
      in if length means < 2 then []
         else if avg < 1 / 100 then []
         else if dev \<le> current_imbalance sc then []
         else [candidate charger CURRENT_IMBALANCE
           (if dev > 5 / 10 then MODERATE_CANDIDATE else if dev > 3 / 10 then WEAK_CANDIDATE else OBSERVATION)
           (min (3 / 10 + dev) (9 / 10)) (dict_keys means)
           (map (\<lambda>(name, m). evidence_item name m avg (current_imbalance sc)) means) CHARGER_TIME])"

definition thermal_evidence ::
    "pattern_scanner \<Rightarrow> string \<Rightarrow> signal_statistics \<Rightarrow> (string, signal_statistics) pydict
     \<Rightarrow> pyfloat \<Rightarrow> pyfloat \<Rightarrow> pattern_evidence list" where
  "thermal_evidence sc name stat fleet m hi =
     (case std stat of
        None \<Rightarrow> []
      | Some s \<Rightarrow>
          if s > 0 \<and> hi - m > temp_drift sc
          then [evidence_item (name @ ''_spread'') (hi - m) (temp_drift sc) (temp_drift sc)] else []) @
     (case Option.bind (map_of fleet name) p95 of
        None \<Rightarrow> []
      | Some q \<Rightarrow> if hi > q then [evidence_item (name @ ''_fleet_p95_exceedance'') hi q q] else [])"

definition check_thermal_drift ::
    "pattern_scanner \<Rightarrow> string \<Rightarrow> string \<Rightarrow> signal_statistics \<Rightarrow> (string, signal_statistics) pydict
     \<Rightarrow> scan_error + pattern_candidate list" where
  "check_thermal_drift sc charger name stat fleet =
     (case (mean stat, max_val stat) of
        (Some m, Some hi) \<Rightarrow>
          (let items = thermal_evidence sc name stat fleet m hi
           in if items = [] then Inr []
              else if std stat = None then Inl TypeError
              else Inr [candidate charger THERMAL_DRIFT
                (if length items \<ge> 2 then WEAK_CANDIDATE else OBSERVATION)
                (min (3 / 10 + 15 / 100 * of_nat (length items)) (75 / 100)) [name] items CHARGER_TIME])
      | _ \<Rightarrow> Inr [])"

section \<open>Sessions\<close>

record session_feature =
  energy_delivered :: sig_value
  sf_termination :: "string option"

text \<open>\<open>isinstance(e, (int, float)) and not math.isnan(e)\<close>; Booleans are integers.\<close>

fun is_number :: "sig_value \<Rightarrow> bool" where
  "is_number (SFloat x) = True"
| "is_number (SBool b) = True"
| "is_number (SInf b) = True"
| "is_number v = False"

fun negligible :: "sig_value \<Rightarrow> bool" where
  "negligible (SFloat x) = (x \<le> 1 / 100)"
| "negligible (SBool b) = (\<not> b)"
| "negligible (SInf positive) = (\<not> positive)"
| "negligible v = False"

definition session_failed :: "session_feature \<Rightarrow> bool" where
  "session_failed sf =
     (case sf_termination sf of
        None \<Rightarrow> False
      | Some tc \<Rightarrow> tc \<noteq> [] \<and> tc \<notin> {''NORMAL'', ''USER_STOPPED'', ''REMOTE_STOPPED''})"

definition check_session_degradation :: "string \<Rightarrow> session_feature list \<Rightarrow> pattern_candidate list" where
  "check_session_degradation charger features =
     (if length features < 2 then []
      else let energies = filter is_number (map energy_delivered features);
               rate = of_nat (length (filter session_failed features)) / of_nat (length features);
               zero_rate = of_nat (length (filter negligible energies)) / of_nat (length energies);
               items = (if rate > 3 / 10 then [evidence_item ''session_failure_rate'' rate (1 / 10) (3 / 10)] else []) @
                 (if energies \<noteq> [] \<and> zero_rate > 2 / 10
                  then [evidence_item ''zero_energy_session_rate'' zero_rate (5 / 100) (2 / 10)] else [])
           in if items = [] then []
              else [candidate charger SESSION_DEGRADATION
                (if length items \<ge> 2 then WEAK_CANDIDATE else OBSERVATION)
                (min (3 / 10 + 2 / 10 * of_nat (length items)) (7 / 10))
                [''energy_delivered_kwh'', ''termination_class''] items SESSION_LEVEL])"

section \<open>Alarm clusters\<close>

datatype time_field = TimeText string | TimeStamp datetime | NoTime

record alarm_event =
  start_field :: time_field
  alarm_code :: "string option"

definition alarm_time :: "(string \<Rightarrow> datetime option) \<Rightarrow> alarm_event \<Rightarrow> (datetime \<times> string) list" where
  "alarm_time isoparse ae =
     (let code = (case alarm_code ae of None \<Rightarrow> ''unknown'' | Some c \<Rightarrow> c)
      in case start_field ae of
           TimeStamp t \<Rightarrow> [(t, code)]
         | TimeText s \<Rightarrow> (case isoparse s of None \<Rightarrow> [] | Some t \<Rightarrow> [(t, code)])
         | NoTime \<Rightarrow> [])"

definition window_td :: "pattern_scanner \<Rightarrow> int" where
  "window_td sc = round_half_even (alarm_cluster_window sc * 1000000)"

function window_stop :: "(datetime \<times> string) list \<Rightarrow> datetime \<Rightarrow> nat \<Rightarrow> nat" where
  "window_stop ts window_end j =
     (if j < length ts \<and> fst (ts ! j) \<le> window_end then window_stop ts window_end (j + 1) else j)"
  by pat_completeness auto
termination
  by (relation "measure (\<lambda>(ts, window_end, j). length ts - j)") auto

declare window_stop.simps [simp del]

definition cluster_of :: "pattern_scanner \<Rightarrow> string \<Rightarrow> (datetime \<times> string) list \<Rightarrow> pattern_candidate" where
  "cluster_of sc charger window =
     (let size = length window; codes = remdups (map snd window)
      in \<lparr>pc_charger_id = charger, category_of = ALARM_CLUSTERING,
          evidence_level = (if length codes \<ge> 3 then MODERATE_CANDIDATE
            else if int size \<ge> alarm_cluster_min_count sc * 2 then WEAK_CANDIDATE else OBSERVATION),
          confidence_score = min (2 / 10 + of_nat size / 10) (8 / 10),
          affected_signals = sort codes,
          observation_window_start = Some (fst (hd window)), observation_window_end = Some (fst (last window)),
          supporting_evidence = [evidence_item ''cluster_size'' (of_nat size)
            (of_int (alarm_cluster_min_count sc)) (of_int (alarm_cluster_min_count sc))],
          grain = CHARGER_TIME, pc_scan_version = ''v1''\<rparr>)"

text \<open>
  The outer loop need not end: with a minimum of zero and a negative window an empty cluster is
  skipped past again and again. Not ending is \<open>None\<close>.
\<close>

partial_function (option) cluster_loop ::
    "pattern_scanner \<Rightarrow> string \<Rightarrow> (datetime \<times> string) list \<Rightarrow> nat \<Rightarrow> pattern_candidate list
     \<Rightarrow> pattern_candidate list option" where
  "cluster_loop sc charger ts i acc =
     (if i < length ts then
        (let j = window_stop ts (fst (ts ! i) + window_td sc) i
         in if int (j - i) \<ge> alarm_cluster_min_count sc
            then cluster_loop sc charger ts j (acc @ [cluster_of sc charger (take (j - i) (drop i ts))])
            else cluster_loop sc charger ts (i + 1) acc)
      else Some acc)"

declare cluster_loop.simps [code]

definition check_alarm_clustering ::
    "(string \<Rightarrow> datetime option) \<Rightarrow> pattern_scanner \<Rightarrow> string \<Rightarrow> alarm_event list \<Rightarrow> pattern_candidate list option" where
  "check_alarm_clustering isoparse sc charger events =
     (let times = concat (map (alarm_time isoparse) events)
      in if int (length events) < alarm_cluster_min_count sc then Some []
         else if int (length times) < alarm_cluster_min_count sc then Some []
         else cluster_loop sc charger (sort_key fst times) 0 [])"

section \<open>The scan\<close>

definition line_line :: "string \<Rightarrow> bool" where
  "line_line name = (\<exists>x\<in>{''l1_l2'', ''l2_l3'', ''l3_l1''}. contains x name)"

text \<open>The scan raises, does not return (\<open>None\<close>), or returns its result.\<close>

definition scan ::
    "(string \<Rightarrow> datetime option) \<Rightarrow> pattern_scanner \<Rightarrow> string \<Rightarrow> signal_statistics list \<Rightarrow> session_feature list
     \<Rightarrow> alarm_event list \<Rightarrow> (string, signal_statistics) pydict \<Rightarrow> scan_error + scan_result option" where
  "scan isoparse sc charger stats features events fleet =
     (let voltages = concat (map (\<lambda>(name, s). if line_line name then [] else check_voltage_anomaly sc charger name s fleet)
            (signals_by_name (named_with_data ''voltage'') stats));
          currents = check_current_imbalance sc charger stats
      in bind_err (traverse (\<lambda>(name, s). check_thermal_drift sc charger name s fleet)
            (signals_by_name (named_with_data ''temp'') stats)) (\<lambda>thermals.
         Inr (case (if events = [] then Some [] else check_alarm_clustering isoparse sc charger events) of
            None \<Rightarrow> None
          | Some clusters \<Rightarrow>
              Some \<lparr>scanned_charger = charger,
                candidates = voltages @ currents @ concat thermals @
                  (if features = [] then [] else check_session_degradation charger features) @ clusters,
                signals_scanned = length stats, records_analyzed = length features + length events,
                scan_version = ''v1''\<rparr>)))"

section \<open>The window loop as a recursion over the alarms\<close>

text \<open>
  The specification of the loop: the run of alarms within the window of the first one is a cluster
  when it is long enough, and then the rest is clustered; otherwise the first alarm is dropped.
\<close>

function greedy_clusters :: "int \<Rightarrow> int \<Rightarrow> (datetime \<times> string) list \<Rightarrow> (datetime \<times> string) list list" where
  "greedy_clusters w m [] = []"
| "greedy_clusters w m (x # xs) =
     (let near = (\<lambda>y. fst y \<le> fst x + w); run = x # takeWhile near xs
      in if int (length run) \<ge> m then run # greedy_clusters w m (dropWhile near xs) else greedy_clusters w m xs)"
  by pat_completeness auto
termination
  by (relation "measure (\<lambda>(w, m, xs). length xs)") (auto simp: less_Suc_eq_le length_dropWhile_le)

lemma window_stop_takeWhile:
  "i \<le> length ts \<Longrightarrow> window_stop ts e i = i + length (takeWhile (\<lambda>y. fst y \<le> e) (drop i ts))"
proof (induction ts e i rule: window_stop.induct)
  case (1 ts e i)
  show ?case
  proof (cases "i < length ts")
    case True
    then have d: "drop i ts = ts ! i # drop (i + 1) ts" by (simp add: Cons_nth_drop_Suc)
    show ?thesis using 1 True by (subst window_stop.simps) (simp add: d)
  next
    case False
    then show ?thesis using 1 by (subst window_stop.simps) simp
  qed
qed

lemma cluster_loop_greedy:
  assumes "0 \<le> window_td sc" and "i \<le> length ts"
  shows "cluster_loop sc charger ts i acc =
    Some (acc @ map (cluster_of sc charger) (greedy_clusters (window_td sc) (alarm_cluster_min_count sc) (drop i ts)))"
  using assms(2)
proof (induction "length ts - i" arbitrary: i acc rule: less_induct)
  case less
  show ?case
  proof (cases "i < length ts")
    case True
    let ?P = "\<lambda>y. fst y \<le> fst (ts ! i) + window_td sc"
    have d: "drop i ts = ts ! i # drop (i + 1) ts" using True by (simp add: Cons_nth_drop_Suc)
    define run where "run = ts ! i # takeWhile ?P (drop (i + 1) ts)"
    have tw: "takeWhile ?P (drop i ts) = run" using assms(1) by (simp add: d run_def)
    define j where "j = i + length run"
    have stop: "window_stop ts (fst (ts ! i) + window_td sc) i = j"
      using window_stop_takeWhile [OF less.prems] by (simp add: tw j_def)
    have le: "j \<le> length ts" using length_takeWhile_le [of ?P "drop i ts"] less.prems by (simp add: tw j_def)
    have tk: "take (j - i) (drop i ts) = run"
      unfolding j_def using takeWhile_eq_take [of ?P "drop i ts"] by (simp add: tw)
    have dr: "drop j ts = dropWhile ?P (drop (i + 1) ts)"
    proof -
      have "dropWhile ?P (drop i ts) = drop (length run) (drop i ts)" unfolding dropWhile_eq_drop tw ..
      moreover have "drop (length run) (drop i ts) = drop j ts" by (simp add: j_def add.commute)
      moreover have "dropWhile ?P (drop i ts) = dropWhile ?P (drop (i + 1) ts)" using assms(1) by (simp add: d)
      ultimately show ?thesis by metis
    qed
    have "i < j" by (simp add: j_def run_def)
    moreover have "j - i = length run" by (simp add: j_def)
    ultimately have "cluster_loop sc charger ts i acc =
        (if int (length run) \<ge> alarm_cluster_min_count sc then cluster_loop sc charger ts j (acc @ [cluster_of sc charger run])
         else cluster_loop sc charger ts (i + 1) acc)"
      using True tk by (subst cluster_loop.simps) (simp only: if_True stop Let_def)
    moreover have "greedy_clusters (window_td sc) m (drop i ts) =
        (if int (length run) \<ge> m then run # greedy_clusters (window_td sc) m (drop j ts)
         else greedy_clusters (window_td sc) m (drop (i + 1) ts))" for m
      unfolding d dr by (simp add: run_def Let_def)
    ultimately show ?thesis using less.hyps [of j] less.hyps [of "i + 1"] True le \<open>i < j\<close> by simp
  next
    case False
    then show ?thesis by (subst cluster_loop.simps) simp
  qed
qed

lemma cluster_loop_negative:
  assumes "window_td sc < 0" and "1 \<le> alarm_cluster_min_count sc" and "i \<le> length ts"
  shows "cluster_loop sc charger ts i acc = Some acc"
  using assms(3)
proof (induction "length ts - i" arbitrary: i rule: less_induct)
  case less
  show ?case
  proof (cases "i < length ts")
    case True
    then have "window_stop ts (fst (ts ! i) + window_td sc) i = i"
      using assms(1) by (subst window_stop.simps) simp
    then show ?thesis using less.hyps [of "i + 1"] True assms(2) by (subst cluster_loop.simps) (simp add: Let_def)
  next
    case False
    then show ?thesis by (subst cluster_loop.simps) simp
  qed
qed

lemma cluster_loop_diverges:
  "cluster_loop sc charger ts i acc = Some r \<Longrightarrow>
     window_td sc < 0 \<longrightarrow> alarm_cluster_min_count sc \<le> 0 \<longrightarrow> length ts \<le> i"
proof (induction arbitrary: rule: cluster_loop.raw_induct [rotated, consumes 1])
  case (1 loop sc charger ts i acc r)
  show ?case
  proof (intro impI, rule ccontr)
    assume neg: "window_td sc < 0" "alarm_cluster_min_count sc \<le> 0" "\<not> length ts \<le> i"
    then have "window_stop ts (fst (ts ! i) + window_td sc) i = i" by (subst window_stop.simps) simp
    then have "loop sc charger ts i (acc @ [cluster_of sc charger (take (i - i) (drop i ts))]) = Some r"
      using 1(2) neg by (simp add: Let_def)
    then show False using 1(1) neg by blast
  qed
qed

text \<open>
  C38: Alarm clustering returns for every input except one kind: it runs forever exactly when the
  window is negative, no minimum size is required, and there is an alarm with a readable time.
\<close>

theorem alarm_clustering_ends:
  "check_alarm_clustering isoparse sc charger events = None \<longleftrightarrow>
     window_td sc < 0 \<and> alarm_cluster_min_count sc \<le> 0 \<and> concat (map (alarm_time isoparse) events) \<noteq> []"
proof -
  let ?ts = "sort_key fst (concat (map (alarm_time isoparse) events))"
  consider (wide) "0 \<le> window_td sc" | (min) "window_td sc < 0" "1 \<le> alarm_cluster_min_count sc"
    | (loop) "window_td sc < 0" "alarm_cluster_min_count sc \<le> 0" by linarith
  then show ?thesis
  proof cases
    case wide
    then show ?thesis using cluster_loop_greedy [of sc 0 ?ts charger "[]"] by (simp add: check_alarm_clustering_def Let_def)
  next
    case min
    then show ?thesis using cluster_loop_negative [of sc 0 ?ts charger "[]"] by (simp add: check_alarm_clustering_def Let_def)
  next
    case loop
    have "cluster_loop sc charger ?ts 0 [] = None \<longleftrightarrow> length ?ts \<noteq> 0"
    proof
      assume "length ?ts \<noteq> 0"
      then show "cluster_loop sc charger ?ts 0 [] = None"
        using cluster_loop_diverges [of sc charger ?ts 0 "[]"] loop by (cases "cluster_loop sc charger ?ts 0 []") simp_all
    next
      assume "cluster_loop sc charger ?ts 0 [] = None"
      then show "length ?ts \<noteq> 0" by (subst (asm) cluster_loop.simps) (simp split: if_splits)
    qed
    then show ?thesis using loop by (simp add: check_alarm_clustering_def Let_def)
  qed
qed

section \<open>Clusters\<close>

lemma takeWhile_filter_sorted:
  "sorted (map fst xs) \<Longrightarrow> takeWhile (\<lambda>y. fst y \<le> e) xs = filter (\<lambda>y. fst y \<le> e) xs"
  by (induction xs) (auto simp: filter_empty_conv eq_commute [of "[]"])

lemma sorted_last_bound: "sorted (map fst ys) \<Longrightarrow> y \<in> set ys \<Longrightarrow> fst y \<le> fst (last ys)"
  by (induction ys) auto

lemma greedy_run:
  fixes xs :: "(datetime \<times> string) list"
  assumes "sorted (map fst (x # xs))" and "0 \<le> w"
  defines "run \<equiv> x # takeWhile (\<lambda>y. fst y \<le> fst x + w) xs" and "rest \<equiv> dropWhile (\<lambda>y. fst y \<le> fst x + w) xs"
  shows "x # xs = run @ rest" and "sorted (map fst run)" and "sorted (map fst rest)"
    and "fst (last run) \<le> fst x + w" and "\<And>y. y \<in> set rest \<Longrightarrow> fst (last run) < fst y"
    and "\<And>y. y \<in> set run \<Longrightarrow> fst y \<le> fst (last run)"
proof -
  show split: "x # xs = run @ rest" by (simp add: run_def rest_def)
  then have s: "sorted (map fst run @ map fst rest)" using assms(1) by (metis map_append)
  show "sorted (map fst run)" "sorted (map fst rest)" using s by (simp_all add: sorted_append)
  have "fst y \<le> fst x + w" if "y \<in> set run" for y
    using that assms(2) set_takeWhileD [of y "\<lambda>y. fst y \<le> fst x + w" xs] by (cases "y = x") (simp_all add: run_def)
  moreover have "last run \<in> set run" by (rule last_in_set) (simp add: run_def)
  ultimately show le: "fst (last run) \<le> fst x + w" by blast
  show "fst y \<le> fst (last run)" if "y \<in> set run" for y
    using sorted_last_bound [OF \<open>sorted (map fst run)\<close> that] .
  have "\<not> fst y \<le> fst x + w" if "y \<in> set rest" for y
  proof -
    have ne: "rest \<noteq> []" using that by auto
    then have "\<not> fst (hd rest) \<le> fst x + w" unfolding rest_def by (rule hd_dropWhile)
    moreover have "fst (hd rest) \<le> fst y"
      using \<open>sorted (map fst rest)\<close> that ne by (cases rest) auto
    ultimately show ?thesis by linarith
  qed
  then show "fst (last run) < fst y" if "y \<in> set rest" for y using le that by fastforce
qed

definition cluster_ok :: "int \<Rightarrow> int \<Rightarrow> (datetime \<times> string) list \<Rightarrow> (datetime \<times> string) list \<Rightarrow> bool" where
  "cluster_ok w m xs c =
     (c \<noteq> [] \<and> set c \<subseteq> set xs \<and> m \<le> int (length c) \<and> fst (hd c) \<le> fst (last c) \<and> fst (last c) \<le> fst (hd c) + w)"

lemma cluster_ok_mono: "cluster_ok w m xs c \<Longrightarrow> set xs \<subseteq> set ys \<Longrightarrow> cluster_ok w m ys c"
  unfolding cluster_ok_def by blast

lemma greedy_clusters_ok:
  assumes "sorted (map fst xs)" and "0 \<le> w"
  shows "sorted_wrt (\<lambda>c d. fst (last c) < fst (hd d)) (greedy_clusters w m xs) \<and>
    (\<forall>c\<in>set (greedy_clusters w m xs). cluster_ok w m xs c)"
  using assms
proof (induction w m xs rule: greedy_clusters.induct)
  case (2 w m x xs)
  let ?near = "\<lambda>y. fst y \<le> fst x + w"
  define run rest where "run = x # takeWhile ?near xs" and "rest = dropWhile ?near xs"
  note r = greedy_run [OF "2.prems", folded run_def rest_def]
  have sub: "set rest \<subseteq> set (x # xs)" unfolding r(1) by simp
  show ?case
  proof (cases "m \<le> int (length run)")
    case True
    have eq: "greedy_clusters w m (x # xs) = run # greedy_clusters w m rest"
      using True by (simp add: run_def rest_def Let_def)
    note IH = "2.IH"(1) [OF refl refl True [unfolded run_def], folded rest_def, OF r(3) "2.prems"(2)]
    have "fst (last run) < fst (hd c)" if "c \<in> set (greedy_clusters w m rest)" for c
    proof -
      have "c \<noteq> []" "set c \<subseteq> set rest" using IH that by (simp_all add: cluster_ok_def)
      then show ?thesis using r(5) [of "hd c"] hd_in_set by blast
    qed
    moreover have "cluster_ok w m (x # xs) run"
    proof -
      have "run \<noteq> []" "hd run = x" "x \<in> set run" by (simp_all add: run_def)
      moreover have "set run \<subseteq> set (x # xs)" unfolding r(1) by simp
      ultimately show ?thesis using True r(4) r(6) [of x] by (simp add: cluster_ok_def)
    qed
    moreover have "cluster_ok w m (x # xs) c" if "c \<in> set (greedy_clusters w m rest)" for c
      using IH that sub by (blast intro: cluster_ok_mono)
    ultimately show ?thesis unfolding eq using IH by simp
  next
    case False
    have eq: "greedy_clusters w m (x # xs) = greedy_clusters w m xs" using False by (simp add: run_def Let_def)
    have "sorted (map fst xs)" using "2.prems"(1) by simp
    note IH = "2.IH"(2) [OF refl refl False [unfolded run_def] this "2.prems"(2)]
    then show ?thesis unfolding eq by (auto intro: cluster_ok_mono)
  qed
qed simp

lemma greedy_clusters_cover:
  assumes "sorted (map fst xs)" and "0 \<le> w" and "t \<in> fst ` set xs"
    and "m \<le> int (length (filter (\<lambda>y. t \<le> fst y \<and> fst y \<le> t + w) xs))"
  shows "\<exists>c\<in>set (greedy_clusters w m xs). fst (hd c) \<le> t \<and> t \<le> fst (last c)"
  using assms
proof (induction w m xs rule: greedy_clusters.induct)
  case (2 w m x xs)
  let ?near = "\<lambda>y. fst y \<le> fst x + w" and ?P = "\<lambda>y. t \<le> fst y \<and> fst y \<le> t + w"
  define run rest where "run = x # takeWhile ?near xs" and "rest = dropWhile ?near xs"
  note r = greedy_run [OF "2.prems"(1,2), folded run_def rest_def]
  have xt: "fst x \<le> t" using "2.prems"(1,3) by auto
  show ?case
  proof (cases "m \<le> int (length run)")
    case True
    have eq: "greedy_clusters w m (x # xs) = run # greedy_clusters w m rest"
      using True by (simp add: run_def rest_def Let_def)
    show ?thesis
    proof (cases "t \<le> fst (last run)")
      case True
      then show ?thesis using xt unfolding eq by (simp add: run_def)
    next
      case False
      have out: "\<not> t \<le> fst y" if "y \<in> set run" for y using r(6) [OF that] False by linarith
      have "filter ?P (x # xs) = filter ?P run @ filter ?P rest" unfolding r(1) by simp
      moreover have "filter ?P run = []" using out by (simp add: filter_empty_conv)
      ultimately have "m \<le> int (length (filter ?P rest))" using "2.prems"(4) by simp
      moreover have "t \<in> fst ` set rest" using "2.prems"(3) out unfolding r(1) by fastforce
      ultimately show ?thesis
        using "2.IH"(1) [OF refl refl True [unfolded run_def], folded rest_def, OF r(3) "2.prems"(2)] unfolding eq by simp
    qed
  next
    case False
    have eq: "greedy_clusters w m (x # xs) = greedy_clusters w m xs" using False by (simp add: run_def Let_def)
    have "filter ?near xs = takeWhile ?near xs" using takeWhile_filter_sorted [of xs] "2.prems"(1) by simp
    then have "filter (\<lambda>y. fst x \<le> fst y \<and> fst y \<le> fst x + w) (x # xs) = run"
      using "2.prems"(1,2) by (simp add: run_def cong: filter_cong)
    then have "t \<noteq> fst x" using "2.prems"(4) False by auto
    then have lt: "fst x < t" using xt by simp
    then have "m \<le> int (length (filter ?P xs))" "t \<in> fst ` set xs" using "2.prems"(3,4) by auto
    then show ?thesis
      using "2.IH"(2) [OF refl refl False [unfolded run_def]] "2.prems"(1,2) unfolding eq by simp
  qed
qed simp

text \<open>
  C26: With a window of non-negative length, clusters are disjoint in time and in order, each spans
  at most the window and holds at least the minimum of alarms, and no burst is missed: an alarm
  that starts a window with enough alarms in it lies inside a reported cluster.
\<close>

theorem alarm_clusters_complete:
  assumes "0 \<le> window_td sc" and "check_alarm_clustering isoparse sc charger events = Some cs"
    and "stamps = map fst (concat (map (alarm_time isoparse) events))"
  shows "sorted_wrt (\<lambda>c d. the (observation_window_end c) < the (observation_window_start d)) cs \<and>
    (\<forall>c\<in>set cs. \<exists>s e n. observation_window_start c = Some s \<and> observation_window_end c = Some e \<and>
       map observed_value (supporting_evidence c) = [Some (of_nat n)] \<and> alarm_cluster_min_count sc \<le> int n \<and>
       s \<in> set stamps \<and> e \<in> set stamps \<and> s \<le> e \<and> e \<le> s + window_td sc) \<and>
    (\<forall>t\<in>set stamps. alarm_cluster_min_count sc \<le> int (length (filter (\<lambda>u. t \<le> u \<and> u \<le> t + window_td sc) stamps)) \<longrightarrow>
       (\<exists>c\<in>set cs. the (observation_window_start c) \<le> t \<and> t \<le> the (observation_window_end c)))"
proof -
  let ?w = "window_td sc" and ?m = "alarm_cluster_min_count sc"
  define ts where "ts = concat (map (alarm_time isoparse) events)"
  define gs where "gs = greedy_clusters ?w ?m (sort_key fst ts)"
  have sorted: "sorted (map fst (sort_key fst ts))" by simp
  note ok = greedy_clusters_ok [OF sorted assms(1), of ?m, folded gs_def]
  have stamps: "stamps = map fst ts" by (simp add: assms(3) ts_def)
  have count: "length (filter (\<lambda>u. t \<le> u \<and> u \<le> t + ?w) stamps) =
      length (filter (\<lambda>y. t \<le> fst y \<and> fst y \<le> t + ?w) (sort_key fst ts))" for t
    using filter_length_mset [of "sort_key fst ts" ts] by (simp add: stamps filter_map comp_def)
  have cover: "\<exists>c\<in>set gs. fst (hd c) \<le> t \<and> t \<le> fst (last c)"
    if "t \<in> set stamps" "?m \<le> int (length (filter (\<lambda>u. t \<le> u \<and> u \<le> t + ?w) stamps))" for t
  proof -
    have "t \<in> fst ` set (sort_key fst ts)" using that(1) by (simp add: stamps)
    then show ?thesis unfolding gs_def by (rule greedy_clusters_cover [OF sorted assms(1) _ that(2) [unfolded count]])
  qed
  have short: "int (length (filter P stamps)) < ?m" if "int (length ts) < ?m" for P
    using that length_filter_le [of P stamps] by (simp only: stamps length_map)
  have cs: "cs = map (cluster_of sc charger) (if int (length ts) < ?m then [] else gs)"
  proof -
    have "length ts \<le> length events"
      unfolding ts_def by (induction events) (auto simp: alarm_time_def Let_def split: time_field.splits option.splits)
    then show ?thesis
      using assms(2) cluster_loop_greedy [OF assms(1), of 0 "sort_key fst ts" charger "[]"]
      by (auto simp: check_alarm_clustering_def Let_def ts_def [symmetric] gs_def split: if_splits)
  qed
  have fields: "observation_window_start (cluster_of sc charger g) = Some (fst (hd g))"
    "observation_window_end (cluster_of sc charger g) = Some (fst (last g))"
    "map observed_value (supporting_evidence (cluster_of sc charger g)) = [Some (of_nat (length g))]" for g
    by (simp_all add: cluster_of_def Let_def evidence_item_def)
  show ?thesis
  proof (intro conjI ballI impI)
    show "sorted_wrt (\<lambda>c d. the (observation_window_end c) < the (observation_window_start d)) cs"
      using ok unfolding cs by (simp add: sorted_wrt_map fields)
  next
    fix c assume "c \<in> set cs"
    then obtain g where g: "g \<in> set gs" "c = cluster_of sc charger g" unfolding cs by (auto split: if_splits)
    then have "g \<noteq> []" "set g \<subseteq> set ts" "?m \<le> int (length g)" "fst (hd g) \<le> fst (last g)" "fst (last g) \<le> fst (hd g) + ?w"
      using ok by (simp_all add: cluster_ok_def)
    then show "\<exists>s e n. observation_window_start c = Some s \<and> observation_window_end c = Some e \<and>
       map observed_value (supporting_evidence c) = [Some (of_nat n)] \<and> ?m \<le> int n \<and>
       s \<in> set stamps \<and> e \<in> set stamps \<and> s \<le> e \<and> e \<le> s + ?w"
      unfolding g(2) fields stamps set_map using hd_in_set [of g] last_in_set [of g] by blast
  next
    fix t assume t: "t \<in> set stamps" "?m \<le> int (length (filter (\<lambda>u. t \<le> u \<and> u \<le> t + ?w) stamps))"
    then have "\<not> int (length ts) < ?m"
      using short [of "\<lambda>u. t \<le> u \<and> u \<le> t + ?w"] by linarith
    then show "\<exists>c\<in>set cs. the (observation_window_start c) \<le> t \<and> t \<le> the (observation_window_end c)"
      using cover [OF t] unfolding cs by (simp add: fields)
  qed
qed

definition demo_alarm_events :: "alarm_event list" where
  "demo_alarm_events = map (\<lambda>(t, c). \<lparr>start_field = TimeStamp (t * 1000000), alarm_code = Some c\<rparr>)
     [(0, ''E1''), (60, ''E2''), (5000, ''E1''), (120, ''E3''), (9000, ''E9'')]"

theorem alarm_clusters_complete_witness:
  "\<exists>c. check_alarm_clustering (\<lambda>_. None) default_scanner ''C1'' demo_alarm_events = Some [c] \<and>
     the (observation_window_start c) \<le> 0 \<and> 0 \<le> the (observation_window_end c)"
proof -
  let ?r = "check_alarm_clustering (\<lambda>_. None) default_scanner ''C1'' demo_alarm_events"
  define stamps where "stamps = map fst (concat (map (alarm_time (\<lambda>_. None)) demo_alarm_events))"
  have "map_option length ?r = Some 1" by code_simp
  then obtain c where c: "?r = Some [c]" by (auto simp: length_Suc_conv)
  have w: "0 \<le> window_td default_scanner" by code_simp
  have "0 \<in> set stamps" "alarm_cluster_min_count default_scanner \<le>
      int (length (filter (\<lambda>u. 0 \<le> u \<and> u \<le> 0 + window_td default_scanner) stamps))"
    unfolding stamps_def by code_simp+
  then have "\<exists>d\<in>set [c]. the (observation_window_start d) \<le> 0 \<and> 0 \<le> the (observation_window_end d)"
    using conjunct2 [OF conjunct2 [OF alarm_clusters_complete [OF w c stamps_def]]] by blast
  then show ?thesis using c by simp
qed

section \<open>Thermal candidates\<close>

text \<open>Statistics computed by the platform always carry a standard deviation, so the scan of them does not raise.\<close>

lemma thermal_no_error:
  assumes "\<forall>s\<in>set stats. \<exists>sentinels name vs. s = compute_statistics sentinels name vs" and "s \<in> set stats"
  shows "\<exists>cs. check_thermal_drift sc charger name s fleet = Inr cs"
proof -
  obtain sentinels nm vs where s: "s = compute_statistics sentinels nm vs" using assms by blast
  show ?thesis
  proof (cases "finite_values sentinels vs = []")
    case True
    then show ?thesis using statistics_fields(9) [where sentinels = sentinels and vs = vs and name = nm]
      by (simp add: check_thermal_drift_def s)
  next
    case False
    then show ?thesis using statistics_fields(8) [where sentinels = sentinels and vs = vs and name = nm]
      by (simp add: check_thermal_drift_def s Let_def)
  qed
qed

end
