(* ===== verification/Research.thy ===== *)
theory Research
  imports Patterns
begin

text \<open>
  Fleet profiles and analytical datasets, \<open>pipelines/research/fleet_profiler.py\<close> and
  \<open>dataset_builder.py\<close>, with their value objects in \<open>pipelines/research/models.py\<close>.

  An observation is a dict from signal names to values. Build durations are left out.
  \<open>str\<close> of a value that is not text is the argument \<open>pystr\<close>, \<open>datetime.fromisoformat\<close> the
  argument \<open>isoparse\<close>. The event-centred dataset is not modelled.
\<close>

section \<open>Profiles\<close>

type_synonym observation = "(string, sig_value) pydict"

record charger_profile =
  cp_charger_id :: string
  cp_observation_count :: nat
  cp_first_seen :: "datetime option"
  cp_last_seen :: "datetime option"
  cp_distinct_timestamps :: nat
  connector_count :: nat
  smr_count :: nat
  rectifier_count :: nat
  session_count :: nat
  alarm_count :: nat
  fault_count :: nat
  cp_gap_count :: nat
  signal_coverage :: "(string, pyfloat) pydict"

record fleet_profile =
  total_chargers :: nat
  total_observations_of_fleet :: nat
  charger_profiles :: "charger_profile list"
  fleet_signal_stats :: "signal_statistics list"
  temporal_span_start :: "datetime option"
  temporal_span_end :: "datetime option"
  total_sessions :: nat
  total_alarms :: nat
  total_faults :: nat
  total_gaps :: nat
  fleet_missing_rate :: pyfloat

definition profile_skip_keys :: "string list" where
  "profile_skip_keys = [''event_time'', ''frame_sequence'', ''frame_id'', ''charger_id'']"

definition event_times_of :: "observation list \<Rightarrow> datetime list" where
  "event_times_of obs = concat (map (\<lambda>ob. case map_of ob ''event_time'' of Some (STime t) \<Rightarrow> [t] | _ \<Rightarrow> []) obs)"

definition earliest :: "datetime option \<Rightarrow> datetime \<Rightarrow> datetime option" where
  "earliest seen t = (case seen of None \<Rightarrow> Some t | Some s \<Rightarrow> if t < s then Some t else Some s)"

definition latest :: "datetime option \<Rightarrow> datetime \<Rightarrow> datetime option" where
  "latest seen t = (case seen of None \<Rightarrow> Some t | Some s \<Rightarrow> if t > s then Some t else Some s)"

definition signal_cells :: "observation list \<Rightarrow> (string \<times> sig_value) list" where
  "signal_cells obs = filter (\<lambda>(k, v). k \<notin> set profile_skip_keys) (concat obs)"

definition signal_total :: "observation list \<Rightarrow> (string, nat) pydict" where
  "signal_total obs = tally (map fst (signal_cells obs))"

definition signal_non_null :: "observation list \<Rightarrow> (string, nat) pydict" where
  "signal_non_null obs = tally (map fst (filter (\<lambda>(k, v). v \<noteq> SNull) (signal_cells obs)))"

definition coverage_of_signals :: "observation list \<Rightarrow> (string, pyfloat) pydict" where
  "coverage_of_signals obs =
     map (\<lambda>(sig, n). (sig, if n > 0 then of_nat (dict_get (signal_non_null obs) sig 0) / of_nat n else 0))
       (signal_total obs)"

definition build_charger_profile ::
    "string \<Rightarrow> observation list \<Rightarrow> nat \<Rightarrow> nat \<Rightarrow> nat \<Rightarrow> nat \<Rightarrow> nat \<Rightarrow> nat \<Rightarrow> nat \<Rightarrow> charger_profile" where
  "build_charger_profile charger obs sessions alarms faults gaps connectors smrs rectifiers =
     \<lparr>cp_charger_id = charger, cp_observation_count = length obs,
      cp_first_seen = foldl earliest None (event_times_of obs), cp_last_seen = foldl latest None (event_times_of obs),
      cp_distinct_timestamps = card (set (event_times_of obs)),
      connector_count = connectors, smr_count = smrs, rectifier_count = rectifiers,
      session_count = sessions, alarm_count = alarms, fault_count = faults, cp_gap_count = gaps,
      signal_coverage = coverage_of_signals obs\<rparr>"

text \<open>The fleet rebuilds null counts from the stored shares, \<open>int(cov * total)\<close>.\<close>

definition null_counts :: "charger_profile \<Rightarrow> int list" where
  "null_counts cp =
     map (\<lambda>(sig, cov). int (cp_observation_count cp) - py_int (cov * of_nat (cp_observation_count cp))) (signal_coverage cp)"

definition total_counts :: "charger_profile \<Rightarrow> int list" where
  "total_counts cp = map (\<lambda>_. int (cp_observation_count cp)) (signal_coverage cp)"

definition build_fleet_profile ::
    "pyfloat list \<Rightarrow> charger_profile list \<Rightarrow> (string, sig_value list) pydict \<Rightarrow> fleet_profile" where
  "build_fleet_profile sentinels cps fleet_values =
     (let nulls = sum_list (concat (map null_counts cps)); all = sum_list (concat (map total_counts cps))
      in \<lparr>total_chargers = length cps, total_observations_of_fleet = sum_list (map cp_observation_count cps),
          charger_profiles = cps,
          fleet_signal_stats = map (\<lambda>(name, vs). compute_statistics sentinels name vs) (sort_key fst fleet_values),
          temporal_span_start = foldl (\<lambda>a cp. case cp_first_seen cp of None \<Rightarrow> a | Some t \<Rightarrow> earliest a t) None cps,
          temporal_span_end = foldl (\<lambda>a cp. case cp_last_seen cp of None \<Rightarrow> a | Some t \<Rightarrow> latest a t) None cps,
          total_sessions = sum_list (map session_count cps), total_alarms = sum_list (map alarm_count cps),
          total_faults = sum_list (map fault_count cps), total_gaps = sum_list (map cp_gap_count cps),
          fleet_missing_rate = (if all > 0 then of_int nulls / of_int all else 0)\<rparr>)"

section \<open>Datasets\<close>

datatype feature = FRat "pyfloat option" | FReal "real option" | FNonFinite | FValue sig_value

record analytical_record =
  ar_grain :: analytical_grain
  ar_charger_id :: string
  ar_component_type :: "string option"
  ar_component_id :: sig_value
  window_start :: "datetime option"
  window_end :: "datetime option"
  features :: "(string, feature) pydict"
  ar_observation_count :: nat
  ar_has_gap :: bool
  ar_gap_count :: nat
  missing_signals :: "string list"
  quality_score :: pyfloat

record dataset_metadata =
  md_grain :: analytical_grain
  md_charger_id :: string
  record_count :: nat
  signal_count :: nat
  md_window_start :: "datetime option"
  md_window_end :: "datetime option"
  md_gap_count :: nat
  md_missing_rate :: pyfloat
  dataset_version :: string

record analytical_dataset =
  metadata :: dataset_metadata
  records :: "analytical_record list"

definition dataset_skip_keys :: "string list" where
  "dataset_skip_keys = [''event_time'', ''frame_sequence'', ''frame_id'', ''charger_id'', ''ocpp_id'']"

definition collect_signals :: "string list \<Rightarrow> observation list \<Rightarrow> (string, sig_value list) pydict" where
  "collect_signals skip obs =
     foldl (\<lambda>d (k, v). if k \<in> set skip then d else append_at d k v) [] (concat obs)"

definition signal_features :: "signal_statistics \<Rightarrow> string \<Rightarrow> (string \<times> feature) list" where
  "signal_features st sig =
     [(sig @ ''_mean'', FRat (mean st)), (sig @ ''_std'', FReal (std st)), (sig @ ''_min'', FRat (min_val st)),
      (sig @ ''_max'', FRat (max_val st)), (sig @ ''_p50'', FRat (p50 st)),
      (sig @ ''_missing_rate'', FRat (Some (missing_rate st)))]"

definition overlaps_window :: "datetime option \<Rightarrow> datetime option \<Rightarrow> datetime \<times> datetime \<Rightarrow> bool" where
  "overlaps_window ws we = (\<lambda>(gs, ge).
     (case (ws, we) of (Some s, Some e) \<Rightarrow> \<not> (ge \<le> s \<or> gs \<ge> e) | _ \<Rightarrow> False))"

definition assign_all :: "(string, feature) pydict \<Rightarrow> (string \<times> feature) list \<Rightarrow> (string, feature) pydict" where
  "assign_all d kvs = foldl (\<lambda>d (k, v). AList.update k v d) d kvs"

definition empty_metadata :: "analytical_grain \<Rightarrow> string \<Rightarrow> dataset_metadata" where
  "empty_metadata g charger =
     \<lparr>md_grain = g, md_charger_id = charger, record_count = 0, signal_count = 0, md_window_start = None,
      md_window_end = None, md_gap_count = 0, md_missing_rate = 0, dataset_version = ''v1''\<rparr>"

definition build_charger_time_dataset ::
    "pyfloat list \<Rightarrow> string \<Rightarrow> observation list \<Rightarrow> (datetime \<times> datetime) list \<Rightarrow> analytical_dataset" where
  "build_charger_time_dataset sentinels charger obs gaps =
     (if obs = [] then \<lparr>metadata = empty_metadata CHARGER_TIME charger, records = []\<rparr>
      else
        (let signals = collect_signals dataset_skip_keys obs; stamps = event_times_of obs;
             ws = (if stamps = [] then None else Some (Min (set stamps)));
             we = (if stamps = [] then None else Some (Max (set stamps)));
             gap_count = length (filter (overlaps_window ws we) gaps);
             missing = map fst (filter (\<lambda>(sig, vals). \<forall>v\<in>set vals. v = SNull) signals);
             share = of_nat (length missing) / of_nat (max (length signals) 1)
         in \<lparr>metadata = (empty_metadata CHARGER_TIME charger)\<lparr>record_count := 1, signal_count := length signals,
               md_window_start := ws, md_window_end := we, md_gap_count := gap_count, md_missing_rate := share\<rparr>,
             records = [\<lparr>ar_grain = CHARGER_TIME, ar_charger_id = charger, ar_component_type = None,
               ar_component_id = SNull, window_start = ws, window_end = we,
               features = assign_all [] (concat (map (\<lambda>(sig, vals).
                 signal_features (compute_statistics sentinels sig vals) sig) signals)),
               ar_observation_count = length obs, ar_has_gap = (gap_count > 0), ar_gap_count = gap_count,
               missing_signals = missing, quality_score = 1 - share\<rparr>]\<rparr>))"

fun truthy :: "sig_value \<Rightarrow> bool" where
  "truthy SNull = False"
| "truthy (SFloat x) = (x \<noteq> 0)"
| "truthy (SBool b) = b"
| "truthy (SText s) = (s \<noteq> [])"
| "truthy v = True"

text \<open>\<open>isinstance(v, (int, float))\<close> holds of NaN too.\<close>

fun int_or_float :: "sig_value \<Rightarrow> bool" where
  "int_or_float (SNaN i) = True"
| "int_or_float v = is_number v"

definition soc_delta :: "sig_value \<Rightarrow> sig_value \<Rightarrow> feature" where
  "soc_delta start stop =
     (if int_or_float start \<and> int_or_float stop then
        (case (float_of start, float_of stop) of (Finite a, Finite b) \<Rightarrow> FRat (Some (b - a)) | _ \<Rightarrow> FNonFinite)
      else FRat None)"

definition kwh_per_minute :: "sig_value \<Rightarrow> sig_value \<Rightarrow> feature" where
  "kwh_per_minute energy duration =
     (if int_or_float energy \<and> int_or_float duration then
        (case float_of duration of
           Finite d \<Rightarrow>
             if d > 0 then (case float_of energy of Finite e \<Rightarrow> FRat (Some (e / (d / 60))) | _ \<Rightarrow> FNonFinite) else FRat None
         | _ \<Rightarrow>
             if duration = SInf True then (case float_of energy of Finite e \<Rightarrow> FRat (Some 0) | _ \<Rightarrow> FNonFinite)
             else FRat None)
      else FRat None)"

definition confidence_to_score :: "(sig_value \<Rightarrow> string) \<Rightarrow> sig_value \<Rightarrow> pyfloat" where
  "confidence_to_score pystr v =
     (if truthy v then
        dict_get [(''HIGH'', 1), (''MEDIUM'', 7 / 10), (''LOW'', 4 / 10)] (case v of SText s \<Rightarrow> s | _ \<Rightarrow> pystr v) (5 / 10)
      else 5 / 10)"

definition as_datetime :: "(string \<Rightarrow> datetime option) \<Rightarrow> sig_value \<Rightarrow> datetime option" where
  "as_datetime isoparse v = (case v of STime t \<Rightarrow> Some t | SText s \<Rightarrow> isoparse s | _ \<Rightarrow> None)"

definition session_features ::
    "(sig_value \<Rightarrow> string) \<Rightarrow> (string, observation list) pydict \<Rightarrow> observation \<Rightarrow> (string, feature) pydict" where
  "session_features pystr pre sess =
     (let get = (\<lambda>k. dict_get sess k SNull); sid = get ''session_id'';
          base = map (\<lambda>k. (k, FValue (get k)))
              [''energy_delivered_kwh'', ''duration_seconds'', ''start_soc'', ''end_soc'', ''connector_id'',
               ''stop_reason'', ''termination_class'', ''confidence''] @
            [(''has_gap'', FValue (dict_get sess ''has_gap'' (SBool False))),
             (''soc_delta'', soc_delta (get ''start_soc'') (get ''end_soc'')),
             (''kwh_per_minute'', kwh_per_minute (get ''energy_delivered_kwh'') (get ''duration_seconds''))];
          pre_obs = (if truthy sid then dict_get pre (case sid of SText s \<Rightarrow> s | _ \<Rightarrow> pystr sid) [] else [])
      in assign_all base (map (\<lambda>(k, v). (''pre_session_'' @ k, FValue v))
           (filter (\<lambda>(k, v). k \<notin> set profile_skip_keys) (concat pre_obs))))"

definition session_record ::
    "(string \<Rightarrow> datetime option) \<Rightarrow> (sig_value \<Rightarrow> string) \<Rightarrow> string \<Rightarrow> (string, observation list) pydict
     \<Rightarrow> observation \<Rightarrow> analytical_record" where
  "session_record isoparse pystr charger pre sess =
     (let get = (\<lambda>k. dict_get sess k SNull); gap = truthy (dict_get sess ''has_gap'' (SBool False))
      in \<lparr>ar_grain = SESSION_LEVEL, ar_charger_id = charger, ar_component_type = Some ''connector'',
          ar_component_id = get ''connector_id'',
          window_start = as_datetime isoparse (get ''start_time''), window_end = as_datetime isoparse (get ''end_time''),
          features = session_features pystr pre sess, ar_observation_count = 1, ar_has_gap = gap,
          ar_gap_count = (if gap then 1 else 0), missing_signals = [],
          quality_score = confidence_to_score pystr (get ''confidence'')\<rparr>)"

definition build_session_level_dataset ::
    "(string \<Rightarrow> datetime option) \<Rightarrow> (sig_value \<Rightarrow> string) \<Rightarrow> string \<Rightarrow> observation list
     \<Rightarrow> (string, observation list) pydict \<Rightarrow> analytical_dataset" where
  "build_session_level_dataset isoparse pystr charger sessions pre =
     \<lparr>metadata = (empty_metadata SESSION_LEVEL charger)\<lparr>record_count := length sessions\<rparr>,
      records = map (session_record isoparse pystr charger pre) sessions\<rparr>"

section \<open>The missing rate of a fleet\<close>

text \<open>Every observation of a charger lists the same signals once.\<close>

definition uniform :: "observation list \<Rightarrow> bool" where
  "uniform obs =
     (\<exists>keys. \<forall>ob\<in>set obs. distinct (dict_keys ob) \<and> set (dict_keys ob) - set profile_skip_keys = keys)"

lemma cells_Cons: "signal_cells (ob # obs) = filter (\<lambda>(k, v). k \<notin> set profile_skip_keys) ob @ signal_cells obs"
  by (simp add: signal_cells_def)

lemma uniform_total:
  assumes "\<forall>ob\<in>set obs. distinct (dict_keys ob) \<and> set (dict_keys ob) - set profile_skip_keys = keys" and "k \<in> keys"
  shows "count_list (map fst (signal_cells obs)) k = length obs"
  using assms(1)
proof (induction obs)
  case (Cons ob obs)
  have "k \<in> set (map fst (filter (\<lambda>(k, v). k \<notin> set profile_skip_keys) ob))"
    using Cons.prems assms(2) by force
  moreover have "distinct (map fst (filter (\<lambda>(k, v). k \<notin> set profile_skip_keys) ob))"
    using Cons.prems by (simp add: distinct_map_filter)
  ultimately have "count_list (map fst (filter (\<lambda>(k, v). k \<notin> set profile_skip_keys) ob)) k = 1"
    by (simp add: count_list_distinct)
  then show ?case using Cons by (simp add: cells_Cons)
qed (simp add: signal_cells_def)

lemma tally_sum: "sum_list (map (\<lambda>(k, n). f k n) (tally xs)) = (\<Sum>k\<in>set xs. f k (count_list xs k))"
proof -
  have "snd q = count_list xs (fst q)" if "q \<in> set (tally xs)" for q
  proof -
    have "map_of (tally xs) (fst q) = Some (snd q)" using that by (simp add: tally_distinct)
    then show ?thesis using tally_get [of xs "fst q"] by (simp add: dict_get_def)
  qed
  then have "map (\<lambda>(k, n). f k n) (tally xs) = map (\<lambda>k. f k (count_list xs k)) (map fst (tally xs))"
    by (simp add: case_prod_beta')
  also have "sum_list \<dots> = (\<Sum>k\<in>set (map fst (tally xs)). f k (count_list xs k))"
    by (rule sum_list_distinct_conv_sum_set) (rule tally_distinct)
  finally show ?thesis by (simp only: tally_keys)
qed

lemma py_int_of_nat: "py_int (of_nat n) = int n"
  by (simp add: py_int_def)

lemma uniform_counts:
  assumes "uniform obs" and "signal_coverage cp = coverage_of_signals obs" and "cp_observation_count cp = length obs"
  shows "sum_list (total_counts cp) = int (length (signal_cells obs))"
    and "sum_list (null_counts cp) = int (length (filter (\<lambda>(k, v). v = SNull) (signal_cells obs)))"
proof -
  obtain keys where keys: "\<forall>ob\<in>set obs. distinct (dict_keys ob) \<and> set (dict_keys ob) - set profile_skip_keys = keys"
    using assms(1) by (auto simp: uniform_def)
  let ?all = "map fst (signal_cells obs)" and ?nn = "map fst (filter (\<lambda>(k, v). v \<noteq> SNull) (signal_cells obs))"
  have mem: "count_list ?all k = length obs" if "k \<in> set ?all" for k
  proof (rule uniform_total [OF keys])
    show "k \<in> keys" using that keys by (auto simp: signal_cells_def)
  qed
  have pos: "0 < length obs" if "k \<in> set ?all" for k using that by (cases obs) (auto simp: signal_cells_def)
  have all: "(\<Sum>k\<in>set ?all. int (length obs)) = int (length (signal_cells obs))"
  proof -
    have "(\<Sum>k\<in>set ?all. int (length obs)) = int (\<Sum>k\<in>set ?all. count_list ?all k)"
      by (simp only: of_nat_sum) (intro sum.cong refl, simp add: mem)
    also have "(\<Sum>k\<in>set ?all. count_list ?all k) = length ?all" by (rule sum_count_set) simp_all
    finally show ?thesis by simp
  qed
  have nn: "(\<Sum>k\<in>set ?all. int (count_list ?nn k)) = int (length ?nn)"
    using sum_count_set [of ?nn "set ?all"] by (auto simp flip: of_nat_sum)
  have cov: "signal_coverage cp = map (\<lambda>(sig, n). (sig, if n > 0 then of_nat (count_list ?nn sig) / of_nat n else 0)) (tally ?all)"
    unfolding assms(2) coverage_of_signals_def signal_total_def signal_non_null_def tally_get by (rule refl)
  show "sum_list (total_counts cp) = int (length (signal_cells obs))"
    using tally_sum [of "\<lambda>_ _. int (length obs)" ?all]
    by (simp only: total_counts_def cov assms(3) map_map comp_def case_prod_beta' all)
  have "sum_list (null_counts cp) = sum_list (map (\<lambda>(k, n). int (length obs) -
      py_int ((if n > 0 then of_nat (count_list ?nn k) / of_nat n else 0) * of_nat (length obs))) (tally ?all))"
    by (simp only: null_counts_def cov assms(3) map_map comp_def case_prod_beta' fst_conv snd_conv)
  also have "\<dots> = (\<Sum>k\<in>set ?all. int (length obs) - int (count_list ?nn k))"
    unfolding tally_sum
  proof (intro sum.cong refl)
    fix k assume k: "k \<in> set ?all"
    show "int (length obs) - py_int ((if count_list ?all k > 0 then of_nat (count_list ?nn k) / of_nat (count_list ?all k) else 0)
        * of_nat (length obs)) = int (length obs) - int (count_list ?nn k)"
      unfolding mem [OF k] using pos [OF k] by (simp only: if_True nonzero_eq_divide_eq times_divide_eq_left)
        (simp add: py_int_of_nat)
  qed
  also have "\<dots> = int (length (signal_cells obs)) - int (length ?nn)" by (simp only: sum_subtractf all nn)
  also have "\<dots> = int (length (filter (\<lambda>(k, v). v = SNull) (signal_cells obs)))"
    using sum_length_filter_compl [of "\<lambda>(k, v). v = SNull" "signal_cells obs"] by (simp add: case_prod_beta')
  finally show "sum_list (null_counts cp) = int (length (filter (\<lambda>(k, v). v = SNull) (signal_cells obs)))" .
qed

text \<open>
  When every observation of a charger lists the same signals, the missing rate of the fleet,
  rebuilt from the shares stored in the profiles, is exactly the share of null cells among all
  cells of the fleet.
\<close>

theorem fleet_missing_rate_exact:
  assumes "\<forall>(charger, obs)\<in>set fleet. uniform obs" and "concat (map (signal_cells \<circ> snd) fleet) \<noteq> []"
    and "cps = map (\<lambda>(charger, obs). build_charger_profile charger obs 0 0 0 0 0 0 0) fleet"
    and "cells = concat (map (signal_cells \<circ> snd) fleet)"
  shows "fleet_missing_rate (build_fleet_profile sentinels cps values) =
    of_nat (length (filter (\<lambda>(k, v). v = SNull) cells)) / of_nat (length cells)"
proof -
  have sums: "sum_list (concat (map total_counts (map (\<lambda>(charger, obs). build_charger_profile charger obs 0 0 0 0 0 0 0) fs))) =
        int (length (concat (map (signal_cells \<circ> snd) fs))) \<and>
    sum_list (concat (map null_counts (map (\<lambda>(charger, obs). build_charger_profile charger obs 0 0 0 0 0 0 0) fs))) =
        int (length (filter (\<lambda>(k, v). v = SNull) (concat (map (signal_cells \<circ> snd) fs))))"
    if "\<forall>(charger, obs)\<in>set fs. uniform obs" for fs
    using that
  proof (induction fs)
    case (Cons f fs)
    obtain charger obs where f: "f = (charger, obs)" by (cases f)
    have "uniform obs" using Cons.prems by (simp add: f)
    note c = uniform_counts [OF this, of "build_charger_profile charger obs 0 0 0 0 0 0 0"]
    have "signal_coverage (build_charger_profile charger obs 0 0 0 0 0 0 0) = coverage_of_signals obs"
      "cp_observation_count (build_charger_profile charger obs 0 0 0 0 0 0 0) = length obs"
      by (simp_all add: build_charger_profile_def)
    then show ?case using Cons c by (simp add: f)
  qed simp
  have "0 < length cells" using assms(2) unfolding assms(4) by blast
  then show ?thesis
    using sums [OF assms(1)] by (simp only: build_fleet_profile_def Let_def assms(3,4) fleet_profile.simps) simp
qed

theorem fleet_missing_rate_exact_witness:
  "fleet_missing_rate (build_fleet_profile DEFAULT_SENTINELS
     [build_charger_profile ''C1'' [[(''v'', SFloat 230), (''t'', SNull)], [(''v'', SNull), (''t'', SFloat 30)]] 0 0 0 0 0 0 0] []) = 1 / 2"
proof -
  let ?obs = "[[(''v'', SFloat 230), (''t'', SNull)], [(''v'', SNull), (''t'', SFloat 30)]]"
  have u: "uniform ?obs" unfolding uniform_def by (rule exI [of _ "{''v'', ''t''}"]) (auto simp: profile_skip_keys_def)
  have c: "concat (map (signal_cells \<circ> snd) [(''C1'', ?obs)]) = [(''v'', SFloat 230), (''t'', SNull), (''v'', SNull), (''t'', SFloat 30)]"
    by (simp add: signal_cells_def profile_skip_keys_def)
  show ?thesis
    using fleet_missing_rate_exact [of "[(''C1'', ?obs)]", OF _ _ refl refl, of DEFAULT_SENTINELS "[]"] u
    unfolding c by simp
qed

end
