(* ===== verification/Spec2Isabelle.thy ===== *)
theory Spec2Isabelle
  imports Ingestion SilverTables Lifecycle Reconstruction FileDay Transitions Alarms Sessions DailyRules Historical Research
begin

text \<open>
  A verification library for the charger telemetry platform (\<open>src/pipelines\<close> and the parts of
  \<open>src/backend/app\<close> they rest on). A daily CSV file of a charger is profiled, its header and
  timestamps are interpreted, its rows are reconstructed into frames, its days are measured for
  coverage, its quality is scored; later stages detect events, sessions and alarms over the
  normalized observations and compute historical and research statistics. Every stage is a
  deterministic function of its inputs; the theories give it as one, definition for definition,
  and prove what the stage promises.

  \<^bold>\<open>Ingestion and profiling.\<close>
  \<^item> \<open>Prelude\<close>: insertion-ordered dicts as association lists, rounding, strings, exceptions as sums,
    and the locale \<open>history_fold\<close> (a loop whose state carries an invariant of the elements read so
    far), interpreted for every accumulating loop below.
  \<^item> \<open>Enums\<close>: the persisted enumerations (\<open>models/enums.py\<close>).
  \<^item> \<open>Lifecycle\<close>: the file status machine (\<open>ingestion/state_machine.py\<close>) as a table, a guard and a
    step relation; the locale \<open>gated_region\<close> gives which states a file must have passed.
  \<^item> \<open>Headers\<close>: canonical names, occurrences and fingerprint of a header row
    (\<open>profiling/header_parser.py\<close>).
  \<^item> \<open>EventTime\<close>: choice of the timestamp format, business dates, event times per row, dates in file
    names (\<open>profiling/event_time.py\<close>).
  \<^item> \<open>ColumnRoles\<close>, \<open>Profile\<close>: structural columns and the assembled file profile
    (\<open>profiling/column_roles.py\<close>, \<open>profiling/profiler.py\<close>).
  \<^item> \<open>Ingestion\<close>: admission, registration, analysis and runs over a catalogue of files and schema
    versions, with the error handlers (\<open>services/ingestion_service.py\<close>, \<open>services/quality_service.py\<close>); the
    inductive relation \<open>delivered\<close> says what one delivery does to the catalogue.
  \<^item> \<open>FileDay\<close>: a file split by local date into persisted second offsets and back
    (\<open>ingestion/file_day.py\<close>).
  \<^item> \<open>Coverage\<close>: policy, gaps and the evaluation of one charger-day over all its files
    (\<open>ingestion/coverage.py\<close>).

  \<^bold>\<open>Frame reconstruction\<close> (\<open>frame_reconstruction/\<close>).
  \<^item> \<open>FrameModel\<close>: positions, row references, frames (\<open>models.py\<close>).
  \<^item> \<open>Serializer\<close>: canonical cell text with Python's \<open>Decimal\<close> arithmetic, row and frame fingerprints
    (\<open>canonical_serializer.py\<close>).
  \<^item> \<open>LogicalKeys\<close>: the pass that files rows under charger, instant and position
    (\<open>logical_keys.py\<close>).
  \<^item> \<open>Topology\<close>: expected positions by declaration, observation or default (\<open>topology.py\<close>).
  \<^item> \<open>FrameBuilder\<close>: timestamp groups sliced into frame candidates (\<open>timestamp_groups.py\<close>,
    \<open>frame_builder.py\<close>).
  \<^item> \<open>Replay\<close>: duplicate and replay classification, refining a specification over payloads
    (\<open>replay_detector.py\<close>).
  \<^item> \<open>Reconstruction\<close>: the whole pass of a file and its metrics (\<open>reconstruction_service.py\<close>,
    \<open>diagnostics.py\<close>).

  \<^bold>\<open>Quality.\<close>
  \<^item> \<open>Quality\<close>: findings, contained rules and the five-dimensional score (\<open>quality/base.py\<close>,
    \<open>quality/scoring.py\<close>).
  \<^item> \<open>DailyRules\<close>: the charger-day rules (\<open>quality/daily_rules.py\<close>).
  \<^item> \<open>FileRules\<close>: the sixteen rules of a file and the default registry (\<open>quality/rules.py\<close>).

  \<^bold>\<open>Dictionary and schema.\<close>
  \<^item> \<open>FieldEnums\<close>, \<open>FieldSpec\<close>: the enumerations of the field dictionary, a field definition and the
    unit registry (\<open>models/enums.py\<close>, \<open>validation/dictionary.py\<close>).
  \<^item> \<open>Classifier\<close>: the keyword classification of an undocumented column
    (\<open>validation/classifier.py\<close>).
  \<^item> \<open>Dictionary\<close>: loading, validation and the four resolution levels, and the coverage report
    (\<open>validation/dictionary.py\<close>, \<open>validation/coverage.py\<close>).
  \<^item> \<open>Compatibility\<close>: comparing a header with a registered version, and the registry of versions
    (\<open>validation/compatibility.py\<close>, \<open>services/schema_service.py\<close>).

  \<^bold>\<open>Normalization\<close> (the Silver layer).
  \<^item> \<open>Coercion\<close>: typed values of a cell text, with the IEEE rounding of a parsed numeral, and the
    temperature sentinels (\<open>normalization/coercion.py\<close>).
  \<^item> \<open>Payload\<close>: the rows of a frame resolved into sections, conflicts and sentinels
    (\<open>normalization/payload_resolver.py\<close>).
  \<^item> \<open>SilverModels\<close>, \<open>Migration\<close>: the thirteen tables as declared (\<open>models/silver_telemetry.py\<close>, named by
    the convention of \<open>db/base.py\<close>) and as created (\<open>alembic/versions/84fce8cc3d03\<close>), which agree.
  \<^item> \<open>Silver\<close>: records and provenance of a frame, and the normalization of a file over an explicit
    store (\<open>normalization/normalizers.py\<close>, \<open>services/normalization_service.py\<close>). A frame with a recorded
    conflict raises: the code gives the constructor of \<open>DataQualityIssue\<close> a keyword the model class does
    not have, and the constructor of SQLAlchemy rejects it, as its documentation says.
  \<^item> \<open>SilverTables\<close>: the records of \<open>Silver\<close> against the tables of \<open>Migration\<close>.

  \<^bold>\<open>Events, history, research.\<close>
  \<^item> \<open>Transitions\<close>, \<open>Alarms\<close>, \<open>Sessions\<close>: the event models and detectors (\<open>events/\<close>).
  \<^item> \<open>Historical\<close>: sampling statistics, gaps, eligibility, counters, component presence
    (\<open>historical/\<close>).
  \<^item> \<open>Signals\<close>, \<open>Patterns\<close>, \<open>Research\<close>: statistics and correlations, pattern detectors, fleet
    profiles and datasets (\<open>research/\<close>).

  \<^bold>\<open>How the model corresponds to the code.\<close> A dataclass is a record, a \<open>StrEnum\<close> a datatype, a dict
  the association list of its insertion order, an exception an \<open>Inl\<close>. Class methods and
  properties are functions on the record; a loop over a sequence is a \<open>foldl\<close> of a step function
  on the loop's local variables, so that an invariant of the step is an invariant of the loop.
  Aware \<open>datetime\<close>s are microseconds since the epoch and \<open>date\<close>s are days. Floats are exact
  rationals, rounding is written out (half to even); square roots, powers and the values of a
  correlation are reals. \<open>Coercion\<close> alone models the rounding of \<open>float(text)\<close> to binary64, with
  infinities and NaN but one zero. Text is ASCII (Latin-1 where a source constant needs it). The wording of
  messages and free-form detail mappings is left out where nothing computes with it.

  \<^bold>\<open>Parameters.\<close> What the code calls and does not define is an argument: the digest
  (\<open>hashlib.sha256\<close>; theorems that need distinct digests assume it injective and have a witness
  with an injective one), the zone database (a zone for a name, for which \<open>EventTime\<close> gives the zones that
  a table of transitions describes, repeated and skipped hours included), ISO formatting and parsing of
  instants, the Polars operations on a column, the regular expressions and files of the
  dictionary, and \<open>str\<close> of composite values.

  \<^bold>\<open>What the lemmas show.\<close> Reconstruction: rows are conserved, slices partition a timestamp group, the
  classification implements its payload specification, canonical frames keep every reading,
  order, metrics and status mean what they are named after; one bad cell aborts a file. Coverage:
  it depends on the set of in-day instants only, is bounded, monotone in the files, accounts for
  the whole day; persisting a day as second offsets keeps its readings unless they fall in a repeated hour. Headers: canonical names are unique identifiers.
  Serializer: equal numbers have equal text. Lifecycle: which states precede a normalized file. Ingestion, for a
  source that accepts the acknowledgements: every file has a legal life, a ready file is sound, the same
  delivery twice is one file; in any run the counters partition its files.
  Events: alarms are disjoint and cover activity, sessions are well-formed and activity is
  reported, transitions replay the state. Quality: scores are bounded weighted means, findings
  never raise a dimension, a failing rule costs only itself, a missing required field caps the score. Dictionary:
  resolution is complete and curated definitions resolve to themselves; schema versions are
  registered once, and drift is judged against the newest one. Normalization: no value is fabricated, each
  stored value is traced to its provenance and has a column in its table, a repeated run changes nothing, and
  a file is normalized exactly when no frame has a conflict or an unreadable temperature. Research: ranks and correlations agree with their
  definitions, clusters are complete.

  \<^bold>\<open>Termination and bounds.\<close> There is no fuel. Loops that are not structural have a measure:
  \<open>free_suffix\<close> the taken names not yet passed, \<open>strip_zeros\<close> the coefficient, \<open>tie_end\<close> and
  \<open>rank_loop\<close> the rest of the list, \<open>window_stop\<close> likewise. The clustering loop can run forever, so it
  is a \<open>partial_function\<close>, with the exact condition under which it ends. Frame groups are bounded by
  the code's own limit of frames per timestamp, which the theorems take as a hypothesis and
  whose violation is a theorem of its own.

  \<^bold>\<open>Not modelled.\<close>
  \<^item> The database layer (\<open>backend/app/models\<close> other than the enumerations and the Silver tables, \<open>db\<close>,
    \<open>repositories\<close>, the other migrations): table definitions and SQL queries, whose meaning is the
    database's. Where a service depends on a query the store is an explicit value. Of the unique
    constraints, those of the Silver tables are compared with the records, and those of the stored fields are
    the predicate \<open>storable\<close>: \<open>register_header\<close> raises for a header that violates them, which costs the
    transaction of the whole run, and \<open>Ingestion\<close> models the runs in which no header does.
  \<^item> The HTTP layer (\<open>backend/app/api\<close>, \<open>schemas\<close>, \<open>main.py\<close>, \<open>core/logging.py\<close>) and the services that
    only read through repositories, call the modelled pipelines and write back
    (\<open>history_service\<close>, \<open>frame_service\<close>, \<open>event_service\<close>, \<open>research_service\<close>, \<open>coverage_service\<close>,
    \<open>upload_service\<close>): input and output.
  \<^item> Acquisition and storage (\<open>sources/\<close>, \<open>persistence/storage.py\<close>) and the command lines
    (\<open>__main__.py\<close>): file system effects.
  \<^item> The Polars expressions of the profiler and of the event-time column, which are library calls
    over whole frames; their results are parameters.
  \<^item> The frontend, the tests and the infrastructure files.
\<close>

end
